(* ===== verification/Conductor_Prelude.thy ===== *)
theory Conductor_Prelude
  imports Main "HOL-Library.AList" "HOL-Library.Char_ord" "HOL-Library.List_Lexorder"
begin

text \<open>
  Shared vocabulary of the development: the Python notions the modelled modules
  use (results of fallible calls, string stripping, insertion-ordered
  dictionaries) and the generic lemmas on them.

  A Python \<^verbatim>\<open>str\<close> is a \<^typ>\<open>string\<close> whose characters are its code points (the
  model covers the code points below 256); \<^verbatim>\<open>len\<close> is \<^const>\<open>length\<close>, and Python's
  comparison by code point is the lexicographic order of \<^verbatim>\<open>List_Lexorder\<close> over
  \<^verbatim>\<open>Char_ord\<close>. A Python \<^verbatim>\<open>dict\<close> is an association list in insertion order:
  \<^verbatim>\<open>d[k] = v\<close> is \<^verbatim>\<open>AList.update\<close> (in place for a known key, at the end for a new
  one), \<^verbatim>\<open>d.get(k)\<close> is \<^verbatim>\<open>map_of\<close>, \<^verbatim>\<open>d.pop(k, None)\<close> is \<^verbatim>\<open>AList.delete\<close>.
  A call that may raise returns a value of a sum type, \<^verbatim>\<open>Inl\<close> the exception.
\<close>

named_theorems guard_defs "definitions of the argument checks of the modelled constructors"
named_theorems step_defs "definitions of the store and service operations"
named_theorems inv_defs "definitions of the invariants of the components"

type_synonym 'v dict = "(string \<times> 'v) list"

section \<open>Results of fallible calls\<close>

primrec res_bind :: "'e + 'a \<Rightarrow> ('a \<Rightarrow> 'e + 'b) \<Rightarrow> 'e + 'b" where
  "res_bind (Inl e) f = Inl e"
| "res_bind (Inr x) f = f x"

definition guard_that :: "bool \<Rightarrow> 'e \<Rightarrow> 'e + unit" where
  "guard_that ok e = (if ok then Inr () else Inl e)"

fun res_fold :: "('a \<Rightarrow> 's \<Rightarrow> 'e + 's) \<Rightarrow> 'a list \<Rightarrow> 's \<Rightarrow> 'e + 's" where
  "res_fold f [] s = Inr s"
| "res_fold f (x # xs) s = (case f x s of Inl e \<Rightarrow> Inl e | Inr s' \<Rightarrow> res_fold f xs s')"

lemma res_bind_Inr_iff [simp]:
  "res_bind r f = Inr y \<longleftrightarrow> (\<exists>x. r = Inr x \<and> f x = Inr y)"
  by (cases r) auto

lemma res_bind_Inl_iff [simp]:
  "res_bind r f = Inl e \<longleftrightarrow> r = Inl e \<or> (\<exists>x. r = Inr x \<and> f x = Inl e)"
  by (cases r) auto

lemma guard_that_Inr [simp]: "guard_that ok e = Inr u \<longleftrightarrow> ok"
  by (simp add: guard_that_def)

lemma guard_that_Inl [simp]: "guard_that ok e = Inl e' \<longleftrightarrow> \<not> ok \<and> e' = e"
  by (auto simp: guard_that_def)

lemma guard_that_simps [simp]: "guard_that True e = Inr ()" "guard_that False e = Inl e"
  by (simp_all add: guard_that_def)

text \<open>An invariant every single step keeps is kept by the loop over all items.\<close>

lemma res_fold_invariant:
  assumes "res_fold f xs s = Inr s'" and "P s"
    and "\<And>x s s'. x \<in> set xs \<Longrightarrow> P s \<Longrightarrow> f x s = Inr s' \<Longrightarrow> P s'"
  shows "P s'"
  using assms
proof (induction xs arbitrary: s)
  case Nil
  then show ?case by simp
next
  case (Cons x xs)
  from Cons.prems(1) obtain s1 where s1: "f x s = Inr s1" "res_fold f xs s1 = Inr s'"
    by (auto split: sum.splits)
  have "P s1" using Cons.prems(3)[of x s s1] Cons.prems(2) s1(1) by simp
  moreover have "\<And>y t t'. y \<in> set xs \<Longrightarrow> P t \<Longrightarrow> f y t = Inr t' \<Longrightarrow> P t'"
    by (rule Cons.prems(3)) auto
  ultimately show ?case by (rule Cons.IH[OF s1(2)])
qed

section \<open>Strings\<close>

text \<open>\<^verbatim>\<open>str.isspace\<close> on the code points below 256.\<close>

definition py_isspace :: "char \<Rightarrow> bool" where
  "py_isspace c = (let n = (of_char c :: nat) in
     (9 \<le> n \<and> n \<le> 13) \<or> (28 \<le> n \<and> n \<le> 32) \<or> n = 133 \<or> n = 160)"

definition py_lstrip :: "string \<Rightarrow> string" where
  "py_lstrip s = dropWhile py_isspace s"

definition py_strip :: "string \<Rightarrow> string" where
  "py_strip s = rev (py_lstrip (rev (py_lstrip s)))"

definition blank :: "string \<Rightarrow> bool" where
  "blank s = (py_strip s = [])"

lemma blank_iff: "blank s \<longleftrightarrow> (\<forall>c \<in> set s. py_isspace c)"
proof -
  have "py_strip s = [] \<longleftrightarrow> (\<forall>c \<in> set (dropWhile py_isspace s). py_isspace c)"
    by (simp add: py_strip_def py_lstrip_def)
  also have "\<dots> \<longleftrightarrow> (\<forall>c \<in> set s. py_isspace c)"
    by (induction s) auto
  finally show ?thesis by (simp add: blank_def)
qed

lemma blank_Nil [simp]: "blank []"
  by (simp add: blank_iff)

lemma dropWhile_no_op: "xs \<noteq> [] \<Longrightarrow> \<not> P (hd xs) \<Longrightarrow> dropWhile P xs = xs"
  by (cases xs) auto

lemma last_dropWhile: "dropWhile P xs \<noteq> [] \<Longrightarrow> last (dropWhile P xs) = last xs"
  by (induction xs) auto

lemma py_strip_idem [simp]: "py_strip (py_strip s) = py_strip s"
proof (cases "py_strip s = []")
  case True
  moreover have "py_strip [] = []" by (simp add: py_strip_def py_lstrip_def)
  ultimately show ?thesis by simp
next
  case False
  define t where "t = dropWhile py_isspace s"
  define u where "u = dropWhile py_isspace (rev t)"
  have strip: "py_strip s = rev u" by (simp add: py_strip_def py_lstrip_def t_def u_def)
  with False have u: "u \<noteq> []" by simp
  then have hd_u: "\<not> py_isspace (hd u)" unfolding u_def by (rule hd_dropWhile)
  from u have "t \<noteq> []" by (auto simp: u_def)
  then have hd_t: "\<not> py_isspace (hd t)" unfolding t_def by (rule hd_dropWhile)
  have "last u = last (rev t)" using u unfolding u_def by (rule last_dropWhile)
  then have "hd (rev u) = hd t" using u \<open>t \<noteq> []\<close> by (simp add: hd_rev last_rev)
  then have "dropWhile py_isspace (rev u) = rev u"
    using hd_t u by (intro dropWhile_no_op) auto
  moreover have "dropWhile py_isspace u = u" using hd_u u by (intro dropWhile_no_op)
  ultimately have "py_strip (rev u) = rev u" by (simp add: py_strip_def py_lstrip_def)
  with strip show ?thesis by simp
qed

lemma blank_py_strip [simp]: "blank (py_strip s) = blank s"
  by (simp add: blank_def)

lemma length_py_strip: "length (py_strip s) \<le> length s"
  using length_dropWhile_le[of py_isspace "rev (dropWhile py_isspace s)"]
    length_dropWhile_le[of py_isspace s]
  by (simp add: py_strip_def py_lstrip_def)

section \<open>Insertion-ordered dictionaries\<close>

lemma map_of_update [simp]: "map_of (AList.update k v d) = (map_of d)(k \<mapsto> v)"
  by (simp add: update_conv')

lemma keys_update_new: "k \<notin> fst ` set d \<Longrightarrow> map fst (AList.update k v d) = map fst d @ [k]"
  by (induction d) auto

lemma update_new: "k \<notin> fst ` set d \<Longrightarrow> AList.update k v d = d @ [(k, v)]"
  by (induction d) auto

lemma map_of_mem_iff: "map_of d k \<noteq> None \<longleftrightarrow> k \<in> fst ` set d"
  by (simp add: map_of_eq_None_iff)

section \<open>Lists and relations\<close>

lemma acyclic_empty [simp]: "acyclic {}"
  by (simp add: acyclic_def)

lemma count_list_map_filter_le: "count_list (filter P xs) x \<le> count_list xs x"
  by (induction xs) auto

lemma sorted_remdups_sort [simp]: "sorted (sort (remdups xs))"
  by simp

lemma distinct_sort_remdups [simp]: "distinct (sort (remdups xs))"
  by simp

lemma dropWhile_neq_hd: "x \<in> set xs \<Longrightarrow> \<exists>ys. dropWhile (\<lambda>y. y \<noteq> x) xs = x # ys"
  by (induction xs) auto

text \<open>The largest of consecutive sequence numbers.\<close>

lemma fold_max_upto: "n \<ge> 1 \<Longrightarrow> [1..n] = s # ss \<Longrightarrow> fold max ss s = (n::int)"
proof -
  assume n: "n \<ge> 1" and e: "[1..n] = s # ss"
  have "fold max ss s = Max (set (s # ss))" by (rule Max.set_eq_fold[symmetric])
  also have "\<dots> = Max {1..n}" unfolding e[symmetric] by simp
  also have "\<dots> = n" using n by (auto intro: Max_eqI)
  finally show ?thesis .
qed

text \<open>\<^verbatim>\<open>next((x for x in xs if p(x)), None)\<close>.\<close>

lemma first_filter:
  assumes "(case filter Q xs of [] \<Rightarrow> None | t # _ \<Rightarrow> Some t) = Some x"
  shows "x \<in> set xs \<and> Q x"
proof -
  from assms obtain ys where "filter Q xs = x # ys" by (auto split: list.splits)
  then have "x \<in> set (filter Q xs)" by simp
  then show ?thesis by simp
qed

section \<open>Rows of a table\<close>

text \<open>\<^verbatim>\<open>SELECT ... fetchone()\<close>.\<close>

definition fetchone :: "('r \<Rightarrow> bool) \<Rightarrow> 'r list \<Rightarrow> 'r option" where
  "fetchone Q rows = (case filter Q rows of [] \<Rightarrow> None | r # _ \<Rightarrow> Some r)"

lemma fetchone_map: "fetchone Q (map f xs) = map_option f (fetchone (\<lambda>x. Q (f x)) xs)"
  by (simp add: fetchone_def filter_map o_def split: list.split)

lemma fetchone_Some: "fetchone Q xs = Some x \<Longrightarrow> x \<in> set xs \<and> Q x"
  unfolding fetchone_def by (rule first_filter)

lemma fetchone_None: "fetchone Q xs = None \<longleftrightarrow> (\<forall>x \<in> set xs. \<not> Q x)"
proof (cases "filter Q xs")
  case Nil
  then show ?thesis by (simp add: fetchone_def filter_empty_conv)
next
  case (Cons y ys)
  then have "y \<in> set xs" "Q y" by (auto dest: filter_eq_ConsD)
  then show ?thesis using Cons by (auto simp: fetchone_def)
qed

lemma fetchone_unique:
  assumes "x \<in> set xs" and "Q x" and "\<And>y. y \<in> set xs \<Longrightarrow> Q y \<Longrightarrow> y = x"
  shows "fetchone Q xs = Some x"
proof (cases "fetchone Q xs")
  case None
  then show ?thesis using assms(1,2) by (simp add: fetchone_None)
next
  case (Some y)
  then show ?thesis using fetchone_Some assms(3) by metis
qed

lemma fetchone_append: "fetchone Q xs = Some x \<Longrightarrow> fetchone Q (xs @ ys) = Some x"
  by (auto simp: fetchone_def split: list.splits)

lemma fetchone_append_None: "fetchone Q xs = None \<Longrightarrow> fetchone Q (xs @ ys) = fetchone Q ys"
  by (auto simp: fetchone_def split: list.splits)

lemma fetchone_map_same:
  assumes "\<And>x. Q (f x) = Q x"
  shows "fetchone Q (map f xs) = map_option f (fetchone Q xs)"
  unfolding fetchone_map by (simp add: assms)

section \<open>Sequences of checks\<close>

fun check_all :: "('e + unit) list \<Rightarrow> 'e + unit" where
  "check_all [] = Inr ()"
| "check_all (c # cs) = (case c of Inl e \<Rightarrow> Inl e | Inr _ \<Rightarrow> check_all cs)"

lemma check_all_Inr [simp]: "check_all cs = Inr u \<longleftrightarrow> (\<forall>c \<in> set cs. c = Inr ())"
  by (induction cs) (auto split: sum.split)

end
