(* ===== verification/Task_Graph.thy ===== *)
theory Task_Graph
  imports Conductor_Prelude
begin

text \<open>
  The graph domain contract, \<^verbatim>\<open>src/src/a_conductor/graph/domain.py\<close>: task nodes,
  typed dependency edges and the graph that owns them, with the checks each
  constructor and mutator makes. A raised \<^verbatim>\<open>ValueError\<close> is a constructor of
  \<open>domain_error\<close>.
\<close>

section \<open>Vocabulary\<close>

datatype DependencyType =
  DATA | ORDERING | FILE_WRITE | WORKSPACE_WRITE | GIT | WORKER | RUNTIME | PROVIDER
| RATE_LIMIT | RESOURCE | VERIFICATION | HUMAN_APPROVAL

datatype TaskNodeStatus = TODO | DOING | DONE | BLOCKED | SKIPPED

definition CAPABILITY_VOCABULARY :: "string list" where
  "CAPABILITY_VOCABULARY = [
     ''repository-read'', ''repository-write'', ''shell'', ''tests'', ''code-review'',
     ''deep-reasoning'', ''architecture-review'', ''security-review'', ''long-context'',
     ''web-research'', ''documentation'', ''translation'', ''data-analysis'',
     ''independent-judgement'', ''project-code-context'', ''symbol-search'', ''call-graph'',
     ''blast-radius'', ''memory-read'', ''memory-write'']"

datatype domain_error =
  NodeIdBlank
| UnknownCapability string string
| PriorityNegative
| TimeoutNotPositive
| NodeExists string
| UnknownFrom string
| UnknownTo string
| SelfEdge
| EdgeExists string string DependencyType

section \<open>Nodes and edges\<close>

record TaskNode =
  tn_id :: string
  tn_objective :: string
  tn_expected_outputs :: "string list"
  tn_read_set :: "string list"
  tn_write_set :: "string list"
  tn_worker_requirement :: "string list"
  tn_model_requirement :: "string option"
  tn_priority :: int
  tn_timeout_seconds :: "int option"
  tn_retry_policy_ref :: "string option"
  tn_status :: TaskNodeStatus
  tn_artifacts :: "string list"

text \<open>The field defaults of the dataclass.\<close>

definition task_node :: "string \<Rightarrow> string \<Rightarrow> TaskNode" where
  "task_node i obj = \<lparr>tn_id = i, tn_objective = obj, tn_expected_outputs = [], tn_read_set = [],
     tn_write_set = [], tn_worker_requirement = [], tn_model_requirement = None,
     tn_priority = 0, tn_timeout_seconds = None, tn_retry_policy_ref = None,
     tn_status = TODO, tn_artifacts = []\<rparr>"

fun check_capabilities :: "string \<Rightarrow> string list \<Rightarrow> domain_error + unit" where
  "check_capabilities i [] = Inr ()"
| "check_capabilities i (c # cs) =
     (if c \<notin> set CAPABILITY_VOCABULARY then Inl (UnknownCapability i c)
      else check_capabilities i cs)"

definition TaskNode_post_init :: "TaskNode \<Rightarrow> domain_error + TaskNode" where
  "TaskNode_post_init n =
     (if tn_id n = [] \<or> blank (tn_id n) then Inl NodeIdBlank
      else res_bind (check_capabilities (tn_id n) (tn_worker_requirement n)) (\<lambda>_.
        if tn_priority n < 0 then Inl PriorityNegative
        else if (case tn_timeout_seconds n of None \<Rightarrow> False | Some t \<Rightarrow> t \<le> 0)
        then Inl TimeoutNotPositive
        else Inr n))"

record TaskEdge =
  te_from :: string
  te_to :: string
  te_type :: DependencyType

section \<open>The graph\<close>

type_synonym edge_key = "string \<times> string \<times> DependencyType"

record TaskGraph =
  tg_nodes :: "TaskNode dict"
  tg_edges :: "TaskEdge list"
  tg_edge_keys :: "edge_key set"

definition edge_key :: "TaskEdge \<Rightarrow> edge_key" where
  "edge_key e = (te_from e, te_to e, te_type e)"

definition empty_graph :: TaskGraph where
  "empty_graph = \<lparr>tg_nodes = [], tg_edges = [], tg_edge_keys = {}\<rparr>"

definition node_ids :: "TaskGraph \<Rightarrow> string list" where
  "node_ids g = map fst (tg_nodes g)"

definition nodes :: "TaskGraph \<Rightarrow> TaskNode list" where
  "nodes g = map snd (tg_nodes g)"

text \<open>\<^verbatim>\<open>TaskGraph.node\<close>; \<^const>\<open>None\<close> is the \<^verbatim>\<open>KeyError\<close> of the dictionary lookup.\<close>

definition node :: "TaskGraph \<Rightarrow> string \<Rightarrow> TaskNode option" where
  "node g i = map_of (tg_nodes g) i"

definition edges :: "TaskGraph \<Rightarrow> TaskEdge list" where
  "edges g = tg_edges g"

definition edges_from :: "TaskGraph \<Rightarrow> string \<Rightarrow> TaskEdge list" where
  "edges_from g i = filter (\<lambda>e. te_from e = i) (tg_edges g)"

definition edges_to :: "TaskGraph \<Rightarrow> string \<Rightarrow> TaskEdge list" where
  "edges_to g i = filter (\<lambda>e. te_to e = i) (tg_edges g)"

definition add_node :: "TaskGraph \<Rightarrow> TaskNode \<Rightarrow> domain_error + TaskGraph" where
  "add_node g n =
     (if tn_id n \<in> set (node_ids g) then Inl (NodeExists (tn_id n))
      else Inr (g\<lparr>tg_nodes := AList.update (tn_id n) n (tg_nodes g)\<rparr>))"

definition add_edge :: "TaskGraph \<Rightarrow> TaskEdge \<Rightarrow> domain_error + TaskGraph" where
  "add_edge g e =
     (if te_from e \<notin> set (node_ids g) then Inl (UnknownFrom (te_from e))
      else if te_to e \<notin> set (node_ids g) then Inl (UnknownTo (te_to e))
      else if te_from e = te_to e then Inl SelfEdge
      else if edge_key e \<in> tg_edge_keys g
      then Inl (EdgeExists (te_from e) (te_to e) (te_type e))
      else Inr (g\<lparr>tg_edge_keys := insert (edge_key e) (tg_edge_keys g),
                  tg_edges := tg_edges g @ [e]\<rparr>))"

section \<open>Well-formed graphs\<close>

definition wf_graph :: "TaskGraph \<Rightarrow> bool" where
  "wf_graph g \<longleftrightarrow>
     distinct (node_ids g) \<and>
     (\<forall>(i, n) \<in> set (tg_nodes g). tn_id n = i) \<and>
     (\<forall>e \<in> set (tg_edges g). te_from e \<in> set (node_ids g) \<and> te_to e \<in> set (node_ids g)
        \<and> te_from e \<noteq> te_to e) \<and>
     distinct (map edge_key (tg_edges g)) \<and>
     tg_edge_keys g = set (map edge_key (tg_edges g))"

declare wf_graph_def [inv_defs]

text \<open>The predecessor relation the edges denote, all dependency types alike.\<close>

definition edge_rel :: "TaskGraph \<Rightarrow> (string \<times> string) set" where
  "edge_rel g = {(te_from e, te_to e) | e. e \<in> set (tg_edges g)}"

lemma edge_rel_iff: "(u, v) \<in> edge_rel g \<longleftrightarrow> (\<exists>e \<in> set (tg_edges g). te_from e = u \<and> te_to e = v)"
  by (auto simp: edge_rel_def)

lemma edge_rel_fields:
  assumes "wf_graph g" and "(u, v) \<in> edge_rel g"
  shows "u \<in> set (node_ids g)" and "v \<in> set (node_ids g)" and "u \<noteq> v"
  using assms by (auto simp: edge_rel_iff wf_graph_def)

lemma finite_edge_rel [simp]: "finite (edge_rel g)"
proof -
  have "edge_rel g = (\<lambda>e. (te_from e, te_to e)) ` set (tg_edges g)"
    by (auto simp: edge_rel_def)
  then show ?thesis by simp
qed

lemma wf_empty_graph: "wf_graph empty_graph"
  by (simp add: wf_graph_def empty_graph_def node_ids_def)

lemma add_node_wf: "wf_graph g \<Longrightarrow> add_node g n = Inr g' \<Longrightarrow> wf_graph g'"
proof -
  assume wf: "wf_graph g" and add: "add_node g n = Inr g'"
  from add have new: "tn_id n \<notin> fst ` set (tg_nodes g)"
    and g': "g' = g\<lparr>tg_nodes := tg_nodes g @ [(tn_id n, n)]\<rparr>"
    by (auto simp: add_node_def node_ids_def update_new split: if_splits)
  show "wf_graph g'"
    using wf new unfolding g' wf_graph_def node_ids_def by auto
qed

lemma add_edge_wf: "wf_graph g \<Longrightarrow> add_edge g e = Inr g' \<Longrightarrow> wf_graph g'"
proof -
  assume wf: "wf_graph g" and add: "add_edge g e = Inr g'"
  from add have e: "te_from e \<in> set (node_ids g)" "te_to e \<in> set (node_ids g)"
      "te_from e \<noteq> te_to e" "edge_key e \<notin> tg_edge_keys g"
    and g': "g' = g\<lparr>tg_edge_keys := insert (edge_key e) (tg_edge_keys g),
                  tg_edges := tg_edges g @ [e]\<rparr>"
    by (auto simp: add_edge_def split: if_splits)
  have ids: "node_ids g' = node_ids g" by (simp add: g' node_ids_def)
  show "wf_graph g'"
    using wf e unfolding wf_graph_def ids by (auto simp: g')
qed

lemma add_node_ids:
  "add_node g n = Inr g' \<Longrightarrow> node_ids g' = node_ids g @ [tn_id n] \<and> tg_edges g' = tg_edges g"
  by (auto simp: add_node_def node_ids_def keys_update_new split: if_splits)

lemma add_edge_edges:
  "add_edge g e = Inr g' \<Longrightarrow> tg_edges g' = tg_edges g @ [e] \<and> node_ids g' = node_ids g
     \<and> tg_nodes g' = tg_nodes g"
  by (auto simp: add_edge_def node_ids_def split: if_splits)

lemma wf_nodes_id: "wf_graph g \<Longrightarrow> map tn_id (nodes g) = node_ids g"
  by (auto simp: wf_graph_def nodes_def node_ids_def)

lemma wf_node_Some_iff:
  assumes "wf_graph g"
  shows "node g i = Some n \<longleftrightarrow> n \<in> set (nodes g) \<and> tn_id n = i"
proof -
  have d: "distinct (map fst (tg_nodes g))" using assms by (simp add: wf_graph_def node_ids_def)
  have "node g i = Some n \<longleftrightarrow> (i, n) \<in> set (tg_nodes g)"
    unfolding node_def using d by (rule map_of_eq_Some_iff)
  also have "\<dots> \<longleftrightarrow> n \<in> set (nodes g) \<and> tn_id n = i"
  proof -
    have k: "\<forall>(i, n) \<in> set (tg_nodes g). tn_id n = i" using assms by (simp add: wf_graph_def)
    show ?thesis unfolding nodes_def set_map using k by (auto intro: rev_image_eqI)
  qed
  finally show ?thesis .
qed

lemma node_ids_iff: "i \<in> set (node_ids g) \<longleftrightarrow> (\<exists>n. node g i = Some n)"
  using map_of_mem_iff[of "tg_nodes g" i] by (auto simp: node_def node_ids_def)

lemma wf_nodes_distinct: "wf_graph g \<Longrightarrow> distinct (nodes g)"
  using wf_nodes_id[of g] by (metis distinct_map wf_graph_def)

lemma wf_nodes_inj: "wf_graph g \<Longrightarrow> inj_on tn_id (set (nodes g))"
  using wf_nodes_id[of g] by (metis distinct_map wf_graph_def)

lemma check_capabilities_Inr:
  "check_capabilities i cs = Inr () \<longleftrightarrow> set cs \<subseteq> set CAPABILITY_VOCABULARY"
  by (induction cs) auto

lemma TaskNode_post_init_iff:
  "TaskNode_post_init n = Inr m \<longleftrightarrow>
     m = n \<and> \<not> blank (tn_id n) \<and> set (tn_worker_requirement n) \<subseteq> set CAPABILITY_VOCABULARY
     \<and> 0 \<le> tn_priority n \<and> (\<forall>t. tn_timeout_seconds n = Some t \<longrightarrow> 0 < t)"
proof -
  have "check_capabilities (tn_id n) (tn_worker_requirement n) = Inr x \<longleftrightarrow>
      set (tn_worker_requirement n) \<subseteq> set CAPABILITY_VOCABULARY" for x :: unit
    using check_capabilities_Inr by (cases x) simp
  moreover have "tn_id n = [] \<or> blank (tn_id n) \<longleftrightarrow> blank (tn_id n)" by auto
  ultimately show ?thesis
    unfolding TaskNode_post_init_def by (auto split: option.splits)
qed

end
