(* ===== verification/Kahn_Loop.thy ===== *)
theory Kahn_Loop
  imports Task_Graph
begin

text \<open>
  Kahn's algorithm as \<^verbatim>\<open>graph/graph.py\<close> and \<^verbatim>\<open>graph/dag.py\<close> both write it: the
  adjacency and indegree tables built from the edge list, and the inner loop that
  decrements the neighbours of a popped node. The two modules differ in the outer
  loop (a FIFO queue with a counter; a queue per ready level); both keep the
  invariant \<open>kahn_inv\<close> proved here.

  The two tables are total functions with the values \<^verbatim>\<open>{n: []}\<close> and \<^verbatim>\<open>{n: 0}\<close>
  initialise; a graph that passed \<^verbatim>\<open>TaskGraph.add_edge\<close> has every edge end among its
  nodes (\<open>edge_rel_fields\<close>), so no lookup of the source misses.
\<close>

definition adjacency :: "TaskEdge list \<Rightarrow> string \<Rightarrow> string list" where
  "adjacency es = fold (\<lambda>e a. a(te_from e := a (te_from e) @ [te_to e])) es (\<lambda>_. [])"

definition indegree :: "TaskEdge list \<Rightarrow> string \<Rightarrow> int" where
  "indegree es = fold (\<lambda>e d. d(te_to e := d (te_to e) + 1)) es (\<lambda>_. 0)"

fun relax :: "string list \<Rightarrow> (string \<Rightarrow> int) \<times> string list \<Rightarrow> (string \<Rightarrow> int) \<times> string list" where
  "relax [] (d, q) = (d, q)"
| "relax (v # vs) (d, q) =
     (let d' = d(v := d v - 1) in relax vs (d', if d' v = 0 then q @ [v] else q))"

section \<open>The tables\<close>

lemma adjacency_fold:
  "fold (\<lambda>e a. a(te_from e := a (te_from e) @ [te_to e])) es a u =
     a u @ map te_to (filter (\<lambda>e. te_from e = u) es)"
  by (induction es arbitrary: a) auto

lemma adjacency_eq: "adjacency es u = map te_to (filter (\<lambda>e. te_from e = u) es)"
  by (simp add: adjacency_def adjacency_fold)

lemma indegree_fold:
  "fold (\<lambda>e d. d(te_to e := d (te_to e) + 1)) es d v =
     d v + int (length (filter (\<lambda>e. te_to e = v) es))"
  by (induction es arbitrary: d) auto

lemma indegree_eq: "indegree es v = int (length (filter (\<lambda>e. te_to e = v) es))"
  by (simp add: indegree_def indegree_fold)

lemma set_adjacency: "v \<in> set (adjacency es u) \<longleftrightarrow> (\<exists>e \<in> set es. te_from e = u \<and> te_to e = v)"
  by (auto simp: adjacency_eq)

lemma set_adjacency_edge_rel: "v \<in> set (adjacency (edges g) u) \<longleftrightarrow> (u, v) \<in> edge_rel g"
  by (auto simp: set_adjacency edge_rel_iff edges_def)

lemma count_adjacency:
  "count_list (adjacency es u) v = length (filter (\<lambda>e. te_from e = u \<and> te_to e = v) es)"
  unfolding adjacency_eq by (induction es) auto

section \<open>The inner loop\<close>

lemma relax_prefix: "relax vs (d, xs @ q) = (fst (relax vs (d, q)), xs @ snd (relax vs (d, q)))"
proof (induction vs arbitrary: d q)
  case Nil
  then show ?case by simp
next
  case (Cons v vs)
  define d1 where "d1 = d(v := d v - 1)"
  have eq: "relax (v # vs) (d, q) = relax vs (d1, if d1 v = 0 then q @ [v] else q)" for q
    by (simp add: d1_def Let_def)
  show ?case
    unfolding eq using Cons.IH[of d1 "q @ [v]"] Cons.IH[of d1 q] by (cases "d1 v = 0") auto
qed

lemma relax_measure:
  assumes "finite T" and "set vs \<subseteq> T" and "relax vs (d, q) = (d', q')"
  shows "card {v \<in> T. d' v > 0} + length q' \<le> card {v \<in> T. d v > 0} + length q"
  using assms(2,3)
proof (induction vs arbitrary: d q)
  case Nil
  then show ?case by simp
next
  case (Cons v vs)
  define d1 where "d1 = d(v := d v - 1)"
  define q1 where "q1 = (if d1 v = 0 then q @ [v] else q)"
  have "relax vs (d1, q1) = (d', q')" using Cons.prems(2) by (simp add: d1_def q1_def Let_def)
  with Cons have le: "card {v \<in> T. d' v > 0} + length q' \<le> card {v \<in> T. d1 v > 0} + length q1"
    by simp
  have "card {v \<in> T. d1 v > 0} + length q1 \<le> card {v \<in> T. d v > 0} + length q"
  proof (cases "d1 v = 0")
    case True
    then have eq: "{w \<in> T. d1 w > 0} = {w \<in> T. d w > 0} - {v}" by (auto simp: d1_def)
    have v: "v \<in> {w \<in> T. d w > 0}" using True Cons.prems(1) by (simp add: d1_def)
    have "finite {w \<in> T. d w > 0}" using assms(1) by simp
    from card.remove[OF this v] have "card {w \<in> T. d w > 0} = Suc (card {w \<in> T. d1 w > 0})"
      unfolding eq .
    with True show ?thesis by (simp add: q1_def)
  next
    case False
    have "card {w \<in> T. d1 w > 0} \<le> card {w \<in> T. d w > 0}"
      using assms(1) by (intro card_mono) (auto simp: d1_def split: if_splits)
    with False show ?thesis by (simp add: q1_def)
  qed
  with le show ?case by simp
qed

lemma relax_spec:
  assumes "\<And>v. int (count_list vs v) \<le> d v"
  shows "\<exists>new. relax vs (d, q) = (\<lambda>v. d v - int (count_list vs v), q @ new) \<and> distinct new
           \<and> set new = {v \<in> set vs. d v = int (count_list vs v)}"
  using assms
proof (induction vs arbitrary: d q)
  case Nil
  then show ?case by auto
next
  case (Cons v vs)
  define d1 where "d1 = d(v := d v - 1)"
  define q1 where "q1 = (if d1 v = 0 then q @ [v] else q)"
  have le: "int (count_list vs w) \<le> d1 w" for w
    using Cons.prems[of w] by (auto simp: d1_def split: if_splits)
  from Cons.IH[OF le] obtain new where
    r: "relax vs (d1, q1) = (\<lambda>w. d1 w - int (count_list vs w), q1 @ new)"
    and dist: "distinct new" and set_new: "set new = {w \<in> set vs. d1 w = int (count_list vs w)}"
    by blast
  have eq: "relax (v # vs) (d, q) = (\<lambda>w. d w - int (count_list (v # vs) w), q1 @ new)"
    using r by (auto simp: d1_def q1_def Let_def fun_eq_iff)
  show ?case
  proof (cases "d1 v = 0")
    case True
    with le[of v] have v: "v \<notin> set vs" by (simp add: count_list_0_iff)
    have "set (v # new) = {w \<in> set (v # vs). d w = int (count_list (v # vs) w)}"
      using True v by (auto simp: set_new d1_def)
    moreover have "distinct (v # new)" using v dist set_new by auto
    ultimately show ?thesis using eq True by (intro exI[of _ "v # new"]) (simp add: q1_def)
  next
    case False
    have "set new = {w \<in> set (v # vs). d w = int (count_list (v # vs) w)}"
      using False by (auto simp: set_new d1_def count_list_0_iff)
    then show ?thesis using eq dist False by (intro exI[of _ new]) (simp add: q1_def)
  qed
qed

section \<open>The invariant of both outer loops\<close>

text \<open>
  \<open>P\<close> lists the nodes popped so far, \<open>q\<close> those discovered and not yet popped.
\<close>

definition kahn_inv ::
  "TaskEdge list \<Rightarrow> string set \<Rightarrow> string list \<Rightarrow> (string \<Rightarrow> int) \<Rightarrow> string list \<Rightarrow> bool" where
  "kahn_inv es N P d q \<longleftrightarrow>
     distinct (P @ q) \<and> set (P @ q) \<subseteq> N \<and>
     (\<forall>v. d v = int (length (filter (\<lambda>e. te_to e = v \<and> te_from e \<notin> set P) es))) \<and>
     (\<forall>v \<in> N. v \<notin> set P \<longrightarrow> (d v = 0 \<longleftrightarrow> v \<in> set q)) \<and>
     (\<forall>A v B. P = A @ v # B \<longrightarrow> (\<forall>e \<in> set es. te_to e = v \<longrightarrow> te_from e \<in> set A))"

declare kahn_inv_def [inv_defs]

lemma kahn_invD:
  assumes "kahn_inv es N P d q"
  shows "distinct (P @ q)" and "set (P @ q) \<subseteq> N"
    and "d v = int (length (filter (\<lambda>e. te_to e = v \<and> te_from e \<notin> set P) es))"
    and "v \<in> N \<Longrightarrow> v \<notin> set P \<Longrightarrow> d v = 0 \<longleftrightarrow> v \<in> set q"
    and "P = A @ v # B \<Longrightarrow> e \<in> set es \<Longrightarrow> te_to e = v \<Longrightarrow> te_from e \<in> set A"
  using assms unfolding kahn_inv_def by blast+

lemma kahn_popped_preds:
  assumes "kahn_inv es N P d q" and "v \<in> set P" and "e \<in> set es" and "te_to e = v"
  shows "te_from e \<in> set P"
proof -
  from assms(2) obtain A B where P: "P = A @ v # B" by (auto simp: in_set_conv_decomp)
  from kahn_invD(5)[OF assms(1) P assms(3,4)] P show ?thesis by simp
qed

lemma kahn_popped_zero:
  assumes "kahn_inv es N P d q" and "v \<in> set P"
  shows "d v = 0"
proof -
  have "filter (\<lambda>e. te_to e = v \<and> te_from e \<notin> set P) es = []"
    using kahn_popped_preds[OF assms] by (simp add: filter_empty_conv)
  with kahn_invD(3)[OF assms(1), of v] show ?thesis by simp
qed

lemma kahn_zero_preds:
  assumes "kahn_inv es N P d q" and "d v = 0" and "e \<in> set es" and "te_to e = v"
  shows "te_from e \<in> set P"
proof -
  have "filter (\<lambda>e. te_to e = v \<and> te_from e \<notin> set P) es = []"
    using kahn_invD(3)[OF assms(1), of v] assms(2) by simp
  then show ?thesis using assms(3,4) unfolding filter_empty_conv by blast
qed

lemma kahn_inv_init:
  assumes "distinct q" and "set q = {v \<in> N. indegree es v = 0}"
  shows "kahn_inv es N [] (indegree es) q"
  using assms by (auto simp: kahn_inv_def indegree_eq)

lemma split_length:
  assumes "u \<notin> P"
  shows "length (filter (\<lambda>e. te_to e = v \<and> te_from e \<notin> P) es) =
    length (filter (\<lambda>e. te_to e = v \<and> te_from e \<notin> insert u P) es) + count_list (adjacency es u) v"
  unfolding count_adjacency using assms by (induction es) auto

lemma kahn_inv_step:
  assumes inv: "kahn_inv es N P d (u # q)" and r: "relax (adjacency es u) (d, q) = (d', q')"
    and to: "\<And>e. e \<in> set es \<Longrightarrow> te_to e \<in> N"
  shows "kahn_inv es N (P @ [u]) d' q'"
proof -
  let ?c = "\<lambda>v. int (count_list (adjacency es u) v)"
  have u: "u \<notin> set P" "u \<notin> set q" "u \<in> N" and dist: "distinct (P @ q)" and sub: "set (P @ q) \<subseteq> N"
    using kahn_invD(1,2)[OF inv] by auto
  have du: "d u = 0" using kahn_invD(4)[OF inv u(3,1)] by simp
  have split: "d v = int (length (filter (\<lambda>e. te_to e = v \<and> te_from e \<notin> set (P @ [u])) es)) + ?c v"
    for v
    unfolding kahn_invD(3)[OF inv] split_length[OF u(1)] by simp
  have le: "?c v \<le> d v" for v unfolding split[of v] by simp
  obtain new where d': "d' = (\<lambda>v. d v - ?c v)" and q': "q' = q @ new"
    and new: "distinct new" "set new = {v \<in> set (adjacency es u). d v = ?c v}"
    using relax_spec[of "adjacency es u" d q, OF le] r by auto
  have adj_pos: "v \<in> set (adjacency es u) \<Longrightarrow> 0 < ?c v" for v
    by (metis count_list_0_iff neq0_conv of_nat_0_less_iff)
  have new_N: "v \<in> set new \<Longrightarrow> v \<in> N" and new_pos: "v \<in> set new \<Longrightarrow> 0 < d v" for v
    using new(2) adj_pos[of v] to by (auto simp: set_adjacency)
  have new_P: "v \<in> set new \<Longrightarrow> v \<notin> set P" for v
    using new_pos kahn_popped_zero[OF inv] by fastforce
  have new_q: "v \<in> set new \<Longrightarrow> v \<notin> set (u # q)" for v
    using new_pos[of v] kahn_invD(4)[OF inv new_N[of v] new_P[of v]] by auto
  have zero': "d' v = 0 \<longleftrightarrow> v \<in> set q'" if v: "v \<in> N" "v \<notin> set (P @ [u])" for v
  proof (cases "v \<in> set (adjacency es u)")
    case True
    have "d v \<noteq> 0" using adj_pos[OF True] le[of v] by simp
    then have "v \<notin> set q" using kahn_invD(4)[OF inv, of v] v by simp
    then show ?thesis using True new(2) by (simp add: q' d')
  next
    case False
    then have "d' v = d v" by (simp add: d' count_list_0_iff)
    moreover have "v \<notin> set new" using False new(2) by simp
    ultimately show ?thesis using kahn_invD(4)[OF inv, of v] v by (simp add: q')
  qed
  have pre': "te_from e \<in> set A"
    if PA: "P @ [u] = A @ v # B" and e: "e \<in> set es" "te_to e = v" for A v B e
  proof (cases B rule: rev_cases)
    case Nil
    with PA have "P = A" "v = u" by auto
    with kahn_zero_preds[OF inv du e(1)] e show ?thesis by simp
  next
    case (snoc C x)
    with PA have "P = A @ v # C" by simp
    then show ?thesis by (rule kahn_invD(5)[OF inv _ e])
  qed
  have d'_eq: "d' v = int (length (filter (\<lambda>e. te_to e = v \<and> te_from e \<notin> set (P @ [u])) es))" for v
    using split[of v] by (simp add: d')
  have "distinct ((P @ [u]) @ q')" and "set ((P @ [u]) @ q') \<subseteq> N"
    using u dist sub new(1) new_P new_q new_N by (auto simp: q')
  then show ?thesis unfolding kahn_inv_def using d'_eq zero' pre' by blast
qed

section \<open>What the invariant says when the queue is empty\<close>

lemma kahn_done_preds:
  assumes "kahn_inv es N P d []" and "v \<in> N" and "v \<notin> set P"
  shows "\<exists>e \<in> set es. te_to e = v \<and> te_from e \<notin> set P"
proof (rule ccontr)
  assume "\<not> ?thesis"
  then have "filter (\<lambda>e. te_to e = v \<and> te_from e \<notin> set P) es = []"
    unfolding filter_empty_conv by blast
  then have "d v = 0" using kahn_invD(3)[OF assms(1), of v] by simp
  with kahn_invD(4)[OF assms] show False by simp
qed

lemma kahn_done_indegree:
  assumes "kahn_inv es N P d []" and "v \<in> N"
  shows "d v > 0 \<longleftrightarrow> v \<notin> set P"
proof
  assume "v \<notin> set P"
  then have "d v \<noteq> 0" using kahn_invD(4)[OF assms] by simp
  moreover have "0 \<le> d v" unfolding kahn_invD(3)[OF assms(1), of v] by simp
  ultimately show "d v > 0" by simp
next
  assume "d v > 0"
  then show "v \<notin> set P" using kahn_popped_zero[OF assms(1)] by force
qed

lemma kahn_order_index:
  assumes "kahn_inv es N P d q" and "e \<in> set es" and "te_to e \<in> set P"
  shows "\<exists>A B C. P = A @ te_from e # B @ te_to e # C"
proof -
  from assms(3) obtain A C where P: "P = A @ te_to e # C" by (auto simp: in_set_conv_decomp)
  then have "te_from e \<in> set A" using kahn_invD(5)[OF assms(1)] assms(2) by simp
  then obtain A1 A2 where "A = A1 @ te_from e # A2" by (auto simp: in_set_conv_decomp)
  with P have "P = A1 @ te_from e # A2 @ te_to e # C" by simp
  then show ?thesis by blast
qed

text \<open>An order in which every edge goes forward rules out cycles.\<close>

lemma acyclic_if_ordered:
  assumes dist: "distinct P"
    and fwd: "\<And>u v. (u, v) \<in> r \<Longrightarrow> \<exists>A B C. P = A @ u # B @ v # C"
  shows "acyclic r"
proof -
  define idx where "idx x = length (takeWhile (\<lambda>y. y \<noteq> x) P)" for x
  have "idx u < idx v" if uv: "(u, v) \<in> r" for u v
  proof -
    obtain A B C where P: "P = A @ u # B @ v # C" using fwd[OF uv] by blast
    with dist have "u \<notin> set A" "v \<notin> set A" "v \<noteq> u" "v \<notin> set B" by auto
    then show ?thesis unfolding idx_def P by (auto simp: takeWhile_append)
  qed
  then have "r \<subseteq> measure idx" by auto
  then show ?thesis by (meson acyclic_subset wf_acyclic wf_measure)
qed

lemma kahn_done_acyclic_iff:
  assumes inv: "kahn_inv (edges g) (set (node_ids g)) P d []" and wf: "wf_graph g"
  shows "acyclic (edge_rel g) \<longleftrightarrow> set P = set (node_ids g)"
proof
  assume all: "set P = set (node_ids g)"
  show "acyclic (edge_rel g)"
  proof (rule acyclic_if_ordered)
    show "distinct P" using inv by (simp add: kahn_inv_def)
    fix u v assume uv: "(u, v) \<in> edge_rel g"
    then obtain e where e: "e \<in> set (edges g)" "te_from e = u" "te_to e = v"
      by (auto simp: edge_rel_iff edges_def)
    have "te_to e \<in> set P" using edge_rel_fields(2)[OF wf uv] all e by simp
    from kahn_order_index[OF inv e(1) this] e show "\<exists>A B C. P = A @ u # B @ v # C" by simp
  qed
next
  assume ac: "acyclic (edge_rel g)"
  have sub: "set P \<subseteq> set (node_ids g)" using inv by (simp add: kahn_inv_def)
  show "set P = set (node_ids g)"
  proof (rule ccontr)
    assume "set P \<noteq> set (node_ids g)"
    with sub obtain x where x: "x \<in> set (node_ids g) - set P" by auto
    have "wf (edge_rel g)" using ac by (simp add: finite_acyclic_wf)
    then obtain z where z: "z \<in> set (node_ids g) - set P"
      and min: "\<And>y. (y, z) \<in> edge_rel g \<Longrightarrow> y \<notin> set (node_ids g) - set P"
      using x by (metis wfE_min)
    obtain e where "e \<in> set (edges g)" "te_to e = z" "te_from e \<notin> set P"
      using kahn_done_preds[OF inv, of z] z by auto
    then have "(te_from e, z) \<in> edge_rel g" by (auto simp: edge_rel_iff edges_def)
    with min edge_rel_fields(1)[OF wf this] \<open>te_from e \<notin> set P\<close> show False by blast
  qed
qed

text \<open>Every node that is left over has a cycle upstream of it.\<close>

lemma leftover_has_cycle_upstream:
  assumes wf: "wf_graph g" and inv: "kahn_inv (edges g) (set (node_ids g)) P d []"
    and n: "n \<in> set (node_ids g)" "n \<notin> set P"
  shows "\<exists>m. (m, m) \<in> (edge_rel g)\<^sup>+ \<and> (m, n) \<in> (edge_rel g)\<^sup>+"
proof -
  define A where "A = {x. x \<in> set (node_ids g) \<and> x \<notin> set P \<and> (x, n) \<in> (edge_rel g)\<^sup>*}"
  have pred_in: "\<exists>y \<in> A. (y, x) \<in> edge_rel g" if "x \<in> A" for x
  proof -
    from that have x: "x \<in> set (node_ids g)" "x \<notin> set P" "(x, n) \<in> (edge_rel g)\<^sup>*"
      by (auto simp: A_def)
    obtain e where e: "e \<in> set (edges g)" "te_to e = x" "te_from e \<notin> set P"
      using kahn_done_preds[OF inv x(1,2)] by blast
    then have r: "(te_from e, x) \<in> edge_rel g" by (auto simp: edge_rel_iff edges_def)
    with e x edge_rel_fields(1)[OF wf r] have "te_from e \<in> A"
      by (auto simp: A_def intro: converse_rtrancl_into_rtrancl)
    with r show ?thesis by blast
  qed
  have "n \<in> A" using n by (simp add: A_def)
  have "\<not> acyclic (Restr (edge_rel g) A)"
  proof
    assume "acyclic (Restr (edge_rel g) A)"
    then have "wf (Restr (edge_rel g) A)" by (simp add: finite_acyclic_wf)
    with \<open>n \<in> A\<close> obtain z where "z \<in> A" "\<And>y. (y, z) \<in> Restr (edge_rel g) A \<Longrightarrow> y \<notin> A"
      by (metis wfE_min)
    with pred_in[of z] show False by blast
  qed
  then obtain m where m: "(m, m) \<in> (Restr (edge_rel g) A)\<^sup>+" by (auto simp: acyclic_def)
  then have "m \<in> A" by (metis IntD2 SigmaD1 tranclD)
  moreover have "(m, m) \<in> (edge_rel g)\<^sup>+" by (rule trancl_mono_subset[THEN subsetD, OF _ m]) blast
  ultimately show ?thesis by (auto simp: A_def intro: trancl_rtrancl_trancl)
qed

section \<open>Walks along edges\<close>

fun chain :: "('a \<times> 'a) set \<Rightarrow> 'a list \<Rightarrow> bool" where
  "chain r (x # y # xs) = ((x, y) \<in> r \<and> chain r (y # xs))"
| "chain r xs = True"

definition closed_walk :: "('a \<times> 'a) set \<Rightarrow> 'a list \<Rightarrow> bool" where
  "closed_walk r c \<longleftrightarrow> 2 \<le> length c \<and> hd c = last c \<and> chain r c"

lemma chain_append:
  "chain r (xs @ [y]) \<longleftrightarrow> chain r xs \<and> (xs \<noteq> [] \<longrightarrow> (last xs, y) \<in> r)"
  by (induction xs rule: chain.induct) auto

lemma chain_dropWhile: "chain r xs \<Longrightarrow> chain r (dropWhile Q xs)"
  by (induction xs rule: chain.induct) auto

lemma chain_trancl: "chain r (x # xs) \<Longrightarrow> xs \<noteq> [] \<Longrightarrow> (x, last xs) \<in> r\<^sup>+"
proof (induction xs arbitrary: x)
  case Nil
  then show ?case by simp
next
  case (Cons y ys)
  then have "(x, y) \<in> r" "chain r (y # ys)" by auto
  with Cons.IH[of y] show ?case by (cases "ys = []") (auto intro: trancl_into_trancl2)
qed

lemma closed_walk_not_acyclic: "closed_walk r c \<Longrightarrow> \<not> acyclic r"
proof -
  assume c: "closed_walk r c"
  then obtain x y ys where c': "c = x # y # ys" and ends: "last (y # ys) = x"
    by (cases c; cases "tl c") (auto simp: closed_walk_def)
  with c have "(x, last (y # ys)) \<in> r\<^sup>+" by (intro chain_trancl) (auto simp: closed_walk_def)
  with ends show ?thesis by (auto simp: acyclic_def)
qed

end
