(* ===== verification/Graph_Builder.thy ===== *)
theory Graph_Builder
  imports Kahn_Loop
begin

text \<open>
  Graph assembly, \<^verbatim>\<open>src/src/a_conductor/graph/graph.py\<close>: cycle detection by Kahn's
  algorithm, the builder that re-checks acyclicity on every edge and rolls a bad
  edge back, and \<^verbatim>\<open>build_graph\<close>.
\<close>

section \<open>Definitions\<close>

function kahn_loop ::
  "TaskEdge list \<Rightarrow> (string \<Rightarrow> int) \<Rightarrow> string list \<Rightarrow> nat \<Rightarrow> (string \<Rightarrow> int) \<times> nat" where
  "kahn_loop es d [] visited = (d, visited)"
| "kahn_loop es d (current # queue) visited =
     kahn_loop es (fst (relax (adjacency es current) (d, queue)))
       (snd (relax (adjacency es current) (d, queue))) (Suc visited)"
  by pat_completeness auto
termination
proof (relation "measure (\<lambda>(es, d, q, n). card {v \<in> te_to ` set es. d v > 0} + length q)",
    goal_cases)
  case 1
  show ?case by simp
next
  case (2 es d u q n)
  have "set (adjacency es u) \<subseteq> te_to ` set es" by (auto simp: set_adjacency)
  from relax_measure[OF _ this prod.collapse[symmetric]] show ?case by (simp add: less_Suc_eq_le)
qed

datatype lookup_error = KeyError | IndexError

text \<open>
  The walk that reconstructs a cycle: \<open>path\<close> holds the nodes in the order they
  were \<^verbatim>\<open>seen\<close>, and \<^verbatim>\<open>path[seen[current]:]\<close> is the part of it from \<open>current\<close> on.
\<close>

function walk_cycle ::
  "string list \<Rightarrow> (string \<Rightarrow> string list) \<Rightarrow> string list \<Rightarrow> string \<Rightarrow> lookup_error + string list" where
  "walk_cycle remaining sub_adj path current =
     (if current \<in> set path then Inr (dropWhile (\<lambda>x. x \<noteq> current) path @ [current])
      else if current \<notin> set remaining then Inl KeyError
      else walk_cycle remaining sub_adj (path @ [current])
             (case sub_adj current of [] \<Rightarrow> current | t # _ \<Rightarrow> t))"
  by pat_completeness auto
termination
proof (relation "measure (\<lambda>(rem, sub, path, cur). card (set rem - set path))", goal_cases)
  case 1
  show ?case by simp
next
  case (2 rem sub path cur)
  then have "set rem - set (path @ [cur]) \<subset> set rem - set path" by auto
  then show ?case by (simp add: psubset_card_mono)
qed

declare walk_cycle.simps [simp del]

definition find_cycle :: "TaskGraph \<Rightarrow> lookup_error + string list option" where
  "find_cycle g =
     (let ns = node_ids g;
          adj = adjacency (edges g);
          queue = filter (\<lambda>n. indegree (edges g) n = 0) ns;
          (d, visited) = kahn_loop (edges g) (indegree (edges g)) queue 0
      in if visited = length ns then Inr None
         else let remaining = filter (\<lambda>n. d n > 0) ns;
                  sub_adj = (\<lambda>n. filter (\<lambda>t. d t > 0) (adj n))
              in case remaining of
                   [] \<Rightarrow> Inl IndexError
                 | start # _ \<Rightarrow> map_sum id Some (walk_cycle remaining sub_adj [] start))"

datatype builder_error =
  DomainError domain_error
| GraphCycleError "string list"
| LookupError lookup_error

text \<open>
  The builder mutates its graph in place, so each call returns the outcome and the
  graph it leaves behind.
\<close>

definition builder_add_node :: "TaskGraph \<Rightarrow> TaskNode \<Rightarrow> (builder_error + unit) \<times> TaskGraph" where
  "builder_add_node g n =
     (case add_node g n of Inl e \<Rightarrow> (Inl (DomainError e), g) | Inr g' \<Rightarrow> (Inr (), g'))"

definition builder_add_edge :: "TaskGraph \<Rightarrow> TaskEdge \<Rightarrow> (builder_error + unit) \<times> TaskGraph" where
  "builder_add_edge g e =
     (case add_edge g e of
        Inl err \<Rightarrow> (Inl (DomainError err), g)
      | Inr g' \<Rightarrow>
          (case find_cycle g' of
             Inl err \<Rightarrow> (Inl (LookupError err), g')
           | Inr None \<Rightarrow> (Inr (), g')
           | Inr (Some cycle) \<Rightarrow>
               if cycle \<noteq> [] then
                 (Inl (GraphCycleError cycle),
                  g'\<lparr>tg_edges := remove1 e (tg_edges g'),
                     tg_edge_keys := tg_edge_keys g' - {edge_key e}\<rparr>)
               else (Inr (), g')))"

definition build_nodes :: "TaskNode list \<Rightarrow> TaskGraph \<Rightarrow> builder_error + TaskGraph" where
  "build_nodes = res_fold (\<lambda>n g. case builder_add_node g n of
     (Inl e, _) \<Rightarrow> Inl e | (Inr _, g') \<Rightarrow> Inr g')"

definition build_edges :: "TaskEdge list \<Rightarrow> TaskGraph \<Rightarrow> builder_error + TaskGraph" where
  "build_edges = res_fold (\<lambda>e g. case builder_add_edge g e of
     (Inl err, _) \<Rightarrow> Inl err | (Inr _, g') \<Rightarrow> Inr g')"

definition build_graph :: "TaskNode list \<Rightarrow> TaskEdge list \<Rightarrow> builder_error + TaskGraph" where
  "build_graph ns es = res_bind (build_nodes ns empty_graph) (build_edges es)"

section \<open>The loop keeps Kahn's invariant\<close>

lemma kahn_loop_inv:
  assumes "kahn_inv es N P d q" and "\<And>e. e \<in> set es \<Longrightarrow> te_to e \<in> N"
    and "kahn_loop es d q n = (d', m)"
  shows "\<exists>P'. kahn_inv es N (P @ P') d' [] \<and> m = n + length P'"
  using assms
proof (induction es d q n arbitrary: P rule: kahn_loop.induct)
  case (1 es d n)
  then show ?case by (intro exI[of _ "[]"]) simp
next
  case (2 es d u q n)
  let ?r = "relax (adjacency es u) (d, q)"
  have "kahn_inv es N (P @ [u]) (fst ?r) (snd ?r)"
    using 2(2,3) by (intro kahn_inv_step[of es N P d u q]) auto
  from 2(1)[OF this 2(3)] 2(4) obtain P' where
    "kahn_inv es N ((P @ [u]) @ P') d' []" "m = Suc n + length P'"
    by auto
  then show ?case by (intro exI[of _ "u # P'"]) simp
qed

lemma find_cycle_kahn:
  assumes wf: "wf_graph g"
  obtains P d where "kahn_inv (edges g) (set (node_ids g)) P d []"
    and "kahn_loop (edges g) (indegree (edges g))
           (filter (\<lambda>n. indegree (edges g) n = 0) (node_ids g)) 0 = (d, length P)"
proof -
  let ?q = "filter (\<lambda>n. indegree (edges g) n = 0) (node_ids g)"
  obtain d m where loop: "kahn_loop (edges g) (indegree (edges g)) ?q 0 = (d, m)"
    by fastforce
  have "kahn_inv (edges g) (set (node_ids g)) [] (indegree (edges g)) ?q"
    using wf by (intro kahn_inv_init) (auto simp: wf_graph_def)
  from kahn_loop_inv[OF this _ loop] obtain P where
    "kahn_inv (edges g) (set (node_ids g)) P d []" "m = length P"
    using wf by (auto simp: wf_graph_def edges_def)
  with that loop show thesis by blast
qed

lemma visited_all_iff:
  assumes "wf_graph g" and "kahn_inv (edges g) (set (node_ids g)) P d []"
  shows "length P = length (node_ids g) \<longleftrightarrow> set P = set (node_ids g)"
proof -
  have "distinct P" and sub: "set P \<subseteq> set (node_ids g)" using assms(2) by (auto simp: kahn_inv_def)
  then have "card (set P) = length P" and "card (set (node_ids g)) = length (node_ids g)"
    using assms(1) by (auto simp: distinct_card wf_graph_def)
  with sub show ?thesis by (metis List.finite_set card_subset_eq)
qed

section \<open>The walk\<close>

text \<open>
  A returned path either closes a cycle of the walked successor relation, or is
  \<open>[n, n]\<close> for a node where the walk got stuck because it has no remaining successor.
\<close>

lemma walk_cycle_spec:
  assumes "\<And>n t. n \<in> set rem \<Longrightarrow> t \<in> set (sub n) \<Longrightarrow> t \<in> set rem \<and> (n, t) \<in> r"
    and "chain r path" and "path \<noteq> [] \<longrightarrow> (last path, cur) \<in> r \<or> sub (last path) = [] \<and> cur = last path"
    and "set path \<subseteq> set rem" and "cur \<in> set rem" and "distinct path"
  shows "\<exists>c. walk_cycle rem sub path cur = Inr c \<and>
           (closed_walk r c \<or> (\<exists>n \<in> set rem. sub n = [] \<and> c = [n, n]))"
  using assms
proof (induction rem sub path cur rule: walk_cycle.induct)
  case (1 rem sub path cur)
  show ?case
  proof (cases "cur \<in> set path")
    case True
    then obtain ys where dw: "dropWhile (\<lambda>x. x \<noteq> cur) path = cur # ys" by (metis dropWhile_neq_hd)
    let ?c = "dropWhile (\<lambda>x. x \<noteq> cur) path @ [cur]"
    have eq: "walk_cycle rem sub path cur = Inr ?c" using True by (simp add: walk_cycle.simps)
    from True have ne: "path \<noteq> []" by auto
    have last: "last (dropWhile (\<lambda>x. x \<noteq> cur) path) = last path" by (metis dw last_dropWhile list.distinct(1))
    show ?thesis
    proof (cases "(last path, cur) \<in> r")
      case True
      have "chain r ?c" using 1(3) True last by (simp add: chain_append chain_dropWhile)
      then have "closed_walk r ?c" using dw by (simp add: closed_walk_def)
      with eq show ?thesis by blast
    next
      case False
      with 1(4) ne have stuck: "sub (last path) = []" "cur = last path" by auto
      have "path = butlast path @ [cur]" using ne stuck by simp
      with 1(7) have "cur \<notin> set (butlast path)" by (metis distinct_append disjoint_insert(2) list.simps(15))
      then have "dropWhile (\<lambda>x. x \<noteq> cur) (butlast path @ [cur]) = [cur]"
        by (auto simp: dropWhile_append dropWhile_eq_Nil_conv)
      with \<open>path = butlast path @ [cur]\<close> have "?c = [cur, cur]" by simp
      with eq stuck 1(6) show ?thesis by auto
    qed
  next
    case False
    let ?next = "case sub cur of [] \<Rightarrow> cur | t # _ \<Rightarrow> t"
    have step: "walk_cycle rem sub path cur = walk_cycle rem sub (path @ [cur]) ?next"
      using False 1(6) by (subst walk_cycle.simps) simp
    have ch: "chain r (path @ [cur])"
    proof -
      have "path \<noteq> [] \<longrightarrow> (last path, cur) \<in> r" using 1(4) False by auto
      with 1(3) show ?thesis by (simp add: chain_append)
    qed
    have nxt: "(cur, ?next) \<in> r \<or> sub cur = [] \<and> ?next = cur" "?next \<in> set rem"
      using 1(2)[OF 1(6)] 1(6) by (auto split: list.splits)
    show ?thesis
      unfolding step using False 1(1)[OF False _ 1(2) ch] nxt 1(5,6,7) by simp
  qed
qed

section \<open>Cycle detection\<close>

lemma find_cycle_remaining:
  assumes wf: "wf_graph g" and inv: "kahn_inv (edges g) (set (node_ids g)) P d []"
    and n: "n \<in> set (filter (\<lambda>n. d n > 0) (node_ids g))"
    and t: "t \<in> set (filter (\<lambda>t. d t > 0) (adjacency (edges g) n))"
  shows "t \<in> set (filter (\<lambda>n. d n > 0) (node_ids g)) \<and> (n, t) \<in> edge_rel g"
  using t edge_rel_fields(2)[OF wf] by (auto simp: set_adjacency_edge_rel)

lemma find_cycle_cases:
  assumes wf: "wf_graph g"
  shows "acyclic (edge_rel g) \<and> find_cycle g = Inr None \<or>
    \<not> acyclic (edge_rel g) \<and> (\<exists>c. find_cycle g = Inr (Some c) \<and>
       (closed_walk (edge_rel g) c \<or>
        (\<exists>m n. c = [n, n] \<and> (m, m) \<in> (edge_rel g)\<^sup>+ \<and> (m, n) \<in> (edge_rel g)\<^sup>+)))"
proof -
  obtain P d where inv: "kahn_inv (edges g) (set (node_ids g)) P d []"
    and loop: "kahn_loop (edges g) (indegree (edges g))
           (filter (\<lambda>n. indegree (edges g) n = 0) (node_ids g)) 0 = (d, length P)"
    using find_cycle_kahn[OF wf] by blast
  let ?rem = "filter (\<lambda>n. d n > 0) (node_ids g)"
  let ?sub = "\<lambda>n. filter (\<lambda>t. d t > 0) (adjacency (edges g) n)"
  have rem_iff: "n \<in> set ?rem \<longleftrightarrow> n \<in> set (node_ids g) \<and> n \<notin> set P" for n
    using kahn_done_indegree[OF inv, of n] by auto
  have ac: "acyclic (edge_rel g) \<longleftrightarrow> length P = length (node_ids g)"
    using kahn_done_acyclic_iff[OF inv wf] visited_all_iff[OF wf inv] by simp
  show ?thesis
  proof (cases "length P = length (node_ids g)")
    case True
    with ac loop show ?thesis by (simp add: find_cycle_def Let_def)
  next
    case False
    then have "set P \<noteq> set (node_ids g)" using visited_all_iff[OF wf inv] by simp
    moreover have "set P \<subseteq> set (node_ids g)" using kahn_invD(2)[OF inv] by simp
    ultimately have "?rem \<noteq> []" using rem_iff by (metis empty_iff empty_set subsetI subset_antisym)
    then obtain start rest where rem: "?rem = start # rest" by (cases ?rem) auto
    have "\<exists>c. walk_cycle ?rem ?sub [] start = Inr c \<and>
           (closed_walk (edge_rel g) c \<or> (\<exists>n \<in> set ?rem. ?sub n = [] \<and> c = [n, n]))"
      by (rule walk_cycle_spec) (use find_cycle_remaining[OF wf inv] rem in auto)
    then obtain c where c: "walk_cycle ?rem ?sub [] start = Inr c"
      and res: "closed_walk (edge_rel g) c \<or> (\<exists>n \<in> set ?rem. ?sub n = [] \<and> c = [n, n])"
      by blast
    have "find_cycle g = Inr (Some c)"
      using False loop rem c by (simp add: find_cycle_def Let_def)
    moreover have "closed_walk (edge_rel g) c \<or>
        (\<exists>m n. c = [n, n] \<and> (m, m) \<in> (edge_rel g)\<^sup>+ \<and> (m, n) \<in> (edge_rel g)\<^sup>+)"
      using res leftover_has_cycle_upstream[OF wf inv] rem_iff by blast
    ultimately show ?thesis using ac False by blast
  qed
qed

lemma find_cycle_None_iff: "wf_graph g \<Longrightarrow> find_cycle g = Inr None \<longleftrightarrow> acyclic (edge_rel g)"
  using find_cycle_cases[of g] by auto

lemma find_cycle_no_error: "wf_graph g \<Longrightarrow> find_cycle g \<noteq> Inl e"
  using find_cycle_cases[of g] by auto

lemma find_cycle_nonempty: "wf_graph g \<Longrightarrow> find_cycle g = Inr (Some c) \<Longrightarrow> c \<noteq> []"
  using find_cycle_cases[of g] by (auto simp: closed_walk_def)

section \<open>The builder\<close>

lemma add_edge_rollback:
  assumes "wf_graph g" and "add_edge g e = Inr g'"
  shows "g'\<lparr>tg_edges := remove1 e (tg_edges g'), tg_edge_keys := tg_edge_keys g' - {edge_key e}\<rparr> = g"
proof -
  from assms(2) have key: "edge_key e \<notin> tg_edge_keys g"
    and g': "g' = g\<lparr>tg_edge_keys := insert (edge_key e) (tg_edge_keys g), tg_edges := tg_edges g @ [e]\<rparr>"
    by (auto simp: add_edge_def split: if_splits)
  from key assms(1) have "e \<notin> set (tg_edges g)" by (auto simp: wf_graph_def)
  with key show ?thesis by (simp add: g' remove1_append)
qed

lemma builder_add_edge_cases:
  assumes "wf_graph g"
  shows "builder_add_edge g e =
    (case add_edge g e of
       Inl err \<Rightarrow> (Inl (DomainError err), g)
     | Inr g' \<Rightarrow> if acyclic (edge_rel g') then (Inr (), g')
                else (Inl (GraphCycleError (case find_cycle g' of Inr (Some c) \<Rightarrow> c | _ \<Rightarrow> [])), g))"
proof (cases "add_edge g e")
  case (Inl err)
  then show ?thesis by (simp add: builder_add_edge_def)
next
  case (Inr g')
  then have wf': "wf_graph g'" using add_edge_wf assms by blast
  show ?thesis
  proof (cases "acyclic (edge_rel g')")
    case True
    then show ?thesis using Inr find_cycle_None_iff[OF wf'] by (simp add: builder_add_edge_def)
  next
    case False
    then obtain c where c: "find_cycle g' = Inr (Some c)" using find_cycle_cases[OF wf'] by blast
    have "c \<noteq> []" using find_cycle_nonempty[OF wf' c] .
    with Inr c False add_edge_rollback[OF assms Inr] show ?thesis by (simp add: builder_add_edge_def)
  qed
qed

lemma build_nodes_spec:
  assumes "wf_graph g"
  shows "(\<exists>g'. build_nodes ns g = Inr g') \<longleftrightarrow> distinct (node_ids g @ map tn_id ns)"
    and "build_nodes ns g = Inr g' \<Longrightarrow> wf_graph g' \<and> node_ids g' = node_ids g @ map tn_id ns
           \<and> tg_edges g' = tg_edges g \<and> nodes g' = nodes g @ ns"
proof -
  have "((\<exists>g'. build_nodes ns g = Inr g') \<longleftrightarrow> distinct (node_ids g @ map tn_id ns)) \<and>
    (\<forall>g'. build_nodes ns g = Inr g' \<longrightarrow> wf_graph g' \<and> node_ids g' = node_ids g @ map tn_id ns
           \<and> tg_edges g' = tg_edges g \<and> nodes g' = nodes g @ ns)"
    using assms
  proof (induction ns arbitrary: g)
    case Nil
    then show ?case by (auto simp: build_nodes_def wf_graph_def)
  next
    case (Cons n ns)
    show ?case
    proof (cases "add_node g n")
      case (Inl err)
      then have "tn_id n \<in> set (node_ids g)" by (auto simp: add_node_def split: if_splits)
      with Inl show ?thesis by (auto simp: build_nodes_def builder_add_node_def)
    next
      case (Inr g1)
      have wf1: "wf_graph g1" using add_node_wf[OF Cons.prems Inr] .
      have ids: "node_ids g1 = node_ids g @ [tn_id n]" "tg_edges g1 = tg_edges g"
        using add_node_ids[OF Inr] by auto
      have ns1: "nodes g1 = nodes g @ [n]"
        using Inr by (auto simp: add_node_def nodes_def node_ids_def update_new split: if_splits)
      have step: "build_nodes (n # ns) g = build_nodes ns g1"
        using Inr by (simp add: build_nodes_def builder_add_node_def)
      show ?thesis using Cons.IH[OF wf1] by (simp add: step ids ns1)
    qed
  qed
  then show "(\<exists>g'. build_nodes ns g = Inr g') \<longleftrightarrow> distinct (node_ids g @ map tn_id ns)"
    and "build_nodes ns g = Inr g' \<Longrightarrow> wf_graph g' \<and> node_ids g' = node_ids g @ map tn_id ns
           \<and> tg_edges g' = tg_edges g \<and> nodes g' = nodes g @ ns"
    by blast+
qed

lemma build_edges_sound:
  assumes "build_edges es g = Inr g'" and "wf_graph g" and "acyclic (edge_rel g)"
  shows "wf_graph g' \<and> acyclic (edge_rel g') \<and> tg_edges g' = tg_edges g @ es \<and> tg_nodes g' = tg_nodes g"
  using assms
proof (induction es arbitrary: g)
  case Nil
  then show ?case by (simp add: build_edges_def)
next
  case (Cons e es)
  from Cons.prems(1) obtain g1 where g1: "builder_add_edge g e = (Inr (), g1)"
    and rest: "build_edges es g1 = Inr g'"
    by (auto simp: build_edges_def split: prod.splits sum.splits)
  from g1 have add: "add_edge g e = Inr g1" and ac: "acyclic (edge_rel g1)"
    unfolding builder_add_edge_cases[OF Cons.prems(2)] by (auto split: sum.splits if_splits)
  from Cons.IH[OF rest add_edge_wf[OF Cons.prems(2) add] ac] add_edge_edges[OF add]
  show ?case by simp
qed

definition edge_pairs :: "TaskEdge list \<Rightarrow> (string \<times> string) set" where
  "edge_pairs es = (\<lambda>e. (te_from e, te_to e)) ` set es"

lemma edge_rel_pairs: "edge_rel g = edge_pairs (tg_edges g)"
  by (auto simp: edge_rel_def edge_pairs_def)

lemma build_edges_complete:
  assumes "wf_graph g" and "\<forall>e \<in> set es. te_from e \<in> set (node_ids g) \<and> te_to e \<in> set (node_ids g)"
    and "distinct (map edge_key (tg_edges g @ es))" and "acyclic (edge_pairs (tg_edges g @ es))"
  shows "\<exists>g'. build_edges es g = Inr g'"
  using assms
proof (induction es arbitrary: g)
  case Nil
  then show ?case by (simp add: build_edges_def)
next
  case (Cons e es)
  have ac1: "acyclic (edge_pairs (tg_edges g @ [e]))"
    by (rule acyclic_subset[OF Cons.prems(4)]) (auto simp: edge_pairs_def)
  then have "te_from e \<noteq> te_to e" by (auto simp: acyclic_def edge_pairs_def intro: r_into_trancl)
  moreover have "edge_key e \<notin> tg_edge_keys g" using Cons.prems(1,3) by (simp add: wf_graph_def)
  ultimately obtain g1 where add: "add_edge g e = Inr g1"
    using Cons.prems(2) by (auto simp: add_edge_def)
  note g1 = add_edge_edges[OF add]
  have "builder_add_edge g e = (Inr (), g1)"
    using ac1 g1 add unfolding builder_add_edge_cases[OF Cons.prems(1)] by (simp add: edge_rel_pairs)
  then have step: "build_edges (e # es) g = build_edges es g1" by (simp add: build_edges_def)
  show ?case unfolding step
    by (rule Cons.IH) (use Cons.prems g1 add_edge_wf[OF Cons.prems(1) add] in auto)
qed

lemma wf_graph_eq:
  assumes "wf_graph g"
  shows "g = \<lparr>tg_nodes = map (\<lambda>n. (tn_id n, n)) (nodes g), tg_edges = tg_edges g,
              tg_edge_keys = edge_key ` set (tg_edges g)\<rparr>"
proof -
  have "\<forall>p \<in> set (tg_nodes g). (tn_id (snd p), snd p) = p" using assms by (auto simp: wf_graph_def)
  then have "map (\<lambda>n. (tn_id n, n)) (nodes g) = tg_nodes g"
    by (simp add: nodes_def comp_def map_idI)
  then show ?thesis using assms by (cases g) (simp add: wf_graph_def)
qed

lemma build_nodes_empty_iff:
  "build_nodes ns empty_graph = Inr g \<longleftrightarrow> distinct (map tn_id ns) \<and>
     g = \<lparr>tg_nodes = map (\<lambda>n. (tn_id n, n)) ns, tg_edges = [], tg_edge_keys = {}\<rparr>" (is "?L \<longleftrightarrow> ?R")
proof -
  have spec: "g' = \<lparr>tg_nodes = map (\<lambda>n. (tn_id n, n)) ns, tg_edges = [], tg_edge_keys = {}\<rparr>"
    if "build_nodes ns empty_graph = Inr g'" for g'
    using build_nodes_spec(2)[OF wf_empty_graph that] wf_graph_eq[of g']
    by (simp add: empty_graph_def nodes_def)
  have "(\<exists>g'. build_nodes ns empty_graph = Inr g') \<longleftrightarrow> distinct (map tn_id ns)"
    using build_nodes_spec(1)[OF wf_empty_graph] by (simp add: empty_graph_def node_ids_def)
  then show ?thesis using spec by blast
qed

lemma build_edges_iff:
  assumes wf: "wf_graph g" and ac: "acyclic (edge_rel g)"
  shows "build_edges es g = Inr g' \<longleftrightarrow>
    (\<forall>e \<in> set es. te_from e \<in> set (node_ids g) \<and> te_to e \<in> set (node_ids g))
    \<and> distinct (map edge_key (tg_edges g @ es)) \<and> acyclic (edge_pairs (tg_edges g @ es))
    \<and> g' = \<lparr>tg_nodes = tg_nodes g, tg_edges = tg_edges g @ es,
            tg_edge_keys = edge_key ` set (tg_edges g @ es)\<rparr>" (is "?L \<longleftrightarrow> ?C \<and> ?D \<and> ?A \<and> ?G g'")
proof -
  have sound: "?C \<and> ?D \<and> ?A \<and> ?G h" if "build_edges es g = Inr h" for h
  proof -
    note h = build_edges_sound[OF that wf ac]
    then have keys: "tg_edge_keys h = edge_key ` set (tg_edges g @ es)" and ids: "node_ids h = node_ids g"
      by (auto simp: wf_graph_def node_ids_def)
    from h keys have "?G h" by (cases h) simp
    moreover have "?C" using h ids by (auto simp: wf_graph_def)
    moreover have "distinct (map edge_key (tg_edges h))" using h unfolding wf_graph_def by blast
    then have "?D" using h by simp
    moreover have "?A" using h by (metis edge_rel_pairs)
    ultimately show ?thesis by blast
  qed
  then show ?thesis using build_edges_complete[OF wf] by metis
qed

section \<open>Properties\<close>

text \<open>
  Cycle detection is exact. On a well-formed graph \<^verbatim>\<open>_find_cycle\<close> never raises; it
  returns \<^verbatim>\<open>None\<close> exactly when the dependency relation is acyclic, and otherwise a path
  that is a closed walk along edges or names a node downstream of a cycle.
\<close>

theorem find_cycle_correct:
  assumes "wf_graph g"
  shows "(find_cycle g = Inr None \<longleftrightarrow> acyclic (edge_rel g))
    \<and> (\<not> acyclic (edge_rel g) \<longrightarrow> (\<exists>c. find_cycle g = Inr (Some c) \<and>
         (closed_walk (edge_rel g) c \<or>
          (\<exists>m n. c = [n, n] \<and> (m, m) \<in> (edge_rel g)\<^sup>+ \<and> (m, n) \<in> (edge_rel g)\<^sup>+))))"
  using find_cycle_cases[OF assms] by auto

definition edge_of :: "string \<Rightarrow> string \<Rightarrow> TaskEdge" where
  "edge_of u v = \<lparr>te_from = u, te_to = v, te_type = DATA\<rparr>"

definition two_cycle_graph :: TaskGraph where
  "two_cycle_graph = \<lparr>tg_nodes = [(''a'', task_node ''a'' ''o''), (''b'', task_node ''b'' ''o'')],
     tg_edges = [edge_of ''a'' ''b'', edge_of ''b'' ''a''],
     tg_edge_keys = {(''a'', ''b'', DATA), (''b'', ''a'', DATA)}\<rparr>"

lemma two_cycle_graph_wf: "wf_graph two_cycle_graph"
  by (simp add: wf_graph_def two_cycle_graph_def node_ids_def edge_of_def edge_key_def task_node_def)

lemma two_cycle_graph_cyclic: "\<not> acyclic (edge_rel two_cycle_graph)"
proof -
  have "closed_walk (edge_rel two_cycle_graph) [''a'', ''b'', ''a'']"
    by (simp add: closed_walk_def edge_rel_iff two_cycle_graph_def edge_of_def)
  then show ?thesis by (rule closed_walk_not_acyclic)
qed

theorem find_cycle_correct_witness:
  "wf_graph two_cycle_graph \<and> \<not> acyclic (edge_rel two_cycle_graph)
   \<and> find_cycle two_cycle_graph \<noteq> Inr None \<and> (\<exists>c. find_cycle two_cycle_graph = Inr (Some c))"
  using find_cycle_correct[OF two_cycle_graph_wf] two_cycle_graph_cyclic two_cycle_graph_wf
  by blast

text \<open>
  The builder is fail-fast and atomic. From a well-formed acyclic graph every
  \<^verbatim>\<open>add_edge\<close> call ends in a well-formed acyclic graph; it succeeds exactly when the edge
  is admissible and closes no cycle, and a refused edge leaves the graph unchanged.
\<close>

theorem builder_add_edge_atomic:
  assumes "wf_graph g" and "acyclic (edge_rel g)" and "builder_add_edge g e = (r, g')"
  shows "wf_graph g' \<and> acyclic (edge_rel g')
    \<and> (r = Inr () \<longleftrightarrow> (\<exists>h. add_edge g e = Inr h \<and> acyclic (edge_rel h)))
    \<and> (r = Inr () \<longrightarrow> tg_edges g' = tg_edges g @ [e])
    \<and> (r \<noteq> Inr () \<longrightarrow> g' = g)"
proof (cases "add_edge g e")
  case (Inl err)
  then show ?thesis using assms unfolding builder_add_edge_cases[OF assms(1)] by auto
next
  case (Inr h)
  then show ?thesis
    using assms add_edge_wf[OF assms(1) Inr] add_edge_edges[OF Inr]
    unfolding builder_add_edge_cases[OF assms(1)] by (auto split: if_splits)
qed

theorem builder_add_edge_atomic_witness:
  "\<exists>r g'. builder_add_edge empty_graph (edge_of ''a'' ''b'') = (r, g') \<and> r \<noteq> Inr () \<and> g' = empty_graph"
proof -
  obtain r g' where b: "builder_add_edge empty_graph (edge_of ''a'' ''b'') = (r, g')" by fastforce
  have ac: "acyclic (edge_rel empty_graph)" by (simp add: edge_rel_def empty_graph_def)
  have "r \<noteq> Inr ()" using b by (auto simp: builder_add_edge_def add_edge_def node_ids_def empty_graph_def)
  with b builder_add_edge_atomic[OF wf_empty_graph ac b] show ?thesis by blast
qed

text \<open>
  C36: \<^verbatim>\<open>build_graph\<close> accepts exactly the lists of nodes and edges that form an acyclic
  graph (distinct node ids, known edge ends, no repeated typed edge, no cycle), and
  then returns the graph with these nodes and edges in the given order.
\<close>

theorem build_graph_iff:
  "build_graph ns es = Inr g \<longleftrightarrow>
     distinct (map tn_id ns)
     \<and> (\<forall>e \<in> set es. te_from e \<in> tn_id ` set ns \<and> te_to e \<in> tn_id ` set ns)
     \<and> distinct (map edge_key es) \<and> acyclic (edge_pairs es)
     \<and> g = \<lparr>tg_nodes = map (\<lambda>n. (tn_id n, n)) ns, tg_edges = es,
            tg_edge_keys = edge_key ` set es\<rparr>"
proof -
  let ?g0 = "\<lparr>tg_nodes = map (\<lambda>n. (tn_id n, n)) ns, tg_edges = [], tg_edge_keys = {}\<rparr>"
  have "build_graph ns es = Inr g \<longleftrightarrow> distinct (map tn_id ns) \<and> build_edges es ?g0 = Inr g"
    using build_nodes_empty_iff by (auto simp: build_graph_def)
  moreover have "wf_graph ?g0" and "acyclic (edge_rel ?g0)" if "distinct (map tn_id ns)"
    using that by (auto simp: wf_graph_def node_ids_def comp_def edge_rel_def)
  ultimately show ?thesis
    using build_edges_iff[of ?g0 es g] by (auto simp: node_ids_def comp_def image_image)
qed

theorem build_graph_iff_witness:
  "\<exists>g. build_graph [task_node ''a'' ''o'', task_node ''b'' ''o''] [edge_of ''a'' ''b''] = Inr g
     \<and> node_ids g = [''a'', ''b'']"
proof -
  have ac: "acyclic (edge_pairs [edge_of ''a'' ''b''])"
    by (rule acyclic_if_ordered[where P = "[''a'', ''b'']"])
       (auto simp: edge_pairs_def edge_of_def Cons_eq_append_conv)
  have d: "distinct (map tn_id [task_node ''a'' ''o'', task_node ''b'' ''o''])"
    by (simp add: task_node_def)
  let ?g = "\<lparr>tg_nodes = map (\<lambda>n. (tn_id n, n)) [task_node ''a'' ''o'', task_node ''b'' ''o''],
    tg_edges = [edge_of ''a'' ''b''], tg_edge_keys = edge_key ` set [edge_of ''a'' ''b'']\<rparr>"
  have "build_graph [task_node ''a'' ''o'', task_node ''b'' ''o''] [edge_of ''a'' ''b''] = Inr ?g"
    unfolding build_graph_iff using ac d by (simp add: edge_of_def task_node_def)
  then show ?thesis by (simp add: node_ids_def task_node_def)
qed


end
