(* ===== verification/Barriers.thy ===== *)
theory Barriers
  imports Task_Graph "HOL-Library.Multiset"
begin

text \<open>
  Fan-out and fan-in completeness barriers,
  \<^verbatim>\<open>src/src/a_conductor/graph/barriers.py\<close>: the lifecycle observations of the
  children of a node, and the report that says which of them are missing,
  pending, successful, failed, skipped, or silent about a promised output.
\<close>

section \<open>Observations\<close>

datatype barrier_error =
    TextBlank string
  | SuccessfulAndSkipped
  | OutcomeNotTerminal
  | IdentityMismatch string
  | UnknownAnchor string
  | NodeKeyError string

definition text_arg :: "string \<Rightarrow> string \<Rightarrow> barrier_error + string" where
  "text_arg v field = (if blank v then Inl (TextBlank field) else Inr (py_strip v))"

record FanInChildObservation =
  ob_node_id :: string
  ob_terminal :: bool
  ob_successful :: bool
  ob_skipped :: bool
  ob_outputs :: "string list"

fun text_args :: "string list \<Rightarrow> string \<Rightarrow> barrier_error + string list" where
  "text_args [] field = Inr []"
| "text_args (v # vs) field =
     res_bind (text_arg v field) (\<lambda>x. res_bind (text_args vs field) (\<lambda>xs. Inr (x # xs)))"

definition Observation_post_init :: "FanInChildObservation \<Rightarrow> barrier_error + FanInChildObservation" where
  "Observation_post_init ob =
     res_bind (text_arg (ob_node_id ob) ''node_id'') (\<lambda>i.
     if ob_successful ob \<and> ob_skipped ob then Inl SuccessfulAndSkipped
     else if (ob_successful ob \<or> ob_skipped ob) \<and> \<not> ob_terminal ob then Inl OutcomeNotTerminal
     else res_bind (text_args (ob_outputs ob) ''observed_outputs'') (\<lambda>outs.
       Inr (ob\<lparr>ob_node_id := i, ob_outputs := outs\<rparr>)))"

section \<open>Barrier evaluation\<close>

record CompletenessBarrierResult =
  cb_anchor :: string
  cb_expected :: "string list"
  cb_missing :: "string list"
  cb_pending :: "string list"
  cb_successful :: "string list"
  cb_failed :: "string list"
  cb_skipped :: "string list"
  cb_silent :: "string list"
  cb_gaps :: "(string \<times> string list) list"

definition is_complete :: "CompletenessBarrierResult \<Rightarrow> bool" where
  "is_complete r \<longleftrightarrow> \<not> (cb_missing r \<noteq> [] \<or> cb_pending r \<noteq> [] \<or> cb_silent r \<noteq> [])"

definition is_satisfied :: "CompletenessBarrierResult \<Rightarrow> bool" where
  "is_satisfied r \<longleftrightarrow> is_complete r \<and> cb_failed r = []"

definition normalize_step ::
  "string \<times> FanInChildObservation \<Rightarrow> FanInChildObservation dict \<Rightarrow> barrier_error + FanInChildObservation dict" where
  "normalize_step = (\<lambda>(k, ob) d. res_bind (text_arg k ''observation key'') (\<lambda>key.
     if key \<noteq> ob_node_id ob then Inl (IdentityMismatch key)
     else Inr (AList.update key ob d)))"

definition normalize_observations ::
  "FanInChildObservation dict \<Rightarrow> barrier_error + FanInChildObservation dict" where
  "normalize_observations obs = res_fold normalize_step obs []"

definition expected_outputs :: "TaskGraph \<Rightarrow> string \<Rightarrow> barrier_error + string list" where
  "expected_outputs g i = (case node g i of
       None \<Rightarrow> Inl (NodeKeyError i)
     | Some n \<Rightarrow> text_args (tn_expected_outputs n) (i @ ''.expected_outputs''))"

definition output_step ::
  "TaskGraph \<Rightarrow> FanInChildObservation \<Rightarrow> string \<Rightarrow> CompletenessBarrierResult
     \<Rightarrow> barrier_error + CompletenessBarrierResult" where
  "output_step g ob c r = res_bind (expected_outputs g c) (\<lambda>expected.
     let gap = sort (remdups (filter (\<lambda>x. x \<notin> set (ob_outputs ob)) expected)) in
     Inr (if gap \<noteq> [] then r\<lparr>cb_silent := cb_silent r @ [c], cb_gaps := cb_gaps r @ [(c, gap)]\<rparr> else r))"

definition child_step ::
  "TaskGraph \<Rightarrow> FanInChildObservation dict \<Rightarrow> string \<Rightarrow> CompletenessBarrierResult
     \<Rightarrow> barrier_error + CompletenessBarrierResult" where
  "child_step g normalized c r =
     (case map_of normalized c of
        None \<Rightarrow> Inr (r\<lparr>cb_missing := cb_missing r @ [c]\<rparr>)
      | Some ob \<Rightarrow>
          if \<not> ob_terminal ob then Inr (r\<lparr>cb_pending := cb_pending r @ [c]\<rparr>)
          else if ob_successful ob
          then output_step g ob c (r\<lparr>cb_successful := cb_successful r @ [c]\<rparr>)
          else if ob_skipped ob
          then output_step g ob c (r\<lparr>cb_skipped := cb_skipped r @ [c]\<rparr>)
          else Inr (r\<lparr>cb_failed := cb_failed r @ [c]\<rparr>))"

definition evaluate_expected_children ::
  "TaskGraph \<Rightarrow> string \<Rightarrow> string list \<Rightarrow> FanInChildObservation dict
     \<Rightarrow> barrier_error + CompletenessBarrierResult" where
  "evaluate_expected_children g target expected obs =
     res_bind (normalize_observations obs) (\<lambda>normalized.
       res_fold (child_step g normalized) expected
         \<lparr>cb_anchor = target, cb_expected = expected, cb_missing = [], cb_pending = [],
          cb_successful = [], cb_failed = [], cb_skipped = [], cb_silent = [], cb_gaps = []\<rparr>)"

definition require_graph_node :: "TaskGraph \<Rightarrow> string \<Rightarrow> string \<Rightarrow> barrier_error + string" where
  "require_graph_node g i field = res_bind (text_arg i field) (\<lambda>i'.
     if i' \<notin> set (node_ids g) then Inl (UnknownAnchor i') else Inr i')"

definition evaluate_fan_in_barrier ::
  "TaskGraph \<Rightarrow> string \<Rightarrow> FanInChildObservation dict \<Rightarrow> barrier_error + CompletenessBarrierResult" where
  "evaluate_fan_in_barrier g target obs =
     res_bind (require_graph_node g target ''target_node_id'') (\<lambda>t.
       evaluate_expected_children g t (sort (remdups (map te_from (edges_to g t)))) obs)"

definition evaluate_fan_out_barrier ::
  "TaskGraph \<Rightarrow> string \<Rightarrow> FanInChildObservation dict \<Rightarrow> barrier_error + CompletenessBarrierResult" where
  "evaluate_fan_out_barrier g parent obs =
     res_bind (require_graph_node g parent ''parent_node_id'') (\<lambda>p.
       evaluate_expected_children g p (sort (remdups (map te_to (edges_from g p)))) obs)"

section \<open>What the loop collects\<close>

definition ended_with ::
  "FanInChildObservation dict \<Rightarrow> (FanInChildObservation \<Rightarrow> bool) \<Rightarrow> string \<Rightarrow> bool" where
  "ended_with d P c = (case map_of d c of None \<Rightarrow> False | Some ob \<Rightarrow> ob_terminal ob \<and> P ob)"

definition child_gap :: "TaskGraph \<Rightarrow> FanInChildObservation dict \<Rightarrow> string \<Rightarrow> string list" where
  "child_gap g d c = (case (map_of d c, expected_outputs g c) of
       (Some ob, Inr expected) \<Rightarrow> sort (remdups (filter (\<lambda>x. x \<notin> set (ob_outputs ob)) expected))
     | _ \<Rightarrow> [])"

definition good_end :: "FanInChildObservation \<Rightarrow> bool" where
  "good_end ob = (ob_successful ob \<or> ob_skipped ob)"

text \<open>The lists the loop adds for the children \<^verbatim>\<open>cs\<close>, in closed form.\<close>

definition collected ::
  "TaskGraph \<Rightarrow> FanInChildObservation dict \<Rightarrow> string list \<Rightarrow> CompletenessBarrierResult
     \<Rightarrow> CompletenessBarrierResult" where
  "collected g d cs r = (let silent = filter (\<lambda>c. ended_with d good_end c \<and> child_gap g d c \<noteq> []) cs in
     r\<lparr>cb_missing := cb_missing r @ filter (\<lambda>c. map_of d c = None) cs,
       cb_pending := cb_pending r @ filter (\<lambda>c. map_of d c \<noteq> None \<and> \<not> ended_with d (\<lambda>_. True) c) cs,
       cb_successful := cb_successful r @ filter (ended_with d ob_successful) cs,
       cb_failed := cb_failed r @ filter (ended_with d (\<lambda>ob. \<not> good_end ob)) cs,
       cb_skipped := cb_skipped r @ filter (ended_with d (\<lambda>ob. \<not> ob_successful ob \<and> ob_skipped ob)) cs,
       cb_silent := cb_silent r @ silent,
       cb_gaps := cb_gaps r @ map (\<lambda>c. (c, child_gap g d c)) silent\<rparr>)"

lemma collected_Nil: "collected g d [] r = r"
  by (simp add: collected_def)

lemma collected_Cons: "collected g d cs (collected g d [c] r) = collected g d (c # cs) r"
  by (simp add: collected_def Let_def)

lemma output_step_Inr:
  assumes "output_step g ob c r = Inr r'" and "map_of d c = Some ob"
  shows "r' = (if child_gap g d c \<noteq> []
    then r\<lparr>cb_silent := cb_silent r @ [c], cb_gaps := cb_gaps r @ [(c, child_gap g d c)]\<rparr> else r)"
  using assms by (auto simp: output_step_def child_gap_def Let_def)

lemma child_step_Inr:
  assumes "child_step g d c r = Inr r'"
  shows "r' = collected g d [c] r"
proof (cases "map_of d c")
  case None
  then have "r' = r\<lparr>cb_missing := cb_missing r @ [c]\<rparr>" using assms by (simp add: child_step_def)
  with None show ?thesis by (cases r) (simp add: collected_def Let_def ended_with_def)
next
  case (Some ob)
  consider "\<not> ob_terminal ob" | "ob_terminal ob" "ob_successful ob"
    | "ob_terminal ob" "\<not> ob_successful ob" "ob_skipped ob"
    | "ob_terminal ob" "\<not> ob_successful ob" "\<not> ob_skipped ob" by blast
  then show ?thesis
  proof cases
    case 1
    then have "r' = r\<lparr>cb_pending := cb_pending r @ [c]\<rparr>"
      using assms Some by (simp add: child_step_def)
    with 1 Some show ?thesis by (cases r) (simp add: collected_def Let_def ended_with_def)
  next
    case 2
    then have "output_step g ob c (r\<lparr>cb_successful := cb_successful r @ [c]\<rparr>) = Inr r'"
      using assms Some by (simp add: child_step_def)
    from output_step_Inr[OF this Some] 2 Some show ?thesis
      by (cases r) (simp add: collected_def Let_def ended_with_def good_end_def)
  next
    case 3
    then have "output_step g ob c (r\<lparr>cb_skipped := cb_skipped r @ [c]\<rparr>) = Inr r'"
      using assms Some by (simp add: child_step_def)
    from output_step_Inr[OF this Some] 3 Some show ?thesis
      by (cases r) (simp add: collected_def Let_def ended_with_def good_end_def)
  next
    case 4
    then have "r' = r\<lparr>cb_failed := cb_failed r @ [c]\<rparr>"
      using assms Some by (simp add: child_step_def)
    with 4 Some show ?thesis by (cases r) (simp add: collected_def Let_def ended_with_def good_end_def)
  qed
qed

lemma child_fold_Inr:
  assumes "res_fold (child_step g d) cs r = Inr r'"
  shows "r' = collected g d cs r"
  using assms
proof (induction cs arbitrary: r)
  case Nil
  then show ?case by (simp add: collected_Nil)
next
  case (Cons c cs)
  then obtain s where "child_step g d c r = Inr s" "res_fold (child_step g d) cs s = Inr r'"
    by (auto split: sum.splits)
  then show ?case using Cons.IH[of s] child_step_Inr[of g d c r s] collected_Cons by metis
qed

text \<open>The loop raises only for a blank name among the expected outputs of a finished child.\<close>

lemma text_args_Inr_iff: "(\<exists>xs. text_args vs f = Inr xs) \<longleftrightarrow> (\<forall>v \<in> set vs. \<not> blank v)"
  by (induction vs) (auto simp: text_arg_def)

lemma text_args_Inr: "text_args vs f = Inr xs \<Longrightarrow> xs = map py_strip vs"
  by (induction vs arbitrary: xs) (auto simp: text_arg_def split: if_splits)

definition outputs_named :: "TaskGraph \<Rightarrow> bool" where
  "outputs_named g \<longleftrightarrow> (\<forall>n \<in> set (nodes g). \<forall>v \<in> set (tn_expected_outputs n). \<not> blank v)"

lemma expected_outputs_total:
  assumes "wf_graph g" "outputs_named g" "i \<in> set (node_ids g)"
  shows "\<exists>n. node g i = Some n \<and> expected_outputs g i = Inr (map py_strip (tn_expected_outputs n))"
proof -
  obtain n where n: "node g i = Some n" using assms(3) node_ids_iff by auto
  then have "n \<in> set (nodes g)" using wf_node_Some_iff[OF assms(1)] by blast
  with assms(2) have "\<exists>xs. text_args (tn_expected_outputs n) (i @ ''.expected_outputs'') = Inr xs"
    unfolding text_args_Inr_iff by (auto simp: outputs_named_def)
  then show ?thesis using n text_args_Inr by (fastforce simp: expected_outputs_def)
qed

lemma child_step_total:
  assumes "wf_graph g" "outputs_named g" "c \<in> set (node_ids g)"
  shows "\<exists>r'. child_step g d c r = Inr r'"
  using expected_outputs_total[OF assms]
  by (auto simp: child_step_def output_step_def Let_def split: option.split)

lemma child_fold_total:
  assumes "wf_graph g" "outputs_named g" "set cs \<subseteq> set (node_ids g)"
  shows "\<exists>r'. res_fold (child_step g d) cs r = Inr r'"
  using assms(3)
proof (induction cs arbitrary: r)
  case (Cons c cs)
  then obtain s where "child_step g d c r = Inr s" using child_step_total[OF assms(1,2)] by fastforce
  with Cons show ?case by auto
qed simp

lemma evaluate_Inr:
  assumes "evaluate_expected_children g t cs obs = Inr r"
  shows "\<exists>d. normalize_observations obs = Inr d \<and> r = collected g d cs
    \<lparr>cb_anchor = t, cb_expected = cs, cb_missing = [], cb_pending = [], cb_successful = [],
     cb_failed = [], cb_skipped = [], cb_silent = [], cb_gaps = []\<rparr>"
  using assms child_fold_Inr by (fastforce simp: evaluate_expected_children_def)

lemma fan_in_Inr:
  assumes "evaluate_fan_in_barrier g t obs = Inr r"
  shows "py_strip t \<in> set (node_ids g)
    \<and> evaluate_expected_children g (py_strip t)
        (sort (remdups (map te_from (edges_to g (py_strip t))))) obs = Inr r"
  using assms by (auto simp: evaluate_fan_in_barrier_def require_graph_node_def text_arg_def
      split: if_splits)

lemma child_gap_Nil_iff:
  assumes "map_of d c = Some ob" "expected_outputs g c = Inr xs"
  shows "child_gap g d c = [] \<longleftrightarrow> set xs \<subseteq> set (ob_outputs ob)"
proof -
  have "child_gap g d c = [] \<longleftrightarrow> set (child_gap g d c) = {}" by simp
  also have "set (child_gap g d c) = {x \<in> set xs. x \<notin> set (ob_outputs ob)}"
    using assms by (simp add: child_gap_def)
  finally show ?thesis by blast
qed

lemma collected_satisfied_iff:
  assumes "r = collected g d cs
    \<lparr>cb_anchor = t, cb_expected = cs, cb_missing = [], cb_pending = [], cb_successful = [],
     cb_failed = [], cb_skipped = [], cb_silent = [], cb_gaps = []\<rparr>"
  shows "is_satisfied r \<longleftrightarrow> (\<forall>c \<in> set cs. ended_with d good_end c \<and> child_gap g d c = [])"
  unfolding assms is_satisfied_def is_complete_def collected_def
  by (auto simp: Let_def filter_empty_conv ended_with_def split: option.splits)

section \<open>Properties\<close>

text \<open>
  A fan-in barrier is satisfied exactly when every predecessor of the join node has a
  terminal observation that is successful or skipped and that lists every output the
  predecessor promised.
\<close>

theorem fan_in_barrier_satisfied_iff:
  assumes wf: "wf_graph g" and named: "outputs_named g"
    and d: "normalize_observations obs = Inr d"
    and r: "evaluate_fan_in_barrier g t obs = Inr r"
  shows "is_satisfied r \<longleftrightarrow> (\<forall>u n. (u, py_strip t) \<in> edge_rel g \<longrightarrow> node g u = Some n \<longrightarrow>
    (\<exists>ob. map_of d u = Some ob \<and> ob_terminal ob \<and> (ob_successful ob \<or> ob_skipped ob)
       \<and> py_strip ` set (tn_expected_outputs n) \<subseteq> set (ob_outputs ob)))"
proof -
  let ?cs = "sort (remdups (map te_from (edges_to g (py_strip t))))"
  have cs: "set ?cs = {u. (u, py_strip t) \<in> edge_rel g}"
    by (auto simp: edges_to_def edge_rel_iff)
  have "(ended_with d good_end u \<and> child_gap g d u = []) \<longleftrightarrow>
    (\<forall>n. node g u = Some n \<longrightarrow> (\<exists>ob. map_of d u = Some ob \<and> ob_terminal ob
       \<and> (ob_successful ob \<or> ob_skipped ob)
       \<and> py_strip ` set (tn_expected_outputs n) \<subseteq> set (ob_outputs ob)))"
    if edge: "(u, py_strip t) \<in> edge_rel g" for u
  proof -
    obtain n where n: "node g u = Some n" "expected_outputs g u = Inr (map py_strip (tn_expected_outputs n))"
      using expected_outputs_total[OF wf named edge_rel_fields(1)[OF wf edge]] by blast
    show ?thesis
    proof (cases "map_of d u")
      case (Some ob)
      have "ended_with d good_end u \<longleftrightarrow> ob_terminal ob \<and> (ob_successful ob \<or> ob_skipped ob)"
        by (simp add: ended_with_def good_end_def Some)
      moreover have "child_gap g d u = [] \<longleftrightarrow> py_strip ` set (tn_expected_outputs n) \<subseteq> set (ob_outputs ob)"
        using child_gap_Nil_iff[OF Some n(2)] by simp
      ultimately show ?thesis using n(1) Some by (simp only: option.inject) blast
    qed (use n(1) in \<open>simp add: ended_with_def\<close>)
  qed
  moreover have "is_satisfied r \<longleftrightarrow> (\<forall>c \<in> set ?cs. ended_with d good_end c \<and> child_gap g d c = [])"
  proof -
    obtain d' where "normalize_observations obs = Inr d'" and r': "r = collected g d' ?cs
      \<lparr>cb_anchor = py_strip t, cb_expected = ?cs, cb_missing = [], cb_pending = [], cb_successful = [],
       cb_failed = [], cb_skipped = [], cb_silent = [], cb_gaps = []\<rparr>"
      using fan_in_Inr[OF r] evaluate_Inr by blast
    with d have "d' = d" by simp
    with collected_satisfied_iff[OF r'] show ?thesis by simp
  qed
  ultimately show ?thesis unfolding cs by blast
qed

definition join_graph :: TaskGraph where
  "join_graph = \<lparr>tg_nodes = [(''a'', (task_node ''a'' ''o'')\<lparr>tn_expected_outputs := [''out'']\<rparr>),
       (''b'', task_node ''b'' ''o'')],
     tg_edges = [\<lparr>te_from = ''a'', te_to = ''b'', te_type = DATA\<rparr>],
     tg_edge_keys = {(''a'', ''b'', DATA)}\<rparr>"

definition join_obs :: "FanInChildObservation dict" where
  "join_obs = [(''a'', \<lparr>ob_node_id = ''a'', ob_terminal = True, ob_successful = True,
     ob_skipped = False, ob_outputs = [''out'']\<rparr>)]"

lemma join_graph_wf: "wf_graph join_graph"
  by (simp add: wf_graph_def join_graph_def node_ids_def edge_key_def task_node_def)

lemma join_graph_named: "outputs_named join_graph"
  by code_simp

lemma join_barrier: "normalize_observations join_obs = Inr join_obs"
  "evaluate_fan_in_barrier join_graph ''b'' join_obs = Inr \<lparr>cb_anchor = ''b'', cb_expected = [''a''],
     cb_missing = [], cb_pending = [], cb_successful = [''a''], cb_failed = [], cb_skipped = [],
     cb_silent = [], cb_gaps = []\<rparr>"
  by code_simp+

theorem fan_in_barrier_satisfied_iff_witness:
  "\<exists>r. evaluate_fan_in_barrier join_graph ''b'' join_obs = Inr r \<and> is_satisfied r
     \<and> (\<exists>ob. map_of join_obs ''a'' = Some ob \<and> ob_successful ob \<and> ''out'' \<in> set (ob_outputs ob))"
proof -
  have e: "(''a'', py_strip ''b'') \<in> edge_rel join_graph"
    by (auto simp: edge_rel_iff join_graph_def py_strip_def py_lstrip_def py_isspace_def)
  have n: "node join_graph ''a'' = Some ((task_node ''a'' ''o'')\<lparr>tn_expected_outputs := [''out'']\<rparr>)"
    by code_simp
  from fan_in_barrier_satisfied_iff[OF join_graph_wf join_graph_named join_barrier] e n
  show ?thesis using join_barrier(2)
    by (fastforce simp: is_satisfied_def is_complete_def join_obs_def)
qed

text \<open>
  The report is a partition. Every predecessor of the join node is listed, once, as
  exactly one of missing, pending, successful, failed and skipped.
\<close>

theorem fan_in_barrier_partition:
  assumes "evaluate_fan_in_barrier g t obs = Inr r"
  shows "mset (cb_expected r) = mset (cb_missing r) + mset (cb_pending r) + mset (cb_successful r)
      + mset (cb_failed r) + mset (cb_skipped r)
    \<and> set (cb_expected r) = {u. (u, py_strip t) \<in> edge_rel g} \<and> distinct (cb_expected r)
    \<and> cb_silent r = map fst (cb_gaps r) \<and> set (cb_silent r) \<subseteq> set (cb_successful r) \<union> set (cb_skipped r)"
proof -
  let ?cs = "sort (remdups (map te_from (edges_to g (py_strip t))))"
  obtain d where r: "r = collected g d ?cs \<lparr>cb_anchor = py_strip t, cb_expected = ?cs, cb_missing = [],
      cb_pending = [], cb_successful = [], cb_failed = [], cb_skipped = [], cb_silent = [], cb_gaps = []\<rparr>"
    using fan_in_Inr[OF assms] evaluate_Inr by blast
  have part: "mset cs = mset (filter (\<lambda>c. map_of d c = None) cs)
    + mset (filter (\<lambda>c. map_of d c \<noteq> None \<and> \<not> ended_with d (\<lambda>_. True) c) cs)
    + mset (filter (ended_with d ob_successful) cs) + mset (filter (ended_with d (\<lambda>ob. \<not> good_end ob)) cs)
    + mset (filter (ended_with d (\<lambda>ob. \<not> ob_successful ob \<and> ob_skipped ob)) cs)" for cs
    by (induction cs) (auto simp: ended_with_def good_end_def split: option.splits)
  have ends: "ended_with d good_end c \<Longrightarrow> ended_with d ob_successful c
    \<or> ended_with d (\<lambda>ob. \<not> ob_successful ob \<and> ob_skipped ob) c" for c
    by (auto simp: ended_with_def good_end_def split: option.splits)
  have "set ?cs = {u. (u, py_strip t) \<in> edge_rel g}" by (auto simp: edges_to_def edge_rel_iff)
  then show ?thesis unfolding r using part[of ?cs] ends
    by (auto simp: collected_def Let_def comp_def)
qed

theorem fan_in_barrier_partition_witness:
  "\<exists>r. evaluate_fan_in_barrier join_graph ''b'' [] = Inr r \<and> cb_missing r = [''a'']
     \<and> mset (cb_expected r) = mset (cb_missing r)"
proof -
  have e: "evaluate_fan_in_barrier join_graph ''b'' [] = Inr \<lparr>cb_anchor = ''b'', cb_expected = [''a''],
     cb_missing = [''a''], cb_pending = [], cb_successful = [], cb_failed = [], cb_skipped = [],
     cb_silent = [], cb_gaps = []\<rparr>" by code_simp
  from fan_in_barrier_partition[OF this] e show ?thesis by simp
qed

end
