(* ===== verification/Core_Domain.thy ===== *)
theory Core_Domain
  imports Conductor_Prelude
begin

text \<open>
  The provider-neutral domain types, \<^verbatim>\<open>src/src/a_conductor/domain.py\<close>: the task, worker and
  health states and the validated value objects. Also the exceptions that cross the
  boundaries of the modelled modules, one constructor per exception class of the
  source, carrying the code or the name of the refused field; \<open>BackendErr\<close> is any other
  exception an injected adapter raises.
\<close>

section \<open>Exceptions\<close>

datatype exn =
    ValueErr string
  | AssertionErr string
  | JobStateErr string
  | JobStoreErr string
  | CoordinatorErr string bool
  | GraphDispatchErr string
  | BridgeErr string
  | LifecycleErr string bool
  | JournalErr string
  | CheckpointConflictErr
  | SequenceErr int
  | DuplicateRegistrationErr string
  | AssignmentConflictErr string
  | RegistryNotFoundErr string
  | WorkerBusyErr string
  | WorkerLeaseErr string
  | ExecutionStoreErr string
  | TransportRecoveryErr string
  | AdmissionDeniedErr string
  | DexEvidenceErr string
  | WireErr string
  | StmErr string
  | ProcessDeath
  | BackendErr

definition require_text :: "string \<Rightarrow> string \<Rightarrow> exn + string" where
  "require_text v field = (if blank v then Inl (ValueErr field) else Inr v)"

definition require_optional_text :: "string option \<Rightarrow> string \<Rightarrow> exn + string option" where
  "require_optional_text v field = (case v of
     None \<Rightarrow> Inr None | Some x \<Rightarrow> res_bind (require_text x field) (\<lambda>x. Inr (Some x)))"

definition require_positive_int :: "int \<Rightarrow> string \<Rightarrow> exn + int" where
  "require_positive_int v field = (if v < 1 then Inl (ValueErr field) else Inr v)"

definition require_nonnegative_int :: "int \<Rightarrow> string \<Rightarrow> exn + int" where
  "require_nonnegative_int v field = (if v < 0 then Inl (ValueErr field) else Inr v)"

definition nonblank_opt :: "string option \<Rightarrow> bool" where
  "nonblank_opt v = (case v of None \<Rightarrow> True | Some x \<Rightarrow> \<not> blank x)"

lemma require_text_Inr [simp]: "require_text v f = Inr x \<longleftrightarrow> \<not> blank v \<and> x = v"
  by (auto simp: require_text_def)

lemma require_optional_text_Inr [simp]:
  "require_optional_text v f = Inr x \<longleftrightarrow> nonblank_opt v \<and> x = v"
  by (auto simp: require_optional_text_def nonblank_opt_def split: option.splits)

lemma require_positive_int_Inr [simp]: "require_positive_int v f = Inr x \<longleftrightarrow> v \<ge> 1 \<and> x = v"
  by (auto simp: require_positive_int_def)

lemma require_nonnegative_int_Inr [simp]: "require_nonnegative_int v f = Inr x \<longleftrightarrow> v \<ge> 0 \<and> x = v"
  by (auto simp: require_nonnegative_int_def)

lemma nonblank_opt_simps [simp]: "nonblank_opt None" "nonblank_opt (Some x) = (\<not> blank x)"
  by (simp_all add: nonblank_opt_def)

section \<open>States\<close>

datatype TaskState =
    NEW | PLANNING | READY | CLAIMED | GATING | EXECUTING | VERIFYING | REPAIRING
  | REVIEW_PENDING | CHANGES_REQUIRED | BLOCKED | RECOVERY_NEEDED | COMPLETE | FAILED | CANCELLED

datatype RecoveryClassification =
    NO_MUTATION | PARTIAL_MUTATION | MUTATION_COMPLETE_UNVERIFIED | COMPLETE_VERIFIED
  | UNEXPECTED_DRIFT | UNKNOWN

datatype ReviewOutcome = REVIEW_PASS | REVIEW_CHANGES_REQUIRED | REVIEW_BLOCKED | REVIEW_ESCALATE

datatype WorkerState = W_STOPPED | W_STARTING | W_READY | W_BUSY | W_STOPPING | W_ERROR

definition all_task_states :: "TaskState list" where
  "all_task_states = [NEW, PLANNING, READY, CLAIMED, GATING, EXECUTING, VERIFYING, REPAIRING,
     REVIEW_PENDING, CHANGES_REQUIRED, BLOCKED, RECOVERY_NEEDED, COMPLETE, FAILED, CANCELLED]"

definition all_recoveries :: "RecoveryClassification list" where
  "all_recoveries = [NO_MUTATION, PARTIAL_MUTATION, MUTATION_COMPLETE_UNVERIFIED, COMPLETE_VERIFIED,
     UNEXPECTED_DRIFT, UNKNOWN]"

fun task_state_value :: "TaskState \<Rightarrow> string" where
  "task_state_value NEW = ''NEW''"
| "task_state_value PLANNING = ''PLANNING''"
| "task_state_value READY = ''READY''"
| "task_state_value CLAIMED = ''CLAIMED''"
| "task_state_value GATING = ''GATING''"
| "task_state_value EXECUTING = ''EXECUTING''"
| "task_state_value VERIFYING = ''VERIFYING''"
| "task_state_value REPAIRING = ''REPAIRING''"
| "task_state_value REVIEW_PENDING = ''REVIEW_PENDING''"
| "task_state_value CHANGES_REQUIRED = ''CHANGES_REQUIRED''"
| "task_state_value BLOCKED = ''BLOCKED''"
| "task_state_value RECOVERY_NEEDED = ''RECOVERY_NEEDED''"
| "task_state_value COMPLETE = ''COMPLETE''"
| "task_state_value FAILED = ''FAILED''"
| "task_state_value CANCELLED = ''CANCELLED''"

fun recovery_value :: "RecoveryClassification \<Rightarrow> string" where
  "recovery_value NO_MUTATION = ''NO_MUTATION''"
| "recovery_value PARTIAL_MUTATION = ''PARTIAL_MUTATION''"
| "recovery_value MUTATION_COMPLETE_UNVERIFIED = ''MUTATION_COMPLETE_UNVERIFIED''"
| "recovery_value COMPLETE_VERIFIED = ''COMPLETE_VERIFIED''"
| "recovery_value UNEXPECTED_DRIFT = ''UNEXPECTED_DRIFT''"
| "recovery_value UNKNOWN = ''UNKNOWN''"

text \<open>\<^verbatim>\<open>TaskState(value)\<close> and \<^verbatim>\<open>RecoveryClassification(value)\<close>: the enum member with that value.\<close>

definition task_state_of :: "string \<Rightarrow> exn + TaskState" where
  "task_state_of v = (case filter (\<lambda>s. task_state_value s = v) all_task_states of
     [] \<Rightarrow> Inl (ValueErr v) | s # _ \<Rightarrow> Inr s)"

definition recovery_of :: "string \<Rightarrow> exn + RecoveryClassification" where
  "recovery_of v = (case filter (\<lambda>s. recovery_value s = v) all_recoveries of
     [] \<Rightarrow> Inl (ValueErr v) | s # _ \<Rightarrow> Inr s)"

lemma task_state_of_value [simp]: "task_state_of (task_state_value s) = Inr s"
  by (cases s) (simp_all add: task_state_of_def all_task_states_def)

lemma recovery_of_value [simp]: "recovery_of (recovery_value s) = Inr s"
  by (cases s) (simp_all add: recovery_of_def all_recoveries_def)

section \<open>Value objects\<close>

record Capability =
  cp_name :: string
  cp_version :: "string option"

definition Capability_post_init :: "Capability \<Rightarrow> exn + Capability" where
  "Capability_post_init c = res_bind (require_text (cp_name c) ''name'') (\<lambda>_.
     res_bind (require_optional_text (cp_version c) ''version'') (\<lambda>_. Inr c))"

record Project =
  pj_project_id :: string
  pj_display_name :: string
  pj_root_path :: string

definition Project_post_init :: "Project \<Rightarrow> exn + Project" where
  "Project_post_init p = res_bind (require_text (pj_project_id p) ''project_id'') (\<lambda>_.
     res_bind (require_text (pj_display_name p) ''display_name'') (\<lambda>_.
     res_bind (require_text (pj_root_path p) ''root_path'') (\<lambda>_. Inr p)))"

record Worker =
  wk_worker_id :: string
  wk_display_name :: string
  wk_runtime_id :: "string option"
  wk_assignment_id :: "string option"
  wk_state :: WorkerState

definition Worker_post_init :: "Worker \<Rightarrow> exn + Worker" where
  "Worker_post_init w = res_bind (require_text (wk_worker_id w) ''worker_id'') (\<lambda>_.
     res_bind (require_text (wk_display_name w) ''display_name'') (\<lambda>_.
     res_bind (require_optional_text (wk_runtime_id w) ''runtime_id'') (\<lambda>_.
     res_bind (require_optional_text (wk_assignment_id w) ''assignment_id'') (\<lambda>_. Inr w))))"

record Assignment =
  as_assignment_id :: string
  as_worker_id :: string
  as_project_id :: string
  as_runtime_id :: "string option"

definition Assignment_post_init :: "Assignment \<Rightarrow> exn + Assignment" where
  "Assignment_post_init a = res_bind (require_text (as_assignment_id a) ''assignment_id'') (\<lambda>_.
     res_bind (require_text (as_worker_id a) ''worker_id'') (\<lambda>_.
     res_bind (require_text (as_project_id a) ''project_id'') (\<lambda>_.
     res_bind (require_optional_text (as_runtime_id a) ''runtime_id'') (\<lambda>_. Inr a))))"

record Execution =
  ex_execution_id :: string
  ex_task_id :: string
  ex_attempt_no :: int
  ex_worker_id :: string
  ex_runtime_id :: "string option"

definition Execution_post_init :: "Execution \<Rightarrow> exn + Execution" where
  "Execution_post_init e = res_bind (require_text (ex_execution_id e) ''execution_id'') (\<lambda>_.
     res_bind (require_text (ex_task_id e) ''task_id'') (\<lambda>_.
     res_bind (require_text (ex_worker_id e) ''worker_id'') (\<lambda>_.
     res_bind (require_optional_text (ex_runtime_id e) ''runtime_id'') (\<lambda>_.
     if ex_attempt_no e < 1 then Inl (ValueErr ''attempt_no'') else Inr e))))"

record ReviewResult =
  rv_outcome :: ReviewOutcome
  rv_summary :: string
  rv_evidence_refs :: "string list"

fun require_texts :: "string list \<Rightarrow> string \<Rightarrow> exn + unit" where
  "require_texts [] field = Inr ()"
| "require_texts (v # vs) field = res_bind (require_text v field) (\<lambda>_. require_texts vs field)"

definition ReviewResult_post_init :: "ReviewResult \<Rightarrow> exn + ReviewResult" where
  "ReviewResult_post_init r =
     res_bind (require_texts (rv_evidence_refs r) ''evidence_refs'') (\<lambda>_. Inr r)"

end
