(* ===== verification/Job_State.thy ===== *)
theory Job_State
  imports Core_Domain
begin

text \<open>
  The durable-job state policy, \<^verbatim>\<open>src/src/a_conductor/job_state.py\<close>: the validated runtime
  state of a job and the pure transition planner, with the step relation of the states a
  job can reach.
\<close>

section \<open>Definitions\<close>

definition TERMINAL_STATES :: "TaskState list" where
  "TERMINAL_STATES = [COMPLETE, FAILED, CANCELLED]"

fun ALLOWED_TRANSITIONS :: "TaskState \<Rightarrow> TaskState list" where
  "ALLOWED_TRANSITIONS NEW = [PLANNING, READY, BLOCKED, CANCELLED]"
| "ALLOWED_TRANSITIONS PLANNING = [READY, BLOCKED, FAILED, CANCELLED]"
| "ALLOWED_TRANSITIONS READY = [CLAIMED, BLOCKED, CANCELLED]"
| "ALLOWED_TRANSITIONS CLAIMED = [GATING, READY, BLOCKED, CANCELLED]"
| "ALLOWED_TRANSITIONS GATING = [EXECUTING, BLOCKED, RECOVERY_NEEDED, FAILED, CANCELLED]"
| "ALLOWED_TRANSITIONS EXECUTING = [VERIFYING, RECOVERY_NEEDED, FAILED, CANCELLED]"
| "ALLOWED_TRANSITIONS VERIFYING = [REVIEW_PENDING, CHANGES_REQUIRED, COMPLETE, RECOVERY_NEEDED, FAILED]"
| "ALLOWED_TRANSITIONS REVIEW_PENDING = [COMPLETE, CHANGES_REQUIRED, BLOCKED, FAILED]"
| "ALLOWED_TRANSITIONS CHANGES_REQUIRED = [REPAIRING, CANCELLED]"
| "ALLOWED_TRANSITIONS REPAIRING = [VERIFYING, RECOVERY_NEEDED, FAILED, CANCELLED]"
| "ALLOWED_TRANSITIONS BLOCKED = [READY, FAILED, CANCELLED]"
| "ALLOWED_TRANSITIONS _ = []"

fun RECOVERY_TARGET :: "RecoveryClassification \<Rightarrow> TaskState" where
  "RECOVERY_TARGET NO_MUTATION = READY"
| "RECOVERY_TARGET PARTIAL_MUTATION = GATING"
| "RECOVERY_TARGET MUTATION_COMPLETE_UNVERIFIED = VERIFYING"
| "RECOVERY_TARGET COMPLETE_VERIFIED = REVIEW_PENDING"
| "RECOVERY_TARGET UNEXPECTED_DRIFT = BLOCKED"
| "RECOVERY_TARGET UNKNOWN = BLOCKED"

definition RELEASE_CLAIM_STATES :: "TaskState list" where
  "RELEASE_CLAIM_STATES = [READY, BLOCKED, COMPLETE, FAILED, CANCELLED]"

record JobRuntimeState =
  js_job_id :: string
  js_work_order_ref :: string
  js_project_id :: string
  js_state :: TaskState
  js_worker_id :: "string option"
  js_attempt_count :: int
  js_max_attempts :: int
  js_recovery :: "RecoveryClassification option"
  js_version :: int

definition JobRuntimeState_post_init :: "JobRuntimeState \<Rightarrow> exn + JobRuntimeState" where
  "JobRuntimeState_post_init j =
     res_bind (require_text (js_job_id j) ''job_id'') (\<lambda>_.
     res_bind (require_text (js_work_order_ref j) ''work_order_ref'') (\<lambda>_.
     res_bind (require_text (js_project_id j) ''project_id'') (\<lambda>_.
     res_bind (require_optional_text (js_worker_id j) ''worker_id'') (\<lambda>_.
     res_bind (require_nonnegative_int (js_attempt_count j) ''attempt_count'') (\<lambda>_.
     res_bind (require_positive_int (js_max_attempts j) ''max_attempts'') (\<lambda>_.
     if js_attempt_count j > js_max_attempts j
     then Inl (ValueErr ''attempt_count must not exceed max_attempts'')
     else res_bind (require_positive_int (js_version j) ''version'') (\<lambda>_.
     if js_state j = RECOVERY_NEEDED then
       (if js_recovery j = None then Inl (ValueErr ''RECOVERY_NEEDED requires recovery_classification'')
        else Inr j)
     else if js_recovery j \<noteq> None
     then Inl (ValueErr ''recovery_classification is valid only for RECOVERY_NEEDED'')
     else Inr j)))))))"

record JobTransitionPlan =
  jp_target_state :: TaskState
  jp_worker_id :: "string option"
  jp_attempt_count :: int
  jp_recovery :: "RecoveryClassification option"

definition new_job_state :: "string \<Rightarrow> string \<Rightarrow> string \<Rightarrow> int \<Rightarrow> exn + JobRuntimeState" where
  "new_job_state job_id work_order_ref project_id max_attempts =
     JobRuntimeState_post_init
       \<lparr>js_job_id = job_id, js_work_order_ref = work_order_ref, js_project_id = project_id,
        js_state = NEW, js_worker_id = None, js_attempt_count = 0, js_max_attempts = max_attempts,
        js_recovery = None, js_version = 1\<rparr>"

text \<open>The two branches of the planner: the next worker and recovery classification.\<close>

definition plan_recovery ::
  "JobRuntimeState \<Rightarrow> TaskState \<Rightarrow> string option \<Rightarrow> exn + string option \<times> RecoveryClassification option" where
  "plan_recovery current target worker =
     (case js_recovery current of
        None \<Rightarrow> Inl (AssertionErr ''recovery_classification'')
      | Some r \<Rightarrow>
          if target \<noteq> RECOVERY_TARGET r then Inl (JobStateErr ''RECOVERY_TRANSITION_INVALID'')
          else if worker \<noteq> None \<and> js_worker_id current \<noteq> None \<and> worker \<noteq> js_worker_id current
          then Inl (JobStateErr ''WORKER_CLAIM_CONFLICT'')
          else Inr (js_worker_id current, None))"

definition plan_forward ::
  "JobRuntimeState \<Rightarrow> TaskState \<Rightarrow> string option \<Rightarrow> RecoveryClassification option
     \<Rightarrow> exn + string option \<times> RecoveryClassification option" where
  "plan_forward current target worker recovery =
     (if target \<notin> set (ALLOWED_TRANSITIONS (js_state current))
      then Inl (JobStateErr ''JOB_TRANSITION_INVALID'')
      else
        res_bind
          (if target = CLAIMED then
             (if worker = None then Inl (JobStateErr ''WORKER_ID_REQUIRED'') else Inr worker)
           else if worker \<noteq> None \<and> (js_worker_id current = None \<or> worker \<noteq> js_worker_id current)
           then Inl (JobStateErr ''WORKER_CLAIM_CONFLICT'')
           else Inr (js_worker_id current)) (\<lambda>next_worker.
        if target = RECOVERY_NEEDED then
          (if recovery = None then Inl (JobStateErr ''RECOVERY_CLASSIFICATION_REQUIRED'')
           else Inr (next_worker, recovery))
        else if recovery \<noteq> None then Inl (JobStateErr ''RECOVERY_CLASSIFICATION_NOT_ALLOWED'')
        else Inr (next_worker, None)))"

definition plan_job_transition ::
  "JobRuntimeState \<Rightarrow> TaskState \<Rightarrow> string option \<Rightarrow> RecoveryClassification option
     \<Rightarrow> exn + JobTransitionPlan" where
  "plan_job_transition current target worker recovery =
     res_bind (require_optional_text worker ''worker_id'') (\<lambda>_.
     if js_state current \<in> set TERMINAL_STATES then Inl (JobStateErr ''JOB_TERMINAL'')
     else
       res_bind
         (if js_state current = RECOVERY_NEEDED then plan_recovery current target worker
          else plan_forward current target worker recovery) (\<lambda>(next_worker, next_recovery).
       res_bind
         (if target = EXECUTING then
            (if js_attempt_count current \<ge> js_max_attempts current
             then Inl (JobStateErr ''ATTEMPT_BUDGET_EXHAUSTED'')
             else Inr (js_attempt_count current + 1))
          else Inr (js_attempt_count current)) (\<lambda>next_attempt_count.
       Inr \<lparr>jp_target_state = target,
            jp_worker_id = (if target \<in> set RELEASE_CLAIM_STATES then None else next_worker),
            jp_attempt_count = next_attempt_count,
            jp_recovery = next_recovery\<rparr>)))"

section \<open>The transition relation\<close>

definition apply_plan :: "JobRuntimeState \<Rightarrow> JobTransitionPlan \<Rightarrow> JobRuntimeState" where
  "apply_plan j p = j\<lparr>js_state := jp_target_state p, js_worker_id := jp_worker_id p,
     js_attempt_count := jp_attempt_count p, js_recovery := jp_recovery p,
     js_version := js_version j + 1\<rparr>"

definition bump :: "JobRuntimeState \<Rightarrow> JobRuntimeState" where
  "bump j = j\<lparr>js_version := js_version j + 1\<rparr>"

text \<open>
  One durable write to a job: a planned transition, or a checkpoint, which only moves the
  version on.
\<close>

inductive job_step :: "JobRuntimeState \<Rightarrow> JobRuntimeState \<Rightarrow> bool" where
  transition: "plan_job_transition j target worker recovery = Inr p \<Longrightarrow> job_step j (apply_plan j p)"
| checkpoint: "js_state j \<notin> set TERMINAL_STATES \<Longrightarrow> job_step j (bump j)"

inductive_cases job_stepE: "job_step j j'"

inductive job_reachable :: "JobRuntimeState \<Rightarrow> bool" where
  created: "new_job_state i w p m = Inr j \<Longrightarrow> job_reachable j"
| step: "job_reachable j \<Longrightarrow> job_step j j' \<Longrightarrow> job_reachable j'"

definition OWNED_STATES :: "TaskState list" where
  "OWNED_STATES = [CLAIMED, GATING, EXECUTING, VERIFYING, REPAIRING, REVIEW_PENDING,
     CHANGES_REQUIRED, RECOVERY_NEEDED]"

definition job_valid :: "JobRuntimeState \<Rightarrow> bool" where
  "job_valid j \<longleftrightarrow> \<not> blank (js_job_id j) \<and> \<not> blank (js_work_order_ref j) \<and> \<not> blank (js_project_id j)
     \<and> nonblank_opt (js_worker_id j) \<and> 0 \<le> js_attempt_count j \<and> 1 \<le> js_max_attempts j
     \<and> js_attempt_count j \<le> js_max_attempts j \<and> 1 \<le> js_version j
     \<and> (js_recovery j \<noteq> None \<longleftrightarrow> js_state j = RECOVERY_NEEDED)"

definition job_inv :: "JobRuntimeState \<Rightarrow> bool" where
  "job_inv j \<longleftrightarrow> job_valid j \<and> (js_worker_id j \<noteq> None \<longleftrightarrow> js_state j \<in> set OWNED_STATES)"

lemma post_init_iff: "JobRuntimeState_post_init j = Inr j' \<longleftrightarrow> job_valid j \<and> j' = j"
  by (auto simp: JobRuntimeState_post_init_def job_valid_def split: if_splits)

lemma plan_fields:
  assumes "plan_job_transition j t w r = Inr p"
  shows "js_state j \<notin> set TERMINAL_STATES" and "jp_target_state p = t" and "nonblank_opt w"
    and "jp_attempt_count p = js_attempt_count j + (if t = EXECUTING then 1 else 0)"
    and "t = EXECUTING \<longrightarrow> js_attempt_count j < js_max_attempts j"
    and "t \<in> set RELEASE_CLAIM_STATES \<longrightarrow> jp_worker_id p = None"
  using assms by (auto simp: plan_job_transition_def split: if_splits)

lemma plan_recovery_fields:
  assumes "plan_job_transition j t w r = Inr p" and "js_state j = RECOVERY_NEEDED"
  shows "\<exists>c. js_recovery j = Some c \<and> t = RECOVERY_TARGET c" "jp_recovery p = None"
    "t \<notin> set RELEASE_CLAIM_STATES \<longrightarrow> jp_worker_id p = js_worker_id j"
  using assms
  by (auto simp: plan_job_transition_def plan_recovery_def split: if_splits option.splits)

lemma plan_forward_fields:
  assumes "plan_job_transition j t w r = Inr p" and "js_state j \<noteq> RECOVERY_NEEDED"
  shows "t \<in> set (ALLOWED_TRANSITIONS (js_state j))"
    "jp_recovery p = r" "r \<noteq> None \<longleftrightarrow> t = RECOVERY_NEEDED"
    "t \<notin> set RELEASE_CLAIM_STATES \<longrightarrow> jp_worker_id p = (if t = CLAIMED then w else js_worker_id j)"
    "t = CLAIMED \<longrightarrow> w \<noteq> None"
    "t \<noteq> CLAIMED \<longrightarrow> w \<noteq> None \<longrightarrow> js_worker_id j = w"
  using assms by (auto simp: plan_job_transition_def plan_forward_def split: if_splits)

lemmas state_sets = TERMINAL_STATES_def RELEASE_CLAIM_STATES_def OWNED_STATES_def

lemma allowed_owned:
  assumes "t \<in> set (ALLOWED_TRANSITIONS s)" and "t \<notin> set RELEASE_CLAIM_STATES"
  shows "if t = CLAIMED then True else t \<in> set OWNED_STATES \<longleftrightarrow> s \<in> set OWNED_STATES"
  using assms by (cases s) (auto simp: state_sets)

lemma released_not_owned: "t \<in> set RELEASE_CLAIM_STATES \<Longrightarrow> t \<notin> set OWNED_STATES"
  by (auto simp: state_sets)

lemma recovery_target_owned:
  "RECOVERY_TARGET c \<notin> set RELEASE_CLAIM_STATES \<Longrightarrow> RECOVERY_TARGET c \<in> set OWNED_STATES"
  "RECOVERY_TARGET c \<noteq> RECOVERY_NEEDED" "RECOVERY_TARGET c \<noteq> EXECUTING"
  by (cases c; simp add: state_sets)+

lemma apply_plan_fields [simp]:
  "js_state (apply_plan j p) = jp_target_state p" "js_worker_id (apply_plan j p) = jp_worker_id p"
  "js_attempt_count (apply_plan j p) = jp_attempt_count p" "js_recovery (apply_plan j p) = jp_recovery p"
  "js_version (apply_plan j p) = js_version j + 1" "js_job_id (apply_plan j p) = js_job_id j"
  "js_max_attempts (apply_plan j p) = js_max_attempts j"
  "js_work_order_ref (apply_plan j p) = js_work_order_ref j" "js_project_id (apply_plan j p) = js_project_id j"
  by (simp_all add: apply_plan_def)

lemma bump_fields [simp]:
  "js_state (bump j) = js_state j" "js_worker_id (bump j) = js_worker_id j"
  "js_attempt_count (bump j) = js_attempt_count j" "js_recovery (bump j) = js_recovery j"
  "js_version (bump j) = js_version j + 1" "js_job_id (bump j) = js_job_id j"
  "js_max_attempts (bump j) = js_max_attempts j"
  "js_work_order_ref (bump j) = js_work_order_ref j" "js_project_id (bump j) = js_project_id j"
  by (simp_all add: bump_def)

lemma plan_worker:
  assumes inv: "job_inv j" and plan: "plan_job_transition j t w r = Inr p"
  shows "(jp_worker_id p \<noteq> None \<longleftrightarrow> t \<in> set OWNED_STATES) \<and> nonblank_opt (jp_worker_id p)
    \<and> (js_worker_id j \<noteq> None \<longrightarrow> jp_worker_id p \<in> {js_worker_id j, None})"
proof (cases "t \<in> set RELEASE_CLAIM_STATES")
  case True
  then show ?thesis using plan_fields(6)[OF plan] released_not_owned by simp
next
  case rel: False
  from inv have own: "js_worker_id j \<noteq> None \<longleftrightarrow> js_state j \<in> set OWNED_STATES"
    and nb: "nonblank_opt (js_worker_id j)" by (simp_all add: job_inv_def job_valid_def)
  show ?thesis
  proof (cases "js_state j = RECOVERY_NEEDED")
    case True
    then have "js_worker_id j \<noteq> None" using own by (simp add: state_sets)
    then show ?thesis using plan_recovery_fields[OF plan True] rel recovery_target_owned(1) nb by auto
  next
    case False
    note f = plan_forward_fields[OF plan False]
    show ?thesis
    proof (cases "t = CLAIMED")
      case True
      then have "js_state j = READY" using f(1) by (cases "js_state j") auto
      then have "js_worker_id j = None" using own by (simp add: state_sets)
      then show ?thesis using True f(4,5) rel plan_fields(3)[OF plan] by (simp add: state_sets)
    next
      case False
      then show ?thesis using f(1,4) rel own nb allowed_owned[OF f(1) rel] by simp
    qed
  qed
qed

lemma plan_recovery_iff:
  assumes "plan_job_transition j t w r = Inr p"
  shows "jp_recovery p \<noteq> None \<longleftrightarrow> t = RECOVERY_NEEDED"
proof (cases "js_state j = RECOVERY_NEEDED")
  case True
  then show ?thesis using plan_recovery_fields[OF assms True] recovery_target_owned(2) by auto
next
  case False
  then show ?thesis using plan_forward_fields(2,3)[OF assms False] by simp
qed

lemma apply_plan_inv:
  assumes inv: "job_inv j" and plan: "plan_job_transition j t w r = Inr p"
  shows "job_inv (apply_plan j p)"
  using inv plan_fields[OF plan] plan_worker[OF inv plan] plan_recovery_iff[OF plan]
  by (auto simp: job_inv_def job_valid_def)

lemma bump_inv: "job_inv j \<Longrightarrow> job_inv (bump j)"
  by (simp add: job_inv_def job_valid_def)

lemma new_job_inv: "new_job_state i w p m = Inr j \<Longrightarrow> job_inv j"
  by (auto simp: new_job_state_def post_init_iff job_inv_def state_sets)

lemma job_step_inv: "job_step j j' \<Longrightarrow> job_inv j \<Longrightarrow> job_inv j'"
  by (induction rule: job_step.induct) (auto intro: apply_plan_inv bump_inv)

lemma job_reachable_inv: "job_reachable j \<Longrightarrow> job_inv j"
  by (induction rule: job_reachable.induct) (auto intro: new_job_inv job_step_inv)

section \<open>Properties\<close>

text \<open>
  C23: in every reachable state of a job the attempt count is within its budget, the job
  has a recovery classification exactly when it waits for recovery, and it has a worker
  exactly in the states in which one owns it.
\<close>

theorem job_reachable_invariant:
  assumes "job_reachable j"
  shows "0 \<le> js_attempt_count j \<and> js_attempt_count j \<le> js_max_attempts j \<and> 1 \<le> js_version j
    \<and> (js_recovery j \<noteq> None \<longleftrightarrow> js_state j = RECOVERY_NEEDED)
    \<and> (js_worker_id j \<noteq> None \<longleftrightarrow> js_state j \<in> {CLAIMED, GATING, EXECUTING, VERIFYING, REPAIRING,
         REVIEW_PENDING, CHANGES_REQUIRED, RECOVERY_NEEDED})"
  using job_reachable_inv[OF assms] by (simp add: job_inv_def job_valid_def OWNED_STATES_def)

definition sample_job :: JobRuntimeState where
  "sample_job = \<lparr>js_job_id = ''j'', js_work_order_ref = ''wo'', js_project_id = ''p'', js_state = NEW,
     js_worker_id = None, js_attempt_count = 0, js_max_attempts = 3, js_recovery = None, js_version = 1\<rparr>"

definition sample_claimed :: JobRuntimeState where
  "sample_claimed = sample_job\<lparr>js_state := CLAIMED, js_worker_id := Some ''w'', js_version := 3\<rparr>"

lemma sample_new: "new_job_state ''j'' ''wo'' ''p'' 3 = Inr sample_job"
  by code_simp

lemma sample_claimed_reachable: "job_reachable sample_claimed"
proof -
  let ?r = "sample_job\<lparr>js_state := READY, js_version := 2\<rparr>"
  have 1: "plan_job_transition sample_job READY None None =
    Inr \<lparr>jp_target_state = READY, jp_worker_id = None, jp_attempt_count = 0, jp_recovery = None\<rparr>"
    by code_simp
  have 2: "plan_job_transition ?r CLAIMED (Some ''w'') None =
    Inr \<lparr>jp_target_state = CLAIMED, jp_worker_id = Some ''w'', jp_attempt_count = 0, jp_recovery = None\<rparr>"
    by code_simp
  have "job_step sample_job ?r"
    using job_step.transition[OF 1] by (simp add: apply_plan_def sample_job_def)
  moreover have "job_step ?r sample_claimed"
    using job_step.transition[OF 2] by (simp add: apply_plan_def sample_claimed_def sample_job_def)
  ultimately show ?thesis using job_reachable.created[OF sample_new] job_reachable.step by blast
qed

theorem job_reachable_invariant_witness:
  "job_reachable sample_claimed \<and> js_state sample_claimed = CLAIMED \<and> js_worker_id sample_claimed \<noteq> None"
  using job_reachable_invariant[OF sample_claimed_reachable] sample_claimed_reachable
  by (simp add: sample_claimed_def)

text \<open>
  A claim is never stolen. While a worker owns a job, no write replaces it by another
  worker; the job keeps its worker until it is released, and a transition that names a
  worker names the owner.
\<close>

theorem job_claim_exclusive:
  assumes "job_reachable j" and "js_worker_id j = Some w"
    and "plan_job_transition j target worker recovery = Inr p"
  shows "jp_worker_id p \<in> {Some w, None}
    \<and> (jp_worker_id p = None \<longleftrightarrow> target \<in> {READY, BLOCKED, COMPLETE, FAILED, CANCELLED})
    \<and> (worker \<noteq> None \<longrightarrow> worker = Some w)"
proof -
  note inv = job_reachable_inv[OF assms(1)]
  have own: "js_state j \<in> set OWNED_STATES" using inv assms(2) by (simp add: job_inv_def)
  have a: "jp_worker_id p \<in> {Some w, None}" "jp_worker_id p \<noteq> None \<longleftrightarrow> target \<in> set OWNED_STATES"
    using plan_worker[OF inv assms(3)] assms(2) by auto
  have t: "target \<in> set OWNED_STATES \<longleftrightarrow> target \<notin> set RELEASE_CLAIM_STATES"
  proof (cases "js_state j = RECOVERY_NEEDED")
    case True
    then show ?thesis using plan_recovery_fields(1)[OF assms(3)] recovery_target_owned(1) released_not_owned by auto
  next
    case False
    from plan_forward_fields(1)[OF assms(3) this] own show ?thesis
      by (cases "js_state j") (auto simp: state_sets)
  qed
  have w: "worker = Some w" if "worker \<noteq> None"
  proof (cases "js_state j = RECOVERY_NEEDED")
    case True
    then show ?thesis using assms(2,3) that
      by (auto simp: plan_job_transition_def plan_recovery_def split: if_splits option.splits)
  next
    case False
    have "target \<noteq> CLAIMED" using plan_forward_fields(1)[OF assms(3) False] own
      by (cases "js_state j") (auto simp: state_sets)
    then show ?thesis using plan_forward_fields(6)[OF assms(3) False] that assms(2) by auto
  qed
  show ?thesis using a t w by (auto simp: RELEASE_CLAIM_STATES_def)
qed

theorem job_claim_exclusive_witness:
  "\<exists>p. plan_job_transition sample_claimed GATING (Some ''w'') None = Inr p \<and> jp_worker_id p = Some ''w''"
proof -
  have p: "plan_job_transition sample_claimed GATING (Some ''w'') None =
    Inr \<lparr>jp_target_state = GATING, jp_worker_id = Some ''w'', jp_attempt_count = 0, jp_recovery = None\<rparr>"
    by code_simp
  have "js_worker_id sample_claimed = Some ''w''" by code_simp
  from job_claim_exclusive[OF sample_claimed_reachable this p] p show ?thesis by simp
qed

lemma plan_ok_target:
  assumes "job_inv j" "js_state j \<noteq> RECOVERY_NEEDED" "t \<in> set (ALLOWED_TRANSITIONS (js_state j))"
    "t \<in> {FAILED, CANCELLED}"
  shows "\<exists>p. plan_job_transition j t None None = Inr p \<and> js_state (apply_plan j p) = t"
proof -
  have "js_state j \<notin> set TERMINAL_STATES" using assms(3) by (auto simp: TERMINAL_STATES_def)
  then show ?thesis using assms
    by (auto simp: plan_job_transition_def plan_forward_def require_optional_text_def)
qed

lemma stop_target:
  "s \<notin> set TERMINAL_STATES \<Longrightarrow> s \<noteq> RECOVERY_NEEDED \<Longrightarrow> \<exists>t \<in> {FAILED, CANCELLED}. t \<in> set (ALLOWED_TRANSITIONS s)"
  by (cases s) (auto simp: TERMINAL_STATES_def)

lemma plan_leaves_recovery:
  assumes "job_inv j" "js_state j = RECOVERY_NEEDED" "js_recovery j = Some c"
  shows "\<exists>p. plan_job_transition j (RECOVERY_TARGET c) None None = Inr p"
  using assms recovery_target_owned(3)[of c]
  by (auto simp: plan_job_transition_def plan_recovery_def require_optional_text_def TERMINAL_STATES_def)

text \<open>
  No job is stuck. From every reachable state that is not terminal, at most two
  transitions lead to a terminal state.
\<close>

theorem job_never_stuck:
  assumes "job_reachable j" and "js_state j \<notin> set TERMINAL_STATES"
  shows "\<exists>j1 j2. (j1 = j \<or> job_step j j1) \<and> job_step j1 j2 \<and> js_state j2 \<in> set TERMINAL_STATES"
proof -
  have stop: "\<exists>j2. job_step j1 j2 \<and> js_state j2 \<in> set TERMINAL_STATES"
    if "job_inv j1" "js_state j1 \<notin> set TERMINAL_STATES" "js_state j1 \<noteq> RECOVERY_NEEDED" for j1
    using stop_target[OF that(2,3)] plan_ok_target[OF that(1,3)] job_step.transition
    by (metis TERMINAL_STATES_def insertCI insertE list.set(2) singletonD)
  note inv = job_reachable_inv[OF assms(1)]
  show ?thesis
  proof (cases "js_state j = RECOVERY_NEEDED")
    case False
    then show ?thesis using stop[OF inv assms(2)] by blast
  next
    case True
    then obtain c where c: "js_recovery j = Some c" using inv by (auto simp: job_inv_def job_valid_def)
    then obtain p where p: "plan_job_transition j (RECOVERY_TARGET c) None None = Inr p"
      using plan_leaves_recovery[OF inv True] by blast
    have "js_state (apply_plan j p) = RECOVERY_TARGET c" using plan_fields(2)[OF p] by simp
    moreover have "RECOVERY_TARGET c \<notin> set TERMINAL_STATES" by (cases c) (auto simp: TERMINAL_STATES_def)
    ultimately show ?thesis
      using stop[OF apply_plan_inv[OF inv p]] recovery_target_owned(2)[of c] job_step.transition[OF p] by auto
  qed
qed

theorem job_never_stuck_witness:
  "\<exists>j1 j2. (j1 = sample_claimed \<or> job_step sample_claimed j1) \<and> job_step j1 j2 \<and> js_state j2 \<in> set TERMINAL_STATES"
  by (rule job_never_stuck[OF sample_claimed_reachable]) code_simp

end
