(* ===== verification/Job_Store.thy ===== *)
theory Job_Store
  imports Job_State
begin

text \<open>
  The SQLite job store, \<^verbatim>\<open>src/src/a_conductor/job_store.py\<close>. The database is a record: the
  schema version, the rows of \<^verbatim>\<open>job_records\<close> with their text columns, the rows of
  \<^verbatim>\<open>job_events\<close>, and the number of calls made so far to the injected event-id factory. A
  method returns its result or exception together with the database it leaves; a
  transaction that raises is rolled back, so it leaves the database it started from.
  The event-id factory is a parameter: its \<open>n\<close>-th call returns a string or raises (\<^const>\<open>None\<close>).
  The timestamp columns, which the code never reads back into a decision, are left out.
\<close>

section \<open>Rows\<close>

datatype JobEventType = EV_CREATED | EV_TRANSITION | EV_CHECKPOINT

fun event_type_value :: "JobEventType \<Rightarrow> string" where
  "event_type_value EV_CREATED = ''CREATED''"
| "event_type_value EV_TRANSITION = ''TRANSITION''"
| "event_type_value EV_CHECKPOINT = ''CHECKPOINT''"

definition event_type_of :: "string \<Rightarrow> exn + JobEventType" where
  "event_type_of v = (case filter (\<lambda>s. event_type_value s = v) [EV_CREATED, EV_TRANSITION, EV_CHECKPOINT] of
     [] \<Rightarrow> Inl (ValueErr v) | s # _ \<Rightarrow> Inr s)"

lemma event_type_of_value [simp]: "event_type_of (event_type_value s) = Inr s"
  by (cases s) (simp_all add: event_type_of_def)

record JobEvent =
  je_event_id :: string
  je_job_id :: string
  je_sequence_no :: int
  je_event_type :: JobEventType
  je_from_state :: "TaskState option"
  je_to_state :: "TaskState option"
  je_worker_id :: "string option"
  je_recovery :: "RecoveryClassification option"
  je_checkpoint_ref :: "string option"
  je_evidence_ref :: "string option"

definition JobEvent_post_init :: "JobEvent \<Rightarrow> exn + JobEvent" where
  "JobEvent_post_init e =
     res_bind (require_text (je_event_id e) ''event_id'') (\<lambda>_.
     res_bind (require_text (je_job_id e) ''job_id'') (\<lambda>_.
     res_bind (require_positive_int (je_sequence_no e) ''sequence_no'') (\<lambda>_.
     res_bind (require_optional_text (je_worker_id e) ''worker_id'') (\<lambda>_.
     res_bind (require_optional_text (je_checkpoint_ref e) ''checkpoint_ref'') (\<lambda>_.
     res_bind (require_optional_text (je_evidence_ref e) ''evidence_ref'') (\<lambda>_. Inr e))))))"

record JobRow =
  jr_job_id :: string
  jr_work_order_ref :: string
  jr_project_id :: string
  jr_state :: string
  jr_worker_id :: "string option"
  jr_attempt_count :: int
  jr_max_attempts :: int
  jr_recovery :: "string option"
  jr_version :: int

record EventRow =
  er_event_id :: string
  er_job_id :: string
  er_sequence_no :: int
  er_event_type :: string
  er_from_state :: "string option"
  er_to_state :: "string option"
  er_worker_id :: "string option"
  er_recovery :: "string option"
  er_checkpoint_ref :: "string option"
  er_evidence_ref :: "string option"

record JobDb =
  db_schema :: "string option"
  db_rows :: "JobRow dict"
  db_events :: "EventRow list"
  db_id_calls :: nat

definition JOB_STORE_SCHEMA_VERSION :: string where
  "JOB_STORE_SCHEMA_VERSION = ''1''"

definition empty_db :: JobDb where
  "empty_db = \<lparr>db_schema = None, db_rows = [], db_events = [], db_id_calls = 0\<rparr>"

section \<open>Operations\<close>

definition initialize :: "JobDb \<Rightarrow> (exn + unit) \<times> JobDb" where
  "initialize db =
     (let stored = (case db_schema db of None \<Rightarrow> JOB_STORE_SCHEMA_VERSION | Some v \<Rightarrow> v) in
      if stored \<noteq> JOB_STORE_SCHEMA_VERSION then (Inl (JobStoreErr ''JOB_STORE_SCHEMA_UNSUPPORTED''), db)
      else (Inr (), db\<lparr>db_schema := Some stored\<rparr>))"

definition next_event_id :: "(nat \<Rightarrow> string option) \<Rightarrow> JobDb \<Rightarrow> exn + string" where
  "next_event_id factory db =
     (case factory (db_id_calls db) of
        None \<Rightarrow> Inl (JobStoreErr ''JOB_EVENT_ID_FAILED'')
      | Some v \<Rightarrow> if blank v then Inl (JobStoreErr ''JOB_EVENT_ID_INVALID'') else Inr v)"

definition opt_res :: "('a \<Rightarrow> exn + 'b) \<Rightarrow> 'a option \<Rightarrow> exn + 'b option" where
  "opt_res f x = (case x of None \<Rightarrow> Inr None | Some v \<Rightarrow> res_bind (f v) (\<lambda>y. Inr (Some y)))"

definition state_from_row :: "JobRow \<Rightarrow> exn + JobRuntimeState" where
  "state_from_row row =
     (case res_bind (task_state_of (jr_state row)) (\<lambda>s.
           res_bind (opt_res recovery_of (jr_recovery row)) (\<lambda>r.
           JobRuntimeState_post_init
             \<lparr>js_job_id = jr_job_id row, js_work_order_ref = jr_work_order_ref row,
              js_project_id = jr_project_id row, js_state = s, js_worker_id = jr_worker_id row,
              js_attempt_count = jr_attempt_count row, js_max_attempts = jr_max_attempts row,
              js_recovery = r, js_version = jr_version row\<rparr>)) of
        Inl _ \<Rightarrow> Inl (JobStoreErr ''JOB_RECORD_INVALID'')
      | Inr j \<Rightarrow> Inr j)"

definition load_job_row :: "JobDb \<Rightarrow> string \<Rightarrow> exn + JobRow" where
  "load_job_row db i = (case map_of (db_rows db) i of
     None \<Rightarrow> Inl (JobStoreErr ''JOB_NOT_FOUND'') | Some row \<Rightarrow> Inr row)"

definition next_sequence :: "JobDb \<Rightarrow> string \<Rightarrow> int" where
  "next_sequence db i =
     (case map er_sequence_no (filter (\<lambda>e. er_job_id e = i) (db_events db)) of
        [] \<Rightarrow> 1 | s # ss \<Rightarrow> fold max ss s + 1)"

text \<open>
  \<^verbatim>\<open>_insert_event\<close> inside a transaction: the database with the new event row, or the
  exception; \<^verbatim>\<open>sqlite3.IntegrityError\<close> of a used event id is \<^verbatim>\<open>JOB_STORE_CONFLICT\<close>.
\<close>

definition insert_event ::
  "(nat \<Rightarrow> string option) \<Rightarrow> string \<Rightarrow> JobEventType \<Rightarrow> TaskState option \<Rightarrow> TaskState option
     \<Rightarrow> string option \<Rightarrow> RecoveryClassification option \<Rightarrow> string option \<Rightarrow> string option
     \<Rightarrow> JobDb \<Rightarrow> exn + JobDb" where
  "insert_event factory i etype from_s to_s worker recovery chk evidence db =
     res_bind (next_event_id factory db) (\<lambda>eid.
     if eid \<in> er_event_id ` set (db_events db) then Inl (JobStoreErr ''JOB_STORE_CONFLICT'')
     else Inr (db\<lparr>db_events := db_events db @
       [\<lparr>er_event_id = eid, er_job_id = i, er_sequence_no = next_sequence db i,
         er_event_type = event_type_value etype, er_from_state = map_option task_state_value from_s,
         er_to_state = map_option task_state_value to_s, er_worker_id = worker,
         er_recovery = map_option recovery_value recovery, er_checkpoint_ref = chk,
         er_evidence_ref = evidence\<rparr>]\<rparr>))"

text \<open>
  The frame of a writing method: \<^verbatim>\<open>initialize\<close>, \<^verbatim>\<open>BEGIN IMMEDIATE\<close>, the body, and commit or
  rollback. A body that reaches \<^verbatim>\<open>_insert_event\<close> calls the id factory once, whether or not
  the transaction commits.
\<close>

definition in_transaction ::
  "(JobDb \<Rightarrow> exn + 'a \<times> (JobDb \<Rightarrow> exn + JobDb)) \<Rightarrow> JobDb \<Rightarrow> (exn + 'a) \<times> JobDb" where
  "in_transaction body db =
     (case initialize db of
        (Inl e, db1) \<Rightarrow> (Inl e, db1)
      | (Inr _, db1) \<Rightarrow>
          (case body db1 of
             Inl e \<Rightarrow> (Inl e, db1)
           | Inr (result, write) \<Rightarrow>
               (case write db1 of
                  Inl e \<Rightarrow> (Inl e, db1\<lparr>db_id_calls := db_id_calls db1 + 1\<rparr>)
                | Inr db2 \<Rightarrow> (Inr result, db2\<lparr>db_id_calls := db_id_calls db1 + 1\<rparr>))))"

definition row_of :: "JobRuntimeState \<Rightarrow> JobRow" where
  "row_of j = \<lparr>jr_job_id = js_job_id j, jr_work_order_ref = js_work_order_ref j,
     jr_project_id = js_project_id j, jr_state = task_state_value (js_state j),
     jr_worker_id = js_worker_id j, jr_attempt_count = js_attempt_count j,
     jr_max_attempts = js_max_attempts j, jr_recovery = map_option recovery_value (js_recovery j),
     jr_version = js_version j\<rparr>"

definition create_job ::
  "(nat \<Rightarrow> string option) \<Rightarrow> string \<Rightarrow> string \<Rightarrow> string \<Rightarrow> int \<Rightarrow> JobDb \<Rightarrow> (exn + JobRuntimeState) \<times> JobDb" where
  "create_job factory i work_order_ref project_id max_attempts db =
     (case new_job_state i work_order_ref project_id max_attempts of
        Inl e \<Rightarrow> (Inl e, db)
      | Inr job \<Rightarrow>
          in_transaction (\<lambda>db1.
            if map_of (db_rows db1) (js_job_id job) \<noteq> None then Inl (JobStoreErr ''JOB_ALREADY_EXISTS'')
            else Inr (job, \<lambda>db1.
              insert_event factory (js_job_id job) EV_CREATED None (Some (js_state job)) None None None None
                (db1\<lparr>db_rows := db_rows db1 @ [(js_job_id job, row_of job)]\<rparr>))) db)"

definition get_job :: "string \<Rightarrow> JobDb \<Rightarrow> (exn + JobRuntimeState) \<times> JobDb" where
  "get_job i db =
     (if blank i then (Inl (ValueErr ''job_id''), db)
      else case initialize db of
        (Inl e, db1) \<Rightarrow> (Inl e, db1)
      | (Inr _, db1) \<Rightarrow> (res_bind (load_job_row db1 i) state_from_row, db1))"

definition check_version :: "JobRuntimeState \<Rightarrow> int \<Rightarrow> exn + unit" where
  "check_version current expected =
     res_bind (require_positive_int expected ''expected_version'') (\<lambda>_.
       if js_version current \<noteq> expected then Inl (JobStoreErr ''JOB_VERSION_CONFLICT'') else Inr ())"

text \<open>
  \<^verbatim>\<open>UPDATE job_records SET ... WHERE job_id = ? AND version = ?\<close>; a row count other than one
  is a version conflict.
\<close>

definition update_row :: "(JobRow \<Rightarrow> JobRow) \<Rightarrow> string \<Rightarrow> int \<Rightarrow> JobDb \<Rightarrow> exn + JobDb" where
  "update_row f i version db =
     (case map_of (db_rows db) i of
        Some row \<Rightarrow> if jr_version row = version
          then Inr (db\<lparr>db_rows := AList.update i (f row) (db_rows db)\<rparr>)
          else Inl (JobStoreErr ''JOB_VERSION_CONFLICT'')
      | None \<Rightarrow> Inl (JobStoreErr ''JOB_VERSION_CONFLICT''))"

text \<open>The statements of \<^verbatim>\<open>transition\<close> inside the transaction, up to and from the first write.\<close>

definition transition_write ::
  "(nat \<Rightarrow> string option) \<Rightarrow> JobRuntimeState \<Rightarrow> JobTransitionPlan \<Rightarrow> string option \<Rightarrow> JobDb \<Rightarrow> exn + JobDb" where
  "transition_write factory current plan evidence db =
     res_bind (update_row (\<lambda>row. row\<lparr>jr_state := task_state_value (jp_target_state plan),
         jr_worker_id := jp_worker_id plan, jr_attempt_count := jp_attempt_count plan,
         jr_recovery := map_option recovery_value (jp_recovery plan),
         jr_version := js_version current + 1\<rparr>) (js_job_id current) (js_version current) db) (\<lambda>db2.
     res_bind (insert_event factory (js_job_id current) EV_TRANSITION (Some (js_state current))
         (Some (jp_target_state plan)) (jp_worker_id plan) (jp_recovery plan) None evidence db2) (\<lambda>db3.
     res_bind (JobRuntimeState_post_init (apply_plan current plan)) (\<lambda>_. Inr db3)))"

definition transition_body ::
  "(nat \<Rightarrow> string option) \<Rightarrow> string \<Rightarrow> TaskState \<Rightarrow> int \<Rightarrow> string option \<Rightarrow> RecoveryClassification option
     \<Rightarrow> string option \<Rightarrow> JobDb \<Rightarrow> exn + JobRuntimeState \<times> (JobDb \<Rightarrow> exn + JobDb)" where
  "transition_body factory i target expected worker recovery evidence db =
     res_bind (res_bind (load_job_row db i) state_from_row) (\<lambda>current.
     res_bind (check_version current expected) (\<lambda>_.
     res_bind (plan_job_transition current target worker recovery) (\<lambda>plan.
     Inr (apply_plan current plan, transition_write factory current plan evidence))))"

definition transition ::
  "(nat \<Rightarrow> string option) \<Rightarrow> string \<Rightarrow> TaskState \<Rightarrow> int \<Rightarrow> string option \<Rightarrow> RecoveryClassification option
     \<Rightarrow> string option \<Rightarrow> JobDb \<Rightarrow> (exn + JobRuntimeState) \<times> JobDb" where
  "transition factory i target expected worker recovery evidence db =
     (case res_bind (require_text i ''job_id'') (\<lambda>_.
           res_bind (require_positive_int expected ''expected_version'') (\<lambda>_.
           require_optional_text evidence ''evidence_ref'')) of
        Inl e \<Rightarrow> (Inl e, db)
      | Inr _ \<Rightarrow> in_transaction (transition_body factory i target expected worker recovery evidence) db)"

definition checkpoint_write ::
  "(nat \<Rightarrow> string option) \<Rightarrow> JobRuntimeState \<Rightarrow> string \<Rightarrow> string option \<Rightarrow> JobDb \<Rightarrow> exn + JobDb" where
  "checkpoint_write factory current checkpoint_ref evidence db =
     res_bind (update_row (\<lambda>row. row\<lparr>jr_version := js_version current + 1\<rparr>)
         (js_job_id current) (js_version current) db) (\<lambda>db2.
     res_bind (insert_event factory (js_job_id current) EV_CHECKPOINT (Some (js_state current))
         (Some (js_state current)) (js_worker_id current) (js_recovery current)
         (Some checkpoint_ref) evidence db2) (\<lambda>db3.
     res_bind (JobRuntimeState_post_init (bump current)) (\<lambda>_. Inr db3)))"

definition checkpoint_body ::
  "(nat \<Rightarrow> string option) \<Rightarrow> string \<Rightarrow> string \<Rightarrow> int \<Rightarrow> string option \<Rightarrow> JobDb
     \<Rightarrow> exn + JobRuntimeState \<times> (JobDb \<Rightarrow> exn + JobDb)" where
  "checkpoint_body factory i checkpoint_ref expected evidence db =
     res_bind (res_bind (load_job_row db i) state_from_row) (\<lambda>current.
     res_bind (check_version current expected) (\<lambda>_.
     if js_state current \<in> set TERMINAL_STATES then Inl (JobStateErr ''JOB_TERMINAL'')
     else Inr (bump current, checkpoint_write factory current checkpoint_ref evidence)))"

definition checkpoint ::
  "(nat \<Rightarrow> string option) \<Rightarrow> string \<Rightarrow> string \<Rightarrow> int \<Rightarrow> string option \<Rightarrow> JobDb
     \<Rightarrow> (exn + JobRuntimeState) \<times> JobDb" where
  "checkpoint factory i checkpoint_ref expected evidence db =
     (case res_bind (require_text i ''job_id'') (\<lambda>_.
           res_bind (require_text checkpoint_ref ''checkpoint_ref'') (\<lambda>_.
           res_bind (require_positive_int expected ''expected_version'') (\<lambda>_.
           require_optional_text evidence ''evidence_ref''))) of
        Inl e \<Rightarrow> (Inl e, db)
      | Inr _ \<Rightarrow> in_transaction (checkpoint_body factory i checkpoint_ref expected evidence) db)"

definition event_from_row :: "EventRow \<Rightarrow> exn + JobEvent" where
  "event_from_row row =
     res_bind (event_type_of (er_event_type row)) (\<lambda>t.
     res_bind (opt_res task_state_of (er_from_state row)) (\<lambda>f.
     res_bind (opt_res task_state_of (er_to_state row)) (\<lambda>s.
     res_bind (opt_res recovery_of (er_recovery row)) (\<lambda>r.
     JobEvent_post_init
       \<lparr>je_event_id = er_event_id row, je_job_id = er_job_id row, je_sequence_no = er_sequence_no row,
        je_event_type = t, je_from_state = f, je_to_state = s, je_worker_id = er_worker_id row,
        je_recovery = r, je_checkpoint_ref = er_checkpoint_ref row,
        je_evidence_ref = er_evidence_ref row\<rparr>))))"

fun parse_events :: "int \<Rightarrow> EventRow list \<Rightarrow> exn + JobEvent list" where
  "parse_events expected [] = Inr []"
| "parse_events expected (row # rows) =
     (if er_sequence_no row \<noteq> expected then Inl (JobStoreErr ''JOB_EVENT_SEQUENCE_INVALID'')
      else case event_from_row row of
        Inl _ \<Rightarrow> Inl (JobStoreErr ''JOB_EVENT_INVALID'')
      | Inr e \<Rightarrow> res_bind (parse_events (expected + 1) rows) (\<lambda>es. Inr (e # es)))"

definition list_events :: "string \<Rightarrow> JobDb \<Rightarrow> (exn + JobEvent list) \<times> JobDb" where
  "list_events i db =
     (if blank i then (Inl (ValueErr ''job_id''), db)
      else case initialize db of
        (Inl e, db1) \<Rightarrow> (Inl e, db1)
      | (Inr _, db1) \<Rightarrow>
          (if map_of (db_rows db1) i = None then (Inl (JobStoreErr ''JOB_NOT_FOUND''), db1)
           else (parse_events 1 (sort_key er_sequence_no (filter (\<lambda>e. er_job_id e = i) (db_events db1))), db1)))"

section \<open>The event log of a job\<close>

definition event_row ::
  "string \<Rightarrow> JobRuntimeState \<Rightarrow> JobEventType \<Rightarrow> TaskState option \<Rightarrow> JobRuntimeState \<Rightarrow> string option
     \<Rightarrow> string option \<Rightarrow> EventRow" where
  "event_row eid j etype from_s j' chk evidence =
     \<lparr>er_event_id = eid, er_job_id = js_job_id j, er_sequence_no = js_version j',
      er_event_type = event_type_value etype, er_from_state = map_option task_state_value from_s,
      er_to_state = Some (task_state_value (js_state j')), er_worker_id = js_worker_id j',
      er_recovery = map_option recovery_value (js_recovery j'), er_checkpoint_ref = chk,
      er_evidence_ref = evidence\<rparr>"

text \<open>
  \<^verbatim>\<open>history j L\<close>: the event rows \<^verbatim>\<open>L\<close> are the record of the writes that made the job \<^verbatim>\<open>j\<close>, in
  order and without a gap.
\<close>

inductive history :: "JobRuntimeState \<Rightarrow> EventRow list \<Rightarrow> bool" where
  created: "new_job_state i w p m = Inr j \<Longrightarrow> \<not> blank eid \<Longrightarrow>
    history j [event_row eid j EV_CREATED None j None None]"
| moved: "history j L \<Longrightarrow> plan_job_transition j t w r = Inr p \<Longrightarrow> \<not> blank eid \<Longrightarrow> nonblank_opt ev \<Longrightarrow>
    history (apply_plan j p) (L @ [event_row eid j EV_TRANSITION (Some (js_state j)) (apply_plan j p) None ev])"
| checked: "history j L \<Longrightarrow> js_state j \<notin> set TERMINAL_STATES \<Longrightarrow> \<not> blank eid \<Longrightarrow> \<not> blank chk \<Longrightarrow>
    nonblank_opt ev \<Longrightarrow>
    history (bump j) (L @ [event_row eid j EV_CHECKPOINT (Some (js_state j)) (bump j) (Some chk) ev])"

lemma history_reachable: "history j L \<Longrightarrow> job_reachable j"
proof (induction rule: history.induct)
  case (created i w p m j eid)
  then show ?case using job_reachable.created by blast
next
  case (moved j L t w r p eid ev)
  then show ?case using job_reachable.step job_step.transition by blast
next
  case (checked j L eid chk ev)
  then show ?case using job_reachable.step job_step.checkpoint by blast
qed

lemma new_job_fields:
  "new_job_state i w p m = Inr j \<Longrightarrow>
     j = \<lparr>js_job_id = i, js_work_order_ref = w, js_project_id = p, js_state = NEW, js_worker_id = None,
       js_attempt_count = 0, js_max_attempts = m, js_recovery = None, js_version = 1\<rparr>"
  by (auto simp: new_job_state_def post_init_iff)

lemma history_version: "history j L \<Longrightarrow> js_version j = int (length L)"
  by (induction rule: history.induct) (auto dest: new_job_fields)

lemma history_sequence: "history j L \<Longrightarrow> map er_sequence_no L = [1..int (length L)]"
proof (induction rule: history.induct)
  case (moved j L t w r p eid ev)
  then show ?case using history_version[OF moved.hyps(1)] upto_rec2[of 1 "1 + int (length L)"]
    by (simp add: event_row_def add.commute)
next
  case (checked j L eid chk ev)
  then show ?case using history_version[OF checked.hyps(1)] upto_rec2[of 1 "1 + int (length L)"]
    by (simp add: event_row_def add.commute)
qed (auto simp: event_row_def dest: new_job_fields)

definition executing_entries :: "EventRow list \<Rightarrow> nat" where
  "executing_entries L = length (filter (\<lambda>e. er_event_type e = ''TRANSITION'' \<and> er_to_state e = Some ''EXECUTING'') L)"

lemma task_state_value_inject [simp]: "task_state_value s = task_state_value t \<longleftrightarrow> s = t"
  by (metis task_state_of_value sum.inject(2))

lemma executing_value: "task_state_value s = ''EXECUTING'' \<longleftrightarrow> s = EXECUTING"
  using task_state_value_inject[of s EXECUTING] by simp

lemma history_attempts: "history j L \<Longrightarrow> js_attempt_count j = int (executing_entries L)"
proof (induction rule: history.induct)
  case (moved j L t w r p eid ev)
  then show ?case using plan_fields(2,4)[OF moved.hyps(2)]
    by (simp add: executing_entries_def event_row_def executing_value)
qed (auto simp: executing_entries_def event_row_def dest: new_job_fields)

text \<open>Every event starts in the state the previous one ended in.\<close>

definition linked :: "EventRow list \<Rightarrow> bool" where
  "linked L \<longleftrightarrow> L \<noteq> [] \<and> er_from_state (hd L) = None \<and> er_to_state (hd L) = Some ''NEW''
     \<and> (\<forall>k. Suc k < length L \<longrightarrow> er_from_state (L ! Suc k) = er_to_state (L ! k))"

lemma linked_snoc:
  assumes "linked L" and "er_from_state e = er_to_state (last L)"
  shows "linked (L @ [e])"
proof -
  have "er_from_state ((L @ [e]) ! Suc k) = er_to_state ((L @ [e]) ! k)" if "Suc k < length (L @ [e])" for k
  proof (cases "Suc k = length L")
    case True
    then have "k = length L - 1" "L \<noteq> []" by auto
    then show ?thesis using assms(2) True by (simp add: nth_append last_conv_nth)
  next
    case False
    then show ?thesis using that assms(1) by (simp add: nth_append linked_def)
  qed
  then show ?thesis using assms(1) by (simp add: linked_def)
qed

lemma history_linked:
  "history j L \<Longrightarrow> linked L \<and> er_to_state (last L) = Some (task_state_value (js_state j))"
proof (induction rule: history.induct)
  case (created i w p m j eid)
  then show ?case using new_job_fields[OF created.hyps(1)] by (simp add: linked_def event_row_def)
next
  case (moved j L t w r p eid ev)
  then show ?case by (auto intro: linked_snoc simp: event_row_def)
next
  case (checked j L eid chk ev)
  then show ?case by (auto intro: linked_snoc simp: event_row_def)
qed

definition event_of_row_ok :: "EventRow \<Rightarrow> bool" where
  "event_of_row_ok e = (case event_from_row e of Inl _ \<Rightarrow> False | Inr _ \<Rightarrow> True)"

lemma opt_res_map [simp]:
  "opt_res task_state_of (map_option task_state_value s) = Inr s"
  "opt_res recovery_of (map_option recovery_value r) = Inr r"
  "opt_res task_state_of (Some (task_state_value t)) = Inr (Some t)"
  by (simp_all add: opt_res_def split: option.split)

lemma event_row_parses:
  assumes "\<not> blank eid" "\<not> blank (js_job_id j)" "1 \<le> js_version j'" "nonblank_opt (js_worker_id j')"
    "nonblank_opt chk" "nonblank_opt ev"
  shows "event_from_row (event_row eid j et f j' chk ev) =
    Inr \<lparr>je_event_id = eid, je_job_id = js_job_id j, je_sequence_no = js_version j', je_event_type = et,
      je_from_state = f, je_to_state = Some (js_state j'), je_worker_id = js_worker_id j',
      je_recovery = js_recovery j', je_checkpoint_ref = chk, je_evidence_ref = ev\<rparr>"
  using assms by (simp add: event_from_row_def event_row_def JobEvent_post_init_def)

lemma history_job_inv: "history j L \<Longrightarrow> job_inv j"
  using history_reachable job_reachable_inv by blast

lemma history_parses: "history j L \<Longrightarrow> \<forall>e \<in> set L. er_job_id e = js_job_id j \<and> event_of_row_ok e"
proof (induction rule: history.induct)
  case (created i w p m j eid)
  then show ?case using new_job_inv[OF created.hyps(1)]
    by (simp add: event_of_row_ok_def event_row_parses job_inv_def job_valid_def) (simp add: event_row_def)
next
  case (moved j L t w r p eid ev)
  then show ?case
    using history_job_inv[OF moved.hyps(1)] apply_plan_inv[OF history_job_inv[OF moved.hyps(1)] moved.hyps(2)]
    by (simp add: event_of_row_ok_def event_row_parses job_inv_def job_valid_def) (simp add: event_row_def)
next
  case (checked j L eid chk ev)
  then show ?case using history_job_inv[OF checked.hyps(1)]
    by (simp add: event_of_row_ok_def event_row_parses job_inv_def job_valid_def) (simp add: event_row_def)
qed

lemma parse_events_total:
  assumes "map er_sequence_no L = [n..n + int (length L) - 1]" and "\<forall>e \<in> set L. event_of_row_ok e"
  shows "\<exists>es. parse_events n L = Inr es \<and> map Inr es = map event_from_row L"
  using assms
proof (induction L arbitrary: n)
  case Nil
  then show ?case by simp
next
  case (Cons e L)
  have up: "[n..n + int (length (e # L)) - 1] = n # [n + 1..n + 1 + int (length L) - 1]"
    by (subst upto_rec1) (auto simp: algebra_simps)
  from Cons.prems(1) have "er_sequence_no e = n" "map er_sequence_no L = [n + 1..n + 1 + int (length L) - 1]"
    unfolding up by simp_all
  moreover obtain x where "event_from_row e = Inr x"
    using Cons.prems(2) by (auto simp: event_of_row_ok_def split: sum.splits)
  ultimately show ?case using Cons.IH[of "n + 1"] Cons.prems(2) by auto
qed

section \<open>The invariant of the database\<close>

definition job_log :: "JobDb \<Rightarrow> string \<Rightarrow> EventRow list" where
  "job_log db i = filter (\<lambda>e. er_job_id e = i) (db_events db)"

definition db_inv :: "JobDb \<Rightarrow> bool" where
  "db_inv db \<longleftrightarrow> distinct (map fst (db_rows db))
     \<and> (\<forall>i row. map_of (db_rows db) i = Some row \<longrightarrow>
          (\<exists>j. row = row_of j \<and> js_job_id j = i \<and> history j (job_log db i)))
     \<and> (\<forall>i. map_of (db_rows db) i = None \<longrightarrow> job_log db i = [])
     \<and> db_schema db \<in> {None, Some JOB_STORE_SCHEMA_VERSION}"

lemma db_invD:
  assumes "db_inv db" and "map_of (db_rows db) i = Some row"
  obtains j where "row = row_of j" "js_job_id j = i" "history j (job_log db i)"
  using assms unfolding db_inv_def by blast

lemma state_from_row_of:
  assumes "job_valid j"
  shows "state_from_row (row_of j) = Inr j"
proof -
  have "JobRuntimeState_post_init j = Inr j" using assms by (simp add: post_init_iff)
  then show ?thesis by (cases j) (simp add: state_from_row_def row_of_def)
qed

lemma history_valid: "history j L \<Longrightarrow> job_valid j"
  using history_job_inv by (simp add: job_inv_def)

lemma initialize_Inr:
  "initialize db = (Inr u, db') \<Longrightarrow> db' = db\<lparr>db_schema := Some JOB_STORE_SCHEMA_VERSION\<rparr>"
  by (auto simp: initialize_def Let_def split: if_splits option.splits)

lemma initialize_Inl: "initialize db = (Inl e, db') \<Longrightarrow> db' = db"
  by (auto simp: initialize_def Let_def split: if_splits option.splits)

lemma initialize_frame [simp]:
  "db_rows (snd (initialize db)) = db_rows db" "db_events (snd (initialize db)) = db_events db"
  "db_id_calls (snd (initialize db)) = db_id_calls db"
  by (simp_all add: initialize_def Let_def split: option.split)

lemma in_transaction_Inr:
  assumes "in_transaction body db = (Inr x, db')"
  shows "\<exists>wr db2. body (db\<lparr>db_schema := Some JOB_STORE_SCHEMA_VERSION\<rparr>) = Inr (x, wr)
    \<and> wr (db\<lparr>db_schema := Some JOB_STORE_SCHEMA_VERSION\<rparr>) = Inr db2
    \<and> db' = db2\<lparr>db_id_calls := db_id_calls db + 1\<rparr>"
proof -
  obtain u db1 where i: "initialize db = (Inr u, db1)"
    using assms by (auto simp: in_transaction_def split: prod.splits sum.splits)
  note d = initialize_Inr[OF i]
  from assms i show ?thesis unfolding d
    by (auto simp: in_transaction_def split: prod.splits sum.splits)
qed

lemma in_transaction_Inl:
  assumes "in_transaction body db = (Inl e, db')"
  shows "db_rows db' = db_rows db \<and> db_events db' = db_events db"
proof -
  obtain r db1 where i: "initialize db = (r, db1)" by fastforce
  then have "db_rows db1 = db_rows db" "db_events db1 = db_events db"
    using initialize_frame[of db] by simp_all
  with assms i show ?thesis by (auto simp: in_transaction_def split: sum.splits prod.splits)
qed

lemma insert_event_Inr:
  assumes "insert_event f i et fs ts w r c ev db = Inr db'"
  shows "\<exists>eid. \<not> blank eid \<and> eid \<notin> er_event_id ` set (db_events db) \<and> f (db_id_calls db) = Some eid \<and>
    db' = db\<lparr>db_events := db_events db @
      [\<lparr>er_event_id = eid, er_job_id = i, er_sequence_no = next_sequence db i,
        er_event_type = event_type_value et, er_from_state = map_option task_state_value fs,
        er_to_state = map_option task_state_value ts, er_worker_id = w,
        er_recovery = map_option recovery_value r, er_checkpoint_ref = c, er_evidence_ref = ev\<rparr>]\<rparr>"
  using assms by (auto simp: insert_event_def next_event_id_def split: option.splits if_splits)

lemma next_sequence_history:
  assumes "history j (job_log db i)"
  shows "next_sequence db i = js_version j + 1"
proof -
  have seq: "map er_sequence_no (job_log db i) = [1..js_version j]"
    using history_sequence[OF assms] history_version[OF assms] by simp
  have v: "js_version j \<ge> 1" using history_valid[OF assms] by (simp add: job_valid_def)
  then obtain s ss where "[1..js_version j] = s # ss" using upto_rec1 by blast
  then show ?thesis using fold_max_upto[OF v] seq by (simp add: next_sequence_def job_log_def)
qed

lemma next_sequence_rows [simp]: "next_sequence (db\<lparr>db_rows := x\<rparr>) i = next_sequence db i"
  "next_sequence (db\<lparr>db_schema := y\<rparr>) i = next_sequence db i"
  by (simp_all add: next_sequence_def)

lemma job_log_frame [simp]:
  "job_log (db\<lparr>db_rows := x\<rparr>) i = job_log db i" "job_log (db\<lparr>db_schema := y\<rparr>) i = job_log db i"
  "job_log (db\<lparr>db_id_calls := n\<rparr>) i = job_log db i"
  by (simp_all add: job_log_def)

text \<open>The database after a committed write of the job \<^verbatim>\<open>j'\<close> with its event.\<close>

definition committed :: "JobDb \<Rightarrow> JobRuntimeState \<Rightarrow> EventRow \<Rightarrow> JobDb" where
  "committed db j' e = \<lparr>db_schema = Some JOB_STORE_SCHEMA_VERSION,
     db_rows = AList.update (js_job_id j') (row_of j') (db_rows db),
     db_events = db_events db @ [e], db_id_calls = db_id_calls db + 1\<rparr>"

lemma committed_log:
  "er_job_id e = js_job_id j' \<Longrightarrow> job_log (committed db j' e) i =
     (if i = js_job_id j' then job_log db i @ [e] else job_log db i)"
  by (simp add: committed_def job_log_def)

lemma committed_inv:
  assumes inv: "db_inv db" and e: "er_job_id e = js_job_id j'"
    and h: "history j' (job_log db (js_job_id j') @ [e])"
  shows "db_inv (committed db j' e)"
proof -
  have rows: "map_of (db_rows (committed db j' e)) = (map_of (db_rows db))(js_job_id j' \<mapsto> row_of j')"
    by (simp add: committed_def)
  have "distinct (map fst (db_rows (committed db j' e)))"
    using inv by (simp add: committed_def db_inv_def distinct_update)
  moreover have "\<exists>j. row = row_of j \<and> js_job_id j = i \<and> history j (job_log (committed db j' e) i)"
    if "map_of (db_rows (committed db j' e)) i = Some row" for i row
    using that inv h unfolding rows committed_log[OF e] by (auto simp: db_inv_def split: if_splits)
  moreover have "job_log (committed db j' e) i = []"
    if "map_of (db_rows (committed db j' e)) i = None" for i
    using that inv unfolding rows committed_log[OF e] by (auto simp: db_inv_def split: if_splits)
  moreover have "db_schema (committed db j' e) = Some JOB_STORE_SCHEMA_VERSION" by (simp add: committed_def)
  ultimately show ?thesis unfolding db_inv_def by blast
qed

section \<open>What the operations do\<close>

lemma load_Inr:
  assumes inv: "db_inv db" and l: "res_bind (load_job_row (db\<lparr>db_schema := v\<rparr>) i) state_from_row = Inr j"
  shows "map_of (db_rows db) i = Some (row_of j) \<and> js_job_id j = i \<and> history j (job_log db i)"
proof -
  obtain row where row: "map_of (db_rows db) i = Some row" "state_from_row row = Inr j"
    using l by (auto simp: load_job_row_def split: option.splits)
  obtain k where k: "row = row_of k" "js_job_id k = i" "history k (job_log db i)"
    using db_invD[OF inv row(1)] .
  then have "j = k" using row(2) state_from_row_of[OF history_valid[OF k(3)]] by simp
  with k row show ?thesis by simp
qed

lemma check_version_Inr [simp]: "check_version j v = Inr u \<longleftrightarrow> v \<ge> 1 \<and> js_version j = v"
  by (auto simp: check_version_def)

lemma update_row_Inr:
  "update_row f i v db = Inr db' \<longleftrightarrow>
     (\<exists>row. map_of (db_rows db) i = Some row \<and> jr_version row = v
        \<and> db' = db\<lparr>db_rows := AList.update i (f row) (db_rows db)\<rparr>)"
  by (auto simp: update_row_def split: option.splits)

text \<open>A transition that returns: it read the job, planned the move and committed it.\<close>

lemma transition_Inr:
  assumes inv: "db_inv db" and t: "transition f i target v w r ev db = (Inr j', db')"
  shows "\<exists>j p eid. map_of (db_rows db) i = Some (row_of j) \<and> js_job_id j = i \<and> history j (job_log db i)
    \<and> js_version j = v \<and> plan_job_transition j target w r = Inr p \<and> j' = apply_plan j p
    \<and> \<not> blank eid \<and> nonblank_opt ev
    \<and> db' = committed db j' (event_row eid j EV_TRANSITION (Some (js_state j)) j' None ev)"
proof -
  let ?db = "db\<lparr>db_schema := Some JOB_STORE_SCHEMA_VERSION\<rparr>"
  have ev: "nonblank_opt ev" and tx: "in_transaction (transition_body f i target v w r ev) db = (Inr j', db')"
    using t by (auto simp: transition_def split: sum.splits)
  obtain wr db2 where body: "transition_body f i target v w r ev ?db = Inr (j', wr)" and wr: "wr ?db = Inr db2"
    and db': "db' = db2\<lparr>db_id_calls := db_id_calls db + 1\<rparr>"
    using in_transaction_Inr[OF tx] by blast
  from body obtain j p where l: "res_bind (load_job_row ?db i) state_from_row = Inr j"
    and v: "js_version j = v" and p: "plan_job_transition j target w r = Inr p" and j': "j' = apply_plan j p"
    and w: "wr = transition_write f j p ev"
    unfolding transition_body_def res_bind_Inr_iff sum.inject prod.inject check_version_Inr by blast
  note k = load_Inr[OF inv l]
  let ?upd = "?db\<lparr>db_rows := AList.update i (row_of (apply_plan j p)) (db_rows db)\<rparr>"
  have "insert_event f i EV_TRANSITION (Some (js_state j)) (Some (jp_target_state p)) (jp_worker_id p)
      (jp_recovery p) None ev ?upd = Inr db2"
    using wr k unfolding w transition_write_def res_bind_Inr_iff update_row_Inr by (auto simp: row_of_def)
  from insert_event_Inr[OF this] obtain eid where "\<not> blank eid"
    and d2: "db2 = ?upd\<lparr>db_events := db_events db @ [event_row eid j EV_TRANSITION (Some (js_state j)) j' None ev]\<rparr>"
    using k next_sequence_history[of j db i] by (auto simp: event_row_def j')
  moreover have "db' = committed db j' (event_row eid j EV_TRANSITION (Some (js_state j)) j' None ev)"
    using k unfolding db' d2 j' by (simp add: committed_def)
  ultimately show ?thesis using k v p j' ev by blast
qed

lemma checkpoint_Inr:
  assumes inv: "db_inv db" and t: "checkpoint f i c v ev db = (Inr j', db')"
  shows "\<exists>j eid. map_of (db_rows db) i = Some (row_of j) \<and> js_job_id j = i \<and> history j (job_log db i)
    \<and> js_version j = v \<and> js_state j \<notin> set TERMINAL_STATES \<and> j' = bump j
    \<and> \<not> blank eid \<and> \<not> blank c \<and> nonblank_opt ev
    \<and> db' = committed db j' (event_row eid j EV_CHECKPOINT (Some (js_state j)) j' (Some c) ev)"
proof -
  let ?db = "db\<lparr>db_schema := Some JOB_STORE_SCHEMA_VERSION\<rparr>"
  have ev: "nonblank_opt ev" "\<not> blank c" and tx: "in_transaction (checkpoint_body f i c v ev) db = (Inr j', db')"
    using t by (auto simp: checkpoint_def split: sum.splits)
  obtain wr db2 where body: "checkpoint_body f i c v ev ?db = Inr (j', wr)" and wr: "wr ?db = Inr db2"
    and db': "db' = db2\<lparr>db_id_calls := db_id_calls db + 1\<rparr>"
    using in_transaction_Inr[OF tx] by blast
  from body obtain j where l: "res_bind (load_job_row ?db i) state_from_row = Inr j"
    and v: "js_version j = v" and st: "js_state j \<notin> set TERMINAL_STATES" and j': "j' = bump j"
    and w: "wr = checkpoint_write f j c ev"
    unfolding checkpoint_body_def res_bind_Inr_iff check_version_Inr by (auto split: if_splits)
  note k = load_Inr[OF inv l]
  let ?upd = "?db\<lparr>db_rows := AList.update i (row_of (bump j)) (db_rows db)\<rparr>"
  have "insert_event f i EV_CHECKPOINT (Some (js_state j)) (Some (js_state j)) (js_worker_id j)
      (js_recovery j) (Some c) ev ?upd = Inr db2"
    using wr k unfolding w checkpoint_write_def res_bind_Inr_iff update_row_Inr by (auto simp: row_of_def)
  from insert_event_Inr[OF this] obtain eid where "\<not> blank eid"
    and d2: "db2 = ?upd\<lparr>db_events := db_events db @ [event_row eid j EV_CHECKPOINT (Some (js_state j)) j' (Some c) ev]\<rparr>"
    using k next_sequence_history[of j db i] by (auto simp: event_row_def j')
  moreover have "db' = committed db j' (event_row eid j EV_CHECKPOINT (Some (js_state j)) j' (Some c) ev)"
    using k unfolding db' d2 j' by (simp add: committed_def)
  ultimately show ?thesis using k v st j' ev by blast
qed

lemma next_sequence_Nil: "job_log db i = [] \<Longrightarrow> next_sequence db i = 1"
  by (simp add: next_sequence_def job_log_def)

lemma create_job_Inr:
  assumes inv: "db_inv db" and c: "create_job f i w p m db = (Inr j, db')"
  shows "new_job_state i w p m = Inr j \<and> map_of (db_rows db) i = None
    \<and> (\<exists>eid. \<not> blank eid \<and> db' = committed db j (event_row eid j EV_CREATED None j None None))"
proof -
  let ?db = "db\<lparr>db_schema := Some JOB_STORE_SCHEMA_VERSION\<rparr>"
  obtain j0 where n: "new_job_state i w p m = Inr j0" using c by (auto simp: create_job_def split: sum.splits)
  note f0 = new_job_fields[OF n]
  note tx = c[unfolded create_job_def n sum.case, THEN in_transaction_Inr]
  from tx have new: "map_of (db_rows db) i = None" "j = j0" by (auto simp: f0 split: if_splits)
  from tx new obtain db2 where
    ins: "insert_event f i EV_CREATED None (Some NEW) None None None None
      (?db\<lparr>db_rows := db_rows db @ [(i, row_of j0)]\<rparr>) = Inr db2"
    and db': "db' = db2\<lparr>db_id_calls := db_id_calls db + 1\<rparr>"
    by (auto simp: f0)
  have s: "next_sequence db i = 1" using inv new(1) next_sequence_Nil by (simp add: db_inv_def)
  have u: "AList.update i (row_of j0) (db_rows db) = db_rows db @ [(i, row_of j0)]"
    using new(1) by (intro update_new) (simp add: map_of_eq_None_iff)
  from insert_event_Inr[OF ins] obtain eid where eid: "\<not> blank eid" and
    d2: "db2 = ?db\<lparr>db_rows := db_rows db @ [(i, row_of j0)],
      db_events := db_events db @ [event_row eid j EV_CREATED None j None None]\<rparr>"
    using s new(2) by (auto simp: event_row_def f0)
  have "db' = committed db j (event_row eid j EV_CREATED None j None None)"
    unfolding db' d2 committed_def new(2) using u by (simp add: f0)
  then show ?thesis using n new eid by blast
qed

text \<open>An operation that raises changes no row and no event.\<close>

definition same_content :: "JobDb \<Rightarrow> JobDb \<Rightarrow> bool" where
  "same_content db db' \<longleftrightarrow> db_rows db' = db_rows db \<and> db_events db' = db_events db
     \<and> (db_schema db' = db_schema db \<or> db_schema db' = Some JOB_STORE_SCHEMA_VERSION)"

lemma same_content_inv: "same_content db db' \<Longrightarrow> db_inv db \<Longrightarrow> db_inv db'"
  by (auto simp: same_content_def db_inv_def job_log_def)

lemma same_content_refl [simp]: "same_content db db"
  by (simp add: same_content_def)

lemma initialize_same: "same_content db (snd (initialize db))"
  by (auto simp: same_content_def initialize_def Let_def split: option.split)

lemma in_transaction_same:
  assumes "in_transaction body db = (Inl e, db')"
  shows "same_content db db'"
proof -
  obtain r db1 where i: "initialize db = (r, db1)" by fastforce
  have "same_content db db1" using initialize_same[of db] i by simp
  then have "same_content db (db1\<lparr>db_id_calls := n\<rparr>)" for n by (simp add: same_content_def)
  with assms i \<open>same_content db db1\<close> show ?thesis
    by (auto simp: in_transaction_def split: sum.splits prod.splits)
qed

lemma create_job_Inl: "create_job f i w p m db = (Inl e, db') \<Longrightarrow> same_content db db'"
  using in_transaction_same by (auto simp: create_job_def split: sum.splits)

lemma transition_Inl: "transition f i t v w r ev db = (Inl e, db') \<Longrightarrow> same_content db db'"
  using in_transaction_same by (auto simp: transition_def split: sum.splits)

lemma checkpoint_Inl: "checkpoint f i c v ev db = (Inl e, db') \<Longrightarrow> same_content db db'"
  using in_transaction_same by (auto simp: checkpoint_def split: sum.splits)

lemma get_job_same: "same_content db (snd (get_job i db))"
  using initialize_same[of db] by (auto simp: get_job_def split: sum.splits prod.splits)

lemma list_events_same: "same_content db (snd (list_events i db))"
  using initialize_same[of db] by (auto simp: list_events_def split: sum.splits prod.splits)

section \<open>Runs of the store\<close>

inductive store_step :: "JobDb \<Rightarrow> JobDb \<Rightarrow> bool" where
  create: "create_job f i w p m db = (r, db') \<Longrightarrow> store_step db db'"
| move: "transition f i t v w c ev db = (r, db') \<Longrightarrow> store_step db db'"
| check: "checkpoint f i ck v ev db = (r, db') \<Longrightarrow> store_step db db'"
| read: "get_job i db = (r, db') \<Longrightarrow> store_step db db'"
| events: "list_events i db = (r', db') \<Longrightarrow> store_step db db'"

definition store_reachable :: "JobDb \<Rightarrow> bool" where
  "store_reachable db \<longleftrightarrow> store_step\<^sup>*\<^sup>* empty_db db"

text \<open>Every step keeps the content or commits one job write.\<close>

lemma store_step_cases:
  assumes inv: "db_inv db" and step: "store_step db db'"
  shows "same_content db db' \<or> (\<exists>j' e. db' = committed db j' e \<and> er_job_id e = js_job_id j'
    \<and> history j' (job_log db (js_job_id j') @ [e])
    \<and> (map_of (db_rows db) (js_job_id j') = None
       \<or> (\<exists>j. map_of (db_rows db) (js_job_id j') = Some (row_of j) \<and> job_step j j')))"
  using step
proof cases
  case (create f i w p m r)
  show ?thesis
  proof (cases r)
    case (Inl e)
    with create show ?thesis using create_job_Inl by blast
  next
    case (Inr j)
    with create create_job_Inr[OF inv, of f i w p m j db'] obtain eid where
      n: "new_job_state i w p m = Inr j" "map_of (db_rows db) i = None" "\<not> blank eid"
      and d: "db' = committed db j (event_row eid j EV_CREATED None j None None)" by blast
    then have "history j ([] @ [event_row eid j EV_CREATED None j None None])"
      using history.created by simp
    moreover have "js_job_id j = i" using new_job_fields[OF n(1)] by simp
    moreover have "job_log db i = []" using inv n(2) by (simp add: db_inv_def)
    moreover have "er_job_id (event_row eid j EV_CREATED None j None None) = js_job_id j"
      by (simp add: event_row_def)
    ultimately show ?thesis using d n(2)
      by (intro disjI2 exI[of _ j] exI[of _ "event_row eid j EV_CREATED None j None None"]) simp
  qed
next
  case (move f i t v w c ev r)
  show ?thesis
  proof (cases r)
    case (Inl e)
    with move show ?thesis using transition_Inl by blast
  next
    case (Inr j')
    with move transition_Inr[OF inv, of f i t v w c ev j' db'] obtain j p eid where
      k: "map_of (db_rows db) i = Some (row_of j)" "js_job_id j = i" "history j (job_log db i)"
        "plan_job_transition j t w c = Inr p" "j' = apply_plan j p" "\<not> blank eid" "nonblank_opt ev"
      and d: "db' = committed db j' (event_row eid j EV_TRANSITION (Some (js_state j)) j' None ev)" by blast
    have "history j' (job_log db i @ [event_row eid j EV_TRANSITION (Some (js_state j)) j' None ev])"
      unfolding k(5) by (rule history.moved[OF k(3,4,6,7)])
    moreover have "job_step j j'" unfolding k(5) by (rule job_step.transition[OF k(4)])
    moreover have "js_job_id j' = i" using k by simp
    moreover have "er_job_id (event_row eid j EV_TRANSITION (Some (js_state j)) j' None ev) = i"
      using k(2) by (simp add: event_row_def)
    ultimately show ?thesis using d k(1) by auto
  qed
next
  case (check f i ck v ev r)
  show ?thesis
  proof (cases r)
    case (Inl e)
    with check show ?thesis using checkpoint_Inl by blast
  next
    case (Inr j')
    with check checkpoint_Inr[OF inv, of f i ck v ev j' db'] obtain j eid where
      k: "map_of (db_rows db) i = Some (row_of j)" "js_job_id j = i" "history j (job_log db i)"
        "js_state j \<notin> set TERMINAL_STATES" "j' = bump j" "\<not> blank eid" "\<not> blank ck" "nonblank_opt ev"
      and d: "db' = committed db j' (event_row eid j EV_CHECKPOINT (Some (js_state j)) j' (Some ck) ev)" by blast
    have "history j' (job_log db i @ [event_row eid j EV_CHECKPOINT (Some (js_state j)) j' (Some ck) ev])"
      unfolding k(5) by (rule history.checked[OF k(3,4,6,7,8)])
    moreover have "job_step j j'" unfolding k(5) by (rule job_step.checkpoint[OF k(4)])
    moreover have "js_job_id j' = i" using k by simp
    moreover have "er_job_id (event_row eid j EV_CHECKPOINT (Some (js_state j)) j' (Some ck) ev) = i"
      using k(2) by (simp add: event_row_def)
    ultimately show ?thesis using d k(1) by auto
  qed
next
  case (read i r)
  then show ?thesis using get_job_same[of db i] by simp
next
  case (events i r')
  then show ?thesis using list_events_same[of db i] by simp
qed

lemma store_step_inv: "db_inv db \<Longrightarrow> store_step db db' \<Longrightarrow> db_inv db'"
  using store_step_cases[of db db'] same_content_inv committed_inv by blast

lemma empty_db_inv: "db_inv empty_db"
  by (simp add: db_inv_def empty_db_def job_log_def)

lemma store_steps_inv: "store_step\<^sup>*\<^sup>* db db' \<Longrightarrow> db_inv db \<Longrightarrow> db_inv db'"
  by (induction rule: rtranclp_induct) (auto intro: store_step_inv)

lemma store_reachable_inv: "store_reachable db \<Longrightarrow> db_inv db"
  using store_steps_inv empty_db_inv by (auto simp: store_reachable_def)

lemma store_reachable_ops:
  assumes "store_reachable db"
  shows "store_reachable (snd (create_job f i wo p m db))" "store_reachable (snd (transition f i t v w c ev db))"
    "store_reachable (snd (checkpoint f i ck v ev db))"
  using assms store_step.create[of f i wo p m db] store_step.move[of f i t v w c ev db]
    store_step.check[of f i ck v ev db] unfolding store_reachable_def
  by (metis prod.collapse rtranclp.rtrancl_into_rtrancl)+

section \<open>The store as a map of jobs\<close>

text \<open>
  The abstract content of a database: the jobs its rows stand for.
\<close>

definition db_job :: "JobDb \<Rightarrow> string \<Rightarrow> JobRuntimeState option" where
  "db_job db i = (case map_of (db_rows db) i of None \<Rightarrow> None
     | Some row \<Rightarrow> (case state_from_row row of Inl _ \<Rightarrow> None | Inr j \<Rightarrow> Some j))"

lemma db_job_Some:
  assumes "db_inv db" and "db_job db i = Some j"
  shows "map_of (db_rows db) i = Some (row_of j)" "js_job_id j = i" "history j (job_log db i)"
proof -
  obtain row where r: "map_of (db_rows db) i = Some row" "state_from_row row = Inr j"
    using assms(2) by (auto simp: db_job_def split: option.splits sum.splits)
  then have "res_bind (load_job_row (db\<lparr>db_schema := None\<rparr>) i) state_from_row = Inr j"
    by (simp add: load_job_row_def)
  from load_Inr[OF assms(1) this] show "map_of (db_rows db) i = Some (row_of j)" "js_job_id j = i"
    "history j (job_log db i)" by simp_all
qed

lemma db_job_row:
  assumes "db_inv db" and "map_of (db_rows db) i = Some (row_of j)" "job_valid j"
  shows "db_job db i = Some j"
  using assms(2) state_from_row_of[OF assms(3)] by (simp add: db_job_def)

lemma db_job_None:
  assumes inv: "db_inv db"
  shows "db_job db i = None \<longleftrightarrow> map_of (db_rows db) i = None"
proof (cases "map_of (db_rows db) i")
  case None
  then show ?thesis by (simp add: db_job_def)
next
  case (Some row)
  obtain j where j: "row = row_of j" "history j (job_log db i)" using db_invD[OF inv Some] .
  then show ?thesis using db_job_row[OF inv Some[unfolded j(1)] history_valid[OF j(2)]] Some by simp
qed

lemma db_job_same: "same_content db db' \<Longrightarrow> db_job db' = db_job db"
  by (auto simp: same_content_def db_job_def)

lemma db_job_committed:
  "job_valid j' \<Longrightarrow> db_job (committed db j' e) = (db_job db)(js_job_id j' \<mapsto> j')"
  by (auto simp: db_job_def committed_def state_from_row_of)

text \<open>
  The contract of the durable store, as its clients use it: reads return the stored job; a
  write succeeds only from the version the caller names, makes exactly the planned change
  to exactly that job, and a write that raises changes nothing.
\<close>

locale durable_job_store =
  fixes get :: "string \<Rightarrow> 's \<Rightarrow> (exn + JobRuntimeState) \<times> 's"
    and move :: "string \<Rightarrow> TaskState \<Rightarrow> int \<Rightarrow> string option \<Rightarrow> RecoveryClassification option
      \<Rightarrow> string option \<Rightarrow> 's \<Rightarrow> (exn + JobRuntimeState) \<times> 's"
    and check :: "string \<Rightarrow> string \<Rightarrow> int \<Rightarrow> string option \<Rightarrow> 's \<Rightarrow> (exn + JobRuntimeState) \<times> 's"
    and job :: "'s \<Rightarrow> string \<Rightarrow> JobRuntimeState option"
    and good :: "'s \<Rightarrow> bool"
  assumes get_law: "good s \<Longrightarrow> get i s = (r, s') \<Longrightarrow> good s' \<and> job s' = job s
      \<and> (\<forall>j. r = Inr j \<longrightarrow> job s i = Some j)"
    and move_law: "good s \<Longrightarrow> move i t v w c ev s = (Inr j', s') \<Longrightarrow> good s' \<and>
      (\<exists>j p. job s i = Some j \<and> js_version j = v \<and> plan_job_transition j t w c = Inr p
         \<and> j' = apply_plan j p \<and> job s' = (job s)(i \<mapsto> j'))"
    and move_fail: "good s \<Longrightarrow> move i t v w c ev s = (Inl e, s') \<Longrightarrow> good s' \<and> job s' = job s"
    and check_law: "good s \<Longrightarrow> check i ck v ev s = (Inr j', s') \<Longrightarrow> good s' \<and>
      (\<exists>j. job s i = Some j \<and> js_version j = v \<and> js_state j \<notin> set TERMINAL_STATES
         \<and> j' = bump j \<and> job s' = (job s)(i \<mapsto> j'))"
    and check_fail: "good s \<Longrightarrow> check i ck v ev s = (Inl e, s') \<Longrightarrow> good s' \<and> job s' = job s"
    and job_law: "good s \<Longrightarrow> job s i = Some j \<Longrightarrow> job_reachable j \<and> js_job_id j = i"
begin

text \<open>Two writes from the same version cannot both succeed.\<close>

lemma version_moves_on:
  assumes "good s" and "move i t v w c ev s = (Inr j', s')"
  shows "\<exists>j. job s' i = Some j \<and> js_version j = v + 1"
  using move_law[OF assms] by auto

lemma second_writer_loses:
  assumes "good s" and "move i t v w c ev s = (Inr j', s')"
  shows "\<exists>e s''. move i t' v w' c' ev' s' = (Inl e, s'')"
proof -
  obtain r s'' where r: "move i t' v w' c' ev' s' = (r, s'')" by fastforce
  have "good s'" using move_law[OF assms] by blast
  obtain j where "job s' i = Some j" "js_version j = v + 1" using version_moves_on[OF assms] by blast
  then have "r \<noteq> Inr j''" for j'' using move_law[OF \<open>good s'\<close>, of i t' v w' c' ev' j'' s''] r by auto
  then show ?thesis using r by (cases r) auto
qed

lemma owner_kept:
  assumes "good s" and "move i t v w c ev s = (Inr j', s')" and "job s i = Some j"
    and "js_worker_id j = Some x"
  shows "js_worker_id j' \<in> {Some x, None}"
proof -
  obtain p where "plan_job_transition j t w c = Inr p" "j' = apply_plan j p"
    using move_law[OF assms(1,2)] assms(3) by auto
  then show ?thesis
    using plan_worker[OF job_reachable_inv] job_law[OF assms(1,3)] assms(4) by fastforce
qed

end

lemma get_job_value:
  assumes inv: "db_inv db" and "\<not> blank i"
  shows "fst (get_job i db) = (case db_job db i of
    None \<Rightarrow> Inl (JobStoreErr ''JOB_NOT_FOUND'') | Some j \<Rightarrow> Inr j)"
proof -
  have i: "initialize db = (Inr (), db\<lparr>db_schema := Some JOB_STORE_SCHEMA_VERSION\<rparr>)"
    using inv by (auto simp: db_inv_def initialize_def Let_def)
  show ?thesis
  proof (cases "db_job db i")
    case None
    then have "map_of (db_rows db) i = None" using db_job_None[OF inv] by blast
    then show ?thesis using assms(2) None by (simp add: get_job_def i load_job_row_def)
  next
    case (Some j)
    note k = db_job_Some[OF inv Some]
    then show ?thesis using Some assms(2) state_from_row_of[OF history_valid[OF k(3)]]
      by (simp add: get_job_def i load_job_row_def)
  qed
qed

text \<open>The writes refine the abstract change of one job.\<close>

lemma transition_refines:
  assumes a: "db_inv s" "transition f i t v w c ev s = (Inr j', s')"
  shows "db_inv s' \<and> (\<exists>j p. db_job s i = Some j \<and> js_version j = v \<and> plan_job_transition j t w c = Inr p
      \<and> j' = apply_plan j p \<and> db_job s' = (db_job s)(i \<mapsto> j'))"
proof -
  obtain j p eid where k: "map_of (db_rows s) i = Some (row_of j)" "js_job_id j = i" "history j (job_log s i)"
    "js_version j = v" "plan_job_transition j t w c = Inr p" "j' = apply_plan j p"
    and s': "s' = committed s j' (event_row eid j EV_TRANSITION (Some (js_state j)) j' None ev)"
    using transition_Inr[OF a] by blast
  have "db_inv s'" using store_step_inv[OF a(1) store_step.move[OF a(2)]] .
  moreover have "db_job s i = Some j" by (rule db_job_row[OF a(1) k(1) history_valid[OF k(3)]])
  moreover have "job_valid j'" using apply_plan_inv[OF history_job_inv[OF k(3)] k(5)] k(6) by (simp add: job_inv_def)
  then have "db_job s' = (db_job s)(i \<mapsto> j')" unfolding s' by (subst db_job_committed) (simp_all add: k)
  ultimately show ?thesis using k by blast
qed

lemma checkpoint_refines:
  assumes a: "db_inv s" "checkpoint f i ck v ev s = (Inr j', s')"
  shows "db_inv s' \<and> (\<exists>j. db_job s i = Some j \<and> js_version j = v \<and> js_state j \<notin> set TERMINAL_STATES
      \<and> j' = bump j \<and> db_job s' = (db_job s)(i \<mapsto> j'))"
proof -
  obtain j eid where k: "map_of (db_rows s) i = Some (row_of j)" "js_job_id j = i" "history j (job_log s i)"
    "js_version j = v" "js_state j \<notin> set TERMINAL_STATES" "j' = bump j"
    and s': "s' = committed s j' (event_row eid j EV_CHECKPOINT (Some (js_state j)) j' (Some ck) ev)"
    using checkpoint_Inr[OF a] by blast
  have "db_inv s'" using store_step_inv[OF a(1) store_step.check[OF a(2)]] .
  moreover have "db_job s i = Some j" by (rule db_job_row[OF a(1) k(1) history_valid[OF k(3)]])
  moreover have "job_valid j'" using bump_inv[OF history_job_inv[OF k(3)]] k(6) by (simp add: job_inv_def)
  then have "db_job s' = (db_job s)(i \<mapsto> j')" unfolding s' by (subst db_job_committed) (simp_all add: k)
  ultimately show ?thesis using k by blast
qed

interpretation sqlite: durable_job_store get_job "transition f" "checkpoint f" db_job db_inv
  for f
proof unfold_locales
  fix s :: JobDb and i r s'
  assume g: "db_inv s" "get_job i s = (r, s')"
  have "same_content s s'" using get_job_same[of s i] g by simp
  moreover have "db_job s i = Some j" if "r = Inr j" for j
  proof -
    have "\<not> blank i" using g that by (auto simp: get_job_def)
    then show ?thesis using get_job_value[OF g(1), of i] g that by (auto split: option.splits)
  qed
  ultimately show "db_inv s' \<and> db_job s' = db_job s \<and> (\<forall>j. r = Inr j \<longrightarrow> db_job s i = Some j)"
    using same_content_inv[OF _ g(1)] db_job_same by blast
next
  fix s i t v w c ev j' s'
  assume "db_inv s" "transition f i t v w c ev s = (Inr j', s')"
  then show "db_inv s' \<and> (\<exists>j p. db_job s i = Some j \<and> js_version j = v \<and> plan_job_transition j t w c = Inr p
      \<and> j' = apply_plan j p \<and> db_job s' = (db_job s)(i \<mapsto> j'))" by (rule transition_refines)
next
  fix s i t v w c ev e s'
  assume a: "db_inv s" "transition f i t v w c ev s = (Inl e, s')"
  show "db_inv s' \<and> db_job s' = db_job s"
    using transition_Inl[OF a(2)] same_content_inv a(1) db_job_same by blast
next
  fix s i ck v ev j' s'
  assume "db_inv s" "checkpoint f i ck v ev s = (Inr j', s')"
  then show "db_inv s' \<and> (\<exists>j. db_job s i = Some j \<and> js_version j = v \<and> js_state j \<notin> set TERMINAL_STATES
      \<and> j' = bump j \<and> db_job s' = (db_job s)(i \<mapsto> j'))" by (rule checkpoint_refines)
next
  fix s i ck v ev e s'
  assume a: "db_inv s" "checkpoint f i ck v ev s = (Inl e, s')"
  show "db_inv s' \<and> db_job s' = db_job s"
    using checkpoint_Inl[OF a(2)] same_content_inv a(1) db_job_same by blast
next
  fix s i j
  assume "db_inv s" "db_job s i = Some j"
  then show "job_reachable j \<and> js_job_id j = i"
    using db_job_Some history_reachable by blast
qed

section \<open>Reading the log back\<close>

lemma filter_hd: "filter P xs = y # ys \<Longrightarrow> P y"
  by (drule sym) (auto dest: Cons_eq_filterD)

lemma task_state_of_Inr: "task_state_of v = Inr s \<Longrightarrow> v = task_state_value s"
  by (auto simp: task_state_of_def split: list.splits dest: filter_hd)

lemma event_type_of_Inr: "event_type_of v = Inr s \<Longrightarrow> v = event_type_value s"
  by (auto simp: event_type_of_def split: list.splits if_splits)

lemma opt_res_state_Inr: "opt_res task_state_of v = Inr s \<Longrightarrow> v = map_option task_state_value s"
  by (auto simp: opt_res_def task_state_of_Inr split: option.splits)

lemma event_from_row_fields:
  assumes "event_from_row row = Inr e"
  shows "je_sequence_no e = er_sequence_no row" "er_event_type row = event_type_value (je_event_type e)"
    "er_from_state row = map_option task_state_value (je_from_state e)"
    "er_to_state row = map_option task_state_value (je_to_state e)"
  using assms
  by (auto simp: event_from_row_def JobEvent_post_init_def event_type_of_Inr opt_res_state_Inr)

lemma list_events_value:
  assumes inv: "db_inv db" and j: "db_job db i = Some j"
  shows "\<exists>evs. fst (list_events i db) = Inr evs \<and> map Inr evs = map event_from_row (job_log db i)"
proof -
  note k = db_job_Some[OF inv j]
  note h = k(3)
  have i: "initialize db = (Inr (), db\<lparr>db_schema := Some JOB_STORE_SCHEMA_VERSION\<rparr>)"
    using inv by (auto simp: db_inv_def initialize_def Let_def)
  have nb: "\<not> blank i" using history_valid[OF h] k(2) by (auto simp: job_valid_def)
  have "sort_key er_sequence_no (job_log db i) = job_log db i"
    using history_sequence[OF h] by (intro sort_key_id_if_sorted) simp
  moreover have "\<exists>es. parse_events 1 (job_log db i) = Inr es \<and> map Inr es = map event_from_row (job_log db i)"
    using parse_events_total[of "job_log db i" 1] history_sequence[OF h] history_parses[OF h] by simp
  ultimately show ?thesis using nb k(1) by (auto simp: list_events_def i job_log_def)
qed

lemma map_option_value_inject [simp]:
  "map_option task_state_value a = map_option task_state_value b \<longleftrightarrow> a = b"
  by (cases a; cases b) auto

definition enters_executing :: "JobEvent \<Rightarrow> bool" where
  "enters_executing e \<longleftrightarrow> je_event_type e = EV_TRANSITION \<and> je_to_state e = Some EXECUTING"

lemma enters_executing_row:
  assumes "event_from_row row = Inr e"
  shows "enters_executing e \<longleftrightarrow> er_event_type row = ''TRANSITION'' \<and> er_to_state row = Some ''EXECUTING''"
  unfolding enters_executing_def event_from_row_fields(2,4)[OF assms]
  by (cases "je_event_type e"; cases "je_to_state e") (auto simp: executing_value)

lemma executing_entries_events:
  assumes "map Inr evs = map event_from_row L"
  shows "length (filter enters_executing evs) = executing_entries L"
  using assms
proof (induction L arbitrary: evs)
  case Nil
  then show ?case by (simp add: executing_entries_def)
next
  case (Cons row L)
  then obtain e es where evs: "evs = e # es" and e: "event_from_row row = Inr e"
    and es: "map Inr es = map event_from_row L" by auto
  show ?case using Cons.IH[OF es] enters_executing_row[OF e] by (simp add: evs executing_entries_def)
qed

text \<open>Versions only move forward and the identity of a job never changes.\<close>

lemma store_step_forward:
  assumes inv: "db_inv db" and j: "db_job db i = Some j" and step: "store_step db db'"
  shows "\<exists>j'. db_job db' i = Some j' \<and> js_version j \<le> js_version j'
    \<and> js_work_order_ref j' = js_work_order_ref j \<and> js_project_id j' = js_project_id j
    \<and> js_max_attempts j' = js_max_attempts j"
  using store_step_cases[OF inv step]
proof (elim disjE exE conjE)
  assume "same_content db db'"
  then show ?thesis using j db_job_same by auto
next
  fix j' e
  assume d: "db' = committed db j' e" and h: "history j' (job_log db (js_job_id j') @ [e])"
    and none: "map_of (db_rows db) (js_job_id j') = None"
  have "js_job_id j' \<noteq> i" using none j db_job_None[OF inv, of i] by auto
  then show ?thesis using j unfolding d db_job_committed[OF history_valid[OF h]] by auto
next
  fix j' e k
  assume d: "db' = committed db j' e" and h: "history j' (job_log db (js_job_id j') @ [e])"
    and k: "map_of (db_rows db) (js_job_id j') = Some (row_of k)" "job_step k j'"
  show ?thesis
  proof (cases "js_job_id j' = i")
    case True
    have "row_of k = row_of j" using k(1) db_job_Some(1)[OF inv j] True by simp
    then have "k = j \<or> js_version k = js_version j \<and> js_work_order_ref k = js_work_order_ref j
      \<and> js_project_id k = js_project_id j \<and> js_max_attempts k = js_max_attempts j"
      by (auto simp: row_of_def)
    moreover have "js_version k < js_version j' \<and> js_work_order_ref j' = js_work_order_ref k
      \<and> js_project_id j' = js_project_id k \<and> js_max_attempts j' = js_max_attempts k"
      using k(2) by (auto elim!: job_stepE)
    ultimately show ?thesis using True unfolding d db_job_committed[OF history_valid[OF h]] by auto
  next
    case False
    then show ?thesis using j unfolding d db_job_committed[OF history_valid[OF h]] by auto
  qed
qed

lemma store_steps_forward:
  assumes "store_step\<^sup>*\<^sup>* db db'" and "db_inv db" and "db_job db i = Some j"
  shows "\<exists>j'. db_job db' i = Some j' \<and> js_version j \<le> js_version j'"
  using assms
proof (induction rule: rtranclp_induct)
  case base
  then show ?case by auto
next
  case (step db1 db2)
  then obtain j1 where j1: "db_job db1 i = Some j1" "js_version j \<le> js_version j1" by blast
  have "db_inv db1" using step.hyps(1) step.prems(1) by (rule store_steps_inv)
  from store_step_forward[OF this j1(1) step.hyps(2)] j1(2) show ?case by force
qed

text \<open>The id factory is able to name one more event.\<close>

definition id_ready :: "(nat \<Rightarrow> string option) \<Rightarrow> JobDb \<Rightarrow> bool" where
  "id_ready f db = (case f (db_id_calls db) of None \<Rightarrow> False
     | Some eid \<Rightarrow> \<not> blank eid \<and> eid \<notin> er_event_id ` set (db_events db))"

lemma insert_event_ready:
  "id_ready f db \<Longrightarrow> db_events db' = db_events db \<Longrightarrow> db_id_calls db' = db_id_calls db \<Longrightarrow>
     \<exists>db2. insert_event f i et a b w r c ev db' = Inr db2"
  by (auto simp: id_ready_def insert_event_def next_event_id_def split: option.splits)

lemma initialize_ok:
  "db_inv db \<Longrightarrow> initialize db = (Inr (), db\<lparr>db_schema := Some JOB_STORE_SCHEMA_VERSION\<rparr>)"
  by (auto simp: db_inv_def initialize_def Let_def)

lemma load_value:
  assumes "db_inv db"
  shows "res_bind (load_job_row (db\<lparr>db_schema := v\<rparr>) i) state_from_row =
    (case db_job db i of None \<Rightarrow> Inl (JobStoreErr ''JOB_NOT_FOUND'') | Some j \<Rightarrow> Inr j)"
proof (cases "db_job db i")
  case None
  then show ?thesis using db_job_None[OF assms, of i] by (simp add: load_job_row_def)
next
  case (Some j)
  note k = db_job_Some[OF assms Some]
  show ?thesis using Some k(1) state_from_row_of[OF history_valid[OF k(3)]] by (simp add: load_job_row_def)
qed

lemma transition_write_ready:
  assumes inv: "db_inv db" and f: "id_ready f db" and j: "db_job db i = Some j"
    and p: "plan_job_transition j t w c = Inr p"
  shows "\<exists>db2. transition_write f j p ev (db\<lparr>db_schema := Some JOB_STORE_SCHEMA_VERSION\<rparr>) = Inr db2"
proof -
  note k = db_job_Some[OF inv j]
  have "JobRuntimeState_post_init (apply_plan j p) = Inr (apply_plan j p)"
    using apply_plan_inv[OF history_job_inv[OF k(3)] p] by (simp add: post_init_iff job_inv_def)
  moreover have "jr_version (row_of j) = js_version j" by (simp add: row_of_def)
  ultimately show ?thesis using k(1,2) insert_event_ready[OF f]
    by (auto simp: transition_write_def update_row_def)
qed

lemma transition_value:
  assumes inv: "db_inv db" and f: "id_ready f db" and args: "\<not> blank i" "1 \<le> v" "nonblank_opt ev"
  shows "fst (transition f i t v w c ev db) =
    (case db_job db i of
       None \<Rightarrow> Inl (JobStoreErr ''JOB_NOT_FOUND'')
     | Some j \<Rightarrow> if js_version j \<noteq> v then Inl (JobStoreErr ''JOB_VERSION_CONFLICT'')
         else (case plan_job_transition j t w c of Inl e \<Rightarrow> Inl e | Inr p \<Rightarrow> Inr (apply_plan j p)))"
proof -
  let ?db = "db\<lparr>db_schema := Some JOB_STORE_SCHEMA_VERSION\<rparr>"
  have tr: "transition f i t v w c ev db = in_transaction (transition_body f i t v w c ev) db"
    using args by (simp add: transition_def require_text_def require_positive_int_def require_optional_text_def
        nonblank_opt_def split: option.splits)
  show ?thesis
  proof (cases "db_job db i")
    case None
    then show ?thesis
      by (simp add: tr in_transaction_def initialize_ok[OF inv] transition_body_def load_value[OF inv])
  next
    case (Some j)
    show ?thesis
    proof (cases "js_version j = v")
      case False
      then show ?thesis using Some args(2)
        by (simp add: tr in_transaction_def initialize_ok[OF inv] transition_body_def load_value[OF inv]
            check_version_def require_positive_int_def)
    next
      case ver: True
      have body: "transition_body f i t v w c ev ?db = res_bind (plan_job_transition j t w c)
          (\<lambda>p. Inr (apply_plan j p, transition_write f j p ev))"
        using Some ver args(2) by (simp add: transition_body_def load_value[OF inv] check_version_def
            require_positive_int_def)
      show ?thesis
      proof (cases "plan_job_transition j t w c")
        case (Inl e)
        then show ?thesis using Some ver by (simp add: tr in_transaction_def initialize_ok[OF inv] body)
      next
        case (Inr p)
        obtain db2 where "transition_write f j p ev ?db = Inr db2"
          using transition_write_ready[OF inv f Some Inr] by blast
        then show ?thesis using Some ver Inr by (simp add: tr in_transaction_def initialize_ok[OF inv] body)
      qed
    qed
  qed
qed

section \<open>Properties\<close>

text \<open>
  C5: the event log is the history of the job. For every job of a reachable database the
  log reads back without error; it has one event per version, numbered from 1 without a
  gap; it starts with the creation of the job, every event starts in the state the
  previous one ended in, and the last one ends in the job's current state; and it holds
  exactly as many entries into EXECUTING as the job has counted attempts, at most its
  budget.
\<close>

theorem event_log_faithful:
  assumes "store_reachable db" and j: "db_job db i = Some j"
  shows "\<exists>evs. fst (list_events i db) = Inr evs \<and> map je_sequence_no evs = [1..js_version j]
    \<and> evs \<noteq> [] \<and> je_from_state (hd evs) = None \<and> je_to_state (hd evs) = Some NEW
    \<and> (\<forall>k. Suc k < length evs \<longrightarrow> je_from_state (evs ! Suc k) = je_to_state (evs ! k))
    \<and> je_to_state (last evs) = Some (js_state j)
    \<and> int (length (filter enters_executing evs)) = js_attempt_count j
    \<and> js_attempt_count j \<le> js_max_attempts j"
proof -
  note inv = store_reachable_inv[OF assms(1)]
  note h = db_job_Some(3)[OF inv j]
  obtain evs where evs: "fst (list_events i db) = Inr evs" "map Inr evs = map event_from_row (job_log db i)"
    using list_events_value[OF inv j] by blast
  let ?L = "job_log db i"
  have len: "length evs = length ?L" using evs(2) by (metis length_map)
  have nth: "event_from_row (?L ! k) = Inr (evs ! k)" if "k < length evs" for k
    using evs(2) that len by (metis nth_map)
  have link: "linked ?L" "er_to_state (last ?L) = Some (task_state_value (js_state j))"
    using history_linked[OF h] by blast+
  have ne: "evs \<noteq> []" using link(1) len by (auto simp: linked_def)
  have "map je_sequence_no evs = map er_sequence_no ?L"
    using len nth event_from_row_fields(1) by (intro nth_equalityI) auto
  then have "map je_sequence_no evs = [1..js_version j]"
    using history_sequence[OF h] history_version[OF h] by simp
  moreover have "je_from_state (hd evs) = None \<and> je_to_state (hd evs) = Some NEW"
    using link(1) event_from_row_fields(3,4)[OF nth[of 0]] ne len task_state_value_inject[of _ NEW]
    by (auto simp: linked_def hd_conv_nth)
  moreover have "je_from_state (evs ! Suc k) = je_to_state (evs ! k)" if "Suc k < length evs" for k
    using link(1) that len event_from_row_fields(3)[OF nth[OF that]] event_from_row_fields(4)[OF nth[of k]]
    by (simp add: linked_def)
  moreover have "je_to_state (last evs) = Some (js_state j)"
  proof -
    have "length evs - 1 < length evs" using ne by simp
    from event_from_row_fields(4)[OF nth[OF this]] link ne len
    show ?thesis by (auto simp: last_conv_nth linked_def)
  qed
  ultimately show ?thesis
    using evs(1) ne history_attempts[OF h] executing_entries_events[OF evs(2)] history_valid[OF h]
    by (simp add: job_valid_def)
qed


definition sample_ids :: "nat \<Rightarrow> string option" where
  "sample_ids n = Some (CHR ''e'' # replicate n (CHR ''x''))"

definition sample_db1 :: JobDb where
  "sample_db1 = snd (create_job sample_ids ''j'' ''wo'' ''p'' 3 empty_db)"

definition sample_db2 :: JobDb where
  "sample_db2 = snd (transition sample_ids ''j'' READY 1 None None None sample_db1)"

definition sample_db3 :: JobDb where
  "sample_db3 = snd (transition sample_ids ''j'' CLAIMED 2 (Some ''w'') None None sample_db2)"

lemma empty_db_reachable: "store_reachable empty_db"
  by (simp add: store_reachable_def)

lemma sample_dbs_reachable: "store_reachable sample_db1" "store_reachable sample_db2" "store_reachable sample_db3"
  unfolding sample_db1_def sample_db2_def sample_db3_def
  by (intro store_reachable_ops empty_db_reachable)+

lemma sample_db3_job: "db_job sample_db3 ''j'' = Some sample_claimed"
  by code_simp

theorem event_log_faithful_witness:
  "\<exists>evs. fst (list_events ''j'' sample_db3) = Inr evs \<and> map je_sequence_no evs = [1..3]
     \<and> je_to_state (last evs) = Some CLAIMED"
  using event_log_faithful[OF sample_dbs_reachable(3) sample_db3_job]
  by (auto simp: sample_claimed_def)




end
