(* ===== verification/Job_Execution.thy ===== *)
theory Job_Execution
  imports Job_Store
begin

text \<open>
  The durable execution coordinator, \<^verbatim>\<open>src/src/a_conductor/job_execution.py\<close>, over the store
  protocol \<^verbatim>\<open>DurableJobStore\<close> and the injected backend \<^verbatim>\<open>JobExecutionBackend\<close>. The store
  operations are arguments, as in the source; the backend is an argument too, and since
  other callers may use the store while it runs, it maps the state of the store to a
  new one. Beside its result \<^verbatim>\<open>execute\<close> returns the calls it made to the backend.
\<close>

section \<open>Definitions\<close>

definition ascii_alnum :: "char \<Rightarrow> bool" where
  "ascii_alnum c \<longleftrightarrow> (CHR ''A'' \<le> c \<and> c \<le> CHR ''Z'') \<or> (CHR ''a'' \<le> c \<and> c \<le> CHR ''z'')
     \<or> (CHR ''0'' \<le> c \<and> c \<le> CHR ''9'')"

text \<open>\<^verbatim>\<open>^[A-Za-z0-9][A-Za-z0-9._:/-]{0,127}$\<close>.\<close>

definition operation_ref_matches :: "string \<Rightarrow> bool" where
  "operation_ref_matches s = (case s of
     [] \<Rightarrow> False
   | c # cs \<Rightarrow> ascii_alnum c \<and> length cs \<le> 127 \<and> (\<forall>x \<in> set cs. ascii_alnum x \<or> x \<in> set ''._:/-''))"

definition require_operation_ref :: "string \<Rightarrow> exn + string" where
  "require_operation_ref v = res_bind (require_text v ''operation_ref'') (\<lambda>_.
     if operation_ref_matches v then Inr v else Inl (ValueErr ''operation_ref must be an opaque identifier''))"

record JobBackendResult =
  br_success :: bool
  br_evidence_ref :: "string option"
  br_recovery :: "RecoveryClassification option"
  br_error_code :: "string option"

definition JobBackendResult_post_init :: "JobBackendResult \<Rightarrow> exn + JobBackendResult" where
  "JobBackendResult_post_init r =
     res_bind (require_optional_text (br_evidence_ref r) ''evidence_ref'') (\<lambda>_.
     res_bind (require_optional_text (br_error_code r) ''error_code'') (\<lambda>_.
     if br_success r then
       (if br_evidence_ref r = None then Inl (ValueErr ''successful backend result requires evidence_ref'')
        else if br_recovery r \<noteq> None then Inl (ValueErr ''successful backend result cannot require recovery'')
        else if br_error_code r \<noteq> None then Inl (ValueErr ''successful backend result cannot have error_code'')
        else Inr r)
     else if br_recovery r = None then Inl (ValueErr ''failed backend result requires recovery_classification'')
     else Inr r))"

record JobExecutionOutcome =
  jo_success :: bool
  jo_job :: JobRuntimeState
  jo_evidence_ref :: "string option"
  jo_error_code :: "string option"
  jo_recovery_required :: bool

record JobExecutionContext =
  jx_job_id :: string
  jx_work_order_ref :: string
  jx_project_id :: string
  jx_worker_id :: string
  jx_attempt_no :: int
  jx_max_attempts :: int

definition JobExecutionContext_post_init :: "JobExecutionContext \<Rightarrow> exn + JobExecutionContext" where
  "JobExecutionContext_post_init c =
     res_bind (require_text (jx_job_id c) ''job_id'') (\<lambda>_.
     res_bind (require_text (jx_work_order_ref c) ''work_order_ref'') (\<lambda>_.
     res_bind (require_text (jx_project_id c) ''project_id'') (\<lambda>_.
     res_bind (require_text (jx_worker_id c) ''worker_id'') (\<lambda>_.
     res_bind (require_positive_int (jx_attempt_no c) ''attempt_no'') (\<lambda>_.
     res_bind (require_positive_int (jx_max_attempts c) ''max_attempts'') (\<lambda>_.
     if jx_attempt_no c > jx_max_attempts c then Inl (ValueErr ''attempt_no cannot exceed max_attempts'')
     else Inr c))))))"

text \<open>
  What the backend call ends in: an exception, an object that is not a \<^verbatim>\<open>JobBackendResult\<close>,
  or a result, which its constructor has validated.
\<close>

datatype backend_reply = BackendRaised | NotAResult | BackendResult JobBackendResult

type_synonym 's backend = "string \<Rightarrow> JobExecutionContext \<Rightarrow> 's \<Rightarrow> backend_reply \<times> 's"

type_synonym 's get_op = "string \<Rightarrow> 's \<Rightarrow> (exn + JobRuntimeState) \<times> 's"
type_synonym 's move_op = "string \<Rightarrow> TaskState \<Rightarrow> int \<Rightarrow> string option \<Rightarrow> RecoveryClassification option
  \<Rightarrow> string option \<Rightarrow> 's \<Rightarrow> (exn + JobRuntimeState) \<times> 's"
type_synonym 's check_op = "string \<Rightarrow> string \<Rightarrow> int \<Rightarrow> string option \<Rightarrow> 's \<Rightarrow> (exn + JobRuntimeState) \<times> 's"

definition check_preconditions :: "JobRuntimeState \<Rightarrow> int \<Rightarrow> string \<Rightarrow> exn + unit" where
  "check_preconditions job expected worker =
     (if js_version job \<noteq> expected then Inl (JobStoreErr ''JOB_VERSION_CONFLICT'')
      else if js_state job \<noteq> GATING then Inl (CoordinatorErr ''JOB_NOT_GATED'' False)
      else if js_worker_id job \<noteq> Some worker then Inl (CoordinatorErr ''WORKER_CLAIM_MISMATCH'' False)
      else Inr ())"

definition recover_after_backend ::
  "'s move_op \<Rightarrow> JobRuntimeState \<Rightarrow> RecoveryClassification \<Rightarrow> string option \<Rightarrow> string \<Rightarrow> 's
     \<Rightarrow> (exn + JobExecutionOutcome) \<times> 's" where
  "recover_after_backend move executing classification evidence error_code s =
     (case move (js_job_id executing) RECOVERY_NEEDED (js_version executing) (js_worker_id executing)
             (Some classification) evidence s of
        (Inl _, s') \<Rightarrow> (Inl (CoordinatorErr ''DURABLE_RECOVERY_WRITE_FAILED'' True), s')
      | (Inr recovering, s') \<Rightarrow>
          (Inr \<lparr>jo_success = False, jo_job = recovering, jo_evidence_ref = evidence,
                jo_error_code = Some error_code, jo_recovery_required = True\<rparr>, s'))"

definition complete_after_backend ::
  "'s move_op \<Rightarrow> 's check_op \<Rightarrow> string \<Rightarrow> JobRuntimeState \<Rightarrow> string \<Rightarrow> string \<Rightarrow> string option \<Rightarrow> 's
     \<Rightarrow> (exn + JobExecutionOutcome) \<times> 's" where
  "complete_after_backend move check i executing worker operation_ref evidence s =
     (case check i (''operation:'' @ operation_ref @ '':complete'') (js_version executing) evidence s of
        (Inl _, s1) \<Rightarrow> (Inl (CoordinatorErr ''DURABLE_CHECKPOINT_FAILED'' True), s1)
      | (Inr checkpointed, s1) \<Rightarrow>
          (case move i VERIFYING (js_version checkpointed) (Some worker) None evidence s1 of
             (Inl _, s2) \<Rightarrow> (Inl (CoordinatorErr ''DURABLE_VERIFYING_TRANSITION_FAILED'' True), s2)
           | (Inr verifying, s2) \<Rightarrow>
               (Inr \<lparr>jo_success = True, jo_job = verifying, jo_evidence_ref = evidence,
                     jo_error_code = None, jo_recovery_required = False\<rparr>, s2)))"

definition after_backend ::
  "'s move_op \<Rightarrow> 's check_op \<Rightarrow> string \<Rightarrow> JobRuntimeState \<Rightarrow> string \<Rightarrow> string \<Rightarrow> backend_reply \<Rightarrow> 's
     \<Rightarrow> (exn + JobExecutionOutcome) \<times> 's" where
  "after_backend move check i executing worker operation_ref reply s =
     (case reply of
        BackendRaised \<Rightarrow> recover_after_backend move executing UNKNOWN None ''BACKEND_EXECUTION_FAILED'' s
      | NotAResult \<Rightarrow> recover_after_backend move executing UNKNOWN None ''BACKEND_RESULT_INVALID'' s
      | BackendResult r \<Rightarrow>
          if \<not> br_success r then
            (case br_recovery r of
               None \<Rightarrow> (Inl (AssertionErr ''recovery_classification''), s)
             | Some c \<Rightarrow> recover_after_backend move executing c (br_evidence_ref r)
                 (case br_error_code r of None \<Rightarrow> ''BACKEND_REPORTED_FAILURE'' | Some e \<Rightarrow> e) s)
          else (case br_evidence_ref r of
               None \<Rightarrow> (Inl (AssertionErr ''evidence_ref''), s)
             | Some e \<Rightarrow> complete_after_backend move check i executing worker operation_ref (Some e) s))"

definition execution_context :: "JobRuntimeState \<Rightarrow> string \<Rightarrow> JobExecutionContext" where
  "execution_context executing worker =
     \<lparr>jx_job_id = js_job_id executing, jx_work_order_ref = js_work_order_ref executing,
      jx_project_id = js_project_id executing, jx_worker_id = worker,
      jx_attempt_no = js_attempt_count executing, jx_max_attempts = js_max_attempts executing\<rparr>"

definition run_backend ::
  "'s move_op \<Rightarrow> 's check_op \<Rightarrow> 's backend \<Rightarrow> string \<Rightarrow> JobRuntimeState \<Rightarrow> string \<Rightarrow> string \<Rightarrow> 's
     \<Rightarrow> (exn + JobExecutionOutcome) \<times> 's \<times> (string \<times> JobExecutionContext) list" where
  "run_backend move check backend i executing worker operation_ref s =
     (case JobExecutionContext_post_init (execution_context executing worker) of
        Inl _ \<Rightarrow>
          (case recover_after_backend move executing UNKNOWN None ''BACKEND_EXECUTION_FAILED'' s of
             (r, s') \<Rightarrow> (r, s', []))
      | Inr ctx \<Rightarrow>
          (case backend operation_ref ctx s of
             (reply, s1) \<Rightarrow>
               (case after_backend move check i executing worker operation_ref reply s1 of
                  (r, s2) \<Rightarrow> (r, s2, [(operation_ref, ctx)]))))"

definition execute ::
  "'s get_op \<Rightarrow> 's move_op \<Rightarrow> 's check_op \<Rightarrow> 's backend \<Rightarrow> string \<Rightarrow> int \<Rightarrow> string \<Rightarrow> string \<Rightarrow> 's
     \<Rightarrow> (exn + JobExecutionOutcome) \<times> 's \<times> (string \<times> JobExecutionContext) list" where
  "execute get move check backend i expected worker operation_ref s =
     (case res_bind (require_text i ''job_id'') (\<lambda>_.
           res_bind (require_positive_int expected ''expected_version'') (\<lambda>_.
           res_bind (require_text worker ''worker_id'') (\<lambda>_.
           require_operation_ref operation_ref))) of
        Inl e \<Rightarrow> (Inl e, s, [])
      | Inr _ \<Rightarrow>
          (case get i s of
             (Inl e, s1) \<Rightarrow> (Inl e, s1, [])
           | (Inr current, s1) \<Rightarrow>
               (case check_preconditions current expected worker of
                  Inl e \<Rightarrow> (Inl e, s1, [])
                | Inr _ \<Rightarrow>
                    (case move i EXECUTING (js_version current) (Some worker) None None s1 of
                       (Inl e, s2) \<Rightarrow> (Inl e, s2, [])
                     | (Inr executing, s2) \<Rightarrow>
                         run_backend move check backend i executing worker operation_ref s2))))"

section \<open>The coordinator over any durable store\<close>

lemma check_preconditions_Inr [simp]:
  "check_preconditions job v w = Inr u \<longleftrightarrow> js_version job = v \<and> js_state job = GATING \<and> js_worker_id job = Some w"
  by (auto simp: check_preconditions_def)

text \<open>A backend is valid when its results passed their constructor.\<close>

definition reply_valid :: "backend_reply \<Rightarrow> bool" where
  "reply_valid r = (case r of BackendResult x \<Rightarrow> JobBackendResult_post_init x = Inr x | _ \<Rightarrow> True)"

lemma reply_valid_result:
  assumes "reply_valid (BackendResult x)"
  shows "br_success x \<Longrightarrow> br_evidence_ref x \<noteq> None" "\<not> br_success x \<Longrightarrow> br_recovery x \<noteq> None"
  using assms by (auto simp: reply_valid_def JobBackendResult_post_init_def split: if_splits)

text \<open>The outcome a job execution may end in, with the job it leaves in the store.\<close>

definition outcome_ok :: "string \<Rightarrow> JobExecutionOutcome \<Rightarrow> JobRuntimeState option \<Rightarrow> bool" where
  "outcome_ok w out stored \<longleftrightarrow> stored = Some (jo_job out) \<and> js_worker_id (jo_job out) = Some w
     \<and> (if jo_success out then js_state (jo_job out) = VERIFYING \<and> jo_evidence_ref out \<noteq> None
          \<and> \<not> jo_recovery_required out
        else js_state (jo_job out) = RECOVERY_NEEDED \<and> jo_recovery_required out)"

text \<open>
  How the jobs of a store may change while others use it: a job stays, or moves on to a
  higher version.
\<close>

definition jobs_evolve ::
  "(string \<Rightarrow> JobRuntimeState option) \<Rightarrow> (string \<Rightarrow> JobRuntimeState option) \<Rightarrow> bool" where
  "jobs_evolve m m' \<longleftrightarrow> (\<forall>i j. m i = Some j \<longrightarrow> (\<exists>j'. m' i = Some j' \<and> (j' = j \<or> js_version j < js_version j')))"

lemma jobs_evolve_refl: "jobs_evolve m m"
  by (simp add: jobs_evolve_def)

lemma jobs_evolve_trans:
  assumes "jobs_evolve m m'" and "jobs_evolve m' m''"
  shows "jobs_evolve m m''"
  unfolding jobs_evolve_def
proof (intro allI impI)
  fix i j
  assume "m i = Some j"
  then obtain j' where j': "m' i = Some j'" "j' = j \<or> js_version j < js_version j'"
    using assms(1) unfolding jobs_evolve_def by blast
  then obtain j'' where "m'' i = Some j''" "j'' = j' \<or> js_version j' < js_version j''"
    using assms(2) unfolding jobs_evolve_def by blast
  then show "\<exists>j'. m'' i = Some j' \<and> (j' = j \<or> js_version j < js_version j')" using j'(2) by auto
qed

definition backend_fair :: "('s \<Rightarrow> string \<Rightarrow> JobRuntimeState option) \<Rightarrow> ('s \<Rightarrow> bool) \<Rightarrow> 's backend \<Rightarrow> bool" where
  "backend_fair job good backend \<longleftrightarrow> (\<forall>op ctx s r s'. good s \<longrightarrow> backend op ctx s = (r, s') \<longrightarrow>
     good s' \<and> jobs_evolve (job s) (job s') \<and> reply_valid r)"

context durable_job_store
begin

text \<open>
  After the backend ran, a write from the version of the executing job finds that very job.
\<close>

lemma recover_outcome:
  assumes g: "good s" and ex: "js_state ex = EXECUTING" "js_worker_id ex = Some w"
    and cur: "job s (js_job_id ex) = Some k" "k = ex \<or> js_version ex < js_version k"
    and r: "recover_after_backend move ex cl ev code s = (r, s')"
  shows "good s' \<and> (case r of Inl x \<Rightarrow> x = CoordinatorErr ''DURABLE_RECOVERY_WRITE_FAILED'' True
    | Inr out \<Rightarrow> outcome_ok w out (job s' (js_job_id ex)))"
proof -
  obtain m s1 where m: "move (js_job_id ex) RECOVERY_NEEDED (js_version ex) (js_worker_id ex) (Some cl) ev s = (m, s1)"
    by fastforce
  show ?thesis
  proof (cases m)
    case (Inl x)
    then show ?thesis using r m move_fail[OF g m[unfolded Inl]] by (auto simp: recover_after_backend_def)
  next
    case (Inr j')
    from move_law[OF g m[unfolded Inr]] cur obtain p where s1: "good s1"
      and p: "plan_job_transition ex RECOVERY_NEEDED (js_worker_id ex) (Some cl) = Inr p"
      and j': "j' = apply_plan ex p" "job s1 = (job s)(js_job_id ex \<mapsto> j')" by auto
    have n: "js_state ex \<noteq> RECOVERY_NEEDED" using ex(1) by simp
    have "js_state j' = RECOVERY_NEEDED" "js_worker_id j' = Some w"
      using plan_fields(2)[OF p] plan_forward_fields(4)[OF p n] ex(2) by (auto simp: j'(1) RELEASE_CLAIM_STATES_def)
    then show ?thesis using r m Inr s1 j'(2) by (auto simp: recover_after_backend_def outcome_ok_def)
  qed
qed

lemma complete_outcome:
  assumes g: "good s" and ex: "js_state ex = EXECUTING" "js_worker_id ex = Some w"
    and cur: "job s (js_job_id ex) = Some k" "k = ex \<or> js_version ex < js_version k"
    and r: "complete_after_backend move check (js_job_id ex) ex w op (Some ev) s = (r, s')"
  shows "good s' \<and> (case r of Inl x \<Rightarrow> x \<in> {CoordinatorErr ''DURABLE_CHECKPOINT_FAILED'' True,
      CoordinatorErr ''DURABLE_VERIFYING_TRANSITION_FAILED'' True}
    | Inr out \<Rightarrow> outcome_ok w out (job s' (js_job_id ex)))"
proof -
  obtain c s1 where c: "check (js_job_id ex) (''operation:'' @ op @ '':complete'') (js_version ex) (Some ev) s = (c, s1)"
    by fastforce
  show ?thesis
  proof (cases c)
    case (Inl x)
    then show ?thesis using r c check_fail[OF g c[unfolded Inl]] by (auto simp: complete_after_backend_def)
  next
    case (Inr ck)
    from check_law[OF g c[unfolded Inr]] cur have s1: "good s1" "ck = bump ex"
      "job s1 = (job s)(js_job_id ex \<mapsto> ck)" by auto
    obtain m s2 where m: "move (js_job_id ex) VERIFYING (js_version ck) (Some w) None (Some ev) s1 = (m, s2)"
      by fastforce
    show ?thesis
    proof (cases m)
      case (Inl x)
      then show ?thesis using r c m \<open>c = Inr ck\<close> move_fail[OF s1(1) m[unfolded Inl]]
        by (auto simp: complete_after_backend_def)
    next
      case mr: (Inr j')
      from move_law[OF s1(1) m[unfolded mr]] s1 obtain p where s2: "good s2"
        and p: "plan_job_transition (bump ex) VERIFYING (Some w) None = Inr p"
        and j': "j' = apply_plan (bump ex) p" "job s2 = (job s1)(js_job_id ex \<mapsto> j')" by auto
      have "js_state (bump ex) \<noteq> RECOVERY_NEEDED" using ex(1) by simp
      from plan_fields(2)[OF p] plan_forward_fields(4)[OF p this] ex(2)
      have "js_state j' = VERIFYING" "js_worker_id j' = Some w" by (auto simp: j'(1) RELEASE_CLAIM_STATES_def)
      then show ?thesis using r c m Inr mr s2 j'(2) by (auto simp: complete_after_backend_def outcome_ok_def)
    qed
  qed
qed

lemma after_backend_outcome:
  assumes g: "good s" and ex: "js_state ex = EXECUTING" "js_worker_id ex = Some w"
    and cur: "job s (js_job_id ex) = Some k" "k = ex \<or> js_version ex < js_version k"
    and v: "reply_valid reply"
    and r: "after_backend move check (js_job_id ex) ex w op reply s = (r, s')"
  shows "good s' \<and> (case r of Inl x \<Rightarrow> \<exists>code. x = CoordinatorErr code True
    | Inr out \<Rightarrow> outcome_ok w out (job s' (js_job_id ex)))"
proof -
  have rec: ?thesis if "recover_after_backend move ex cl ev code s = (r, s')" for cl ev code
    using recover_outcome[OF g ex cur that] by (cases r) auto
  have com: ?thesis if "complete_after_backend move check (js_job_id ex) ex w op (Some ev) s = (r, s')" for ev
    using complete_outcome[OF g ex cur that] by (cases r) auto
  show ?thesis
  proof (cases reply)
    case (BackendResult x)
    show ?thesis
    proof (cases "br_success x")
      case True
      then obtain ev where "br_evidence_ref x = Some ev" using reply_valid_result(1) v BackendResult by blast
      then show ?thesis using r True BackendResult com by (simp add: after_backend_def)
    next
      case False
      then obtain cl where "br_recovery x = Some cl" using reply_valid_result(2) v BackendResult by blast
      then show ?thesis using r False BackendResult rec by (simp add: after_backend_def)
    qed
  qed (use r rec in \<open>simp_all add: after_backend_def\<close>)
qed

text \<open>The move into EXECUTING.\<close>

lemma executing_job:
  assumes g: "good s" and m: "move i EXECUTING v (Some w) None None s = (Inr ex, s')"
    and j: "job s i = Some j" "js_state j = GATING" "js_worker_id j = Some w"
  shows "good s' \<and> job s' = (job s)(i \<mapsto> ex) \<and> js_state ex = EXECUTING \<and> js_worker_id ex = Some w
    \<and> js_job_id ex = i \<and> js_attempt_count ex = js_attempt_count j + 1 \<and> js_attempt_count ex \<le> js_max_attempts ex
    \<and> js_version ex = v + 1
    \<and> JobExecutionContext_post_init (execution_context ex w) = Inr (execution_context ex w)"
proof -
  from move_law[OF g m] j(1) obtain p where s': "good s'" "js_version j = v"
    and p: "plan_job_transition j EXECUTING (Some w) None = Inr p"
    and ex: "ex = apply_plan j p" "job s' = (job s)(i \<mapsto> ex)" by auto
  note f = plan_fields[OF p]
  have "js_worker_id ex = Some w"
    using plan_forward_fields(4)[OF p] j by (simp add: ex(1) RELEASE_CLAIM_STATES_def)
  moreover have "js_job_id j = i" using job_law[OF g j(1)] by blast
  moreover have "job_valid j" using job_reachable_inv job_law[OF g j(1)] by (auto simp: job_inv_def)
  ultimately show ?thesis using s' f ex
    by (auto simp: JobExecutionContext_post_init_def execution_context_def job_valid_def require_text_def
        require_positive_int_def)
qed

text \<open>The whole call: either nothing happened, or the backend was called once for the gated job.\<close>

definition called_once ::
  "string \<Rightarrow> int \<Rightarrow> string \<Rightarrow> string \<Rightarrow> 's \<Rightarrow> (string \<times> JobExecutionContext) list \<Rightarrow> bool" where
  "called_once i v w op s calls \<longleftrightarrow> (\<exists>j ctx. job s i = Some j \<and> js_state j = GATING \<and> js_worker_id j = Some w
     \<and> js_version j = v \<and> calls = [(op, ctx)] \<and> jx_job_id ctx = i \<and> jx_worker_id ctx = w
     \<and> jx_attempt_no ctx = js_attempt_count j + 1 \<and> jx_attempt_no ctx \<le> js_max_attempts j)"

lemma execute_outcome:
  assumes g: "good s" and fair: "backend_fair job good backend"
    and e: "execute get move check backend i v w op s = (r, s', calls)"
  shows "good s' \<and> ((calls = [] \<and> (\<exists>x. r = Inl x) \<and> job s' = job s)
    \<or> (called_once i v w op s calls \<and> (case r of Inl x \<Rightarrow> \<exists>code. x = CoordinatorErr code True
         | Inr out \<Rightarrow> outcome_ok w out (job s' i))))"
proof -
  obtain a where args: "res_bind (require_text i ''job_id'') (\<lambda>_.
    res_bind (require_positive_int v ''expected_version'') (\<lambda>_.
    res_bind (require_text w ''worker_id'') (\<lambda>_. require_operation_ref op))) = a" by simp
  obtain c s1 where c: "get i s = (c, s1)" by fastforce
  have g1: "good s1" "job s1 = job s" "\<And>j. c = Inr j \<Longrightarrow> job s i = Some j" using get_law[OF g c] by auto
  consider x where "a = Inl x" | x where "\<exists>y. a = Inr y" "c = Inl x"
    | j x where "\<exists>y. a = Inr y" "c = Inr j" "check_preconditions j v w = Inl x"
    | j where "\<exists>y. a = Inr y" "c = Inr j" "check_preconditions j v w = Inr ()"
    by (cases a; cases c; cases "check_preconditions (projr c) v w"; simp; blast)
  then show ?thesis
  proof cases
    case (4 j)
    then have j: "job s1 i = Some j" "js_version j = v" "js_state j = GATING" "js_worker_id j = Some w"
      using g1 by auto
    obtain m s2 where m: "move i EXECUTING v (Some w) None None s1 = (m, s2)" by fastforce
    have ex4: "execute get move check backend i v w op s = (case m of Inl e \<Rightarrow> (Inl e, s2, [])
      | Inr ex \<Rightarrow> run_backend move check backend i ex w op s2)"
      using args 4 c j(2) m
      by (auto simp: execute_def split: sum.split simp del: check_preconditions_Inr res_bind_Inr_iff)
    show ?thesis
    proof (cases m)
      case (Inl x)
      then have "r = Inl x" "s' = s2" "calls = []" using e ex4 by auto
      then show ?thesis using move_fail[OF g1(1) m[unfolded Inl]] g1(2) by simp
    next
      case (Inr ex)
      note x = executing_job[OF g1(1) m[unfolded Inr] j(1,3,4)]
      let ?ctx = "execution_context ex w"
      obtain reply s3 where b: "backend op ?ctx s2 = (reply, s3)" by fastforce
      obtain r4 s4 where ab: "after_backend move check i ex w op reply s3 = (r4, s4)" by fastforce
      have run: "run_backend move check backend i ex w op s2 = (r4, s4, [(op, ?ctx)])"
        using x b ab by (simp add: run_backend_def)
      have res: "r = r4" "s' = s4" "calls = [(op, ?ctx)]" using e ex4 Inr run by auto
      have f: "good s3" "jobs_evolve (job s2) (job s3)" "reply_valid reply"
        using fair x b unfolding backend_fair_def by blast+
      obtain k where k: "job s3 i = Some k" "k = ex \<or> js_version ex < js_version k"
      proof -
        have "job s2 i = Some ex" using x by simp
        with f(2) that show thesis unfolding jobs_evolve_def by blast
      qed
      have "good s4 \<and> (case r4 of Inl x \<Rightarrow> \<exists>code. x = CoordinatorErr code True
          | Inr out \<Rightarrow> outcome_ok w out (job s4 (js_job_id ex)))"
        using after_backend_outcome[of s3 ex w k reply op r4 s4] f(1,3) x k ab by simp
      moreover have "called_once i v w op s calls"
        unfolding called_once_def res(3) using j x g1(2) move_law[OF g1(1) m[unfolded Inr]]
        by (intro exI[of _ j] exI[of _ ?ctx]) (auto simp: execution_context_def)
      ultimately show ?thesis using res x by auto
    qed
  qed (use e args c g1 g in \<open>auto simp: execute_def\<close>)
qed

end

section \<open>The coordinator over the SQLite store\<close>

lemma store_step_evolves:
  assumes inv: "db_inv db" and step: "store_step db db'"
  shows "jobs_evolve (db_job db) (db_job db')"
  using store_step_cases[OF inv step]
proof (elim disjE exE conjE)
  assume "same_content db db'"
  then show ?thesis using db_job_same jobs_evolve_refl by metis
next
  fix j' e
  assume d: "db' = committed db j' e" and h: "history j' (job_log db (js_job_id j') @ [e])"
    and "map_of (db_rows db) (js_job_id j') = None"
  then show ?thesis using db_job_None[OF inv, of "js_job_id j'"]
    unfolding d db_job_committed[OF history_valid[OF h]] by (simp add: jobs_evolve_def)
next
  fix j' e k
  assume d: "db' = committed db j' e" and h: "history j' (job_log db (js_job_id j') @ [e])"
    and k: "map_of (db_rows db) (js_job_id j') = Some (row_of k)" "job_step k j'"
  have "js_version k < js_version j'" using k(2) by (auto elim!: job_stepE)
  moreover have "js_version j = js_version k" if "db_job db (js_job_id j') = Some j" for j
    using db_job_Some(1)[OF inv that] k(1) by (simp add: row_of_def)
  ultimately show ?thesis unfolding d db_job_committed[OF history_valid[OF h]] by (simp add: jobs_evolve_def)
qed

lemma store_steps_evolve:
  assumes "store_step\<^sup>*\<^sup>* db db'" and "db_inv db"
  shows "jobs_evolve (db_job db) (db_job db')"
  using assms
proof (induction rule: rtranclp_induct)
  case (step y z)
  then show ?case using jobs_evolve_trans store_step_evolves store_steps_inv by blast
qed (rule jobs_evolve_refl)

text \<open>
  What is assumed of the backend: whatever happens to the store while it runs happens
  through the store's own operations, and a result it returns passed its constructor.
\<close>

definition backend_uses_store :: "JobDb backend \<Rightarrow> bool" where
  "backend_uses_store backend \<longleftrightarrow> (\<forall>op ctx db r db'. backend op ctx db = (r, db') \<longrightarrow>
     store_step\<^sup>*\<^sup>* db db' \<and> reply_valid r)"

lemma backend_uses_store_fair: "backend_uses_store b \<Longrightarrow> backend_fair db_job db_inv b"
  unfolding backend_uses_store_def backend_fair_def using store_steps_evolve store_steps_inv by blast

section \<open>Properties\<close>

text \<open>
  C10: the backend runs at most once per call, and only for a job that was gated for the
  calling worker at the version the caller named, within its attempt budget. If the
  backend was not called the call raises and no job has changed.
\<close>

theorem backend_called_within_budget:
  assumes "store_reachable db" and "backend_uses_store backend"
    and "execute get_job (transition f) (checkpoint f) backend i v w op db = (r, db', calls)"
  shows "(calls = [] \<longrightarrow> (\<exists>e. r = Inl e) \<and> db_job db' = db_job db)
    \<and> (calls \<noteq> [] \<longrightarrow> (\<exists>j ctx. db_job db i = Some j \<and> js_state j = GATING \<and> js_worker_id j = Some w
         \<and> js_version j = v \<and> calls = [(op, ctx)] \<and> jx_job_id ctx = i \<and> jx_worker_id ctx = w
         \<and> jx_attempt_no ctx = js_attempt_count j + 1 \<and> jx_attempt_no ctx \<le> js_max_attempts j))"
  using sqlite.execute_outcome[OF store_reachable_inv[OF assms(1)] backend_uses_store_fair[OF assms(2)] assms(3)]
  unfolding sqlite.called_once_def by auto


definition sample_gated :: JobDb where
  "sample_gated = snd (transition sample_ids ''j'' GATING 3 (Some ''w'') None None sample_db3)"

definition ok_backend :: "JobDb backend" where
  "ok_backend op ctx db = (BackendResult \<lparr>br_success = True, br_evidence_ref = Some ''ev'',
     br_recovery = None, br_error_code = None\<rparr>, db)"

text \<open>A backend during whose run another caller cancels the job.\<close>

definition cancelled_backend :: "JobDb backend" where
  "cancelled_backend op ctx db = (BackendRaised, snd (transition sample_ids ''j'' CANCELLED 5 None None None db))"

lemma sample_gated_reachable: "store_reachable sample_gated"
proof -
  have "store_step sample_db3 sample_gated"
    using store_step.move[of sample_ids "''j''" GATING 3 "Some ''w''" None None sample_db3] surjective_pairing
    unfolding sample_gated_def by blast
  then show ?thesis using sample_dbs_reachable(3)
    unfolding store_reachable_def by (rule rtranclp.rtrancl_into_rtrancl[rotated])
qed

lemma ok_backend_uses_store: "backend_uses_store ok_backend"
  unfolding backend_uses_store_def ok_backend_def reply_valid_def JobBackendResult_post_init_def
  by (auto simp: require_optional_text_def require_text_def) code_simp+

lemma cancelled_backend_uses_store: "backend_uses_store cancelled_backend"
proof -
  have "store_step db (snd (transition sample_ids ''j'' CANCELLED 5 None None None db))" for db
    using store_step.move[of sample_ids "''j''" CANCELLED 5 None None None db] surjective_pairing by blast
  then show ?thesis unfolding backend_uses_store_def cancelled_backend_def reply_valid_def by auto
qed

theorem backend_called_within_budget_witness:
  "\<exists>r db' calls. execute get_job (transition sample_ids) (checkpoint sample_ids) ok_backend ''j'' 4 ''w'' ''build'' sample_gated
     = (r, db', calls) \<and> calls \<noteq> [] \<and> (\<exists>j ctx. db_job sample_gated ''j'' = Some j \<and> js_state j = GATING
         \<and> calls = [(''build'', ctx)] \<and> jx_attempt_no ctx \<le> js_max_attempts j)"
proof -
  obtain r db' calls where e: "execute get_job (transition sample_ids) (checkpoint sample_ids) ok_backend
      ''j'' 4 ''w'' ''build'' sample_gated = (r, db', calls)" by (metis surj_pair)
  have "snd (snd (execute get_job (transition sample_ids) (checkpoint sample_ids) ok_backend
      ''j'' 4 ''w'' ''build'' sample_gated)) \<noteq> []" by code_simp
  then have "calls \<noteq> []" using e by simp
  with backend_called_within_budget[OF sample_gated_reachable ok_backend_uses_store e] e show ?thesis by blast
qed


end
