(* ===== verification/Action_Monad.thy ===== *)
theory Action_Monad
  imports Core_Domain
begin

text \<open>
  Calls that may raise and that change a state, composed in sequence: an action maps a
  state to a result or an exception and the state it leaves. A triple states what an
  action guarantees on normal and on exceptional return; the rules below are the ones
  the client proofs compose.
\<close>

type_synonym ('s, 'a) action = "'s \<Rightarrow> (exn + 'a) \<times> 's"

definition ret :: "'a \<Rightarrow> ('s, 'a) action" where
  "ret x s = (Inr x, s)"

definition throw :: "exn \<Rightarrow> ('s, 'a) action" where
  "throw e s = (Inl e, s)"

definition andthen :: "('s, 'a) action \<Rightarrow> ('a \<Rightarrow> ('s, 'b) action) \<Rightarrow> ('s, 'b) action" where
  "andthen m k s = (case m s of (Inl e, s') \<Rightarrow> (Inl e, s') | (Inr x, s') \<Rightarrow> k x s')"

definition catch :: "('s, 'a) action \<Rightarrow> (exn \<Rightarrow> ('s, 'a) action) \<Rightarrow> ('s, 'a) action" where
  "catch m h s = (case m s of (Inl e, s') \<Rightarrow> h e s' | (Inr x, s') \<Rightarrow> (Inr x, s'))"

definition lift_res :: "exn + 'a \<Rightarrow> ('s, 'a) action" where
  "lift_res r s = (r, s)"

definition triple ::
  "('s \<Rightarrow> bool) \<Rightarrow> ('s, 'a) action \<Rightarrow> ('a \<Rightarrow> 's \<Rightarrow> bool) \<Rightarrow> (exn \<Rightarrow> 's \<Rightarrow> bool) \<Rightarrow> bool" where
  "triple P m Q E \<longleftrightarrow> (\<forall>s r s'. P s \<longrightarrow> m s = (r, s') \<longrightarrow> (case r of Inl e \<Rightarrow> E e s' | Inr x \<Rightarrow> Q x s'))"

named_theorems triple_rules "rules for the triples of the actions"

lemma tripleI:
  assumes "\<And>s e s'. P s \<Longrightarrow> m s = (Inl e, s') \<Longrightarrow> E e s'"
    and "\<And>s x s'. P s \<Longrightarrow> m s = (Inr x, s') \<Longrightarrow> Q x s'"
  shows "triple P m Q E"
  unfolding triple_def using assms by (auto split: sum.split)

lemma tripleD:
  assumes "triple P m Q E" and "P s" and "m s = (r, s')"
  shows "case r of Inl e \<Rightarrow> E e s' | Inr x \<Rightarrow> Q x s'"
  using assms unfolding triple_def by blast

lemma triple_ret [triple_rules]: "(\<And>s. P s \<Longrightarrow> Q x s) \<Longrightarrow> triple P (ret x) Q E"
  by (auto simp: triple_def ret_def)

lemma triple_throw [triple_rules]: "(\<And>s. P s \<Longrightarrow> E e s) \<Longrightarrow> triple P (throw e) Q E"
  by (auto simp: triple_def throw_def)

lemma triple_lift_res [triple_rules]:
  "(\<And>s e. P s \<Longrightarrow> r = Inl e \<Longrightarrow> E e s) \<Longrightarrow> (\<And>s x. P s \<Longrightarrow> r = Inr x \<Longrightarrow> Q x s) \<Longrightarrow> triple P (lift_res r) Q E"
  by (auto simp: triple_def lift_res_def split: sum.split)

lemma andthen_cases:
  assumes "andthen m k s = (r, s')"
  shows "(\<exists>e. m s = (Inl e, s') \<and> r = Inl e) \<or> (\<exists>x s1. m s = (Inr x, s1) \<and> k x s1 = (r, s'))"
  using assms by (auto simp: andthen_def split: prod.splits sum.splits)

lemma triple_andthen:
  assumes "triple P m R E" and "\<And>x. triple (R x) (k x) Q E"
  shows "triple P (andthen m k) Q E"
proof (rule tripleI)
  fix s e s'
  assume P: "P s" and r: "andthen m k s = (Inl e, s')"
  obtain a s1 where m: "m s = (a, s1)" by fastforce
  show "E e s'"
    using tripleD[OF assms(1) P m] r m tripleD[OF assms(2), of _ s1 "Inl e" s']
    by (cases a) (auto simp: andthen_def)
next
  fix s x s'
  assume P: "P s" and r: "andthen m k s = (Inr x, s')"
  obtain a s1 where m: "m s = (a, s1)" by fastforce
  show "Q x s'"
    using tripleD[OF assms(1) P m] r m tripleD[OF assms(2), of _ s1 "Inr x" s']
    by (cases a) (auto simp: andthen_def)
qed

lemma triple_catch:
  assumes "triple P m Q R" and "\<And>e. triple (R e) (h e) Q E"
  shows "triple P (catch m h) Q E"
proof (rule tripleI)
  fix s e s'
  assume P: "P s" and r: "catch m h s = (Inl e, s')"
  obtain a s1 where m: "m s = (a, s1)" by fastforce
  show "E e s'"
    using tripleD[OF assms(1) P m] r m tripleD[OF assms(2), of _ s1 "Inl e" s']
    by (cases a) (auto simp: catch_def)
next
  fix s x s'
  assume P: "P s" and r: "catch m h s = (Inr x, s')"
  obtain a s1 where m: "m s = (a, s1)" by fastforce
  show "Q x s'"
    using tripleD[OF assms(1) P m] r m tripleD[OF assms(2), of _ s1 "Inr x" s']
    by (cases a) (auto simp: catch_def)
qed

lemma triple_if [triple_rules]:
  "(b \<Longrightarrow> triple P m Q E) \<Longrightarrow> (\<not> b \<Longrightarrow> triple P n Q E) \<Longrightarrow> triple P (if b then m else n) Q E"
  by simp

lemma triple_conseq:
  assumes "triple P m Q E" and "\<And>s. P' s \<Longrightarrow> P s" and "\<And>x s. Q x s \<Longrightarrow> Q' x s" and "\<And>e s. E e s \<Longrightarrow> E' e s"
  shows "triple P' m Q' E'"
  using assms unfolding triple_def by (metis (no_types, lifting) sum.case_eq_if)

lemma triple_pre:
  assumes "\<And>s. P s \<Longrightarrow> triple (\<lambda>s'. s' = s) m Q E"
  shows "triple P m Q E"
  using assms unfolding triple_def by blast

lemma triple_fact:
  assumes "A \<Longrightarrow> triple P m Q E"
  shows "triple (\<lambda>s. A \<and> P s) m Q E"
  using assms unfolding triple_def by blast

end
