(* ===== verification/Job_Control.thy ===== *)
theory Job_Control
  imports Job_Execution Action_Monad
begin

text \<open>
  The application facade over the durable job runtime,
  \<^verbatim>\<open>src/src/a_conductor/job_control.py\<close>: every method delegates to the store or to the
  execution coordinator. The state is the database together with the trace of the calls
  made to the execution backend. The goal-closeout method, which only forwards to an
  injected facade, is left out.
\<close>

type_synonym calls = "(string \<times> JobExecutionContext) list"

type_synonym control = "JobDb \<times> calls"

definition on_db :: "(JobDb \<Rightarrow> (exn + 'a) \<times> JobDb) \<Rightarrow> (control, 'a) action" where
  "on_db op st = (case op (fst st) of (r, db) \<Rightarrow> (r, (db, snd st)))"

definition control_create_job ::
  "(nat \<Rightarrow> string option) \<Rightarrow> string \<Rightarrow> string \<Rightarrow> string \<Rightarrow> int \<Rightarrow> (control, JobRuntimeState) action" where
  "control_create_job f i work_order_ref project_id max_attempts =
     on_db (create_job f i work_order_ref project_id max_attempts)"

definition control_get_job :: "string \<Rightarrow> (control, JobRuntimeState) action" where
  "control_get_job i = on_db (get_job i)"

definition control_list_events :: "string \<Rightarrow> (control, JobEvent list) action" where
  "control_list_events i = on_db (list_events i)"

definition mark_ready :: "(nat \<Rightarrow> string option) \<Rightarrow> string \<Rightarrow> int \<Rightarrow> (control, JobRuntimeState) action" where
  "mark_ready f i expected = on_db (transition f i READY expected None None None)"

definition claim :: "(nat \<Rightarrow> string option) \<Rightarrow> string \<Rightarrow> int \<Rightarrow> string \<Rightarrow> (control, JobRuntimeState) action" where
  "claim f i expected worker = on_db (transition f i CLAIMED expected (Some worker) None None)"

definition block ::
  "(nat \<Rightarrow> string option) \<Rightarrow> string \<Rightarrow> int \<Rightarrow> string \<Rightarrow> string option \<Rightarrow> (control, JobRuntimeState) action" where
  "block f i expected worker evidence = on_db (transition f i BLOCKED expected (Some worker) None evidence)"

definition gate ::
  "(nat \<Rightarrow> string option) \<Rightarrow> string \<Rightarrow> int \<Rightarrow> string \<Rightarrow> string option \<Rightarrow> (control, JobRuntimeState) action" where
  "gate f i expected worker evidence = on_db (transition f i GATING expected (Some worker) None evidence)"

definition control_checkpoint ::
  "(nat \<Rightarrow> string option) \<Rightarrow> string \<Rightarrow> int \<Rightarrow> string \<Rightarrow> string option \<Rightarrow> (control, JobRuntimeState) action" where
  "control_checkpoint f i expected checkpoint_ref evidence = on_db (checkpoint f i checkpoint_ref expected evidence)"

definition execute_operation ::
  "(nat \<Rightarrow> string option) \<Rightarrow> JobDb backend \<Rightarrow> string \<Rightarrow> int \<Rightarrow> string \<Rightarrow> string \<Rightarrow> (control, JobExecutionOutcome) action" where
  "execute_operation f backend i expected worker operation_ref st =
     (case execute get_job (transition f) (checkpoint f) backend i expected worker operation_ref (fst st) of
        (r, db, calls) \<Rightarrow> (r, (db, snd st @ calls)))"

end
