(* ===== verification/Glob_Overlap.thy ===== *)
theory Glob_Overlap
  imports Task_Graph
begin

text \<open>
  The dependency analyzer, \<^verbatim>\<open>src/src/a_conductor/graph/analyze.py\<close>: the glob tokenizer,
  the memoised glob-intersection search, the single write-conflict seam
  \<^verbatim>\<open>write_sets_overlap\<close>, the binding parser and \<^verbatim>\<open>analyze_conflicts\<close>.
\<close>

section \<open>Definitions\<close>

subsection \<open>Tokenizing a glob\<close>

datatype glob_token = Star | Quest | Lit char

text \<open>
  What follows a character class: \<open>cs\<close> is the text after the opening bracket; an
  unclosed class swallows the rest of the pattern (\<^verbatim>\<open>i = j + 1 if j < length else length\<close>).
\<close>

definition skip_class :: "string \<Rightarrow> string" where
  "skip_class cs =
     (let cs1 = (case cs of [] \<Rightarrow> [] | x # xs \<Rightarrow> if x = CHR ''!'' \<or> x = CHR ''^'' then xs else cs);
          cs2 = (case cs1 of [] \<Rightarrow> [] | x # xs \<Rightarrow> if x = CHR '']'' then xs else cs1)
      in case dropWhile (\<lambda>x. x \<noteq> CHR '']'') cs2 of [] \<Rightarrow> [] | _ # rest \<Rightarrow> rest)"

lemma length_skip_class: "length (skip_class cs) \<le> length cs"
proof -
  have "length (dropWhile P xs) \<le> length xs" for P and xs :: string
    by (rule length_dropWhile_le)
  then show ?thesis
    unfolding skip_class_def Let_def
    by (auto split: list.splits simp: le_Suc_eq)
       (metis Suc_leD length_Cons le_SucI order_trans)+
qed

function tokenize_glob :: "string \<Rightarrow> glob_token list" where
  "tokenize_glob [] = []"
| "tokenize_glob (c # cs) =
     (if c = CHR ''*'' then Star # tokenize_glob cs
      else if c = CHR ''?'' then Quest # tokenize_glob cs
      else if c = CHR ''['' then Quest # tokenize_glob (skip_class cs)
      else Lit c # tokenize_glob cs)"
  by pat_completeness auto
termination
  by (relation "measure length") (auto simp: less_Suc_eq_le length_skip_class)

subsection \<open>Glob intersection\<close>

type_synonym glob_memo = "(nat \<times> nat) \<rightharpoonup> bool"

text \<open>
  The inner function \<^verbatim>\<open>visit\<close>, with its memo table passed along. The base cases return
  without storing, and \<^verbatim>\<open>or\<close> evaluates its right operand only when the left one is false.
\<close>

function visit ::
  "glob_token list \<Rightarrow> glob_token list \<Rightarrow> nat \<Rightarrow> nat \<Rightarrow> glob_memo \<Rightarrow> bool \<times> glob_memo" where
  "visit a b i j memo =
     (case memo (i, j) of
        Some r \<Rightarrow> (r, memo)
      | None \<Rightarrow>
          if length a \<le> i \<and> length b \<le> j then (True, memo)
          else if length a \<le> i then (list_all (\<lambda>t. t = Star) (drop j b), memo)
          else if length b \<le> j then (list_all (\<lambda>t. t = Star) (drop i a), memo)
          else
            (let (result, memo') =
               (if a ! i = Star \<or> b ! j = Star then
                  (let (left, m1) = visit a b (Suc i) j memo
                   in if left then (True, m1) else visit a b i (Suc j) m1)
                else if a ! i = Quest \<or> b ! j = Quest \<or> a ! i = b ! j
                then visit a b (Suc i) (Suc j) memo
                else (False, memo))
             in (result, memo'((i, j) \<mapsto> result))))"
  by pat_completeness auto
termination
  by (relation "measure (\<lambda>(a, b, i, j, m). (length a - i) + (length b - j))") auto

declare visit.simps [simp del]

definition globs_share_a_path :: "glob_token list \<Rightarrow> glob_token list \<Rightarrow> bool" where
  "globs_share_a_path a b = fst (visit a b 0 0 Map.empty)"

subsection \<open>Path overlap\<close>

text \<open>\<^verbatim>\<open>str.replace\<close>: every non-overlapping occurrence, left to right.\<close>

function py_replace :: "string \<Rightarrow> string \<Rightarrow> string \<Rightarrow> string" where
  "py_replace old new [] = []"
| "py_replace old new (c # cs) =
     (if old \<noteq> [] \<and> take (length old) (c # cs) = old
      then new @ py_replace old new (drop (length old) (c # cs))
      else c # py_replace old new cs)"
  by pat_completeness auto
termination
  by (relation "measure (\<lambda>(old, new, s). length s)") auto

definition normalize_glob :: "string \<Rightarrow> string" where
  "normalize_glob p = py_replace ''**'' ''*'' (py_replace ''**/'' ''*'' p)"

definition paths_overlap :: "string \<Rightarrow> string \<Rightarrow> bool" where
  "paths_overlap pattern path =
     globs_share_a_path (tokenize_glob (normalize_glob pattern)) (tokenize_glob (normalize_glob path))"

fun write_sets_overlap :: "string list \<Rightarrow> string list \<Rightarrow> bool" where
  "write_sets_overlap [] bs = False"
| "write_sets_overlap (a # as) bs =
     (list_ex (\<lambda>b. a = b \<or> paths_overlap a b) bs \<or> write_sets_overlap as bs)"

definition node_write_sets_overlap :: "TaskNode \<Rightarrow> TaskNode \<Rightarrow> bool" where
  "node_write_sets_overlap a b = write_sets_overlap (tn_write_set a) (tn_write_set b)"

subsection \<open>Bindings and conflicts\<close>

text \<open>\<^verbatim>\<open>str.split\<close> with a one-character separator.\<close>

fun py_split :: "char \<Rightarrow> string \<Rightarrow> string list" where
  "py_split sep [] = [[]]"
| "py_split sep (c # cs) =
     (if c = sep then [] # py_split sep cs
      else (case py_split sep cs of [] \<Rightarrow> [[c]] | w # ws \<Rightarrow> (c # w) # ws))"

definition binding_part :: "string \<Rightarrow> string dict \<Rightarrow> string dict" where
  "binding_part part result =
     (if CHR '':'' \<in> set part
      then AList.update (takeWhile (\<lambda>c. c \<noteq> CHR '':'') part)
             (tl (dropWhile (\<lambda>c. c \<noteq> CHR '':'') part)) result
      else result)"

definition parse_binding :: "TaskNode \<Rightarrow> string dict" where
  "parse_binding n =
     (case tn_model_requirement n of
        None \<Rightarrow> []
      | Some r \<Rightarrow> if r = [] then [] else fold binding_part (py_split (CHR ''|'') r) [])"

record ConflictsReport =
  cr_conflicts :: "(string \<times> string \<times> DependencyType) list"
  cr_already_sequenced :: int

definition conflict_count :: "ConflictsReport \<Rightarrow> DependencyType \<Rightarrow> nat" where
  "conflict_count r t = length (filter (\<lambda>(_, _, t'). t' = t) (cr_conflicts r))"

definition has_conflicts :: "ConflictsReport \<Rightarrow> bool" where
  "has_conflicts r = (length (cr_conflicts r) > 0)"

text \<open>\<^verbatim>\<open>x and y and x == y\<close> on optional strings, where the empty string is false.\<close>

definition same_binding :: "string option \<Rightarrow> string option \<Rightarrow> bool" where
  "same_binding x y = (case (x, y) of (Some u, Some v) \<Rightarrow> u \<noteq> [] \<and> v \<noteq> [] \<and> u = v | _ \<Rightarrow> False)"

definition pair_conflicts ::
  "(string \<times> string) set \<Rightarrow> TaskNode \<Rightarrow> TaskNode \<Rightarrow> ConflictsReport \<Rightarrow> ConflictsReport" where
  "pair_conflicts existing a b r =
     (let overlap = node_write_sets_overlap a b;
          sequenced = (tn_id a, tn_id b) \<in> existing \<or> (tn_id b, tn_id a) \<in> existing;
          ba = parse_binding a; bb = parse_binding b
      in r\<lparr>cr_conflicts := cr_conflicts r
             @ (if overlap then [(tn_id a, tn_id b, FILE_WRITE)] else [])
             @ (if same_binding (map_of ba ''ws'') (map_of bb ''ws'')
                then [(tn_id a, tn_id b, WORKSPACE_WRITE)] else [])
             @ (if same_binding (map_of ba ''worker'') (map_of bb ''worker'')
                then [(tn_id a, tn_id b, WORKER)] else []),
           cr_already_sequenced := cr_already_sequenced r
             + (if overlap \<and> sequenced then 1 else 0)\<rparr>)"

fun scan_pairs :: "(string \<times> string) set \<Rightarrow> TaskNode list \<Rightarrow> ConflictsReport \<Rightarrow> ConflictsReport" where
  "scan_pairs existing [] r = r"
| "scan_pairs existing (a # ns) r =
     scan_pairs existing ns (fold (pair_conflicts existing a) ns r)"

definition analyze_conflicts :: "TaskGraph \<Rightarrow> ConflictsReport" where
  "analyze_conflicts g =
     scan_pairs (set (map (\<lambda>e. (te_from e, te_to e)) (edges g))) (nodes g)
       \<lparr>cr_conflicts = [], cr_already_sequenced = 0\<rparr>"

section \<open>The memo table does not change the search\<close>

fun share :: "glob_token list \<Rightarrow> glob_token list \<Rightarrow> bool" where
  "share [] bs = list_all (\<lambda>t. t = Star) bs"
| "share as [] = list_all (\<lambda>t. t = Star) as"
| "share (x # xs) (y # ys) =
     (if x = Star \<or> y = Star then share xs (y # ys) \<or> share (x # xs) ys
      else if x = Quest \<or> y = Quest \<or> x = y then share xs ys else False)"

definition memo_ok :: "glob_token list \<Rightarrow> glob_token list \<Rightarrow> glob_memo \<Rightarrow> bool" where
  "memo_ok a b m \<longleftrightarrow> (\<forall>i j r. m (i, j) = Some r \<longrightarrow> r = share (drop i a) (drop j b))"

lemma memo_ok_upd: "memo_ok a b m \<Longrightarrow> r = share (drop i a) (drop j b) \<Longrightarrow> memo_ok a b (m((i, j) \<mapsto> r))"
  by (auto simp: memo_ok_def)

lemma share_right_end: "share as [] = list_all (\<lambda>t. t = Star) as"
  by (cases as) auto

lemma share_drop:
  assumes "i < length a" and "j < length b"
  shows "share (drop i a) (drop j b) =
    (if a ! i = Star \<or> b ! j = Star then share (drop (Suc i) a) (drop j b) \<or> share (drop i a) (drop (Suc j) b)
     else if a ! i = Quest \<or> b ! j = Quest \<or> a ! i = b ! j then share (drop (Suc i) a) (drop (Suc j) b)
     else False)"
proof -
  have "drop i a = a ! i # drop (Suc i) a" "drop j b = b ! j # drop (Suc j) b"
    using assms by (simp_all add: Cons_nth_drop_Suc)
  then show ?thesis by simp
qed

lemma memo_store:
  assumes "fst p = share (drop i a) (drop j b)" and "memo_ok a b (snd p)"
  shows "fst (let (r, m) = p in (r, m((i, j) \<mapsto> r))) = share (drop i a) (drop j b)
    \<and> memo_ok a b (snd (let (r, m) = p in (r, m((i, j) \<mapsto> r))))"
  using assms memo_ok_upd by (cases p) auto

lemma visit_spec:
  assumes "memo_ok a b m"
  shows "fst (visit a b i j m) = share (drop i a) (drop j b) \<and> memo_ok a b (snd (visit a b i j m))"
  using assms
proof (induction a b i j m rule: visit.induct)
  case (1 a b i j m)
  show ?case
  proof (cases "m (i, j) \<noteq> None \<or> \<not> (i < length a \<and> j < length b)")
    case True
    then have "visit a b i j m = (share (drop i a) (drop j b), m)"
      using 1(4) visit.simps[of a b i j m] by (cases "m (i, j)") (auto simp: share_right_end not_less memo_ok_def)
    then show ?thesis using 1(4) by simp
  next
    case False
    then have None: "m (i, j) = None" and ij: "i < length a" "j < length b"
      and nl: "\<not> (length a \<le> i \<and> length b \<le> j)" "\<not> length a \<le> i" "\<not> length b \<le> j" by auto
    let ?v1 = "visit a b (Suc i) j m"
    let ?p = "if a ! i = Star \<or> b ! j = Star then
                (let (left, m1) = ?v1 in if left then (True, m1) else visit a b i (Suc j) m1)
              else if a ! i = Quest \<or> b ! j = Quest \<or> a ! i = b ! j
              then visit a b (Suc i) (Suc j) m
              else (False, m)"
    have v: "visit a b i j m = (let (result, memo') = ?p in (result, memo'((i, j) \<mapsto> result)))"
      using None nl by (subst visit.simps) simp
    have "fst ?p = share (drop i a) (drop j b) \<and> memo_ok a b (snd ?p)"
    proof (cases "a ! i = Star \<or> b ! j = Star")
      case star: True
      obtain left m1 where v1: "?v1 = (left, m1)" by fastforce
      have IH1: "left = share (drop (Suc i) a) (drop j b)" "memo_ok a b m1"
        using 1(1)[OF None nl star 1(4)] v1 by auto
      show ?thesis
        using star v1 IH1 share_drop[OF ij] 1(2)[OF None nl star v1[symmetric] refl _ IH1(2)]
        by (cases left) auto
    next
      case False
      then show ?thesis
        using 1(3)[OF None nl False _ 1(4)] 1(4) share_drop[OF ij] by auto
    qed
    then show ?thesis unfolding v by (intro memo_store) auto
  qed
qed

lemma globs_share_eq_share: "globs_share_a_path a b = share a b"
  using visit_spec[of a b Map.empty 0 0] by (simp add: globs_share_a_path_def memo_ok_def)

section \<open>What a glob matches\<close>

fun matches :: "glob_token list \<Rightarrow> string \<Rightarrow> bool" where
  "matches [] s = (s = [])"
| "matches (Star # ts) [] = matches ts []"
| "matches (Star # ts) (c # s) = (matches ts (c # s) \<or> matches (Star # ts) s)"
| "matches (Quest # ts) [] = False"
| "matches (Quest # ts) (c # s) = matches ts s"
| "matches (Lit x # ts) [] = False"
| "matches (Lit x # ts) (c # s) = (x = c \<and> matches ts s)"

lemma matches_Star_skip: "matches ts s \<Longrightarrow> matches (Star # ts) s"
  by (cases s) auto

lemma matches_Star_append: "matches (Star # ts) v \<Longrightarrow> matches (Star # ts) (u @ v)"
  by (induction u) auto

lemma matches_Star_iff: "matches (Star # ts) s \<longleftrightarrow> (\<exists>u v. s = u @ v \<and> matches ts v)"
proof
  show "matches (Star # ts) s \<Longrightarrow> \<exists>u v. s = u @ v \<and> matches ts v"
  proof (induction s)
    case Nil
    then show ?case by simp
  next
    case (Cons c s)
    from Cons.prems consider "matches ts (c # s)" | "matches (Star # ts) s" by auto
    then show ?case
    proof cases
      case 1
      then show ?thesis by (metis append_Nil)
    next
      case 2
      with Cons.IH show ?thesis by (metis append_Cons)
    qed
  qed
next
  assume "\<exists>u v. s = u @ v \<and> matches ts v"
  then show "matches (Star # ts) s" using matches_Star_append matches_Star_skip by blast
qed

lemma matches_all_Star: "list_all (\<lambda>t. t = Star) ts \<Longrightarrow> matches ts []"
  by (induction ts) auto

lemma matches_Nil_iff: "matches ts [] \<longleftrightarrow> list_all (\<lambda>t. t = Star) ts"
proof (induction ts)
  case (Cons t ts)
  then show ?case by (cases t) auto
qed simp

lemma matches_one: "t \<noteq> Star \<Longrightarrow> \<exists>c. \<forall>ts s. matches (t # ts) (c # s) = matches ts s"
  by (cases t) auto

lemma share_imp_common: "share a b \<Longrightarrow> \<exists>s. matches a s \<and> matches b s"
proof (induction a b rule: share.induct)
  case (1 bs)
  then show ?case using matches_all_Star by auto
next
  case (2 v va)
  then show ?case using matches_all_Star by (metis matches.simps(1) share_right_end)
next
  case (3 x xs y ys)
  show ?case
  proof (cases "x = Star \<or> y = Star")
    case True
    with 3(4) consider "share xs (y # ys)" | "share (x # xs) ys" by auto
    then show ?thesis
    proof cases
      case 1
      then obtain s where s: "matches xs s" "matches (y # ys) s" using 3(1)[OF True] by blast
      show ?thesis
      proof (cases "x = Star")
        case True
        then show ?thesis using s matches_Star_skip by blast
      next
        case False
        then obtain c where "matches (x # xs) (c # s)" using s(1) matches_one by blast
        moreover have "matches (y # ys) (c # s)" using s(2) False True by auto
        ultimately show ?thesis by blast
      qed
    next
      case 2
      then obtain s where s: "matches (x # xs) s" "matches ys s" using 3(2)[OF True] by blast
      show ?thesis
      proof (cases "y = Star")
        case True
        then show ?thesis using s matches_Star_skip by blast
      next
        case False
        then obtain c where "matches (y # ys) (c # s)" using s(2) matches_one by blast
        moreover have "matches (x # xs) (c # s)" using s(1) False True by auto
        ultimately show ?thesis by blast
      qed
    qed
  next
    case False
    with 3(4) have q: "x = Quest \<or> y = Quest \<or> x = y" and sh: "share xs ys" by (auto split: if_splits)
    then obtain s where s: "matches xs s" "matches ys s" using 3(3)[OF False] by blast
    have "\<exists>c. matches (x # xs) (c # s) \<and> matches (y # ys) (c # s)"
      using q False s by (cases x; cases y) auto
    then show ?thesis by blast
  qed
qed

lemma common_imp_share: "matches a s \<Longrightarrow> matches b s \<Longrightarrow> share a b"
proof (induction "length a + length b + length s" arbitrary: a b s rule: less_induct)
  case less
  show ?case
  proof (cases a)
    case Nil
    then show ?thesis using less.prems by (simp add: matches_Nil_iff)
  next
    case a: (Cons x xs)
    show ?thesis
    proof (cases b)
      case Nil
      then show ?thesis using less.prems by (simp add: matches_Nil_iff share_right_end)
    next
      case b: (Cons y ys)
      have IHl: "matches xs s \<Longrightarrow> share xs b" and IHr: "matches ys s \<Longrightarrow> share a ys"
        using less.hyps[of xs b s] less.hyps[of a ys s] less.prems a b by auto
      have IHt: "matches xs t \<Longrightarrow> matches ys t \<Longrightarrow> length t \<le> length s \<Longrightarrow> share xs ys" for t
        using less.hyps[of xs ys t] a b by simp
      have IHl': "matches xs t \<Longrightarrow> matches b t \<Longrightarrow> length t \<le> length s \<Longrightarrow> share xs b"
        and IHr': "matches a t \<Longrightarrow> matches ys t \<Longrightarrow> length t \<le> length s \<Longrightarrow> share a ys"
        and IHs: "matches a t \<Longrightarrow> matches b t \<Longrightarrow> length t < length s \<Longrightarrow> share a b" for t
        using less.hyps[of xs b t] less.hyps[of a ys t] less.hyps[of a b t] a b by auto
      show ?thesis
      proof (cases s)
        case Nil
        then have "list_all (\<lambda>t. t = Star) a" "list_all (\<lambda>t. t = Star) b"
          using less.prems by (auto simp: matches_Nil_iff)
        then show ?thesis using Nil a b IHl by (simp add: matches_Nil_iff)
      next
        case s: (Cons c t)
        show ?thesis
          using less.prems a b s IHl IHr IHt[of t] IHl'[of t] IHr'[of t] IHs[of t]
          by (cases x; cases y) auto
      qed
    qed
  qed
qed

lemma share_iff: "share a b \<longleftrightarrow> (\<exists>s. matches a s \<and> matches b s)"
  using share_imp_common common_imp_share by blast

section \<open>The reference: Python's fnmatch\<close>

text \<open>
  \<^verbatim>\<open>fnmatch.fnmatchcase\<close>, which the module's comments name as the meaning of its globs.
  \<open>cls\<close> stands for the meaning of a character class. A bracket without its closing
  bracket is the literal character.
\<close>

datatype fn_token = FStar | FQuest | FLit char | FClass string

definition fn_class :: "string \<Rightarrow> (string \<times> string) option" where
  "fn_class cs =
     (let (pre1, cs1) = (case cs of [] \<Rightarrow> ([], []) | x # xs \<Rightarrow> if x = CHR ''!'' then ([x], xs) else ([], cs));
          (pre2, cs2) = (case cs1 of [] \<Rightarrow> ([], []) | x # xs \<Rightarrow> if x = CHR '']'' then ([x], xs) else ([], cs1))
      in case dropWhile (\<lambda>x. x \<noteq> CHR '']'') cs2 of
           [] \<Rightarrow> None
         | _ # rest \<Rightarrow> Some (pre1 @ pre2 @ takeWhile (\<lambda>x. x \<noteq> CHR '']'') cs2, rest))"

lemma fn_class_shorter: "fn_class cs = Some (inner, rest) \<Longrightarrow> length rest < length cs"
proof -
  assume a: "fn_class cs = Some (inner, rest)"
  have le: "length (dropWhile P xs) \<le> length xs" for P and xs :: string
    by (rule length_dropWhile_le)
  from a obtain x cs2 where dw: "dropWhile (\<lambda>x. x \<noteq> CHR '']'') cs2 = x # rest" and "length cs2 \<le> length cs"
    unfolding fn_class_def Let_def by (auto split: list.splits if_splits prod.splits)
  with le[of "\<lambda>x. x \<noteq> CHR '']''" cs2] show ?thesis by simp
qed

function fn_tokens :: "string \<Rightarrow> fn_token list" where
  "fn_tokens [] = []"
| "fn_tokens (c # cs) =
     (if c = CHR ''*'' then FStar # fn_tokens cs
      else if c = CHR ''?'' then FQuest # fn_tokens cs
      else if c = CHR ''['' then
        (case fn_class cs of
           None \<Rightarrow> FLit c # fn_tokens cs
         | Some (inner, rest) \<Rightarrow> FClass inner # fn_tokens rest)
      else FLit c # fn_tokens cs)"
  by pat_completeness auto
termination
  by (relation "measure length") (auto dest: fn_class_shorter)

fun fn_matches :: "(string \<Rightarrow> char \<Rightarrow> bool) \<Rightarrow> fn_token list \<Rightarrow> string \<Rightarrow> bool" where
  "fn_matches cls [] s = (s = [])"
| "fn_matches cls (FStar # ts) [] = fn_matches cls ts []"
| "fn_matches cls (FStar # ts) (c # s) = (fn_matches cls ts (c # s) \<or> fn_matches cls (FStar # ts) s)"
| "fn_matches cls (FQuest # ts) [] = False"
| "fn_matches cls (FQuest # ts) (c # s) = fn_matches cls ts s"
| "fn_matches cls (FLit x # ts) [] = False"
| "fn_matches cls (FLit x # ts) (c # s) = (x = c \<and> fn_matches cls ts s)"
| "fn_matches cls (FClass k # ts) [] = False"
| "fn_matches cls (FClass k # ts) (c # s) = (cls k c \<and> fn_matches cls ts s)"

definition fnmatchcase :: "(string \<Rightarrow> char \<Rightarrow> bool) \<Rightarrow> string \<Rightarrow> string \<Rightarrow> bool" where
  "fnmatchcase cls p s = fn_matches cls (fn_tokens p) s"

primrec glob_of :: "fn_token \<Rightarrow> glob_token" where
  "glob_of FStar = Star"
| "glob_of FQuest = Quest"
| "glob_of (FLit c) = Lit c"
| "glob_of (FClass k) = Quest"

lemma tokenize_bracket_free: "CHR ''['' \<notin> set p \<Longrightarrow> tokenize_glob p = map glob_of (fn_tokens p)"
  by (induction p rule: fn_tokens.induct) auto

lemma fn_tokens_bracket_free: "CHR ''['' \<notin> set p \<Longrightarrow> FClass k \<notin> set (fn_tokens p)"
  by (induction p rule: fn_tokens.induct) auto

lemma fn_matches_glob:
  "(\<And>k. FClass k \<notin> set ts) \<Longrightarrow> fn_matches cls ts s \<longleftrightarrow> matches (map glob_of ts) s"
  by (induction cls ts s rule: fn_matches.induct) auto

lemma fnmatchcase_bracket_free:
  "CHR ''['' \<notin> set p \<Longrightarrow> fnmatchcase cls p s \<longleftrightarrow> matches (tokenize_glob p) s"
  by (simp add: fnmatchcase_def tokenize_bracket_free fn_matches_glob fn_tokens_bracket_free)

section \<open>Normalisation only widens a glob\<close>

lemma matches_Cons_mono:
  assumes "matches (t # ts) s" and "\<And>u. matches ts u \<Longrightarrow> matches ts' u"
  shows "matches (t # ts') s"
proof (cases t)
  case Star
  with assms show ?thesis by (auto simp: matches_Star_iff)
next
  case Quest
  with assms show ?thesis by (cases s) auto
next
  case (Lit x)
  with assms show ?thesis by (cases s) auto
qed

lemma matches_StarStar: "matches (Star # Star # ts) s \<Longrightarrow> matches (Star # ts) s"
  unfolding matches_Star_iff by (metis append_assoc)

lemma set_py_replace: "x \<in> set (py_replace old new s) \<Longrightarrow> x \<in> set s \<or> x \<in> set new"
proof (induction old new s rule: py_replace.induct)
  case (2 old new c cs)
  have "set (drop (length old) (c # cs)) \<subseteq> set (c # cs)" by (rule set_drop_subset)
  with 2 show ?case by (auto split: if_splits)
qed simp

lemma replace_widens:
  assumes "CHR ''['' \<notin> set p" and "matches (tokenize_glob p) s"
    and "old = ''**'' \<or> old = ''**/''"
  shows "matches (tokenize_glob (py_replace old ''*'' p)) s"
  using assms
proof (induction p arbitrary: s rule: length_induct)
  case (1 p)
  show ?case
  proof (cases p)
    case Nil
    with 1 show ?thesis by simp
  next
    case (Cons c cs)
    show ?thesis
    proof (cases "take (length old) p = old")
      case True
      define rest where "rest = drop (length old) p"
      have p: "p = old @ rest" using True by (metis append_take_drop_id rest_def)
      have r: "py_replace old ''*'' p = ''*'' @ py_replace old ''*'' rest"
        using True Cons 1(4) rest_def by auto
      have rest: "length rest < length p" "CHR ''['' \<notin> set rest" using p 1(2,4) by auto
      have IH: "\<And>u. matches (tokenize_glob rest) u \<Longrightarrow> matches (tokenize_glob (py_replace old ''*'' rest)) u"
        using 1(1) rest 1(4) by blast
      have "matches (Star # tokenize_glob rest) s"
      proof -
        from 1(4) consider "old = ''**''" | "old = ''**/''" by blast
        then show ?thesis
        proof cases
          case 1
          with \<open>matches (tokenize_glob p) s\<close> p have "matches (Star # Star # tokenize_glob rest) s" by simp
          then show ?thesis by (rule matches_StarStar)
        next
          case 2
          with \<open>matches (tokenize_glob p) s\<close> p
          have "matches (Star # Star # Lit (CHR ''/'') # tokenize_glob rest) s" by simp
          then obtain u v where "s = u @ v" "matches (Lit (CHR ''/'') # tokenize_glob rest) v"
            using matches_StarStar matches_Star_iff by metis
          then have "s = (u @ [hd v]) @ tl v" "matches (tokenize_glob rest) (tl v)" by (cases v; simp)+
          then show ?thesis using matches_Star_iff by blast
        qed
      qed
      from matches_Cons_mono[OF this IH] show ?thesis by (simp add: r)
    next
      case False
      then have r: "py_replace old ''*'' p = c # py_replace old ''*'' cs" using Cons by simp
      have nb: "c \<noteq> CHR ''[''" "CHR ''['' \<notin> set cs" using 1(2) Cons by auto
      have IH: "\<And>u. matches (tokenize_glob cs) u \<Longrightarrow> matches (tokenize_glob (py_replace old ''*'' cs)) u"
        using 1(1) nb 1(4) Cons by auto
      obtain t where t: "\<And>ys. tokenize_glob (c # ys) = t # tokenize_glob ys"
        using nb(1) by (cases "c = CHR ''*''"; cases "c = CHR ''?''") auto
      have "matches (t # tokenize_glob cs) s" using 1(3) unfolding Cons t .
      from matches_Cons_mono[OF this IH] show ?thesis unfolding r t .
    qed
  qed
qed

lemma normalize_widens:
  assumes "CHR ''['' \<notin> set p" and "matches (tokenize_glob p) s"
  shows "matches (tokenize_glob (normalize_glob p)) s"
proof -
  have "CHR ''['' \<notin> set (py_replace ''**/'' ''*'' p)" using assms(1) set_py_replace by fastforce
  then show ?thesis
    unfolding normalize_glob_def using assms by (intro replace_widens) auto
qed

lemma paths_overlap_iff:
  "paths_overlap p q \<longleftrightarrow> (\<exists>s. matches (tokenize_glob (normalize_glob p)) s
     \<and> matches (tokenize_glob (normalize_glob q)) s)"
  by (simp add: paths_overlap_def globs_share_eq_share share_iff)

lemma paths_overlap_sym: "paths_overlap p q = paths_overlap q p"
  by (auto simp: paths_overlap_iff)

lemma write_sets_overlap_iff:
  "write_sets_overlap as bs \<longleftrightarrow> (\<exists>a \<in> set as. \<exists>b \<in> set bs. a = b \<or> paths_overlap a b)"
  by (induction as) (auto simp: list_ex_iff)

lemma write_sets_overlap_sym: "write_sets_overlap as bs = write_sets_overlap bs as"
  unfolding write_sets_overlap_iff using paths_overlap_sym by blast

lemma write_sets_overlap_self: "ws \<noteq> [] \<Longrightarrow> write_sets_overlap ws ws"
  unfolding write_sets_overlap_iff by (metis list.set_intros(1) neq_Nil_conv)

section \<open>The conflict scan\<close>

definition pair_list :: "(string \<times> string) set \<Rightarrow> TaskNode \<Rightarrow> TaskNode \<Rightarrow> (string \<times> string \<times> DependencyType) list" where
  "pair_list existing a b = cr_conflicts (pair_conflicts existing a b \<lparr>cr_conflicts = [], cr_already_sequenced = 0\<rparr>)"

lemma pair_conflicts_append:
  "cr_conflicts (pair_conflicts ex a b r) = cr_conflicts r @ pair_list ex a b"
  by (simp add: pair_conflicts_def pair_list_def Let_def)

fun ordered_pairs :: "'a list \<Rightarrow> ('a \<times> 'a) list" where
  "ordered_pairs [] = []"
| "ordered_pairs (x # xs) = map (Pair x) xs @ ordered_pairs xs"

lemma fold_pair_conflicts:
  "cr_conflicts (fold (pair_conflicts ex a) ns r) = cr_conflicts r @ concat (map (pair_list ex a) ns)"
  by (induction ns arbitrary: r) (auto simp: pair_conflicts_append)

lemma scan_pairs_conflicts:
  "cr_conflicts (scan_pairs ex ns r) =
     cr_conflicts r @ concat (map (\<lambda>(a, b). pair_list ex a b) (ordered_pairs ns))"
  by (induction ns arbitrary: r) (auto simp: fold_pair_conflicts comp_def)

lemma ordered_pairs_iff:
  "(a, b) \<in> set (ordered_pairs ns) \<longleftrightarrow> (\<exists>xs ys zs. ns = xs @ a # ys @ b # zs)"
proof (induction ns)
  case Nil
  then show ?case by simp
next
  case (Cons n ns)
  show ?case
  proof
    assume "(a, b) \<in> set (ordered_pairs (n # ns))"
    then consider "a = n" "b \<in> set ns" | "(a, b) \<in> set (ordered_pairs ns)" by auto
    then show "\<exists>xs ys zs. n # ns = xs @ a # ys @ b # zs"
    proof cases
      case 1
      then obtain ys zs where "n # ns = [] @ a # ys @ b # zs" by (auto simp: in_set_conv_decomp)
      then show ?thesis by blast
    next
      case 2
      with Cons.IH obtain xs ys zs where "n # ns = (n # xs) @ a # ys @ b # zs" by auto
      then show ?thesis by blast
    qed
  next
    assume "\<exists>xs ys zs. n # ns = xs @ a # ys @ b # zs"
    then obtain xs ys zs where e: "n # ns = xs @ a # ys @ b # zs" by blast
    show "(a, b) \<in> set (ordered_pairs (n # ns))"
    proof (cases xs)
      case Nil
      with e show ?thesis by auto
    next
      case (Cons x xs')
      with e have "\<exists>xs ys zs. ns = xs @ a # ys @ b # zs" by auto
      then have "(a, b) \<in> set (ordered_pairs ns)" by (rule Cons.IH[THEN iffD2])
      then show ?thesis by simp
    qed
  qed
qed

section \<open>Properties\<close>

text \<open>
  C27: the memoised two-pointer search decides glob intersection exactly: it answers
  \<^verbatim>\<open>True\<close> precisely when one concrete path is matched by both token lists.
\<close>

theorem globs_share_a_path_exact:
  "globs_share_a_path a b \<longleftrightarrow> (\<exists>s. matches a s \<and> matches b s)"
  by (simp add: globs_share_eq_share share_iff)

text \<open>
  No write conflict between bracket-free patterns goes undetected. If a concrete path
  is matched, in the sense of Python's fnmatch, by a pattern of one write set and by a
  pattern of the other, \<^verbatim>\<open>write_sets_overlap\<close> reports the overlap, the collapse of
  \<^verbatim>\<open>**/\<close> and \<^verbatim>\<open>**\<close> included.
\<close>

theorem write_sets_overlap_complete:
  assumes "a \<in> set as" and "b \<in> set bs"
    and "CHR ''['' \<notin> set a" and "CHR ''['' \<notin> set b"
    and "fnmatchcase cls a s" and "fnmatchcase cls b s"
  shows "write_sets_overlap as bs"
proof -
  have "paths_overlap a b"
    unfolding paths_overlap_iff using assms normalize_widens fnmatchcase_bracket_free by blast
  with assms(1,2) show ?thesis unfolding write_sets_overlap_iff by blast
qed

theorem write_sets_overlap_complete_witness:
  "fnmatchcase (\<lambda>_ _. False) ''s/*/a'' ''s/x/a'' \<and> fnmatchcase (\<lambda>_ _. False) ''s/x/*'' ''s/x/a''
   \<and> write_sets_overlap [''s/*/a''] [''t'', ''s/x/*'']"
proof -
  have a: "fnmatchcase (\<lambda>_ _. False) ''s/*/a'' ''s/x/a''"
    and b: "fnmatchcase (\<lambda>_ _. False) ''s/x/*'' ''s/x/a''"
    by (simp_all add: fnmatchcase_def)
  have "write_sets_overlap [''s/*/a''] [''t'', ''s/x/*'']"
    by (rule write_sets_overlap_complete[OF _ _ _ _ a b]) simp_all
  with a b show ?thesis by blast
qed

text \<open>
  For patterns without brackets and without \<^verbatim>\<open>**\<close>, the check is exact in both
  directions: two patterns overlap precisely when some concrete path is matched by both.
\<close>

theorem paths_overlap_exact:
  assumes "CHR ''['' \<notin> set p" and "CHR ''['' \<notin> set q"
    and "normalize_glob p = p" and "normalize_glob q = q"
  shows "paths_overlap p q \<longleftrightarrow> (\<exists>s. fnmatchcase cls p s \<and> fnmatchcase cls q s)"
  using assms by (simp add: paths_overlap_iff fnmatchcase_bracket_free)

theorem paths_overlap_exact_witness:
  "\<not> (\<exists>s. fnmatchcase (\<lambda>_ _. False) ''a.py'' s \<and> fnmatchcase (\<lambda>_ _. False) ''a.py.bak'' s)"
proof -
  have "normalize_glob ''a.py'' = ''a.py''" "normalize_glob ''a.py.bak'' = ''a.py.bak''"
    by (simp_all add: normalize_glob_def)
  moreover have "\<not> paths_overlap ''a.py'' ''a.py.bak''" by code_simp
  ultimately show ?thesis using paths_overlap_exact[of "''a.py''" "''a.py.bak''"] by simp
qed


text \<open>
  The analyzer reports exactly the conflicting pairs. A conflict \<open>(x, y, t)\<close> is
  reported precisely for two nodes \<open>x\<close> before \<open>y\<close> in graph order that overlap in their
  write sets (\<^verbatim>\<open>FILE_WRITE\<close>), bind the same non-empty workspace (\<^verbatim>\<open>WORKSPACE_WRITE\<close>) or
  the same non-empty worker (\<^verbatim>\<open>WORKER\<close>), whether or not an edge already orders them.
\<close>

theorem analyze_conflicts_exact:
  "(x, y, t) \<in> set (cr_conflicts (analyze_conflicts g)) \<longleftrightarrow>
     (\<exists>xs a ys b zs. nodes g = xs @ a # ys @ b # zs \<and> tn_id a = x \<and> tn_id b = y \<and>
        (t = FILE_WRITE \<and> write_sets_overlap (tn_write_set a) (tn_write_set b)
         \<or> t = WORKSPACE_WRITE
             \<and> (\<exists>w. w \<noteq> [] \<and> map_of (parse_binding a) ''ws'' = Some w
                   \<and> map_of (parse_binding b) ''ws'' = Some w)
         \<or> t = WORKER
             \<and> (\<exists>w. w \<noteq> [] \<and> map_of (parse_binding a) ''worker'' = Some w
                   \<and> map_of (parse_binding b) ''worker'' = Some w)))"
proof -
  have same: "same_binding u v \<longleftrightarrow> (\<exists>w. w \<noteq> [] \<and> u = Some w \<and> v = Some w)" for u v
    by (auto simp: same_binding_def split: option.splits)
  let ?ex = "set (map (\<lambda>e. (te_from e, te_to e)) (edges g))"
  have mem: "(x, y, t) \<in> set (pair_list ?ex a b) \<longleftrightarrow> tn_id a = x \<and> tn_id b = y \<and>
      (t = FILE_WRITE \<and> node_write_sets_overlap a b
       \<or> t = WORKSPACE_WRITE \<and> same_binding (map_of (parse_binding a) ''ws'') (map_of (parse_binding b) ''ws'')
       \<or> t = WORKER \<and> same_binding (map_of (parse_binding a) ''worker'') (map_of (parse_binding b) ''worker''))"
    for a b
    by (auto simp: pair_list_def pair_conflicts_def Let_def)
  have "(x, y, t) \<in> set (cr_conflicts (analyze_conflicts g)) \<longleftrightarrow>
      (\<exists>a b. (a, b) \<in> set (ordered_pairs (nodes g)) \<and> (x, y, t) \<in> set (pair_list ?ex a b))"
    unfolding analyze_conflicts_def scan_pairs_conflicts by auto
  then show ?thesis
    unfolding ordered_pairs_iff mem same node_write_sets_overlap_def by blast
qed

end
