(* ===== verification/Json_Text.thy ===== *)
theory Json_Text
  imports Conductor_Prelude
begin

text \<open>
  The JSON text \<^verbatim>\<open>json.dumps\<close> writes with compact separators and sorted keys, for the values
  the modelled modules hash: strings (with and without \<^verbatim>\<open>ensure_ascii\<close>), integers, booleans,
  lists and objects; and that the text of a string determines the string.
\<close>

section \<open>Printing\<close>

fun py_join :: "string \<Rightarrow> string list \<Rightarrow> string" where
  "py_join sep [] = []"
| "py_join sep [x] = x"
| "py_join sep (x # y # xs) = x @ sep @ py_join sep (y # xs)"

text \<open>\<^verbatim>\<open>json.dumps\<close> of a string with \<^verbatim>\<open>ensure_ascii=False\<close>.\<close>

definition hex_digit :: "nat \<Rightarrow> char" where
  "hex_digit n = (if n < 10 then char_of (48 + n) else char_of (87 + n))"

definition json_char :: "char \<Rightarrow> string" where
  "json_char c = (let n = (of_char c :: nat) in
     if c = CHR 0x22 then [CHR 0x5C, CHR 0x22]
     else if c = CHR 0x5C then [CHR 0x5C, CHR 0x5C]
     else if n = 10 then [CHR 0x5C, CHR ''n'']
     else if n = 13 then [CHR 0x5C, CHR ''r'']
     else if n = 9 then [CHR 0x5C, CHR ''t'']
     else if n = 12 then [CHR 0x5C, CHR ''f'']
     else if n = 8 then [CHR 0x5C, CHR ''b'']
     else if n < 32 then [CHR 0x5C, CHR ''u'', CHR ''0'', CHR ''0'', hex_digit (n div 16), hex_digit (n mod 16)]
     else [c])"

definition json_string :: "string \<Rightarrow> string" where
  "json_string s = [CHR 0x22] @ concat (map json_char s) @ [CHR 0x22]"

text \<open>\<^verbatim>\<open>json.dumps\<close> of an object whose keys are already in sorted order, with compact separators.\<close>

definition json_object :: "(string \<times> string) list \<Rightarrow> string" where
  "json_object kvs = ''{'' @ py_join '','' (map (\<lambda>(k, v). json_string k @ '':'' @ v) kvs) @ ''}''"

text \<open>\<^verbatim>\<open>ensure_ascii=True\<close>: every character outside the printable ASCII range is escaped too.\<close>

definition json_char_ascii :: "char \<Rightarrow> string" where
  "json_char_ascii c = (let n = (of_char c :: nat) in
     if n \<ge> 127 then [CHR 0x5C, CHR ''u'', CHR ''0'', CHR ''0'', hex_digit (n div 16), hex_digit (n mod 16)]
     else json_char c)"

definition json_string_ascii :: "string \<Rightarrow> string" where
  "json_string_ascii s = [CHR 0x22] @ concat (map json_char_ascii s) @ [CHR 0x22]"

fun decimal :: "nat \<Rightarrow> string" where
  "decimal n = (if n < 10 then [hex_digit n] else decimal (n div 10) @ [hex_digit (n mod 10)])"

declare decimal.simps [simp del]

definition json_int :: "int \<Rightarrow> string" where
  "json_int i = (if i < 0 then CHR ''-'' # decimal (nat (- i)) else decimal (nat i))"

definition json_bool :: "bool \<Rightarrow> string" where
  "json_bool b = (if b then ''true'' else ''false'')"

definition json_list :: "string list \<Rightarrow> string" where
  "json_list vs = ''['' @ py_join '','' vs @ '']''"

section \<open>JSON strings are uniquely readable\<close>

text \<open>Reading an escape back: its length follows from its second character.\<close>

definition hex_value :: "char \<Rightarrow> nat" where
  "hex_value c = (let n = of_char c in if n < 58 then n - 48 else n - 87)"

definition unescape :: "string \<Rightarrow> char" where
  "unescape e = (let t = e ! 1 in
     if t = CHR ''u'' then char_of (16 * hex_value (e ! 4) + hex_value (e ! 5))
     else if t = CHR ''n'' then CHR 0x0A else if t = CHR ''r'' then CHR 0x0D else if t = CHR ''t'' then CHR 0x09
     else if t = CHR ''f'' then CHR 0x0C else if t = CHR ''b'' then CHR 0x08 else t)"

lemma hex_value_digit [simp]: "k < 16 \<Longrightarrow> hex_value (hex_digit k) = k"
  by (simp add: hex_value_def hex_digit_def)

locale json_escaping =
  fixes esc :: string and f :: "char \<Rightarrow> string"
  assumes shape: "c \<in> set esc \<Longrightarrow> length (f c) = (if f c ! 1 = CHR ''u'' then 6 else 2)
      \<and> f c ! 0 = CHR 0x5C \<and> unescape (f c) = c"
    and plain: "c \<notin> set esc \<Longrightarrow> f c = [c]"
    and special: "CHR 0x5C \<in> set esc" "CHR 0x22 \<in> set esc"
begin

lemma escaped_inj:
  assumes "c \<in> set esc" "d \<in> set esc" "f c @ u = f d @ v"
  shows "c = d"
proof -
  note c = shape[OF assms(1)] and d = shape[OF assms(2)]
  have len: "1 < length (f c)" "1 < length (f d)" using c d by (auto split: if_splits)
  have "(f c @ u) ! 1 = (f d @ v) ! 1" using assms(3) by simp
  then have "f c ! 1 = f d ! 1" using len by (simp add: nth_append)
  then have "length (f c) = length (f d)" using c d by simp
  then have "f c = f d" using assms(3) by simp
  then show ?thesis using c d by metis
qed

lemma escaped_hd: "c \<in> set esc \<Longrightarrow> hd (f c @ u) = CHR 0x5C \<and> f c \<noteq> []"
proof -
  assume "c \<in> set esc"
  from shape[OF this] have "f c ! 0 = CHR 0x5C" "f c \<noteq> []" by (auto split: if_splits)
  then show ?thesis by (simp add: hd_conv_nth nth_append)
qed

lemma char_inj:
  assumes "f c @ u = f d @ v"
  shows "c = d \<and> u = v"
proof -
  have "c = d"
  proof (cases "c \<in> set esc"; cases "d \<in> set esc")
    assume "c \<in> set esc" "d \<in> set esc"
    then show ?thesis using escaped_inj assms by blast
  next
    assume cd: "c \<in> set esc" "d \<notin> set esc"
    have "hd (f c @ u) = CHR 0x5C" using escaped_hd[OF cd(1)] by blast
    then have "d = CHR 0x5C" using assms plain[OF cd(2)] by simp
    then show ?thesis using cd(2) special by simp
  next
    assume cd: "c \<notin> set esc" "d \<in> set esc"
    have "hd (f d @ v) = CHR 0x5C" using escaped_hd[OF cd(2)] by blast
    then have "c = CHR 0x5C" using assms[symmetric] plain[OF cd(1)] by simp
    then show ?thesis using cd(1) special by simp
  next
    assume "c \<notin> set esc" "d \<notin> set esc"
    then show ?thesis using assms plain by simp
  qed
  then show ?thesis using assms by simp
qed

lemma not_quote: "f c @ u \<noteq> CHR 0x22 # v"
proof
  assume q: "f c @ u = CHR 0x22 # v"
  show False
  proof (cases "c \<in> set esc")
    case True
    then have "hd (f c @ u) = CHR 0x5C" using escaped_hd by blast
    with q show False by simp
  next
    case False
    then show False using plain[OF False] q special by auto
  qed
qed

lemma body_inj:
  "concat (map f a) @ CHR 0x22 # x = concat (map f b) @ CHR 0x22 # y \<Longrightarrow> a = b \<and> x = y"
proof (induction a arbitrary: b)
  case Nil
  then show ?case using not_quote by (cases b) (auto, metis)
next
  case (Cons c a)
  show ?case
  proof (cases b)
    case Nil
    then show ?thesis using Cons.prems not_quote by auto
  next
    case (Cons d b')
    with Cons.prems have "f c @ (concat (map f a) @ CHR 0x22 # x) = f d @ (concat (map f b') @ CHR 0x22 # y)" by simp
    from char_inj[OF this] Cons.IH[of b'] Cons show ?thesis by blast
  qed
qed

end

definition escaped :: "string" where
  "escaped = CHR 0x22 # CHR 0x5C # map char_of [0..<32::nat]"

definition escaped_ascii :: "string" where
  "escaped_ascii = escaped @ map char_of [127..<256::nat]"

lemma escaped_shape:
  "\<forall>c \<in> set escaped. length (json_char c) = (if json_char c ! 1 = CHR ''u'' then 6 else 2)
     \<and> json_char c ! 0 = CHR 0x5C \<and> unescape (json_char c) = c"
  by code_simp

lemma escaped_ascii_shape:
  assumes "c \<in> set escaped_ascii"
  shows "length (json_char_ascii c) = (if json_char_ascii c ! 1 = CHR ''u'' then 6 else 2)
     \<and> json_char_ascii c ! 0 = CHR 0x5C \<and> unescape (json_char_ascii c) = c"
proof (cases "127 \<le> (of_char c :: nat)")
  case True
  define n where "n = (of_char c :: nat)"
  have n: "n < 256" by (simp add: n_def)
  have "unescape (json_char_ascii c) = char_of (16 * (n div 16) + n mod 16)"
    using True n by (simp add: json_char_ascii_def Let_def unescape_def n_def[symmetric] less_mult_imp_div_less)
  then show ?thesis using True by (simp add: json_char_ascii_def Let_def n_def[symmetric]) (simp add: n_def)
next
  case False
  then have "c \<in> set escaped" using assms by (auto simp: escaped_ascii_def)
  then show ?thesis using bspec[OF escaped_shape] False by (simp add: json_char_ascii_def Let_def)
qed

lemma char_in_range:
  assumes "lo \<le> (of_char c :: nat)" and "(of_char c :: nat) < hi"
  shows "c \<in> set (map char_of [lo..<hi])"
  unfolding set_map using assms by (intro image_eqI[of _ _ "of_char c"]) simp_all

lemma json_char_plain: "c \<notin> set escaped \<Longrightarrow> json_char c = [c]"
proof -
  assume e: "c \<notin> set escaped"
  have "\<not> (of_char c < (32::nat))" using e char_in_range[of 0 c 32] by (auto simp: escaped_def)
  then show ?thesis using e by (auto simp: json_char_def Let_def escaped_def)
qed

lemma json_char_ascii_plain: "c \<notin> set escaped_ascii \<Longrightarrow> json_char_ascii c = [c]"
proof -
  assume e: "c \<notin> set escaped_ascii"
  have "(of_char c :: nat) < 256" by simp
  then have "\<not> (of_char c \<ge> (127::nat))" using e char_in_range[of 127 c 256] by (auto simp: escaped_ascii_def)
  then show ?thesis using e json_char_plain by (auto simp: json_char_ascii_def Let_def escaped_ascii_def)
qed

interpretation json_plain: json_escaping escaped json_char
  by unfold_locales (use bspec[OF escaped_shape] json_char_plain in \<open>auto simp: escaped_def\<close>)

interpretation json_ascii: json_escaping escaped_ascii json_char_ascii
  by unfold_locales (use escaped_ascii_shape json_char_ascii_plain in \<open>auto simp: escaped_ascii_def escaped_def\<close>)

lemma json_string_inj: "json_string a @ x = json_string b @ y \<longleftrightarrow> a = b \<and> x = y"
  using json_plain.body_inj[of a x b y] by (auto simp: json_string_def)

lemma json_string_inject [simp]: "json_string a = json_string b \<longleftrightarrow> a = b"
  using json_string_inj[of a "[]" b "[]"] by simp

lemma json_string_ascii_inj: "json_string_ascii a @ x = json_string_ascii b @ y \<longleftrightarrow> a = b \<and> x = y"
  using json_ascii.body_inj[of a x b y] by (auto simp: json_string_ascii_def)

lemma json_string_ascii_inject [simp]: "json_string_ascii a = json_string_ascii b \<longleftrightarrow> a = b"
  using json_string_ascii_inj[of a "[]" b "[]"] by simp

section \<open>Integers and lists are uniquely readable\<close>

lemma hex_value_decimal: "foldl (\<lambda>a c. 10 * a + hex_value c) 0 (decimal n) = n"
proof (induction n rule: decimal.induct)
  case (1 n)
  show ?case
  proof (cases "n < 10")
    case True
    then show ?thesis by (simp add: decimal.simps)
  next
    case False
    then show ?thesis using 1 by (simp add: decimal.simps[of n])
  qed
qed

definition int_char :: "char \<Rightarrow> bool" where
  "int_char c = (c \<in> set ''-0123456789'')"

lemma hex_digit_int_char: "n < 10 \<Longrightarrow> int_char (hex_digit n) \<and> hex_digit n \<noteq> CHR ''-''"
proof -
  assume "n < 10"
  then have "n \<in> set [0..<10]" by simp
  moreover have "list_all (\<lambda>n. int_char (hex_digit n) \<and> hex_digit n \<noteq> CHR ''-'') [0..<10]" by code_simp
  ultimately show ?thesis unfolding list_all_iff by blast
qed

lemma decimal_chars: "list_all (\<lambda>c. int_char c \<and> c \<noteq> CHR ''-'') (decimal n)"
proof (induction n rule: decimal.induct)
  case (1 n)
  then show ?case by (cases "n < 10") (simp_all add: decimal.simps[of n] hex_digit_int_char)
qed

lemma decimal_inj [simp]: "decimal m = decimal n \<longleftrightarrow> m = n"
  using hex_value_decimal by metis

lemma json_int_chars: "list_all int_char (json_int i)"
proof -
  have "list_all int_char (decimal n)" for n using decimal_chars[of n] by (simp add: list_all_iff)
  moreover have "int_char CHR ''-''" by code_simp
  ultimately show ?thesis by (simp add: json_int_def)
qed

lemma decimal_no_sign: "decimal m \<noteq> CHR ''-'' # v"
proof
  assume a: "decimal m = CHR ''-'' # v"
  show False using decimal_chars[of m] unfolding a by simp
qed

lemma json_int_inject [simp]: "json_int i = json_int j \<longleftrightarrow> i = j"
  by (auto simp: json_int_def decimal_no_sign decimal_no_sign[symmetric] eq_nat_nat_iff)

lemma span_inj:
  assumes "list_all P xs" "list_all P ys" "\<not> P c" "\<not> P d" "xs @ c # u = ys @ d # v"
  shows "xs = ys \<and> c # u = d # v"
proof -
  have "takeWhile P (xs @ c # u) = xs" "takeWhile P (ys @ d # v) = ys"
    using assms(1-4) by (simp_all add: list_all_iff takeWhile_append2)
  then show ?thesis using assms(5) by auto
qed

lemma json_int_inj:
  assumes "\<not> int_char c"
  shows "json_int i @ c # u = json_int j @ c # v \<longleftrightarrow> i = j \<and> u = v"
  using span_inj[OF json_int_chars json_int_chars assms assms, of i u j v] by auto

lemma py_join_Cons: "py_join sep (x # xs) = x @ concat (map (\<lambda>y. sep @ y) xs)"
  by (induction sep "x # xs" arbitrary: x xs rule: py_join.induct) simp_all

text \<open>A printer of strings whose output begins with a quote and can be read back.\<close>

locale json_printer =
  fixes pr :: "string \<Rightarrow> string"
  assumes reads: "pr a @ x = pr c @ y \<longleftrightarrow> a = c \<and> x = y"
    and quoted: "hd (pr a) = CHR 0x22" "pr a \<noteq> []"
begin

lemma printed_Cons: "\<exists>r. pr a = CHR 0x22 # r"
  using quoted[of a] by (cases "pr a") auto

lemma tail_inj:
  "concat (map (\<lambda>y. '','' @ pr y) xs) @ CHR '']'' # u = concat (map (\<lambda>y. '','' @ pr y) ys) @ CHR '']'' # v
     \<longleftrightarrow> xs = ys \<and> u = v"
proof (induction xs arbitrary: ys)
  case Nil
  then show ?case by (cases ys) auto
next
  case (Cons x xs)
  then show ?case by (cases ys) (auto simp: reads)
qed

lemma join_inj:
  "py_join '','' (map pr xs) @ CHR '']'' # u = py_join '','' (map pr ys) @ CHR '']'' # v \<longleftrightarrow> xs = ys \<and> u = v"
proof (cases xs)
  case Nil
  then show ?thesis using printed_Cons[of "hd ys"] by (cases ys) (auto simp: py_join_Cons)
next
  case (Cons x xs')
  show ?thesis
  proof (cases ys)
    case Nil
    then show ?thesis using Cons printed_Cons[of x] by (auto simp: py_join_Cons)
  next
    case (Cons y ys')
    then show ?thesis using \<open>xs = x # xs'\<close> tail_inj[of xs' u ys' v] by (auto simp: py_join_Cons reads comp_def)
  qed
qed

lemma list_inj: "json_list (map pr xs) @ u = json_list (map pr ys) @ v \<longleftrightarrow> xs = ys \<and> u = v"
  using join_inj[of xs u ys v] by (simp add: json_list_def)

end

interpretation ascii_printer: json_printer json_string_ascii
  by unfold_locales (simp_all add: json_string_ascii_inj, simp_all add: json_string_ascii_def)

interpretation plain_printer: json_printer json_string
  by unfold_locales (simp_all add: json_string_inj, simp_all add: json_string_def)

end
