(* ===== verification/Ready_Set.thy ===== *)
theory Ready_Set
  imports Glob_Overlap Kahn_Loop Json_Text
begin

text \<open>
  ReadySet computation, \<^verbatim>\<open>src/src/a_conductor/graph/ready.py\<close>: the blockers of every node
  under the current statuses and the set of nodes without a blocker.
\<close>

section \<open>Definitions\<close>

datatype BlockerKind = DEPENDENCY | RESOURCE_BLOCKER | WORKER_BLOCKER | GATE

record Blocker =
  bl_kind :: BlockerKind
  bl_detail :: string

record ReadyCheck =
  rc_node_id :: string
  rc_is_ready :: bool
  rc_blockers :: "Blocker list"

text \<open>The set \<^verbatim>\<open>ready_ids\<close> is kept as the list of its members.\<close>

record ReadySetResult =
  rs_checks :: "ReadyCheck dict"
  rs_ready_ids :: "string list"

type_synonym node_states = "string \<rightharpoonup> TaskNodeStatus"

fun status_value :: "TaskNodeStatus \<Rightarrow> string" where
  "status_value TODO = ''todo''"
| "status_value DOING = ''doing''"
| "status_value DONE = ''done''"
| "status_value TaskNodeStatus.BLOCKED = ''blocked''"
| "status_value SKIPPED = ''skipped''"

definition state_of :: "node_states \<Rightarrow> string \<Rightarrow> TaskNodeStatus" where
  "state_of st i = (case st i of None \<Rightarrow> TODO | Some s \<Rightarrow> s)"

definition kind_value :: "BlockerKind \<Rightarrow> string" where
  "kind_value k = (case k of DEPENDENCY \<Rightarrow> ''dependency'' | RESOURCE_BLOCKER \<Rightarrow> ''resource''
     | WORKER_BLOCKER \<Rightarrow> ''worker'' | GATE \<Rightarrow> ''gate'')"

definition blocker_str :: "Blocker \<Rightarrow> string" where
  "blocker_str b = ''['' @ kind_value (bl_kind b) @ ''] '' @ bl_detail b"

definition check_reason :: "ReadyCheck \<Rightarrow> string" where
  "check_reason c =
     (if rc_is_ready c then ''ready'' else py_join ''; '' (map blocker_str (rc_blockers c)))"

definition blocked_count :: "ReadySetResult \<Rightarrow> nat" where
  "blocked_count r = length (filter (\<lambda>(_, c). \<not> rc_is_ready c) (rs_checks r))"

definition running_write_sets :: "TaskGraph \<Rightarrow> node_states \<Rightarrow> string list dict" where
  "running_write_sets g st =
     fold (\<lambda>n d. if state_of st (tn_id n) = DOING \<and> tn_write_set n \<noteq> []
                 then AList.update (tn_id n) (tn_write_set n) d else d) (nodes g) []"

definition gate_blockers :: "TaskNodeStatus \<Rightarrow> Blocker list" where
  "gate_blockers s =
     (if s \<noteq> TODO
      then [\<lparr>bl_kind = GATE, bl_detail = ''status is '' @ status_value s @ '', not todo''\<rparr>]
      else [])"

definition dependency_blockers :: "TaskGraph \<Rightarrow> node_states \<Rightarrow> string \<Rightarrow> Blocker list" where
  "dependency_blockers g st i =
     concat (map (\<lambda>e. let p = state_of st (te_from e) in
        if p \<noteq> DONE \<and> p \<noteq> SKIPPED
        then [\<lparr>bl_kind = DEPENDENCY, bl_detail =
                 ''waiting for '' @ te_from e @ '' (status: '' @ status_value p @ '')''\<rparr>]
        else []) (edges_to g i))"

definition resource_blockers :: "string list dict \<Rightarrow> TaskNode \<Rightarrow> Blocker list" where
  "resource_blockers running n =
     (if tn_write_set n = [] then []
      else concat (map (\<lambda>(running_id, running_ws).
             if running_id \<noteq> tn_id n \<and> write_sets_overlap (tn_write_set n) running_ws
             then [\<lparr>bl_kind = RESOURCE_BLOCKER,
                    bl_detail = ''write conflict with running node '' @ running_id\<rparr>]
             else []) running))"

definition node_blockers :: "TaskGraph \<Rightarrow> node_states \<Rightarrow> TaskNode \<Rightarrow> Blocker list" where
  "node_blockers g st n =
     gate_blockers (state_of st (tn_id n))
     @ dependency_blockers g st (tn_id n)
     @ resource_blockers (running_write_sets g st) n"

definition ready_step ::
  "TaskGraph \<Rightarrow> node_states \<Rightarrow> TaskNode \<Rightarrow> ReadySetResult \<Rightarrow> ReadySetResult" where
  "ready_step g st n r =
     (let bs = node_blockers g st n;
          ok = (length bs = 0);
          c = \<lparr>rc_node_id = tn_id n, rc_is_ready = ok, rc_blockers = bs\<rparr>
      in \<lparr>rs_checks = AList.update (tn_id n) c (rs_checks r),
          rs_ready_ids = (if ok then List.insert (tn_id n) (rs_ready_ids r) else rs_ready_ids r)\<rparr>)"

definition compute_ready_set :: "TaskGraph \<Rightarrow> node_states \<Rightarrow> ReadySetResult" where
  "compute_ready_set g st = fold (ready_step g st) (nodes g) \<lparr>rs_checks = [], rs_ready_ids = []\<rparr>"

section \<open>What blocks a node\<close>

lemma running_write_sets_fold:
  assumes "distinct (map tn_id ns)" and "fst ` set d \<inter> tn_id ` set ns = {}"
  shows "fold (\<lambda>n d. if P n then AList.update (tn_id n) (tn_write_set n) d else d) ns d
    = d @ map (\<lambda>n. (tn_id n, tn_write_set n)) (filter P ns)"
  using assms
proof (induction ns arbitrary: d)
  case Nil
  then show ?case by simp
next
  case (Cons n ns)
  then show ?case by (cases "P n") (auto simp: update_new)
qed

lemma running_write_sets_eq:
  "wf_graph g \<Longrightarrow> running_write_sets g st =
     map (\<lambda>n. (tn_id n, tn_write_set n))
       (filter (\<lambda>n. state_of st (tn_id n) = DOING \<and> tn_write_set n \<noteq> []) (nodes g))"
  unfolding running_write_sets_def
  using wf_nodes_id[of g] by (subst running_write_sets_fold) (auto simp: wf_graph_def)

lemma gate_blockers_Nil: "gate_blockers s = [] \<longleftrightarrow> s = TODO"
  by (simp add: gate_blockers_def)

lemma dependency_blockers_Nil:
  "dependency_blockers g st i = [] \<longleftrightarrow> (\<forall>u. (u, i) \<in> edge_rel g \<longrightarrow> state_of st u \<in> {DONE, SKIPPED})"
  by (auto simp: dependency_blockers_def edge_rel_iff edges_to_def Let_def split: if_splits)

lemma resource_blockers_Nil:
  assumes "wf_graph g"
  shows "resource_blockers (running_write_sets g st) n = [] \<longleftrightarrow>
     (\<forall>m \<in> set (nodes g). state_of st (tn_id m) = DOING \<longrightarrow> tn_id m \<noteq> tn_id n \<longrightarrow>
        \<not> write_sets_overlap (tn_write_set n) (tn_write_set m))"
proof -
  have e1: "\<not> write_sets_overlap [] ws" and e2: "\<not> write_sets_overlap ws []" for ws
    by (simp_all add: write_sets_overlap_iff)
  show ?thesis
  proof (cases "tn_write_set n = []")
    case True
    then show ?thesis by (simp add: resource_blockers_def e1)
  next
    case False
    have "resource_blockers (running_write_sets g st) n = [] \<longleftrightarrow>
      (\<forall>(i, w) \<in> set (running_write_sets g st). \<not> (i \<noteq> tn_id n \<and> write_sets_overlap (tn_write_set n) w))"
      using False by (auto simp: resource_blockers_def split: if_splits)
    also have "\<dots> \<longleftrightarrow> (\<forall>m \<in> set (nodes g). state_of st (tn_id m) = DOING \<and> tn_write_set m \<noteq> [] \<longrightarrow>
      \<not> (tn_id m \<noteq> tn_id n \<and> write_sets_overlap (tn_write_set n) (tn_write_set m)))"
      unfolding running_write_sets_eq[OF assms] by auto
    also have "\<dots> \<longleftrightarrow> (\<forall>m \<in> set (nodes g). state_of st (tn_id m) = DOING \<longrightarrow> tn_id m \<noteq> tn_id n \<longrightarrow>
        \<not> write_sets_overlap (tn_write_set n) (tn_write_set m))"
      by (metis e2)
    finally show ?thesis .
  qed
qed

definition node_ready :: "TaskGraph \<Rightarrow> node_states \<Rightarrow> TaskNode \<Rightarrow> bool" where
  "node_ready g st n \<longleftrightarrow>
     state_of st (tn_id n) = TODO
     \<and> (\<forall>u. (u, tn_id n) \<in> edge_rel g \<longrightarrow> state_of st u \<in> {DONE, SKIPPED})
     \<and> (\<forall>m \<in> set (nodes g). state_of st (tn_id m) = DOING \<longrightarrow>
          \<not> write_sets_overlap (tn_write_set n) (tn_write_set m))"

lemma node_blockers_Nil:
  assumes "wf_graph g"
  shows "node_blockers g st n = [] \<longleftrightarrow> node_ready g st n"
  unfolding node_blockers_def node_ready_def append_is_Nil_conv gate_blockers_Nil
    dependency_blockers_Nil resource_blockers_Nil[OF assms]
  by auto

lemma ready_fold:
  assumes "distinct (map tn_id ns)"
    and "fst ` set (rs_checks r) \<inter> tn_id ` set ns = {}" and "set (rs_ready_ids r) \<inter> tn_id ` set ns = {}"
  shows "fold (ready_step g st) ns r =
    \<lparr>rs_checks = rs_checks r @ map (\<lambda>n. (tn_id n, \<lparr>rc_node_id = tn_id n,
        rc_is_ready = (node_blockers g st n = []), rc_blockers = node_blockers g st n\<rparr>)) ns,
     rs_ready_ids = rev (map tn_id (filter (\<lambda>n. node_blockers g st n = []) ns)) @ rs_ready_ids r\<rparr>"
  using assms
proof (induction ns arbitrary: r)
  case Nil
  then show ?case by simp
next
  case (Cons n ns)
  have step: "ready_step g st n r =
    \<lparr>rs_checks = rs_checks r @ [(tn_id n, \<lparr>rc_node_id = tn_id n,
        rc_is_ready = (node_blockers g st n = []), rc_blockers = node_blockers g st n\<rparr>)],
     rs_ready_ids = (if node_blockers g st n = [] then tn_id n # rs_ready_ids r else rs_ready_ids r)\<rparr>"
    using Cons.prems by (auto simp: ready_step_def Let_def update_new List.insert_def)
  show ?case unfolding fold_simps step using Cons.prems by (subst Cons.IH) auto
qed

lemma compute_ready_set_eq:
  assumes "wf_graph g"
  shows "compute_ready_set g st =
    \<lparr>rs_checks = map (\<lambda>n. (tn_id n, \<lparr>rc_node_id = tn_id n,
        rc_is_ready = (node_blockers g st n = []), rc_blockers = node_blockers g st n\<rparr>)) (nodes g),
     rs_ready_ids = rev (map tn_id (filter (\<lambda>n. node_blockers g st n = []) (nodes g)))\<rparr>"
  unfolding compute_ready_set_def
  using wf_nodes_id[OF assms] assms by (subst ready_fold) (auto simp: wf_graph_def)

lemma ready_ids_iff:
  assumes "wf_graph g"
  shows "i \<in> set (rs_ready_ids (compute_ready_set g st)) \<longleftrightarrow>
    (\<exists>n. node g i = Some n \<and> node_ready g st n)"
  unfolding compute_ready_set_eq[OF assms] wf_node_Some_iff[OF assms] node_blockers_Nil[OF assms]
  by auto

lemma ready_ids_distinct: "wf_graph g \<Longrightarrow> distinct (rs_ready_ids (compute_ready_set g st))"
  using wf_nodes_id[of g] unfolding compute_ready_set_eq
  by (simp add: wf_graph_def distinct_map_filter)

section \<open>Properties\<close>

text \<open>
  C32: a node is in the ready set exactly when it is in the graph, its status is todo, all
  its predecessors are done or skipped, and its write set overlaps the write set of no
  running node.
\<close>

theorem compute_ready_set_exact:
  assumes "wf_graph g"
  shows "i \<in> set (rs_ready_ids (compute_ready_set g st)) \<longleftrightarrow>
    (\<exists>n. node g i = Some n \<and> state_of st i = TODO
       \<and> (\<forall>u. (u, i) \<in> edge_rel g \<longrightarrow> state_of st u \<in> {DONE, SKIPPED})
       \<and> (\<forall>m \<in> set (nodes g). state_of st (tn_id m) = DOING \<longrightarrow>
            \<not> write_sets_overlap (tn_write_set n) (tn_write_set m)))"
proof -
  have "tn_id n = i" if "node g i = Some n" for n
    using that wf_node_Some_iff[OF assms] by simp
  then show ?thesis unfolding ready_ids_iff[OF assms] node_ready_def by (metis (no_types, lifting))
qed

definition pair_graph :: TaskGraph where
  "pair_graph = \<lparr>tg_nodes = [(''a'', task_node ''a'' ''o''), (''b'', task_node ''b'' ''o'')],
     tg_edges = [\<lparr>te_from = ''a'', te_to = ''b'', te_type = DATA\<rparr>],
     tg_edge_keys = {(''a'', ''b'', DATA)}\<rparr>"

lemma pair_graph_wf: "wf_graph pair_graph"
  by (simp add: wf_graph_def pair_graph_def node_ids_def edge_key_def task_node_def)

lemma pair_graph_acyclic: "acyclic (edge_rel pair_graph)"
  by (rule acyclic_if_ordered[where P = "[''a'', ''b'']"])
     (auto simp: edge_rel_iff pair_graph_def Cons_eq_append_conv)

theorem compute_ready_set_exact_witness:
  "wf_graph pair_graph \<and> ''a'' \<in> set (rs_ready_ids (compute_ready_set pair_graph Map.empty))
   \<and> ''b'' \<notin> set (rs_ready_ids (compute_ready_set pair_graph Map.empty))"
  using compute_ready_set_exact[OF pair_graph_wf, of "''a''" Map.empty]
    compute_ready_set_exact[OF pair_graph_wf, of "''b''" Map.empty] pair_graph_wf
  by (auto simp: node_def nodes_def pair_graph_def state_of_def edge_rel_iff)

text \<open>
  The report covers every node exactly once, in graph order; a node is ready
  precisely when its list of blockers is empty, and the ready nodes and the blocked
  count add up to the number of nodes.
\<close>

theorem ready_checks_cover:
  assumes "wf_graph g"
  shows "map fst (rs_checks (compute_ready_set g st)) = node_ids g
    \<and> (\<forall>i c. (i, c) \<in> set (rs_checks (compute_ready_set g st)) \<longrightarrow>
         rc_node_id c = i \<and> (rc_is_ready c \<longleftrightarrow> rc_blockers c = [])
         \<and> (rc_is_ready c \<longleftrightarrow> i \<in> set (rs_ready_ids (compute_ready_set g st))))
    \<and> length (rs_ready_ids (compute_ready_set g st)) + blocked_count (compute_ready_set g st)
        = length (node_ids g)"
proof -
  let ?P = "\<lambda>n. node_blockers g st n = []"
  have len: "length (filter ?P ns) + length (filter (\<lambda>n. \<not> ?P n) ns) = length ns" for ns
    by (rule sum_length_filter_compl)
  have "\<forall>n \<in> set (nodes g). tn_id n \<in> tn_id ` {n \<in> set (nodes g). ?P n} \<longleftrightarrow> ?P n"
    using wf_nodes_inj[OF assms] by (auto dest: inj_onD)
  moreover have "length (node_ids g) = length (nodes g)" by (simp add: node_ids_def nodes_def)
  ultimately show ?thesis
    using wf_nodes_id[OF assms] len[of "nodes g"]
    unfolding compute_ready_set_eq[OF assms] blocked_count_def
    by (auto simp: comp_def filter_map)
qed

theorem ready_checks_cover_witness:
  "wf_graph pair_graph \<and> map fst (rs_checks (compute_ready_set pair_graph Map.empty)) = [''a'', ''b'']"
  using ready_checks_cover[OF pair_graph_wf, of Map.empty] pair_graph_wf
  by (simp add: node_ids_def pair_graph_def)



end
