(* ===== verification/Dag_Engine.thy ===== *)
theory Dag_Engine
  imports Kahn_Loop
begin

text \<open>
  The DAG engine, \<^verbatim>\<open>src/src/a_conductor/graph/dag.py\<close>: the topological sort with its
  ready levels and cycle naming.
\<close>

section \<open>Definitions\<close>

record DagResult =
  dr_order :: "string list"
  dr_levels :: "string list list option"
  dr_cycle :: "string list option"

text \<open>
  The body of the outer loop: pop every node of the current level, append it to the
  order, discard it from \<open>remaining\<close> and collect the nodes it releases.
\<close>

fun level_step ::
  "TaskEdge list \<Rightarrow> string list \<Rightarrow> (string \<Rightarrow> int) \<times> string list \<times> string list \<times> string list
     \<Rightarrow> (string \<Rightarrow> int) \<times> string list \<times> string list \<times> string list" where
  "level_step es [] st = st"
| "level_step es (current # queue) (d, next_queue, order, remaining) =
     (case relax (adjacency es current) (d, next_queue) of
        (d', next_queue') \<Rightarrow>
          level_step es queue (d', next_queue', order @ [current], removeAll current remaining))"

lemma level_step_measure:
  assumes "level_step es q (d, nq, ord, rem) = (d', nq', ord', rem')"
  shows "card {v \<in> te_to ` set es. d' v > 0} + length nq'
           \<le> card {v \<in> te_to ` set es. d v > 0} + length nq"
  using assms
proof (induction q arbitrary: d nq ord rem)
  case Nil
  then show ?case by simp
next
  case (Cons u q)
  obtain d1 nq1 where r: "relax (adjacency es u) (d, nq) = (d1, nq1)" by fastforce
  have "set (adjacency es u) \<subseteq> te_to ` set es" by (auto simp: set_adjacency)
  from relax_measure[OF _ this r]
  have "card {v \<in> te_to ` set es. d1 v > 0} + length nq1 \<le> card {v \<in> te_to ` set es. d v > 0} + length nq"
    by simp
  with Cons r show ?case by fastforce
qed

function dag_loop ::
  "TaskEdge list \<Rightarrow> (string \<Rightarrow> int) \<Rightarrow> string list \<Rightarrow> string list \<Rightarrow> string list list \<Rightarrow> string list
     \<Rightarrow> string list \<times> string list list \<times> string list" where
  "dag_loop es d queue order levels remaining =
     (if queue = [] then (order, levels, remaining)
      else case level_step es queue (d, [], order, remaining) of
        (d', next_queue, order', remaining') \<Rightarrow>
          dag_loop es d' next_queue order' (levels @ [sort queue]) remaining')"
  by pat_completeness auto
termination
proof (relation "measure (\<lambda>(es, d, q, _). card {v \<in> te_to ` set es. d v > 0} + length q)", goal_cases)
  case 1
  show ?case by simp
next
  case (2 es d q ord ls rem d' y nq ya ord' rem')
  then have "level_step es q (d, [], ord, rem) = (d', nq, ord', rem')" by simp
  from level_step_measure[OF this] 2(1) show ?case by (cases q) auto
qed

declare dag_loop.simps [simp del]

text \<open>
  \<^verbatim>\<open>_reconstruct_cycle\<close>: the walk over the remaining subgraph, with \<^verbatim>\<open>current = None\<close>
  where a node has no remaining neighbour. Its caller guards that \<open>remaining\<close> is not empty,
  so \<^verbatim>\<open>sorted(remaining)[0]\<close> exists. The set \<open>remaining\<close> is kept as the list of its members.
\<close>

function walk_remaining ::
  "string list \<Rightarrow> (string \<Rightarrow> string list) \<Rightarrow> string list \<Rightarrow> string option \<Rightarrow> string list \<times> string option" where
  "walk_remaining remaining adj path None = (path, None)"
| "walk_remaining remaining adj path (Some current) =
     (if current \<in> set path then (path, Some current)
      else walk_remaining remaining adj (path @ [current])
        (case (if current \<in> set remaining then filter (\<lambda>t. t \<in> set remaining) (adj current) else []) of
           [] \<Rightarrow> None | t # _ \<Rightarrow> Some t))"
  by pat_completeness auto
termination
proof (relation "measure (\<lambda>(rem, adj, path, cur). card (set rem - set path) + (if cur = None then 0 else 1))",
    goal_cases)
  case 1
  show ?case by simp
next
  case (2 rem adj path cur)
  then have cur: "cur \<notin> set path" by auto
  show ?case
  proof (cases "cur \<in> set rem")
    case True
    with cur have "set rem - set (path @ [cur]) \<subset> set rem - set path" by auto
    from psubset_card_mono[OF _ this] True show ?thesis by (auto split: list.splits)
  next
    case False
    then have "set rem - set (path @ [cur]) = set rem - set path" by auto
    with False show ?thesis by simp
  qed
qed

definition reconstruct_cycle :: "string list \<Rightarrow> (string \<Rightarrow> string list) \<Rightarrow> string list" where
  "reconstruct_cycle remaining adj =
     (case sort remaining of
        [] \<Rightarrow> []
      | start # _ \<Rightarrow>
          (case walk_remaining remaining adj [] (Some start) of
             (path, Some current) \<Rightarrow> dropWhile (\<lambda>x. x \<noteq> current) path @ [current]
           | (path, None) \<Rightarrow>
               (case path of [] \<Rightarrow> remaining | p # _ \<Rightarrow> path @ [p])))"

definition topological_sort :: "TaskGraph \<Rightarrow> DagResult" where
  "topological_sort g =
     (let ns = node_ids g in
      if ns = [] then \<lparr>dr_order = [], dr_levels = Some [], dr_cycle = None\<rparr>
      else
        let queue = sort (filter (\<lambda>n. indegree (edges g) n = 0) ns) in
        case dag_loop (edges g) (indegree (edges g)) queue [] [] ns of
          (order, levels, remaining) \<Rightarrow>
            if remaining \<noteq> []
            then \<lparr>dr_order = [], dr_levels = None,
                  dr_cycle = Some (reconstruct_cycle remaining (adjacency (edges g)))\<rparr>
            else \<lparr>dr_order = order, dr_levels = Some levels, dr_cycle = None\<rparr>)"

datatype dag_error = CyclicGraph "string list"

definition compute_ready_levels :: "TaskGraph \<Rightarrow> dag_error + string list list" where
  "compute_ready_levels g =
     (let result = topological_sort g in
      case dr_cycle result of
        Some c \<Rightarrow> Inl (CyclicGraph c)
      | None \<Rightarrow> Inr (case dr_levels result of None \<Rightarrow> [] | Some ls \<Rightarrow> ls))"

definition validate_acyclic :: "TaskGraph \<Rightarrow> string list option" where
  "validate_acyclic g = dr_cycle (topological_sort g)"

section \<open>The loop keeps Kahn's invariant\<close>

lemma level_step_inv:
  assumes "kahn_inv es N P d (q @ nq)" and "\<And>e. e \<in> set es \<Longrightarrow> te_to e \<in> N"
    and "level_step es q (d, nq, P, rem) = (d', nq', ord', rem')"
  shows "kahn_inv es N ord' d' nq' \<and> ord' = P @ q \<and> set rem' = set rem - set q"
  using assms(1,3)
proof (induction q arbitrary: d nq P rem)
  case Nil
  then show ?case by simp
next
  case (Cons u q)
  obtain d1 nq1 where r: "relax (adjacency es u) (d, nq) = (d1, nq1)" by fastforce
  have r': "relax (adjacency es u) (d, q @ nq) = (d1, q @ nq1)" by (simp add: relax_prefix r)
  have "kahn_inv es N (P @ [u]) d1 (q @ nq1)"
    using Cons.prems(1) by (intro kahn_inv_step[OF _ r' assms(2)]) simp_all
  from Cons.IH[OF this] Cons.prems(2) r show ?case by auto
qed

text \<open>
  The waves: level \<open>k\<close> holds exactly the nodes outside the earlier levels all of whose
  predecessors lie in earlier levels.
\<close>

definition wave :: "TaskEdge list \<Rightarrow> string set \<Rightarrow> string set \<Rightarrow> string set" where
  "wave es N done = {v \<in> N. v \<notin> done \<and> (\<forall>e \<in> set es. te_to e = v \<longrightarrow> te_from e \<in> done)}"

definition waves_ok :: "TaskEdge list \<Rightarrow> string set \<Rightarrow> string list list \<Rightarrow> bool" where
  "waves_ok es N ls \<longleftrightarrow> (\<forall>k < length ls. sorted (ls ! k) \<and> distinct (ls ! k) \<and> ls ! k \<noteq> [] \<and>
     set (ls ! k) = wave es N (set (concat (take k ls))))"

lemma waves_ok_snoc:
  "waves_ok es N (ls @ [l]) \<longleftrightarrow> waves_ok es N ls \<and> sorted l \<and> distinct l \<and> l \<noteq> []
     \<and> set l = wave es N (set (concat ls))"
  unfolding waves_ok_def by (auto simp: nth_append less_Suc_eq)

lemma kahn_queue_is_wave:
  assumes "kahn_inv es N P d q"
  shows "set q = wave es N (set P)"
proof -
  have "v \<in> set q \<longleftrightarrow> v \<in> wave es N (set P)" for v
  proof
    assume v: "v \<in> set q"
    then have "v \<in> N" "v \<notin> set P" using kahn_invD(1,2)[OF assms] by auto
    moreover from this v have "d v = 0" using kahn_invD(4)[OF assms] by simp
    ultimately show "v \<in> wave es N (set P)" using kahn_zero_preds[OF assms] by (auto simp: wave_def)
  next
    assume v: "v \<in> wave es N (set P)"
    then have "filter (\<lambda>e. te_to e = v \<and> te_from e \<notin> set P) es = []"
      unfolding wave_def filter_empty_conv by blast
    then have "d v = 0" using kahn_invD(3)[OF assms, of v] by simp
    then show "v \<in> set q" using v kahn_invD(4)[OF assms, of v] by (simp add: wave_def)
  qed
  then show ?thesis by blast
qed

lemma dag_loop_inv:
  assumes "kahn_inv es N P d q" and "\<And>e. e \<in> set es \<Longrightarrow> te_to e \<in> N"
    and "waves_ok es N ls" and "set (concat ls) = set P" and "set rem = N - set P"
    and "dag_loop es d q P ls rem = (ord', ls', rem')"
  shows "\<exists>d'. kahn_inv es N ord' d' [] \<and> waves_ok es N ls' \<and> set (concat ls') = set ord'
           \<and> set rem' = N - set ord'"
  using assms
proof (induction es d q P ls rem rule: dag_loop.induct)
  case (1 es d q P ls rem)
  show ?case
  proof (cases "q = []")
    case True
    with 1(2-7) show ?thesis by (auto simp: dag_loop.simps)
  next
    case False
    obtain d1 nq ord1 rem1 where st: "level_step es q (d, [], P, rem) = (d1, nq, ord1, rem1)"
      by (metis prod_cases4)
    have step: "kahn_inv es N ord1 d1 nq" "ord1 = P @ q" "set rem1 = set rem - set q"
      using level_step_inv[of es N P d q "[]", OF _ 1(3) st] 1(2) by auto
    have waves: "waves_ok es N (ls @ [sort q])"
      using 1(2,4,5) False kahn_queue_is_wave[OF 1(2)] kahn_invD(1)[OF 1(2)]
      by (simp add: waves_ok_snoc) (metis length_0_conv length_sort)
    have loop: "dag_loop es d q P ls rem = dag_loop es d1 nq ord1 (ls @ [sort q]) rem1"
      using False st by (subst dag_loop.simps) simp
    show ?thesis
      by (rule 1(1)[OF False st[symmetric] refl refl step(1) 1(3) waves])
         (use 1(5,6,7) step loop in auto)
  qed
qed

lemma topological_sort_kahn:
  assumes wf: "wf_graph g" and ne: "node_ids g \<noteq> []"
  obtains P d ls rem where
    "dag_loop (edges g) (indegree (edges g))
       (sort (filter (\<lambda>n. indegree (edges g) n = 0) (node_ids g))) [] [] (node_ids g) = (P, ls, rem)"
    and "kahn_inv (edges g) (set (node_ids g)) P d []" and "waves_ok (edges g) (set (node_ids g)) ls"
    and "set (concat ls) = set P" and "set rem = set (node_ids g) - set P"
proof -
  let ?q = "sort (filter (\<lambda>n. indegree (edges g) n = 0) (node_ids g))"
  obtain P ls rem where loop:
    "dag_loop (edges g) (indegree (edges g)) ?q [] [] (node_ids g) = (P, ls, rem)"
    by (metis prod_cases3)
  have inv: "kahn_inv (edges g) (set (node_ids g)) [] (indegree (edges g)) ?q"
    using wf by (intro kahn_inv_init) (auto simp: wf_graph_def)
  have to: "\<And>e. e \<in> set (edges g) \<Longrightarrow> te_to e \<in> set (node_ids g)"
    using wf by (simp add: wf_graph_def edges_def)
  from dag_loop_inv[OF inv to _ _ _ loop] that[OF loop] show thesis
    by (auto simp: waves_ok_def)
qed

lemma waves_ok_distinct: "waves_ok es N ls \<Longrightarrow> distinct (concat ls)"
proof (induction ls rule: rev_induct)
  case Nil
  then show ?case by simp
next
  case (snoc l ls)
  then show ?case by (auto simp: waves_ok_snoc wave_def)
qed

section \<open>The reconstructed path\<close>

lemma walk_remaining_spec:
  assumes "\<And>n t. n \<in> set rem \<Longrightarrow> t \<in> set (adj n) \<Longrightarrow> t \<in> set rem \<Longrightarrow> (n, t) \<in> r"
    and "chain r path" and "set path \<subseteq> set rem"
    and "\<And>c. cur = Some c \<Longrightarrow> c \<in> set rem \<and> (path \<noteq> [] \<longrightarrow> (last path, c) \<in> r)"
    and "walk_remaining rem adj path cur = (path', cur')"
  shows "chain r path' \<and> set path' \<subseteq> set rem
    \<and> (\<forall>c. cur' = Some c \<longrightarrow> c \<in> set path' \<and> (last path', c) \<in> r)
    \<and> (cur' = None \<longrightarrow> path' = path \<or> path' \<noteq> [])"
  using assms
proof (induction rem adj path cur rule: walk_remaining.induct)
  case (1 rem adj path)
  then show ?case by auto
next
  case (2 rem adj path cur)
  show ?case
  proof (cases "cur \<in> set path")
    case True
    then have "path \<noteq> []" by auto
    with True 2(2-) show ?thesis by auto
  next
    case False
    let ?nb = "if cur \<in> set rem then filter (\<lambda>t. t \<in> set rem) (adj cur) else []"
    let ?next = "case ?nb of [] \<Rightarrow> None | t # _ \<Rightarrow> Some t"
    have cur: "cur \<in> set rem" using 2(5) by simp
    have step: "walk_remaining rem adj (path @ [cur]) ?next = (path', cur')"
      using 2(6) False by simp
    have nxt: "t \<in> set rem \<and> (path @ [cur] \<noteq> [] \<longrightarrow> (last (path @ [cur]), t) \<in> r)"
      if "?next = Some t" for t
    proof -
      have "t \<in> set (adj cur) \<and> t \<in> set rem"
        by (rule first_filter) (use that cur in simp)
      with 2(2)[OF cur] show ?thesis by simp
    qed
    have path: "chain r (path @ [cur])" "set (path @ [cur]) \<subseteq> set rem"
      using 2(3,4,5) by (auto simp: chain_append)
    have IH: "chain r path' \<and> set path' \<subseteq> set rem
      \<and> (\<forall>c. cur' = Some c \<longrightarrow> c \<in> set path' \<and> (last path', c) \<in> r)
      \<and> (cur' = None \<longrightarrow> path' = path @ [cur] \<or> path' \<noteq> [])"
      by (rule 2(1)[OF False 2(2) path nxt step])
    then show ?thesis by auto
  qed
qed

lemma reconstruct_cycle_spec:
  assumes r: "\<And>n t. n \<in> set rem \<Longrightarrow> t \<in> set (adj n) \<Longrightarrow> t \<in> set rem \<Longrightarrow> (n, t) \<in> r" and ne: "rem \<noteq> []"
  shows "closed_walk r (reconstruct_cycle rem adj) \<or>
    (\<exists>path. path \<noteq> [] \<and> chain r path \<and> set path \<subseteq> set rem
       \<and> reconstruct_cycle rem adj = path @ [hd path])"
proof -
  from ne obtain start rest where start: "sort rem = start # rest"
    by (cases "sort rem") (metis length_0_conv length_sort, blast)
  then have in_rem: "start \<in> set rem" by (metis list.set_intros(1) set_sort)
  obtain path cur where w: "walk_remaining rem adj [] (Some start) = (path, cur)" by fastforce
  have spec: "chain r path \<and> set path \<subseteq> set rem
      \<and> (\<forall>c. cur = Some c \<longrightarrow> c \<in> set path \<and> (last path, c) \<in> r) \<and> (cur = None \<longrightarrow> path \<noteq> [])"
  proof -
    have "walk_remaining rem adj [start]
        (case filter (\<lambda>t. t \<in> set rem) (adj start) of [] \<Rightarrow> None | t # _ \<Rightarrow> Some t) = (path, cur)"
      using w in_rem by simp
    moreover have "c \<in> set rem \<and> ([start] \<noteq> [] \<longrightarrow> (last [start], c) \<in> r)"
      if "(case filter (\<lambda>t. t \<in> set rem) (adj start) of [] \<Rightarrow> None | t # _ \<Rightarrow> Some t) = Some c" for c
      using first_filter[OF that] r[OF in_rem] by simp
    moreover have "chain r [start]" "set [start] \<subseteq> set rem" using in_rem by auto
    ultimately have "chain r path \<and> set path \<subseteq> set rem
      \<and> (\<forall>c. cur = Some c \<longrightarrow> c \<in> set path \<and> (last path, c) \<in> r)
      \<and> (cur = None \<longrightarrow> path = [start] \<or> path \<noteq> [])"
      by (intro walk_remaining_spec[OF r])
    then show ?thesis by auto
  qed
  show ?thesis
  proof (cases cur)
    case None
    with spec have "path \<noteq> []" by simp
    then have "reconstruct_cycle rem adj = path @ [hd path]"
      using start w None by (cases path) (auto simp: reconstruct_cycle_def)
    with spec \<open>path \<noteq> []\<close> show ?thesis by blast
  next
    case (Some c)
    then obtain ys where dw: "dropWhile (\<lambda>x. x \<noteq> c) path = c # ys" using spec by (metis dropWhile_neq_hd)
    have eq: "reconstruct_cycle rem adj = dropWhile (\<lambda>x. x \<noteq> c) path @ [c]"
      using start w Some by (simp add: reconstruct_cycle_def)
    have "last (dropWhile (\<lambda>x. x \<noteq> c) path) = last path" by (metis dw last_dropWhile list.distinct(1))
    then have "chain r (dropWhile (\<lambda>x. x \<noteq> c) path @ [c])"
      using spec Some by (simp add: chain_append chain_dropWhile)
    then show ?thesis using eq dw by (simp add: closed_walk_def)
  qed
qed

section \<open>The sort as a whole\<close>

lemma topological_sort_acyclic:
  assumes wf: "wf_graph g" and ac: "acyclic (edge_rel g)"
  obtains ord ls d where "topological_sort g = \<lparr>dr_order = ord, dr_levels = Some ls, dr_cycle = None\<rparr>"
    and "kahn_inv (edges g) (set (node_ids g)) ord d []" and "set ord = set (node_ids g)"
    and "waves_ok (edges g) (set (node_ids g)) ls" and "set (concat ls) = set (node_ids g)"
proof (cases "node_ids g = []")
  case True
  have "kahn_inv (edges g) (set (node_ids g)) [] (indegree (edges g)) []"
    using True by (intro kahn_inv_init) auto
  with that[of "[]" "[]" "indegree (edges g)"] True show thesis
    by (simp add: topological_sort_def waves_ok_def)
next
  case False
  obtain P d ls rem where k: "dag_loop (edges g) (indegree (edges g))
       (sort (filter (\<lambda>n. indegree (edges g) n = 0) (node_ids g))) [] [] (node_ids g) = (P, ls, rem)"
    "kahn_inv (edges g) (set (node_ids g)) P d []" "waves_ok (edges g) (set (node_ids g)) ls"
    "set (concat ls) = set P" "set rem = set (node_ids g) - set P"
    by (rule topological_sort_kahn[OF wf False])
  have all: "set P = set (node_ids g)" using kahn_done_acyclic_iff[OF k(2) wf] ac by simp
  with k(5) have "rem = []" by simp
  with k(1) False have "topological_sort g = \<lparr>dr_order = P, dr_levels = Some ls, dr_cycle = None\<rparr>"
    by (simp add: topological_sort_def Let_def)
  with that k all show thesis by metis
qed

lemma topological_sort_cyclic:
  assumes wf: "wf_graph g" and cyc: "\<not> acyclic (edge_rel g)"
  shows "\<exists>c. topological_sort g = \<lparr>dr_order = [], dr_levels = None, dr_cycle = Some c\<rparr> \<and>
    (closed_walk (edge_rel g) c \<or>
     (\<exists>path m. path \<noteq> [] \<and> c = path @ [hd path] \<and> chain (edge_rel g) path
        \<and> (m, m) \<in> (edge_rel g)\<^sup>+ \<and> (m, hd path) \<in> (edge_rel g)\<^sup>+))"
proof -
  have ne: "node_ids g \<noteq> []"
  proof
    assume "node_ids g = []"
    then have "edge_rel g = {}" using edge_rel_fields(1)[OF wf] by fastforce
    with cyc show False by simp
  qed
  obtain P d ls rem where k: "dag_loop (edges g) (indegree (edges g))
       (sort (filter (\<lambda>n. indegree (edges g) n = 0) (node_ids g))) [] [] (node_ids g) = (P, ls, rem)"
    "kahn_inv (edges g) (set (node_ids g)) P d []" "waves_ok (edges g) (set (node_ids g)) ls"
    "set (concat ls) = set P" "set rem = set (node_ids g) - set P"
    by (rule topological_sort_kahn[OF wf ne])
  have "set P \<noteq> set (node_ids g)" using kahn_done_acyclic_iff[OF k(2) wf] cyc by simp
  moreover have "set P \<subseteq> set (node_ids g)" using kahn_invD(2)[OF k(2)] by simp
  ultimately have rem: "rem \<noteq> []" using k(5) by auto
  let ?c = "reconstruct_cycle rem (adjacency (edges g))"
  have "topological_sort g = \<lparr>dr_order = [], dr_levels = None, dr_cycle = Some ?c\<rparr>"
    using k(1) rem ne by (simp add: topological_sort_def Let_def)
  moreover have "closed_walk (edge_rel g) ?c \<or>
     (\<exists>path m. path \<noteq> [] \<and> ?c = path @ [hd path] \<and> chain (edge_rel g) path
        \<and> (m, m) \<in> (edge_rel g)\<^sup>+ \<and> (m, hd path) \<in> (edge_rel g)\<^sup>+)"
  proof -
    have "closed_walk (edge_rel g) ?c \<or> (\<exists>path. path \<noteq> [] \<and> chain (edge_rel g) path
        \<and> set path \<subseteq> set rem \<and> ?c = path @ [hd path])"
      by (rule reconstruct_cycle_spec[OF _ rem]) (simp add: set_adjacency_edge_rel)
    moreover have "\<exists>m. (m, m) \<in> (edge_rel g)\<^sup>+ \<and> (m, hd path) \<in> (edge_rel g)\<^sup>+"
      if "path \<noteq> []" "set path \<subseteq> set rem" for path
    proof -
      have "hd path \<in> set rem" using that hd_in_set by blast
      then show ?thesis using leftover_has_cycle_upstream[OF wf k(2)] k(5) by simp
    qed
    ultimately show ?thesis by blast
  qed
  ultimately show ?thesis by blast
qed

lemma topological_sort_cycle_iff:
  "wf_graph g \<Longrightarrow> dr_cycle (topological_sort g) = None \<longleftrightarrow> acyclic (edge_rel g)"
  using topological_sort_cyclic[of g] topological_sort_acyclic[of g]
  by (metis DagResult.select_convs(3) option.distinct(1))

section \<open>Properties\<close>

definition diamond_graph :: TaskGraph where
  "diamond_graph =
     (let e = (\<lambda>u v. \<lparr>te_from = u, te_to = v, te_type = DATA\<rparr>) in
      \<lparr>tg_nodes = map (\<lambda>i. (i, task_node i ''o'')) [''d'', ''b'', ''c'', ''a''],
       tg_edges = [e ''a'' ''b'', e ''a'' ''c'', e ''b'' ''d'', e ''c'' ''d''],
       tg_edge_keys = {(''a'', ''b'', DATA), (''a'', ''c'', DATA), (''b'', ''d'', DATA), (''c'', ''d'', DATA)}\<rparr>)"

lemma diamond_graph_wf: "wf_graph diamond_graph"
  by (auto simp: wf_graph_def diamond_graph_def node_ids_def edge_key_def task_node_def)

lemma diamond_graph_acyclic: "acyclic (edge_rel diamond_graph)"
  by (rule acyclic_if_ordered[where P = "[''a'', ''b'', ''c'', ''d'']"])
     (auto simp: edge_rel_iff diamond_graph_def Cons_eq_append_conv)

text \<open>
  On a well-formed acyclic graph \<^verbatim>\<open>topological_sort\<close> returns every node exactly once,
  each after all its predecessors, and reports no cycle.
\<close>

theorem topological_sort_order:
  assumes "wf_graph g" and "acyclic (edge_rel g)"
  shows "distinct (dr_order (topological_sort g))
    \<and> set (dr_order (topological_sort g)) = set (node_ids g)
    \<and> (\<forall>u v. (u, v) \<in> edge_rel g \<longrightarrow> (\<exists>A B C. dr_order (topological_sort g) = A @ u # B @ v # C))
    \<and> dr_cycle (topological_sort g) = None"
proof -
  obtain ord ls d where r: "topological_sort g = \<lparr>dr_order = ord, dr_levels = Some ls, dr_cycle = None\<rparr>"
    and inv: "kahn_inv (edges g) (set (node_ids g)) ord d []" and all: "set ord = set (node_ids g)"
    using topological_sort_acyclic[OF assms] by metis
  have "\<exists>A B C. ord = A @ u # B @ v # C" if uv: "(u, v) \<in> edge_rel g" for u v
  proof -
    from uv obtain e where e: "e \<in> set (edges g)" "te_from e = u" "te_to e = v"
      by (auto simp: edge_rel_iff edges_def)
    moreover have "te_to e \<in> set ord" using edge_rel_fields(2)[OF assms(1) uv] all e by simp
    ultimately show ?thesis using kahn_order_index[OF inv] by blast
  qed
  then show ?thesis using r all kahn_invD(1)[OF inv] by simp
qed

theorem topological_sort_order_witness:
  "wf_graph diamond_graph \<and> acyclic (edge_rel diamond_graph)
   \<and> set (dr_order (topological_sort diamond_graph)) = {''a'', ''b'', ''c'', ''d''}"
proof -
  have "set (node_ids diamond_graph) = {''a'', ''b'', ''c'', ''d''}"
    by (auto simp: node_ids_def diamond_graph_def)
  then show ?thesis
    using topological_sort_order[OF diamond_graph_wf diamond_graph_acyclic]
      diamond_graph_wf diamond_graph_acyclic by simp
qed

text \<open>
  The ready levels partition the nodes into waves. \<^verbatim>\<open>compute_ready_levels\<close> returns on
  every acyclic graph; its levels are sorted, together they hold every node exactly once,
  and level \<open>k\<close> is exactly the set of nodes outside the earlier levels whose predecessors
  all lie in earlier levels, so each node is released at the earliest possible wave.
\<close>

theorem compute_ready_levels_waves:
  assumes "wf_graph g" and "acyclic (edge_rel g)"
  shows "\<exists>ls. compute_ready_levels g = Inr ls \<and> distinct (concat ls)
    \<and> set (concat ls) = set (node_ids g)
    \<and> (\<forall>k < length ls. sorted (ls ! k) \<and> ls ! k \<noteq> [] \<and>
         set (ls ! k) = {v \<in> set (node_ids g). v \<notin> set (concat (take k ls)) \<and>
           (\<forall>u. (u, v) \<in> edge_rel g \<longrightarrow> u \<in> set (concat (take k ls)))})"
proof -
  obtain ord ls d where r: "topological_sort g = \<lparr>dr_order = ord, dr_levels = Some ls, dr_cycle = None\<rparr>"
    and w: "waves_ok (edges g) (set (node_ids g)) ls" and all: "set (concat ls) = set (node_ids g)"
    using topological_sort_acyclic[OF assms] by metis
  have "wave (edges g) (set (node_ids g)) D = {v \<in> set (node_ids g). v \<notin> D \<and>
      (\<forall>u. (u, v) \<in> edge_rel g \<longrightarrow> u \<in> D)}" for D
    by (auto simp: wave_def edge_rel_iff edges_def)
  with r w all waves_ok_distinct[OF w] show ?thesis
    by (auto simp: compute_ready_levels_def waves_ok_def)
qed

theorem compute_ready_levels_waves_witness:
  "wf_graph diamond_graph \<and> acyclic (edge_rel diamond_graph)
   \<and> (\<exists>ls. compute_ready_levels diamond_graph = Inr ls \<and> distinct (concat ls))
   \<and> compute_ready_levels diamond_graph = Inr [[''a''], [''b'', ''c''], [''d'']]"
proof -
  have "compute_ready_levels diamond_graph = Inr [[''a''], [''b'', ''c''], [''d'']]" by code_simp
  with compute_ready_levels_waves[OF diamond_graph_wf diamond_graph_acyclic]
    diamond_graph_wf diamond_graph_acyclic show ?thesis by blast
qed

text \<open>
  Cyclic graphs are refused, never mis-sorted. \<^verbatim>\<open>validate_acyclic\<close> returns \<^verbatim>\<open>None\<close>
  exactly on acyclic graphs; on a cyclic one the order is empty, there are no levels,
  and \<^verbatim>\<open>compute_ready_levels\<close> raises with the reported path.
\<close>

theorem cyclic_graph_refused:
  assumes "wf_graph g"
  shows "(validate_acyclic g = None \<longleftrightarrow> acyclic (edge_rel g))
    \<and> (\<not> acyclic (edge_rel g) \<longrightarrow> dr_order (topological_sort g) = []
        \<and> dr_levels (topological_sort g) = None
        \<and> (\<exists>c. validate_acyclic g = Some c \<and> compute_ready_levels g = Inl (CyclicGraph c)))"
proof -
  have "\<exists>c. topological_sort g = \<lparr>dr_order = [], dr_levels = None, dr_cycle = Some c\<rparr>"
    if "\<not> acyclic (edge_rel g)"
    using topological_sort_cyclic[OF assms that] by blast
  then show ?thesis
    using topological_sort_cycle_iff[OF assms]
    by (auto simp: validate_acyclic_def compute_ready_levels_def)
qed

definition tail_cycle_graph :: TaskGraph where
  "tail_cycle_graph =
     (let e = (\<lambda>u v. \<lparr>te_from = u, te_to = v, te_type = DATA\<rparr>) in
      \<lparr>tg_nodes = map (\<lambda>i. (i, task_node i ''o'')) [''a'', ''b'', ''c''],
       tg_edges = [e ''b'' ''c'', e ''c'' ''b'', e ''c'' ''a''],
       tg_edge_keys = {(''b'', ''c'', DATA), (''c'', ''b'', DATA), (''c'', ''a'', DATA)}\<rparr>)"

lemma tail_cycle_graph_wf: "wf_graph tail_cycle_graph"
  by (auto simp: wf_graph_def tail_cycle_graph_def node_ids_def edge_key_def task_node_def)

lemma tail_cycle_graph_cyclic: "\<not> acyclic (edge_rel tail_cycle_graph)"
proof -
  have "closed_walk (edge_rel tail_cycle_graph) [''b'', ''c'', ''b'']"
    by (simp add: closed_walk_def edge_rel_iff tail_cycle_graph_def)
  then show ?thesis by (rule closed_walk_not_acyclic)
qed

theorem cyclic_graph_refused_witness:
  "wf_graph tail_cycle_graph \<and> \<not> acyclic (edge_rel tail_cycle_graph)
   \<and> dr_order (topological_sort tail_cycle_graph) = []"
  using cyclic_graph_refused[OF tail_cycle_graph_wf] tail_cycle_graph_wf tail_cycle_graph_cyclic
  by blast

text \<open>
  The cycle path of \<^verbatim>\<open>topological_sort\<close> need not be a cycle. With the edges
  \<open>b\<rightarrow>c\<close>, \<open>c\<rightarrow>b\<close>, \<open>c\<rightarrow>a\<close> the walk starts at \<open>a\<close>, the least name left over, which has no
  successor, and the reported path is \<open>[a, a]\<close>.
\<close>

theorem reconstructed_cycle_not_a_cycle:
  "dr_cycle (topological_sort tail_cycle_graph) = Some [''a'', ''a'']
   \<and> \<not> closed_walk (edge_rel tail_cycle_graph) [''a'', ''a'']"
proof
  show "dr_cycle (topological_sort tail_cycle_graph) = Some [''a'', ''a'']" by code_simp
  show "\<not> closed_walk (edge_rel tail_cycle_graph) [''a'', ''a'']"
    by (simp add: closed_walk_def edge_rel_iff tail_cycle_graph_def)
qed

end
