(* ===== verification/Scheduler.thy ===== *)
theory Scheduler
  imports Ready_Set Dag_Engine "HOL-Library.Multiset" "HOL-Library.Product_Lexorder"
begin

text \<open>
  The pure scheduler, \<^verbatim>\<open>src/src/a_conductor/graph/scheduler.py\<close>: one pass over the ready set
  that binds ready nodes to workers and says of every other ready node why it was left out.
\<close>

section \<open>Data\<close>

record WorkerSnapshot =
  w_id :: string
  w_state :: string
  w_capabilities :: "string list"
  w_reserved :: bool
  w_project :: "string option"
  w_workspace :: "string option"
  w_mutation_authorized :: bool

record NodeEligibility =
  ne_gate_refused :: bool
  ne_human_approval_pending :: bool
  ne_provider_unavailable :: bool
  ne_rate_limited :: bool

definition eligible :: "NodeEligibility \<Rightarrow> bool" where
  "eligible e \<longleftrightarrow> \<not> (ne_gate_refused e \<or> ne_human_approval_pending e
     \<or> ne_provider_unavailable e \<or> ne_rate_limited e)"

definition eligibility_reason :: "NodeEligibility \<Rightarrow> string" where
  "eligibility_reason e =
     (if ne_gate_refused e then ''gate refusal (NO-GO)''
      else if ne_human_approval_pending e then ''human approval pending''
      else if ne_provider_unavailable e then ''provider unavailable''
      else if ne_rate_limited e then ''rate limited / quota exhausted''
      else ''eligible'')"

datatype BlockedReasonKind =
    GATE_NO_GO | HUMAN_APPROVAL_WAIT | PROVIDER_WAIT | RATE_LIMIT_WAIT | CAPACITY
  | CAPABILITY | NO_WORKERS | IDENTITY | CONFLICT | BINDING

record SchedulePolicy =
  sp_max_parallel :: int

record SelectedAssignment =
  sa_node_id :: string
  sa_worker_id :: string
  sa_priority :: int

record BlockedReason =
  br_node_id :: string
  br_reason :: string
  br_kind :: BlockedReasonKind

record SchedulePlan =
  pl_selected :: "SelectedAssignment list"
  pl_blocked :: "BlockedReason list"
  pl_capacity_evidence :: string

definition selected_count :: "SchedulePlan \<Rightarrow> nat" where
  "selected_count p = length (pl_selected p)"

section \<open>Ranks, bindings and identity\<close>

definition topological_rank :: "TaskGraph \<Rightarrow> nat dict" where
  "topological_rank g = (let order = dr_order (topological_sort g) in
     if order = [] then []
     else fold (\<lambda>(i, k) d. AList.update i k d) (zip order [0..<length order]) [])"

definition node_bindings :: "TaskNode \<Rightarrow> string option \<times> string option \<times> string option" where
  "node_bindings n = (let binding = map_of (parse_binding n) in
     (binding ''project'', binding ''ws'', binding ''worker''))"

definition worker_identity_allows ::
  "WorkerSnapshot \<Rightarrow> string option \<Rightarrow> string option \<Rightarrow> bool \<Rightarrow> bool" where
  "worker_identity_allows w project workspace mutating =
     (if \<not> mutating then True
      else if project \<noteq> None \<and> w_project w \<noteq> project then False
      else if workspace \<noteq> None \<and> w_workspace w \<noteq> workspace then False
      else if \<not> w_mutation_authorized w then False
      else True)"

section \<open>The pass\<close>

text \<open>The lists the loop grows: \<^verbatim>\<open>selected\<close>, \<^verbatim>\<open>blocked\<close> and \<^verbatim>\<open>batch_write_sets\<close>.\<close>

record sched_state =
  ss_selected :: "SelectedAssignment list"
  ss_blocked :: "BlockedReason list"
  ss_batch :: "string list list"

text \<open>
  The inner loop over the candidate workers, with the flags \<^verbatim>\<open>capability_matched\<close> and
  \<^verbatim>\<open>identity_or_authority_matched\<close>.
\<close>

fun find_worker ::
  "SelectedAssignment list \<Rightarrow> string list \<Rightarrow> string option \<Rightarrow> string option \<Rightarrow> bool
     \<Rightarrow> WorkerSnapshot list \<Rightarrow> bool \<Rightarrow> WorkerSnapshot option \<times> bool \<times> bool" where
  "find_worker sel req project workspace mutating [] cap = (None, cap, False)"
| "find_worker sel req project workspace mutating (w # ws) cap =
     (if \<exists>s \<in> set sel. sa_worker_id s = w_id w
      then find_worker sel req project workspace mutating ws cap
      else if \<not> (\<forall>c \<in> set req. c \<in> set (w_capabilities w))
      then find_worker sel req project workspace mutating ws cap
      else if \<not> worker_identity_allows w project workspace mutating
      then find_worker sel req project workspace mutating ws True
      else (Some w, True, True))"

definition eligibility_block :: "string \<Rightarrow> NodeEligibility \<Rightarrow> BlockedReason" where
  "eligibility_block i e = (let reason = eligibility_reason e in
     \<lparr>br_node_id = i, br_reason = ''eligibility: '' @ reason,
      br_kind = (if reason = ''gate refusal (NO-GO)'' then GATE_NO_GO
                 else if reason = ''human approval pending'' then HUMAN_APPROVAL_WAIT
                 else if reason = ''provider unavailable'' then PROVIDER_WAIT
                 else RATE_LIMIT_WAIT)\<rparr>)"

text \<open>The reason reported when no worker was found.\<close>

definition unassigned_block ::
  "string \<Rightarrow> WorkerSnapshot list \<Rightarrow> string option \<Rightarrow> bool \<Rightarrow> bool \<Rightarrow> bool \<Rightarrow> BlockedReason" where
  "unassigned_block i available bound capability_matched mutating identity_matched =
     (if available = [] then
        \<lparr>br_node_id = i, br_reason = ''no available workers'', br_kind = NO_WORKERS\<rparr>
      else case bound of
        Some b \<Rightarrow>
          \<lparr>br_node_id = i, br_reason = ''binding: bound worker '' @ b @ '' '' @
             (if \<not> capability_matched then ''lacks the required capability''
              else ''fails project/workspace identity or mutation authority requirements''),
           br_kind = BINDING\<rparr>
      | None \<Rightarrow>
          if \<not> capability_matched then
            \<lparr>br_node_id = i, br_reason = ''capability: no matching worker'', br_kind = CAPABILITY\<rparr>
          else if mutating \<and> \<not> identity_matched then
            \<lparr>br_node_id = i, br_reason =
               ''identity: no worker with matching project/workspace identity and mutation authority'',
             br_kind = IDENTITY\<rparr>
          else
            \<lparr>br_node_id = i, br_reason = ''capability: no matching worker'', br_kind = CAPABILITY\<rparr>)"

definition candidate_workers ::
  "WorkerSnapshot list \<Rightarrow> SelectedAssignment list \<Rightarrow> string \<Rightarrow> string option
     \<Rightarrow> BlockedReason + WorkerSnapshot list" where
  "candidate_workers available sel i bound =
     (case bound of
        None \<Rightarrow> Inr available
      | Some b \<Rightarrow>
          if \<exists>s \<in> set sel. sa_worker_id s = b then
            Inl \<lparr>br_node_id = i, br_reason = ''binding: bound worker '' @ b @
              '' already assigned this batch'', br_kind = BINDING\<rparr>
          else let candidates = filter (\<lambda>w. w_id w = b) available in
            if candidates = [] then
              Inl \<lparr>br_node_id = i, br_reason = ''binding: bound worker '' @ b @
                '' is not available (missing, not READY, or reserved)'', br_kind = BINDING\<rparr>
            else Inr candidates)"

definition conflict_check ::
  "string list dict \<Rightarrow> string list list \<Rightarrow> TaskNode \<Rightarrow> BlockedReason + unit" where
  "conflict_check running batch n =
     (if tn_write_set n = [] then Inr ()
      else case filter (\<lambda>(_, paths). write_sets_overlap (tn_write_set n) paths) running of
        (running_id, _) # _ \<Rightarrow>
          Inl \<lparr>br_node_id = tn_id n, br_reason = ''resource conflict with running '' @ running_id,
               br_kind = CONFLICT\<rparr>
      | [] \<Rightarrow>
          if \<exists>ws \<in> set batch. write_sets_overlap (tn_write_set n) ws then
            Inl \<lparr>br_node_id = tn_id n, br_reason = ''resource conflict in same batch'',
                 br_kind = CONFLICT\<rparr>
          else Inr ())"

text \<open>The search for a worker and the two conflict checks that follow it.\<close>

definition pick_worker ::
  "WorkerSnapshot list \<Rightarrow> string list dict \<Rightarrow> sched_state \<Rightarrow> TaskNode
     \<Rightarrow> string option \<times> string option \<times> string option \<Rightarrow> BlockedReason + WorkerSnapshot" where
  "pick_worker available running st n = (\<lambda>(project, workspace, bound).
     res_bind (candidate_workers available (ss_selected st) (tn_id n) bound) (\<lambda>candidates.
       case find_worker (ss_selected st) (tn_worker_requirement n) project workspace
              (tn_write_set n \<noteq> []) candidates False of
         (None, capability_matched, identity_matched) \<Rightarrow>
           Inl (unassigned_block (tn_id n) available bound capability_matched
                  (tn_write_set n \<noteq> []) identity_matched)
       | (Some w, _, _) \<Rightarrow> res_bind (conflict_check running (ss_batch st) n) (\<lambda>_. Inr w)))"

text \<open>
  The body of the loop up to its \<^verbatim>\<open>continue\<close>s: the reason a node is blocked or the worker
  it is assigned.
\<close>

definition decide_node ::
  "WorkerSnapshot list \<Rightarrow> int \<Rightarrow> string list dict \<Rightarrow> (string \<rightharpoonup> NodeEligibility) \<Rightarrow> sched_state
     \<Rightarrow> TaskNode \<Rightarrow> BlockedReason + WorkerSnapshot" where
  "decide_node available cap running elig st n =
     (case (case elig (tn_id n) of
              Some e \<Rightarrow> if \<not> eligible e then Some (eligibility_block (tn_id n) e) else None
            | None \<Rightarrow> None) of
        Some b \<Rightarrow> Inl b
      | None \<Rightarrow>
        if int (length (ss_selected st)) \<ge> cap then
          Inl \<lparr>br_node_id = tn_id n, br_reason = ''capacity: all slots filled'', br_kind = CAPACITY\<rparr>
        else
          let mutating = (tn_write_set n \<noteq> []);
              (project, workspace, bound) = node_bindings n in
          if mutating \<and> project = None \<and> workspace = None then
            Inl \<lparr>br_node_id = tn_id n, br_reason =
              ''identity: mutating node lacks project/workspace binding (fail closed)'',
              br_kind = IDENTITY\<rparr>
          else pick_worker available running st n (project, workspace, bound))"

definition schedule_step ::
  "WorkerSnapshot list \<Rightarrow> int \<Rightarrow> string list dict \<Rightarrow> (string \<rightharpoonup> NodeEligibility)
     \<Rightarrow> TaskNode \<Rightarrow> sched_state \<Rightarrow> sched_state" where
  "schedule_step available cap running elig n st =
     (case decide_node available cap running elig st n of
        Inl b \<Rightarrow> st\<lparr>ss_blocked := ss_blocked st @ [b]\<rparr>
      | Inr w \<Rightarrow> st\<lparr>ss_selected := ss_selected st @
            [\<lparr>sa_node_id = tn_id n, sa_worker_id = w_id w, sa_priority = tn_priority n\<rparr>],
          ss_batch := (if tn_write_set n \<noteq> [] then ss_batch st @ [tn_write_set n] else ss_batch st)\<rparr>)"

definition available_workers :: "WorkerSnapshot list \<Rightarrow> WorkerSnapshot list" where
  "available_workers ws = sort_key w_id (filter (\<lambda>w. w_state w = ''READY'' \<and> \<not> w_reserved w) ws)"

definition effective_capacity :: "SchedulePolicy \<Rightarrow> WorkerSnapshot list \<Rightarrow> int" where
  "effective_capacity pol ws = min (sp_max_parallel pol) (int (length (available_workers ws)))"

definition node_key :: "nat dict \<Rightarrow> TaskNode \<Rightarrow> int \<times> nat \<times> string" where
  "node_key rank n = (- tn_priority n,
     (case map_of rank (tn_id n) of Some k \<Rightarrow> k | None \<Rightarrow> length rank), tn_id n)"

text \<open>\<^verbatim>\<open>graph.node(nid) for nid in ready.ready_ids\<close>; \<^const>\<open>Inl\<close> is the \<^verbatim>\<open>KeyError\<close>.\<close>

fun lookup_nodes :: "TaskGraph \<Rightarrow> string list \<Rightarrow> string + TaskNode list" where
  "lookup_nodes g [] = Inr []"
| "lookup_nodes g (i # is) = (case node g i of
     None \<Rightarrow> Inl i
   | Some n \<Rightarrow> res_bind (lookup_nodes g is) (\<lambda>ns. Inr (n # ns)))"

function show_nat :: "nat \<Rightarrow> string" where
  "show_nat n = (if n < 10 then [char_of (48 + n)] else show_nat (n div 10) @ [char_of (48 + n mod 10)])"
  by pat_completeness auto
termination by (relation "measure id") auto

declare show_nat.simps [simp del]

definition show_int :: "int \<Rightarrow> string" where
  "show_int i = (if i < 0 then ''-'' @ show_nat (nat (- i)) else show_nat (nat i))"

definition capacity_evidence ::
  "SchedulePolicy \<Rightarrow> WorkerSnapshot list \<Rightarrow> sched_state \<Rightarrow> string" where
  "capacity_evidence pol ws st =
     ''capacity='' @ show_int (effective_capacity pol ws) @ ''/'' @ show_int (sp_max_parallel pol) @
     '' workers_ready='' @ show_nat (length (available_workers ws)) @ ''/'' @ show_nat (length ws) @
     '' selected='' @ show_nat (length (ss_selected st)) @
     '' blocked='' @ show_nat (length (ss_blocked st))"

definition schedule_once ::
  "TaskGraph \<Rightarrow> ReadySetResult \<Rightarrow> WorkerSnapshot list \<Rightarrow> SchedulePolicy \<Rightarrow> string list dict
     \<Rightarrow> (string \<rightharpoonup> NodeEligibility) \<Rightarrow> string + SchedulePlan" where
  "schedule_once g ready ws pol running elig =
     res_bind (lookup_nodes g (rs_ready_ids ready)) (\<lambda>ns.
       let ready_nodes = sort_key (node_key (topological_rank g)) ns;
           st = fold (schedule_step (available_workers ws) (effective_capacity pol ws) running elig)
                  ready_nodes \<lparr>ss_selected = [], ss_blocked = [], ss_batch = []\<rparr>
       in Inr \<lparr>pl_selected = ss_selected st, pl_blocked = ss_blocked st,
               pl_capacity_evidence = capacity_evidence pol ws st\<rparr>)"

section \<open>The overlap seam\<close>

text \<open>
  The contract the resource checks rely on: the overlap test is symmetric and an empty
  write set overlaps nothing. Under it a batch that admits a node only when the node is
  free of every write set already admitted stays pairwise free.
\<close>

locale overlap_seam =
  fixes overlap :: "string list \<Rightarrow> string list \<Rightarrow> bool"
  assumes overlap_sym: "overlap a b = overlap b a"
    and overlap_Nil: "\<not> overlap [] b"
begin

lemma overlap_Nil_right: "\<not> overlap a []"
  using overlap_sym overlap_Nil by blast

lemma pairwise_extend:
  assumes "pairwise (\<lambda>a b. \<not> overlap (f a) (f b)) S"
    and "\<And>a. a \<in> S \<Longrightarrow> f a \<noteq> [] \<Longrightarrow> f x \<noteq> [] \<Longrightarrow> \<not> overlap (f x) (f a)"
  shows "pairwise (\<lambda>a b. \<not> overlap (f a) (f b)) (insert x S)"
proof -
  have "\<not> overlap (f x) (f a) \<and> \<not> overlap (f a) (f x)" if "a \<in> S" for a
    using assms(2)[OF that] overlap_Nil overlap_Nil_right overlap_sym by metis
  then show ?thesis using assms(1) by (simp add: pairwise_insert)
qed

end

interpretation seam: overlap_seam write_sets_overlap
  by unfold_locales (rule write_sets_overlap_sym, simp add: write_sets_overlap_iff)

section \<open>What one decision guarantees\<close>

text \<open>The conditions under which a node may run on a worker.\<close>

definition assignment_ok ::
  "WorkerSnapshot list \<Rightarrow> string list dict \<Rightarrow> (string \<rightharpoonup> NodeEligibility) \<Rightarrow> TaskNode \<Rightarrow> WorkerSnapshot \<Rightarrow> bool" where
  "assignment_ok ws running elig n w \<longleftrightarrow>
     w \<in> set ws \<and> w_state w = ''READY'' \<and> \<not> w_reserved w
     \<and> set (tn_worker_requirement n) \<subseteq> set (w_capabilities w)
     \<and> (\<forall>e. elig (tn_id n) = Some e \<longrightarrow> eligible e)
     \<and> (\<forall>b. map_of (parse_binding n) ''worker'' = Some b \<longrightarrow> w_id w = b)
     \<and> (tn_write_set n \<noteq> [] \<longrightarrow>
          w_mutation_authorized w
          \<and> (map_of (parse_binding n) ''project'' \<noteq> None \<or> map_of (parse_binding n) ''ws'' \<noteq> None)
          \<and> (\<forall>p. map_of (parse_binding n) ''project'' = Some p \<longrightarrow> w_project w = Some p)
          \<and> (\<forall>p. map_of (parse_binding n) ''ws'' = Some p \<longrightarrow> w_workspace w = Some p))
     \<and> (\<forall>(i, paths) \<in> set running. \<not> write_sets_overlap (tn_write_set n) paths)"

lemma set_available_workers:
  "set (available_workers ws) = {w \<in> set ws. w_state w = ''READY'' \<and> \<not> w_reserved w}"
  by (simp add: available_workers_def)

lemma find_worker_Some:
  assumes "find_worker sel req pj wk mut ws cap = (Some w, c, i)"
  shows "w \<in> set ws \<and> w_id w \<notin> sa_worker_id ` set sel \<and> set req \<subseteq> set (w_capabilities w)
    \<and> worker_identity_allows w pj wk mut"
  using assms
  by (induction sel req pj wk mut ws cap rule: find_worker.induct) (auto split: if_splits)

lemma find_worker_Cons:
  "find_worker sel req pj wk mut (w # ws) cap =
     (if w_id w \<in> sa_worker_id ` set sel \<or> \<not> set req \<subseteq> set (w_capabilities w)
      then find_worker sel req pj wk mut ws cap
      else if worker_identity_allows w pj wk mut then (Some w, True, True)
      else find_worker sel req pj wk mut ws True)"
proof -
  have "w_id w \<in> sa_worker_id ` set sel \<longleftrightarrow> (\<exists>s \<in> set sel. sa_worker_id s = w_id w)"
    "set req \<subseteq> set (w_capabilities w) \<longleftrightarrow> (\<forall>c \<in> set req. c \<in> set (w_capabilities w))"
    by (metis image_iff) blast
  then show ?thesis by simp
qed

lemma find_worker_None:
  assumes "find_worker sel req pj wk mut ws cap = (None, c, i)"
  shows "\<not> i \<and> (\<forall>w \<in> set ws. w_id w \<notin> sa_worker_id ` set sel \<longrightarrow> set req \<subseteq> set (w_capabilities w) \<longrightarrow>
      \<not> worker_identity_allows w pj wk mut)
    \<and> (c \<longleftrightarrow> cap \<or> (\<exists>w \<in> set ws. w_id w \<notin> sa_worker_id ` set sel \<and> set req \<subseteq> set (w_capabilities w)))"
  using assms
proof (induction ws arbitrary: cap)
  case Nil
  then show ?case by simp
next
  case (Cons w ws)
  show ?case
  proof (cases "w_id w \<in> sa_worker_id ` set sel \<or> \<not> set req \<subseteq> set (w_capabilities w)")
    case True
    then have "find_worker sel req pj wk mut ws cap = (None, c, i)"
      using Cons.prems unfolding find_worker_Cons by (simp only: if_True)
    from Cons.IH[OF this] True show ?thesis by (simp only: list.set ball_simps bex_simps) blast
  next
    case False
    then have "\<not> worker_identity_allows w pj wk mut" and
      "find_worker sel req pj wk mut ws True = (None, c, i)"
      using Cons.prems unfolding find_worker_Cons by (simp_all only: if_False) (auto split: if_splits)
    from this(1) Cons.IH[OF this(2)] False show ?thesis
      by (simp only: list.set ball_simps bex_simps) blast
  qed
qed

lemma candidate_workers_Inr:
  assumes "candidate_workers A sel i bound = Inr cs"
  shows "set cs = {w \<in> set A. \<forall>b. bound = Some b \<longrightarrow> w_id w = b}"
proof (cases bound)
  case None
  then show ?thesis using assms by (simp add: candidate_workers_def)
next
  case (Some b)
  then have "cs = filter (\<lambda>w. w_id w = b) A"
    using assms by (simp add: candidate_workers_def Let_def split: if_splits)
  then show ?thesis using Some by auto
qed

lemma conflict_check_Inr:
  "conflict_check running batch n = Inr u \<longleftrightarrow>
     (tn_write_set n \<noteq> [] \<longrightarrow> (\<forall>(i, ps) \<in> set running. \<not> write_sets_overlap (tn_write_set n) ps)
        \<and> (\<forall>ws \<in> set batch. \<not> write_sets_overlap (tn_write_set n) ws))"
proof -
  define hits where "hits = filter (\<lambda>(_, ps). write_sets_overlap (tn_write_set n) ps) running"
  have "hits = [] \<longleftrightarrow> (\<forall>(i, ps) \<in> set running. \<not> write_sets_overlap (tn_write_set n) ps)"
    unfolding hits_def filter_empty_conv by fastforce
  moreover have "conflict_check running batch n = Inr u \<longleftrightarrow> tn_write_set n = [] \<or>
    hits = [] \<and> \<not> (\<exists>ws \<in> set batch. write_sets_overlap (tn_write_set n) ws)"
    unfolding conflict_check_def hits_def[symmetric]
    by (cases hits; cases "tn_write_set n = []"; cases "\<exists>ws \<in> set batch. write_sets_overlap (tn_write_set n) ws")
       (simp_all only: case_prod_beta list.case if_True if_False simp_thms sum.distinct not_Cons_self2
         list.distinct sum.inject unit_eq[of u])
  ultimately show ?thesis by blast
qed

lemma conflict_check_Inl: "conflict_check running batch n = Inl b \<Longrightarrow> br_node_id b = tn_id n"
  by (auto simp: conflict_check_def split: list.splits if_splits)

lemma candidate_workers_Inl: "candidate_workers A sel i bound = Inl b \<Longrightarrow> br_node_id b = i"
  by (auto simp: candidate_workers_def Let_def split: option.splits if_splits)

lemma unassigned_block_id [simp]: "br_node_id (unassigned_block i A b c m d) = i"
  by (simp add: unassigned_block_def split: option.split)

lemma eligibility_block_id [simp]: "br_node_id (eligibility_block i e) = i"
  by (simp add: eligibility_block_def Let_def)

lemma pick_worker_Inl:
  assumes "pick_worker A running st n (pj, wk, bound) = Inl b"
  shows "br_node_id b = tn_id n"
proof (cases "candidate_workers A (ss_selected st) (tn_id n) bound")
  case (Inl b')
  then show ?thesis using assms candidate_workers_Inl by (auto simp: pick_worker_def)
next
  case (Inr cs)
  obtain x c i where f: "find_worker (ss_selected st) (tn_worker_requirement n) pj wk
      (tn_write_set n \<noteq> []) cs False = (x, c, i)" by (metis surj_pair)
  show ?thesis using assms Inr f conflict_check_Inl[of running "ss_batch st" n b]
    by (cases x) (auto simp: pick_worker_def)
qed

lemma pick_worker_Inr:
  assumes "pick_worker A running st n (pj, wk, bound) = Inr w"
  shows "\<exists>cs c i. candidate_workers A (ss_selected st) (tn_id n) bound = Inr cs
    \<and> find_worker (ss_selected st) (tn_worker_requirement n) pj wk (tn_write_set n \<noteq> []) cs False = (Some w, c, i)
    \<and> conflict_check running (ss_batch st) n = Inr ()"
proof -
  from assms obtain cs where cs: "candidate_workers A (ss_selected st) (tn_id n) bound = Inr cs"
    by (auto simp: pick_worker_def)
  obtain x c i where f: "find_worker (ss_selected st) (tn_worker_requirement n) pj wk
      (tn_write_set n \<noteq> []) cs False = (x, c, i)" by (metis surj_pair)
  show ?thesis using assms cs f by (cases x) (auto simp: pick_worker_def)
qed

lemma decide_node_Inl:
  "decide_node A cap running elig st n = Inl b \<Longrightarrow> br_node_id b = tn_id n"
  by (auto simp: decide_node_def Let_def node_bindings_def
      dest: pick_worker_Inl split: option.splits if_splits)

text \<open>
  The guards a node passed, one by one.
\<close>

lemma decide_node_passed:
  assumes "decide_node A cap running elig st n = Inr w"
  shows "(\<forall>e. elig (tn_id n) = Some e \<longrightarrow> eligible e)
    \<and> int (length (ss_selected st)) < cap
    \<and> (tn_write_set n \<noteq> [] \<longrightarrow> fst (node_bindings n) \<noteq> None \<or> fst (snd (node_bindings n)) \<noteq> None)
    \<and> pick_worker A running st n (node_bindings n) = Inr w"
  using assms
  by (auto simp: decide_node_def Let_def split: option.splits if_splits prod.splits)

lemma decide_node_Inr:
  assumes "decide_node (available_workers ws) cap running elig st n = Inr w"
  shows "assignment_ok ws running elig n w \<and> w_id w \<notin> sa_worker_id ` set (ss_selected st)
    \<and> int (length (ss_selected st)) < cap
    \<and> (tn_write_set n \<noteq> [] \<longrightarrow> (\<forall>b \<in> set (ss_batch st). \<not> write_sets_overlap (tn_write_set n) b))"
proof -
  note passed = decide_node_passed[OF assms]
  obtain cs c i where
    cs: "candidate_workers (available_workers ws) (ss_selected st) (tn_id n) (snd (snd (node_bindings n))) = Inr cs"
    and f: "find_worker (ss_selected st) (tn_worker_requirement n) (fst (node_bindings n))
      (fst (snd (node_bindings n))) (tn_write_set n \<noteq> []) cs False = (Some w, c, i)"
    and cc: "conflict_check running (ss_batch st) n = Inr ()"
    using passed pick_worker_Inr[of "available_workers ws" running st n "fst (node_bindings n)"
        "fst (snd (node_bindings n))" "snd (snd (node_bindings n))" w] by auto
  note w = find_worker_Some[OF f]
  have a: "w \<in> set ws" "w_state w = ''READY''" "\<not> w_reserved w"
    and b: "\<forall>b. map_of (parse_binding n) ''worker'' = Some b \<longrightarrow> w_id w = b"
    using w candidate_workers_Inr[OF cs] by (auto simp: set_available_workers node_bindings_def Let_def)
  have m: "tn_write_set n \<noteq> [] \<longrightarrow> w_mutation_authorized w
      \<and> (map_of (parse_binding n) ''project'' \<noteq> None \<or> map_of (parse_binding n) ''ws'' \<noteq> None)
      \<and> (\<forall>p. map_of (parse_binding n) ''project'' = Some p \<longrightarrow> w_project w = Some p)
      \<and> (\<forall>p. map_of (parse_binding n) ''ws'' = Some p \<longrightarrow> w_workspace w = Some p)"
    using w passed by (auto simp: worker_identity_allows_def node_bindings_def Let_def split: if_splits)
  have r: "\<forall>(i, paths) \<in> set running. \<not> write_sets_overlap (tn_write_set n) paths"
    using cc seam.overlap_Nil unfolding conflict_check_Inr by (cases "tn_write_set n = []") auto
  have bt: "tn_write_set n \<noteq> [] \<longrightarrow> (\<forall>b \<in> set (ss_batch st). \<not> write_sets_overlap (tn_write_set n) b)"
    using cc unfolding conflict_check_Inr by blast
  show ?thesis unfolding assignment_ok_def using a b m r bt w passed by blast
qed

section \<open>The invariant of the pass\<close>

definition assignment_of :: "TaskNode \<times> WorkerSnapshot \<Rightarrow> SelectedAssignment" where
  "assignment_of = (\<lambda>(n, w). \<lparr>sa_node_id = tn_id n, sa_worker_id = w_id w, sa_priority = tn_priority n\<rparr>)"

text \<open>
  After the nodes \<^verbatim>\<open>ns\<close>: the selected nodes with their workers are \<^verbatim>\<open>zs\<close>.
\<close>

definition sched_inv ::
  "WorkerSnapshot list \<Rightarrow> int \<Rightarrow> string list dict \<Rightarrow> (string \<rightharpoonup> NodeEligibility) \<Rightarrow> TaskNode list
     \<Rightarrow> (TaskNode \<times> WorkerSnapshot) list \<Rightarrow> sched_state \<Rightarrow> bool" where
  "sched_inv ws cap running elig ns zs st \<longleftrightarrow>
     ss_selected st = map assignment_of zs
     \<and> mset (map (tn_id \<circ> fst) zs) + mset (map br_node_id (ss_blocked st)) = mset (map tn_id ns)
     \<and> fst ` set zs \<subseteq> set ns
     \<and> (\<forall>(n, w) \<in> set zs. assignment_ok ws running elig n w)
     \<and> distinct (map (w_id \<circ> snd) zs)
     \<and> ss_batch st = filter (\<lambda>p. p \<noteq> []) (map (tn_write_set \<circ> fst) zs)
     \<and> pairwise (\<lambda>a b. \<not> write_sets_overlap (tn_write_set a) (tn_write_set b)) (fst ` set zs)
     \<and> int (length zs) \<le> max 0 cap"

lemma sched_inv_init:
  "sched_inv ws cap running elig [] [] \<lparr>ss_selected = [], ss_blocked = [], ss_batch = []\<rparr>"
  by (simp add: sched_inv_def)

lemma assign_fields [simp]:
  "sa_node_id (assignment_of z) = tn_id (fst z)" "sa_worker_id (assignment_of z) = w_id (snd z)"
  "sa_priority (assignment_of z) = tn_priority (fst z)"
  by (simp_all add: assignment_of_def split: prod.split)

lemma sched_inv_step:
  assumes inv: "sched_inv ws cap running elig ns zs st"
  shows "\<exists>zs'. sched_inv ws cap running elig (ns @ [n]) zs'
    (schedule_step (available_workers ws) cap running elig n st)"
proof (cases "decide_node (available_workers ws) cap running elig st n")
  case (Inl b)
  then have "sched_inv ws cap running elig (ns @ [n]) zs
      (schedule_step (available_workers ws) cap running elig n st)"
    using inv decide_node_Inl[OF Inl] by (auto simp: sched_inv_def schedule_step_def)
  then show ?thesis by blast
next
  case (Inr w)
  note ok = decide_node_Inr[OF Inr]
  from inv have sel: "ss_selected st = map assignment_of zs"
    and batch: "ss_batch st = filter (\<lambda>p. p \<noteq> []) (map (tn_write_set \<circ> fst) zs)"
    and pw: "pairwise (\<lambda>a b. \<not> write_sets_overlap (tn_write_set a) (tn_write_set b)) (fst ` set zs)"
    by (auto simp: sched_inv_def)
  have step: "schedule_step (available_workers ws) cap running elig n st =
    st\<lparr>ss_selected := ss_selected st @ [assignment_of (n, w)],
       ss_batch := (if tn_write_set n \<noteq> [] then ss_batch st @ [tn_write_set n] else ss_batch st)\<rparr>"
    using Inr by (simp add: schedule_step_def assignment_of_def)
  have "pairwise (\<lambda>a b. \<not> write_sets_overlap (tn_write_set a) (tn_write_set b)) (insert n (fst ` set zs))"
    by (rule seam.pairwise_extend[OF pw]) (use ok batch in fastforce)
  moreover have "w_id w \<notin> (w_id \<circ> snd) ` set zs" using ok sel by force
  moreover have "int (length zs) < cap" using ok sel by simp
  ultimately have "sched_inv ws cap running elig (ns @ [n]) (zs @ [(n, w)])
      (schedule_step (available_workers ws) cap running elig n st)"
    using inv ok unfolding step sched_inv_def by (auto simp: case_prod_beta)
  then show ?thesis by blast
qed

lemma sched_inv_fold:
  assumes "sched_inv ws cap running elig ns zs st"
  shows "\<exists>zs'. sched_inv ws cap running elig (ns @ ms) zs'
    (fold (schedule_step (available_workers ws) cap running elig) ms st)"
  using assms
proof (induction ms arbitrary: ns zs st)
  case Nil
  then show ?case by auto
next
  case (Cons m ms)
  then obtain zs' where "sched_inv ws cap running elig (ns @ [m]) zs'
      (schedule_step (available_workers ws) cap running elig m st)" using sched_inv_step by blast
  from Cons.IH[OF this] show ?case by simp
qed

lemma lookup_nodes_Inr: "lookup_nodes g is = Inr ns \<longleftrightarrow> map (node g) is = map Some ns"
  by (induction "is" arbitrary: ns) (auto split: option.splits)

lemma lookup_nodes_total:
  "set is \<subseteq> set (node_ids g) \<Longrightarrow> \<exists>ns. lookup_nodes g is = Inr ns"
  by (induction "is") (auto simp: node_ids_iff)

lemma lookup_members:
  assumes "map f is = map Some ns" and "n \<in> set ns"
  shows "\<exists>i \<in> set is. f i = Some n"
proof -
  have "Some n \<in> set (map f is)" unfolding assms(1) using assms(2) by simp
  then show ?thesis by auto
qed

lemma schedule_once_inv:
  assumes "schedule_once g ready ws pol running elig = Inr plan"
  shows "\<exists>ns zs st. map (node g) (rs_ready_ids ready) = map Some ns
    \<and> sched_inv ws (effective_capacity pol ws) running elig (sort_key (node_key (topological_rank g)) ns) zs st
    \<and> plan = \<lparr>pl_selected = ss_selected st, pl_blocked = ss_blocked st,
        pl_capacity_evidence = capacity_evidence pol ws st\<rparr>"
proof -
  let ?f = "schedule_step (available_workers ws) (effective_capacity pol ws) running elig"
  obtain ns where ns: "lookup_nodes g (rs_ready_ids ready) = Inr ns" using assms
    by (auto simp: schedule_once_def Let_def)
  let ?ns = "sort_key (node_key (topological_rank g)) ns"
  define st where "st = fold ?f ?ns \<lparr>ss_selected = [], ss_blocked = [], ss_batch = []\<rparr>"
  have "plan = \<lparr>pl_selected = ss_selected st, pl_blocked = ss_blocked st,
        pl_capacity_evidence = capacity_evidence pol ws st\<rparr>"
    using assms ns by (simp add: schedule_once_def Let_def st_def)
  moreover have "\<exists>zs. sched_inv ws (effective_capacity pol ws) running elig ([] @ ?ns) zs st"
    unfolding st_def by (rule sched_inv_fold[OF sched_inv_init])
  ultimately show ?thesis using ns unfolding lookup_nodes_Inr append_Nil by blast
qed

section \<open>Why a node was left out\<close>

text \<open>
  A reported \<^const>\<open>CAPACITY\<close> means that the slots are filled by nodes that come before
  it in the order of the pass; a reported \<^const>\<open>CAPABILITY\<close> that every worker that
  could run the node is taken.
\<close>

definition block_ok ::
  "WorkerSnapshot list \<Rightarrow> int \<Rightarrow> (TaskNode \<Rightarrow> int \<times> nat \<times> string) \<Rightarrow> TaskNode list
     \<Rightarrow> (TaskNode \<times> WorkerSnapshot) list \<Rightarrow> BlockedReason \<Rightarrow> bool" where
  "block_ok A cap key ns zs b \<longleftrightarrow> (\<exists>n \<in> set ns. tn_id n = br_node_id b
     \<and> (br_kind b = CAPACITY \<longrightarrow> cap \<le> int (length zs) \<and> (\<forall>(m, w) \<in> set zs. key m \<le> key n))
     \<and> (br_kind b = CAPABILITY \<longrightarrow>
          (\<forall>w \<in> set A. set (tn_worker_requirement n) \<subseteq> set (w_capabilities w) \<longrightarrow> w_id w \<in> (w_id \<circ> snd) ` set zs)))"

lemma pick_worker_kind:
  assumes "pick_worker A running st n (pj, wk, bound) = Inl b"
  shows "br_kind b \<noteq> CAPACITY \<and> (br_kind b = CAPABILITY \<longrightarrow>
    (\<forall>w \<in> set A. set (tn_worker_requirement n) \<subseteq> set (w_capabilities w) \<longrightarrow> w_id w \<in> sa_worker_id ` set (ss_selected st)))"
proof (cases "candidate_workers A (ss_selected st) (tn_id n) bound")
  case (Inl b')
  then have "br_kind b' = BINDING"
    by (auto simp: candidate_workers_def Let_def split: option.splits if_splits)
  then show ?thesis using assms Inl by (simp add: pick_worker_def)
next
  case (Inr cs)
  obtain x c i where f: "find_worker (ss_selected st) (tn_worker_requirement n) pj wk
      (tn_write_set n \<noteq> []) cs False = (x, c, i)" by (metis surj_pair)
  show ?thesis
  proof (cases x)
    case (Some w)
    then have "conflict_check running (ss_batch st) n = Inl b"
      using assms Inr f by (simp add: pick_worker_def)
    then have "br_kind b = CONFLICT"
      by (auto simp: conflict_check_def split: list.splits if_splits)
    then show ?thesis by simp
  next
    case None
    then have b: "b = unassigned_block (tn_id n) A bound c (tn_write_set n \<noteq> []) i"
      using assms Inr f by (simp add: pick_worker_def)
    note none = find_worker_None[OF f[unfolded None]]
    have free: "worker_identity_allows w pj wk False" for w by (simp add: worker_identity_allows_def)
    have "bound = None \<and> (\<not> c \<or> tn_write_set n = [])" if "br_kind b = CAPABILITY"
      using that none unfolding b unassigned_block_def by (auto split: option.splits if_splits)
    then have "w_id w \<in> sa_worker_id ` set (ss_selected st)"
      if "br_kind b = CAPABILITY" "w \<in> set A" "set (tn_worker_requirement n) \<subseteq> set (w_capabilities w)" for w
      using that none free[of w] candidate_workers_Inr[OF Inr] by (cases "tn_write_set n = []") auto
    moreover have "br_kind b \<noteq> CAPACITY"
      unfolding b unassigned_block_def by (simp split: option.split)
    ultimately show ?thesis by blast
  qed
qed

lemma eligibility_kind: "br_kind (eligibility_block i e) \<notin> {CAPACITY, CAPABILITY}"
  by (simp add: eligibility_block_def Let_def)

lemma decide_node_kind:
  assumes "decide_node A cap running elig st n = Inl b"
  shows "(br_kind b = CAPACITY \<longrightarrow> cap \<le> int (length (ss_selected st)))
    \<and> (br_kind b = CAPABILITY \<longrightarrow> (\<forall>w \<in> set A. set (tn_worker_requirement n) \<subseteq> set (w_capabilities w) \<longrightarrow>
         w_id w \<in> sa_worker_id ` set (ss_selected st)))"
proof -
  obtain pj wk bound where nb: "node_bindings n = (pj, wk, bound)" by (metis surj_pair)
  consider e where "b = eligibility_block (tn_id n) e"
    | "br_kind b = CAPACITY" "cap \<le> int (length (ss_selected st))" | "br_kind b = IDENTITY"
    | "pick_worker A running st n (pj, wk, bound) = Inl b"
    using assms by (auto simp: decide_node_def Let_def nb split: option.splits if_splits)
  then show ?thesis using eligibility_kind[of "tn_id n"] pick_worker_kind by cases fastforce+
qed

lemma block_ok_mono:
  assumes "block_ok A cap key ns zs b" and "set ns \<subseteq> set ns'"
    and "zs' = zs \<or> (\<exists>z. zs' = zs @ [z] \<and> int (length zs) < cap)"
  shows "block_ok A cap key ns' zs' b"
  using assms unfolding block_ok_def by fastforce

lemma block_ok_step:
  assumes sel: "ss_selected st = map assignment_of zs" and sub: "fst ` set zs \<subseteq> set ns"
    and old: "\<forall>b \<in> set (ss_blocked st). block_ok (available_workers ws) cap key ns zs b"
    and key: "\<forall>m \<in> set ns. key m \<le> key n"
    and st': "st' = schedule_step (available_workers ws) cap running elig n st"
  shows "\<exists>zs'. ss_selected st' = map assignment_of zs' \<and> fst ` set zs' \<subseteq> set (ns @ [n])
    \<and> (\<forall>b \<in> set (ss_blocked st'). block_ok (available_workers ws) cap key (ns @ [n]) zs' b)"
proof (cases "decide_node (available_workers ws) cap running elig st n")
  case (Inl b)
  have ids: "sa_worker_id ` set (ss_selected st) = (w_id \<circ> snd) ` set zs"
    and len: "length (ss_selected st) = length zs"
    unfolding sel by (simp_all add: image_image)
  have "\<forall>(m, w) \<in> set zs. key m \<le> key n" using sub key by force
  then have "block_ok (available_workers ws) cap key (ns @ [n]) zs b"
    using decide_node_kind[OF Inl] decide_node_Inl[OF Inl] unfolding block_ok_def ids len
    by (intro bexI[of _ n]) (simp only: simp_thms, blast, simp)
  moreover have "block_ok (available_workers ws) cap key (ns @ [n]) zs x" if "x \<in> set (ss_blocked st)" for x
    using block_ok_mono[OF old[rule_format, OF that], of "ns @ [n]" zs] by auto
  ultimately show ?thesis using sel sub Inl unfolding st' schedule_step_def
    by (intro exI[of _ zs]) auto
next
  case (Inr w)
  have "int (length zs) < cap" using decide_node_Inr[OF Inr] sel by simp
  then have "block_ok (available_workers ws) cap key (ns @ [n]) (zs @ [(n, w)]) x"
    if "x \<in> set (ss_blocked st)" for x
    using block_ok_mono[OF old[rule_format, OF that], of "ns @ [n]" "zs @ [(n, w)]"] by auto
  then show ?thesis using sel sub Inr unfolding st' schedule_step_def
    by (intro exI[of _ "zs @ [(n, w)]"]) (auto simp: assignment_of_def)
qed

lemma block_ok_fold:
  assumes "ss_selected st = map assignment_of zs" and "fst ` set zs \<subseteq> set ns"
    and "\<forall>b \<in> set (ss_blocked st). block_ok (available_workers ws) cap key ns zs b"
    and "sorted (map key (ns @ ms))"
  shows "\<exists>zs'. let st' = fold (schedule_step (available_workers ws) cap running elig) ms st in
    ss_selected st' = map assignment_of zs' \<and> fst ` set zs' \<subseteq> set (ns @ ms)
    \<and> (\<forall>b \<in> set (ss_blocked st'). block_ok (available_workers ws) cap key (ns @ ms) zs' b)"
  using assms
proof (induction ms arbitrary: ns zs st)
  case Nil
  then show ?case by (auto simp: Let_def)
next
  case (Cons m ms)
  define st1 where "st1 = schedule_step (available_workers ws) cap running elig m st"
  have "\<forall>x \<in> set ns. key x \<le> key m" using Cons.prems(4) by (auto simp: sorted_append)
  from block_ok_step[OF Cons.prems(1-3) this st1_def]
  obtain zs1 where "ss_selected st1 = map assignment_of zs1" "fst ` set zs1 \<subseteq> set (ns @ [m])"
    "\<forall>b \<in> set (ss_blocked st1). block_ok (available_workers ws) cap key (ns @ [m]) zs1 b" by blast
  from Cons.IH[OF this] Cons.prems(4) show ?case by (simp add: st1_def)
qed

section \<open>Properties\<close>

lemma schedule_selected:
  assumes wf: "wf_graph g" and plan: "schedule_once g ready ws pol running elig = Inr plan"
    and a: "a \<in> set (pl_selected plan)"
  obtains n w where "sa_node_id a \<in> set (rs_ready_ids ready)" "node g (sa_node_id a) = Some n" "tn_id n = sa_node_id a"
    "a = assignment_of (n, w)" "assignment_ok ws running elig n w"
proof -
  obtain ns zs st where ns: "map (node g) (rs_ready_ids ready) = map Some ns"
    and inv: "sched_inv ws (effective_capacity pol ws) running elig (sort_key (node_key (topological_rank g)) ns) zs st"
    and p: "plan = \<lparr>pl_selected = ss_selected st, pl_blocked = ss_blocked st,
        pl_capacity_evidence = capacity_evidence pol ws st\<rparr>"
    using schedule_once_inv[OF plan] by blast
  from inv have sel: "ss_selected st = map assignment_of zs" and sub: "fst ` set zs \<subseteq> set ns"
    and ok: "\<forall>(n, w) \<in> set zs. assignment_ok ws running elig n w"
    by (auto simp: sched_inv_def)
  from a p sel obtain z where z: "z \<in> set zs" "a = assignment_of z" by auto
  obtain i where i: "i \<in> set (rs_ready_ids ready)" "node g i = Some (fst z)"
    using lookup_members[OF ns, of "fst z"] sub z(1) by blast
  then have id: "tn_id (fst z) = i" using wf_node_Some_iff[OF wf] by simp
  then have node_id: "sa_node_id a = i" using z(2) by simp
  have zok: "assignment_ok ws running elig (fst z) (snd z)" using ok z(1) by auto
  show ?thesis using that[of "fst z" "snd z"] i id node_id z(2) zok by simp
qed

text \<open>
  C1: every assignment of a plan is allowed. The node is one of the ready nodes; the worker
  is in the snapshot, READY and unreserved, has every required capability and is the worker
  the node is bound to, if any; no eligibility gate refuses the node; a mutating node has a
  project or workspace binding, the worker has the same identity and mutation authority, and
  the node's write set overlaps that of no running node.
\<close>

theorem schedule_assignments_sound:
  assumes wf: "wf_graph g" and plan: "schedule_once g ready ws pol running elig = Inr plan"
    and a: "a \<in> set (pl_selected plan)"
  shows "sa_node_id a \<in> set (rs_ready_ids ready) \<and>
    (\<exists>n w. node g (sa_node_id a) = Some n \<and> sa_priority a = tn_priority n \<and> w_id w = sa_worker_id a
       \<and> w \<in> set ws \<and> w_state w = ''READY'' \<and> \<not> w_reserved w
       \<and> set (tn_worker_requirement n) \<subseteq> set (w_capabilities w)
       \<and> (\<forall>e. elig (sa_node_id a) = Some e \<longrightarrow> eligible e)
       \<and> (\<forall>b. map_of (parse_binding n) ''worker'' = Some b \<longrightarrow> w_id w = b)
       \<and> (tn_write_set n \<noteq> [] \<longrightarrow>
            w_mutation_authorized w
            \<and> (map_of (parse_binding n) ''project'' \<noteq> None \<or> map_of (parse_binding n) ''ws'' \<noteq> None)
            \<and> (\<forall>p. map_of (parse_binding n) ''project'' = Some p \<longrightarrow> w_project w = Some p)
            \<and> (\<forall>p. map_of (parse_binding n) ''ws'' = Some p \<longrightarrow> w_workspace w = Some p))
       \<and> (\<forall>(i, paths) \<in> set running. \<not> write_sets_overlap (tn_write_set n) paths))"
proof -
  from schedule_selected[OF wf plan a] obtain n w where i: "sa_node_id a \<in> set (rs_ready_ids ready)"
    "node g (sa_node_id a) = Some n" and id: "tn_id n = sa_node_id a"
    and z: "a = assignment_of (n, w)" and ok: "assignment_ok ws running elig n w" by blast
  have f: "sa_priority a = tn_priority n" "w_id w = sa_worker_id a" using z by (simp_all add: assignment_of_def)
  from i f ok[unfolded assignment_ok_def id] show ?thesis
    by (elim conjE, intro conjI exI[of _ n] exI[of _ w]) assumption+
qed

text \<open>
  A plan uses a worker at most once and never more workers than the policy and the
  snapshot allow.
\<close>

theorem schedule_capacity_bound:
  assumes plan: "schedule_once g ready ws pol running elig = Inr plan"
  shows "distinct (map sa_worker_id (pl_selected plan))
    \<and> int (selected_count plan) \<le> max 0 (sp_max_parallel pol)
    \<and> selected_count plan \<le> length (filter (\<lambda>w. w_state w = ''READY'' \<and> \<not> w_reserved w) ws)"
proof -
  obtain ns zs st where
    inv: "sched_inv ws (effective_capacity pol ws) running elig (sort_key (node_key (topological_rank g)) ns) zs st"
    and p: "plan = \<lparr>pl_selected = ss_selected st, pl_blocked = ss_blocked st,
        pl_capacity_evidence = capacity_evidence pol ws st\<rparr>"
    using schedule_once_inv[OF plan] by blast
  from inv have "ss_selected st = map assignment_of zs" "distinct (map (w_id \<circ> snd) zs)"
    "int (length zs) \<le> max 0 (effective_capacity pol ws)" by (auto simp: sched_inv_def)
  then show ?thesis unfolding p selected_count_def effective_capacity_def available_workers_def
    by (auto simp: comp_def)
qed

text \<open>
  The pass returns whenever the ready nodes are nodes of the graph, and each ready node
  is then either selected or blocked with a reason, never both and never lost.
\<close>

theorem schedule_partitions_ready:
  assumes wf: "wf_graph g" and known: "set (rs_ready_ids ready) \<subseteq> set (node_ids g)"
  shows "\<exists>plan. schedule_once g ready ws pol running elig = Inr plan
    \<and> mset (map sa_node_id (pl_selected plan)) + mset (map br_node_id (pl_blocked plan))
        = mset (rs_ready_ids ready)"
proof -
  obtain ns where ns: "lookup_nodes g (rs_ready_ids ready) = Inr ns"
    using lookup_nodes_total[OF known] by blast
  then obtain plan where plan: "schedule_once g ready ws pol running elig = Inr plan"
    by (simp add: schedule_once_def Let_def)
  obtain ns zs st where ns: "map (node g) (rs_ready_ids ready) = map Some ns"
    and inv: "sched_inv ws (effective_capacity pol ws) running elig (sort_key (node_key (topological_rank g)) ns) zs st"
    and p: "plan = \<lparr>pl_selected = ss_selected st, pl_blocked = ss_blocked st,
        pl_capacity_evidence = capacity_evidence pol ws st\<rparr>"
    using schedule_once_inv[OF plan] by blast
  have "map tn_id ns = rs_ready_ids ready"
    using ns wf_node_Some_iff[OF wf] by (intro nth_equalityI) (metis length_map nth_map)+
  moreover have "mset (map tn_id (sort_key (node_key (topological_rank g)) ns)) = mset (map tn_id ns)"
    by simp
  ultimately show ?thesis using plan inv unfolding sched_inv_def p
    by (intro exI[of _ plan]) (simp add: p comp_def)
qed

text \<open>
  C26: no two nodes of one batch write to overlapping paths.
\<close>

theorem schedule_batch_conflict_free:
  assumes wf: "wf_graph g" and plan: "schedule_once g ready ws pol running elig = Inr plan"
    and ab: "a \<in> set (pl_selected plan)" "b \<in> set (pl_selected plan)" "sa_node_id a \<noteq> sa_node_id b"
    and n: "node g (sa_node_id a) = Some n" and m: "node g (sa_node_id b) = Some m"
  shows "\<not> write_sets_overlap (tn_write_set n) (tn_write_set m)"
proof -
  obtain ns zs st where ns: "map (node g) (rs_ready_ids ready) = map Some ns"
    and inv: "sched_inv ws (effective_capacity pol ws) running elig (sort_key (node_key (topological_rank g)) ns) zs st"
    and p: "plan = \<lparr>pl_selected = ss_selected st, pl_blocked = ss_blocked st,
        pl_capacity_evidence = capacity_evidence pol ws st\<rparr>"
    using schedule_once_inv[OF plan] by blast
  from inv have sel: "ss_selected st = map assignment_of zs" and sub: "fst ` set zs \<subseteq> set ns"
    and pw: "pairwise (\<lambda>a b. \<not> write_sets_overlap (tn_write_set a) (tn_write_set b)) (fst ` set zs)"
    by (auto simp: sched_inv_def)
  have member: "x \<in> fst ` set zs" if "c \<in> set (pl_selected plan)" "node g (sa_node_id c) = Some x" for c x
  proof -
    from that(1) p sel obtain z where z: "z \<in> set zs" "c = assignment_of z" by auto
    have "fst z \<in> set ns" using sub z(1) by blast
    then obtain i where "node g i = Some (fst z)" using lookup_members[OF ns] by blast
    then have "node g (tn_id (fst z)) = Some (fst z)" using wf_node_Some_iff[OF wf] by simp
    then have "x = fst z" using that(2) z(2) by simp
    then show ?thesis using z(1) by simp
  qed
  have "n \<noteq> m" using n m ab(3) wf_node_Some_iff[OF wf] by metis
  then show ?thesis using pw member[OF ab(1) n] member[OF ab(2) m] unfolding pairwise_def by blast
qed

text \<open>
  The plan does not depend on the order in which the ready nodes are enumerated or the
  workers are listed.
\<close>

theorem schedule_deterministic:
  assumes wf: "wf_graph g" and known: "set (rs_ready_ids r) \<subseteq> set (node_ids g)"
    and ready: "mset (rs_ready_ids r) = mset (rs_ready_ids r')"
    and ws: "mset ws = mset ws'" and ids: "distinct (map w_id ws)"
  shows "schedule_once g r ws pol running elig = schedule_once g r' ws' pol running elig"
proof -
  have sr: "set (rs_ready_ids r) = set (rs_ready_ids r')" using ready by (rule mset_eq_setD)
  obtain ns ns' where ns: "lookup_nodes g (rs_ready_ids r) = Inr ns"
    "lookup_nodes g (rs_ready_ids r') = Inr ns'"
    using lookup_nodes_total[OF known] lookup_nodes_total[OF known[unfolded sr]] by blast
  then have "mset (map Some ns) = mset (map Some ns')"
    unfolding lookup_nodes_Inr using ready by (metis mset_map)
  then have mns: "mset ns = mset ns'"
    by (metis (no_types, lifting) list.map_comp list.map_ident_strong mset_map option.sel comp_apply)
  let ?key = "node_key (topological_rank g)"
  have idn: "node g (tn_id x) = Some x" if "x \<in> set ns" for x
    using that ns(1) lookup_members wf_node_Some_iff[OF wf] unfolding lookup_nodes_Inr by metis
  then have "inj_on ?key (set ns)" by (intro inj_onI) (auto simp: node_key_def, metis option.inject)
  then have nodes: "sort_key ?key ns = sort_key ?key ns'"
    using mns by (intro sort_key_inj_key_eq) auto
  let ?P = "\<lambda>w. w_state w = ''READY'' \<and> \<not> w_reserved w"
  have "inj_on w_id (set (filter ?P ws))" using ids by (auto simp: distinct_map intro: inj_on_subset)
  moreover have "mset (filter ?P ws) = mset (filter ?P ws')" using ws by (metis mset_filter)
  ultimately have avail: "available_workers ws = available_workers ws'"
    unfolding available_workers_def by (intro sort_key_inj_key_eq) auto
  have len: "length ws = length ws'" using ws by (rule mset_eq_length)
  show ?thesis unfolding schedule_once_def ns res_bind.simps nodes avail effective_capacity_def
      capacity_evidence_def len ..
qed

text \<open>
  The reported reasons hold. A node blocked for capacity was outranked: the batch is
  full and every selected node has at least its priority. A node blocked for capability
  could run on no worker that was left: every usable worker with the required
  capabilities is assigned in the plan.
\<close>

theorem schedule_blocks_truthful:
  assumes wf: "wf_graph g" and plan: "schedule_once g ready ws pol running elig = Inr plan"
    and b: "b \<in> set (pl_blocked plan)" and n: "node g (br_node_id b) = Some n"
  shows "(br_kind b = CAPACITY \<longrightarrow>
      int (selected_count plan) \<ge> effective_capacity pol ws
      \<and> (\<forall>a \<in> set (pl_selected plan). tn_priority n \<le> sa_priority a))
    \<and> (br_kind b = CAPABILITY \<longrightarrow>
      (\<forall>w \<in> set ws. w_state w = ''READY'' \<longrightarrow> \<not> w_reserved w \<longrightarrow>
         set (tn_worker_requirement n) \<subseteq> set (w_capabilities w) \<longrightarrow>
         w_id w \<in> sa_worker_id ` set (pl_selected plan)))"
proof -
  let ?key = "node_key (topological_rank g)" and ?A = "available_workers ws"
  let ?cap = "effective_capacity pol ws"
  obtain ns where l: "lookup_nodes g (rs_ready_ids ready) = Inr ns" using plan
    by (auto simp: schedule_once_def Let_def)
  define st where "st = fold (schedule_step ?A ?cap running elig) (sort_key ?key ns)
    \<lparr>ss_selected = [], ss_blocked = [], ss_batch = []\<rparr>"
  have p: "pl_selected plan = ss_selected st" "pl_blocked plan = ss_blocked st"
    using plan l by (auto simp: schedule_once_def Let_def st_def)
  obtain zs where sel: "ss_selected st = map assignment_of zs"
    and ok: "\<forall>b \<in> set (ss_blocked st). block_ok ?A ?cap ?key (sort_key ?key ns) zs b"
    using block_ok_fold[of "\<lparr>ss_selected = [], ss_blocked = [], ss_batch = []\<rparr>" "[]" "[]" ws ?cap ?key
        "sort_key ?key ns" running elig]
    by (auto simp: Let_def st_def)
  from ok b p obtain m where m: "m \<in> set ns" "tn_id m = br_node_id b"
    and cap: "br_kind b = CAPACITY \<longrightarrow> ?cap \<le> int (length zs) \<and> (\<forall>(x, w) \<in> set zs. ?key x \<le> ?key m)"
    and cab: "br_kind b = CAPABILITY \<longrightarrow>
      (\<forall>w \<in> set ?A. set (tn_worker_requirement m) \<subseteq> set (w_capabilities w) \<longrightarrow> w_id w \<in> (w_id \<circ> snd) ` set zs)"
    unfolding block_ok_def by auto
  have "node g (tn_id m) = Some m"
    using m(1) l lookup_members wf_node_Some_iff[OF wf] unfolding lookup_nodes_Inr by metis
  then have mn: "m = n" using m(2) n by simp
  have "tn_priority n \<le> tn_priority (fst z)" if "br_kind b = CAPACITY" "z \<in> set zs" for z
  proof -
    have "?key (fst z) \<le> ?key n" using cap that mn by auto
    then show ?thesis by (auto simp: node_key_def less_eq_prod_def)
  qed
  moreover have "sa_worker_id ` set (pl_selected plan) = (w_id \<circ> snd) ` set zs"
    unfolding p sel by (simp add: image_image)
  ultimately show ?thesis using cap cab mn unfolding selected_count_def p sel set_available_workers
    by simp
qed

section \<open>A sample pass\<close>

definition sched_graph :: TaskGraph where
  "sched_graph = \<lparr>tg_nodes =
     [(''a'', (task_node ''a'' ''o'')\<lparr>tn_write_set := [''src/x''], tn_model_requirement := Some ''project:p'',
                tn_priority := 2\<rparr>),
      (''b'', (task_node ''b'' ''o'')\<lparr>tn_write_set := [''src/*''], tn_model_requirement := Some ''project:p'',
                tn_priority := 1\<rparr>),
      (''c'', (task_node ''c'' ''o'')\<lparr>tn_worker_requirement := [''review'']\<rparr>),
      (''d'', (task_node ''d'' ''o'')\<lparr>tn_worker_requirement := [''review'']\<rparr>)],
     tg_edges = [], tg_edge_keys = {}\<rparr>"

definition sched_workers :: "WorkerSnapshot list" where
  "sched_workers =
     [\<lparr>w_id = ''w2'', w_state = ''READY'', w_capabilities = [''review''], w_reserved = False,
       w_project = None, w_workspace = None, w_mutation_authorized = False\<rparr>,
      \<lparr>w_id = ''w1'', w_state = ''READY'', w_capabilities = [], w_reserved = False,
       w_project = Some ''p'', w_workspace = None, w_mutation_authorized = True\<rparr>,
      \<lparr>w_id = ''w3'', w_state = ''READY'', w_capabilities = [], w_reserved = False,
       w_project = Some ''p'', w_workspace = None, w_mutation_authorized = True\<rparr>]"

definition sched_plan :: "int \<Rightarrow> string + SchedulePlan" where
  "sched_plan k = schedule_once sched_graph (compute_ready_set sched_graph Map.empty) sched_workers
     \<lparr>sp_max_parallel = k\<rparr> [] Map.empty"

lemma sched_graph_wf: "wf_graph sched_graph"
  by (simp add: wf_graph_def sched_graph_def node_ids_def task_node_def)

lemma sched_plan_2: "sched_plan 2 = Inr \<lparr>pl_selected =
    [\<lparr>sa_node_id = ''a'', sa_worker_id = ''w1'', sa_priority = 2\<rparr>,
     \<lparr>sa_node_id = ''c'', sa_worker_id = ''w2'', sa_priority = 0\<rparr>],
   pl_blocked =
    [\<lparr>br_node_id = ''b'', br_reason = ''resource conflict in same batch'', br_kind = CONFLICT\<rparr>,
     \<lparr>br_node_id = ''d'', br_reason = ''capacity: all slots filled'', br_kind = CAPACITY\<rparr>],
   pl_capacity_evidence = ''capacity=2/2 workers_ready=3/3 selected=2 blocked=2''\<rparr>"
  by code_simp

lemmas sched_plan_once = sched_plan_2[unfolded sched_plan_def]

theorem schedule_assignments_sound_witness:
  "\<exists>plan. sched_plan 2 = Inr plan \<and> (\<exists>a \<in> set (pl_selected plan). sa_node_id a = ''a'' \<and>
     (\<exists>n w. node sched_graph ''a'' = Some n \<and> w_id w = sa_worker_id a \<and> w \<in> set sched_workers
        \<and> w_mutation_authorized w))"
proof -
  let ?a = "\<lparr>sa_node_id = ''a'', sa_worker_id = ''w1'', sa_priority = 2\<rparr>"
  from schedule_assignments_sound[OF sched_graph_wf sched_plan_once, of ?a]
  obtain n w where n: "node sched_graph ''a'' = Some n" and w: "w_id w = ''w1''" "w \<in> set sched_workers"
    and m: "tn_write_set n \<noteq> [] \<longrightarrow> w_mutation_authorized w" by auto
  from n have "tn_write_set n = [''src/x'']"
    by (auto simp: node_def sched_graph_def task_node_def)
  with m have "w_mutation_authorized w" by simp
  with n w have "\<exists>n w. node sched_graph ''a'' = Some n \<and> w_id w = sa_worker_id ?a
    \<and> w \<in> set sched_workers \<and> w_mutation_authorized w" by auto
  moreover obtain plan where "sched_plan 2 = Inr plan" "?a \<in> set (pl_selected plan)"
    using sched_plan_2 by simp
  moreover have "sa_node_id ?a = ''a''" by simp
  ultimately show ?thesis by blast
qed

theorem schedule_capacity_bound_witness:
  "\<exists>plan. sched_plan 2 = Inr plan \<and> selected_count plan \<le> 2 \<and> distinct (map sa_worker_id (pl_selected plan))"
  using schedule_capacity_bound[OF sched_plan_once] sched_plan_2 by auto

theorem schedule_partitions_ready_witness:
  "\<exists>plan. sched_plan 2 = Inr plan \<and>
     mset (map sa_node_id (pl_selected plan)) + mset (map br_node_id (pl_blocked plan))
       = mset [''d'', ''c'', ''b'', ''a'']"
proof -
  have r: "rs_ready_ids (compute_ready_set sched_graph Map.empty) = [''d'', ''c'', ''b'', ''a'']" by code_simp
  have k: "set (rs_ready_ids (compute_ready_set sched_graph Map.empty)) \<subseteq> set (node_ids sched_graph)"
    unfolding r by (simp add: node_ids_def sched_graph_def)
  from schedule_partitions_ready[OF sched_graph_wf k] show ?thesis unfolding sched_plan_def r by blast
qed

theorem schedule_batch_conflict_free_witness:
  "\<exists>n m. node sched_graph ''a'' = Some n \<and> node sched_graph ''c'' = Some m \<and> tn_write_set n \<noteq> []
     \<and> \<not> write_sets_overlap (tn_write_set n) (tn_write_set m)"
proof -
  let ?a = "\<lparr>sa_node_id = ''a'', sa_worker_id = ''w1'', sa_priority = 2\<rparr>"
  let ?c = "\<lparr>sa_node_id = ''c'', sa_worker_id = ''w2'', sa_priority = 0\<rparr>"
  obtain n m where nm: "node sched_graph ''a'' = Some n" "node sched_graph ''c'' = Some m"
    "tn_write_set n \<noteq> []" by (simp add: node_def sched_graph_def task_node_def)
  from schedule_batch_conflict_free[OF sched_graph_wf sched_plan_once, of ?a ?c n m] nm
  show ?thesis by auto
qed

theorem schedule_deterministic_witness:
  "mset sched_workers = mset (rev sched_workers) \<and>
   schedule_once sched_graph \<lparr>rs_checks = [], rs_ready_ids = [''a'', ''b'']\<rparr> sched_workers
     \<lparr>sp_max_parallel = 2\<rparr> [] Map.empty
   = schedule_once sched_graph \<lparr>rs_checks = [], rs_ready_ids = [''b'', ''a'']\<rparr> (rev sched_workers)
     \<lparr>sp_max_parallel = 2\<rparr> [] Map.empty"
proof
  show ms: "mset sched_workers = mset (rev sched_workers)" by simp
  show "schedule_once sched_graph \<lparr>rs_checks = [], rs_ready_ids = [''a'', ''b'']\<rparr> sched_workers
     \<lparr>sp_max_parallel = 2\<rparr> [] Map.empty
   = schedule_once sched_graph \<lparr>rs_checks = [], rs_ready_ids = [''b'', ''a'']\<rparr> (rev sched_workers)
     \<lparr>sp_max_parallel = 2\<rparr> [] Map.empty"
    by (rule schedule_deterministic[OF sched_graph_wf _ _ ms])
       (simp_all add: node_ids_def sched_graph_def sched_workers_def)
qed

theorem schedule_blocks_truthful_witness:
  "\<exists>plan b n. sched_plan 2 = Inr plan \<and> b \<in> set (pl_blocked plan) \<and> br_kind b = CAPACITY
     \<and> node sched_graph (br_node_id b) = Some n \<and> (\<forall>a \<in> set (pl_selected plan). tn_priority n \<le> sa_priority a)"
proof -
  let ?b = "\<lparr>br_node_id = ''d'', br_reason = ''capacity: all slots filled'', br_kind = CAPACITY\<rparr>"
  obtain n where n: "node sched_graph ''d'' = Some n" by (simp add: node_def sched_graph_def)
  from schedule_blocks_truthful[OF sched_graph_wf sched_plan_once, of ?b n] n sched_plan_2
  show ?thesis by (intro exI[of _ _] exI[of _ ?b] exI[of _ n] conjI) auto
qed

end
