(* ===== verification/Graph_Dispatch.thy ===== *)
theory Graph_Dispatch
  imports Job_Control Scheduler Json_Text
begin

text \<open>
  The durable graph-dispatch adapter, \<^verbatim>\<open>src/src/a_conductor/graph/dispatch.py\<close>, over the
  operations of the port \<^verbatim>\<open>DurableGraphDispatchPort\<close>. SHA-256 is a parameter, a function
  from the JSON text to its hexadecimal digest; the JSON text itself is modelled.
\<close>

section \<open>Keys, requests and results\<close>

definition dispatch_text :: "string \<Rightarrow> string \<Rightarrow> nat \<Rightarrow> exn + string" where
  "dispatch_text v field max_length =
     (if blank v \<or> CHR 0x00 \<in> set v \<or> CHR 0x0D \<in> set v \<or> CHR 0x0A \<in> set v \<or> length v > max_length
      then Inl (ValueErr field) else Inr (py_strip v))"

datatype GraphDispatchMode = INTERACTIVE_PULL | PROGRAMMATIC_PUSH

fun mode_value :: "GraphDispatchMode \<Rightarrow> string" where
  "mode_value INTERACTIVE_PULL = ''INTERACTIVE_PULL''"
| "mode_value PROGRAMMATIC_PUSH = ''PROGRAMMATIC_PUSH''"

definition StaticWorkerDispatchModeResolver :: "GraphDispatchMode dict \<Rightarrow> exn + GraphDispatchMode dict" where
  "StaticWorkerDispatchModeResolver modes =
     res_fold (\<lambda>(w, mode) copied.
       res_bind (dispatch_text w ''worker_id'' 128) (\<lambda>w. Inr (AList.update w mode copied))) modes []"

definition static_resolve :: "GraphDispatchMode dict \<Rightarrow> string \<Rightarrow> exn + GraphDispatchMode option" where
  "static_resolve modes w = res_bind (dispatch_text w ''worker_id'' 128) (\<lambda>w. Inr (map_of modes w))"

record GraphDispatchKey =
  gk_graph_id :: string
  gk_graph_run_id :: string
  gk_node_id :: string

definition GraphDispatchKey_post_init :: "GraphDispatchKey \<Rightarrow> exn + GraphDispatchKey" where
  "GraphDispatchKey_post_init k =
     res_bind (dispatch_text (gk_graph_id k) ''graph_id'' 256) (\<lambda>g.
     res_bind (dispatch_text (gk_graph_run_id k) ''graph_run_id'' 256) (\<lambda>r.
     res_bind (dispatch_text (gk_node_id k) ''node_id'' 256) (\<lambda>n.
     Inr \<lparr>gk_graph_id = g, gk_graph_run_id = r, gk_node_id = n\<rparr>)))"

definition key_payload :: "GraphDispatchKey \<Rightarrow> string" where
  "key_payload k = json_object
     [(''graph_id'', json_string (gk_graph_id k)), (''graph_run_id'', json_string (gk_graph_run_id k)),
      (''node_id'', json_string (gk_node_id k))]"

definition key_job_id :: "(string \<Rightarrow> string) \<Rightarrow> GraphDispatchKey \<Rightarrow> string" where
  "key_job_id sha k = ''graph-dispatch-'' @ sha (key_payload k)"

record GraphDispatchRequest =
  gr_key :: GraphDispatchKey
  gr_assignment :: SelectedAssignment
  gr_project_id :: string
  gr_work_order_ref :: string
  gr_operation_ref :: string
  gr_dispatch_mode :: GraphDispatchMode
  gr_max_attempts :: int

definition GraphDispatchRequest_post_init :: "GraphDispatchRequest \<Rightarrow> exn + GraphDispatchRequest" where
  "GraphDispatchRequest_post_init q =
     (if sa_node_id (gr_assignment q) \<noteq> gk_node_id (gr_key q)
      then Inl (ValueErr ''assignment node must match dispatch key'')
      else res_bind (dispatch_text (gr_project_id q) ''project_id'' 128) (\<lambda>p.
      res_bind (dispatch_text (gr_work_order_ref q) ''work_order_ref'' 512) (\<lambda>w.
      res_bind (dispatch_text (gr_operation_ref q) ''operation_ref'' 128) (\<lambda>ref.
      if gr_max_attempts q < 1 then Inl (ValueErr ''max_attempts'')
      else Inr (q\<lparr>gr_project_id := p, gr_work_order_ref := w, gr_operation_ref := ref\<rparr>)))))"

record DispatchGateDecision =
  gd_allowed :: bool
  gd_reason_code :: string
  gd_evidence_ref :: "string option"

definition DispatchGateDecision_post_init :: "DispatchGateDecision \<Rightarrow> exn + DispatchGateDecision" where
  "DispatchGateDecision_post_init d =
     res_bind (dispatch_text (gd_reason_code d) ''reason_code'' 128) (\<lambda>c.
     case gd_evidence_ref d of
       None \<Rightarrow> Inr (d\<lparr>gd_reason_code := c\<rparr>)
     | Some e \<Rightarrow> res_bind (dispatch_text e ''evidence_ref'' 512) (\<lambda>e.
         Inr (d\<lparr>gd_reason_code := c, gd_evidence_ref := Some e\<rparr>)))"

datatype GraphDispatchAction = EXECUTED | OFFERED | DISPATCH_BLOCKED | EXISTING | RECONCILE

record GraphDispatchResult =
  gx_action :: GraphDispatchAction
  gx_job :: JobRuntimeState
  gx_reason_code :: string
  gx_execution :: "JobExecutionOutcome option"

definition GraphDispatchResult_new ::
  "GraphDispatchAction \<Rightarrow> JobRuntimeState \<Rightarrow> string \<Rightarrow> JobExecutionOutcome option \<Rightarrow> exn + GraphDispatchResult" where
  "GraphDispatchResult_new act job reason execution =
     res_bind (dispatch_text reason ''reason_code'' 128) (\<lambda>_.
       Inr \<lparr>gx_action = act, gx_job = job, gx_reason_code = reason, gx_execution = execution\<rparr>)"

section \<open>The coordinator\<close>

text \<open>The operations of \<^verbatim>\<open>DurableGraphDispatchPort\<close>.\<close>

record 's dispatch_port =
  dp_create :: "string \<Rightarrow> string \<Rightarrow> string \<Rightarrow> int \<Rightarrow> ('s, JobRuntimeState) action"
  dp_get :: "string \<Rightarrow> ('s, JobRuntimeState) action"
  dp_events :: "string \<Rightarrow> ('s, JobEvent list) action"
  dp_checkpoint :: "string \<Rightarrow> int \<Rightarrow> string \<Rightarrow> string option \<Rightarrow> ('s, JobRuntimeState) action"
  dp_mark_ready :: "string \<Rightarrow> int \<Rightarrow> ('s, JobRuntimeState) action"
  dp_claim :: "string \<Rightarrow> int \<Rightarrow> string \<Rightarrow> ('s, JobRuntimeState) action"
  dp_block :: "string \<Rightarrow> int \<Rightarrow> string \<Rightarrow> string option \<Rightarrow> ('s, JobRuntimeState) action"
  dp_gate :: "string \<Rightarrow> int \<Rightarrow> string \<Rightarrow> string option \<Rightarrow> ('s, JobRuntimeState) action"
  dp_execute :: "string \<Rightarrow> int \<Rightarrow> string \<Rightarrow> string \<Rightarrow> ('s, JobExecutionOutcome) action"

definition EXISTING_STATES :: "TaskState list" where
  "EXISTING_STATES = [VERIFYING, REVIEW_PENDING, COMPLETE, FAILED, CANCELLED]"

definition RECONCILE_STATES :: "TaskState list" where
  "RECONCILE_STATES = [EXECUTING, RECOVERY_NEEDED, CHANGES_REQUIRED, REPAIRING, PLANNING]"

definition DISPATCH_META_PREFIX :: string where
  "DISPATCH_META_PREFIX = ''graph-dispatch-meta:''"

definition metadata_payload :: "GraphDispatchRequest \<Rightarrow> string" where
  "metadata_payload q = json_object
     [(''dispatch_mode'', json_string (mode_value (gr_dispatch_mode q))),
      (''graph_id'', json_string (gk_graph_id (gr_key q))),
      (''graph_run_id'', json_string (gk_graph_run_id (gr_key q))),
      (''max_attempts'', show_int (gr_max_attempts q)),
      (''node_id'', json_string (gk_node_id (gr_key q))),
      (''operation_ref'', json_string (gr_operation_ref q)),
      (''project_id'', json_string (gr_project_id q)),
      (''work_order_ref'', json_string (gr_work_order_ref q)),
      (''worker_id'', json_string (sa_worker_id (gr_assignment q)))]"

definition dispatch_metadata_ref :: "(string \<Rightarrow> string) \<Rightarrow> GraphDispatchRequest \<Rightarrow> string" where
  "dispatch_metadata_ref sha q = DISPATCH_META_PREFIX @ sha (metadata_payload q)"

definition starts_with :: "string \<Rightarrow> string \<Rightarrow> bool" where
  "starts_with s p = (take (length p) s = p)"

definition metadata_refs :: "JobEvent list \<Rightarrow> string list" where
  "metadata_refs evs = filter (\<lambda>c. starts_with c DISPATCH_META_PREFIX) (List.map_filter je_checkpoint_ref evs)"

definition ensure_metadata ::
  "(string \<Rightarrow> string) \<Rightarrow> 's dispatch_port \<Rightarrow> GraphDispatchRequest \<Rightarrow> JobRuntimeState \<Rightarrow> ('s, JobRuntimeState) action" where
  "ensure_metadata sha P q job =
     andthen (dp_events P (js_job_id job)) (\<lambda>evs.
       let refs = metadata_refs evs in
       if refs \<noteq> [] then
         (if length refs \<noteq> 1 then throw (GraphDispatchErr ''DISPATCH_METADATA_AMBIGUOUS'')
          else if hd refs \<noteq> dispatch_metadata_ref sha q then throw (GraphDispatchErr ''DISPATCH_JOB_IDENTITY_MISMATCH'')
          else dp_get P (js_job_id job))
       else if js_state job \<noteq> NEW then throw (GraphDispatchErr ''DISPATCH_METADATA_MISSING'')
       else dp_checkpoint P (js_job_id job) (js_version job) (dispatch_metadata_ref sha q) None)"

definition load_or_create ::
  "(string \<Rightarrow> string) \<Rightarrow> 's dispatch_port \<Rightarrow> GraphDispatchRequest \<Rightarrow> ('s, JobRuntimeState) action" where
  "load_or_create sha P q =
     (let job_id = key_job_id sha (gr_key q) in
      andthen
        (catch (dp_get P job_id) (\<lambda>e.
           if e \<noteq> JobStoreErr ''JOB_NOT_FOUND'' then throw e
           else catch (dp_create P job_id (gr_work_order_ref q) (gr_project_id q) (gr_max_attempts q)) (\<lambda>e.
             if e \<noteq> JobStoreErr ''JOB_ALREADY_EXISTS'' then throw e else dp_get P job_id))) (\<lambda>job.
        if js_work_order_ref job \<noteq> gr_work_order_ref q \<or> js_project_id job \<noteq> gr_project_id q
           \<or> js_max_attempts job \<noteq> gr_max_attempts q
        then throw (GraphDispatchErr ''DISPATCH_JOB_IDENTITY_MISMATCH'')
        else ensure_metadata sha P q job))"

definition reconcile ::
  "(string \<Rightarrow> string) \<Rightarrow> 's dispatch_port \<Rightarrow> GraphDispatchRequest \<Rightarrow> string \<Rightarrow> ('s, GraphDispatchResult) action" where
  "reconcile sha P q reason =
     andthen (dp_get P (key_job_id sha (gr_key q))) (\<lambda>latest.
       lift_res (GraphDispatchResult_new RECONCILE latest reason None))"

text \<open>
  The moves that bring a waiting job to its claim: a blocked job is released if the gate
  allows it, a new one is made ready, and a ready one is claimed for the worker.
\<close>

definition make_ready ::
  "'s dispatch_port \<Rightarrow> JobRuntimeState \<Rightarrow> ('s, JobRuntimeState) action" where
  "make_ready P job =
     (if js_state job = TaskState.BLOCKED \<or> js_state job = NEW
      then dp_mark_ready P (js_job_id job) (js_version job) else ret job)"

definition claim_ready ::
  "'s dispatch_port \<Rightarrow> string \<Rightarrow> JobRuntimeState \<Rightarrow> ('s, JobRuntimeState) action" where
  "claim_ready P worker job =
     (if js_state job = READY then dp_claim P (js_job_id job) (js_version job) worker else ret job)"

definition assert_worker :: "JobRuntimeState \<Rightarrow> string \<Rightarrow> exn + unit" where
  "assert_worker job worker =
     (if js_worker_id job \<noteq> None \<and> js_worker_id job \<noteq> Some worker
      then Inl (GraphDispatchErr ''WORKER_CLAIM_CONFLICT'') else Inr ())"

text \<open>Gate, offer or execute a claimed job.\<close>

definition run_claimed ::
  "'s dispatch_port \<Rightarrow> GraphDispatchRequest \<Rightarrow> DispatchGateDecision \<Rightarrow> JobRuntimeState
     \<Rightarrow> ('s, GraphDispatchResult) action" where
  "run_claimed P q g job =
     (let worker = sa_worker_id (gr_assignment q) in
      if js_state job \<notin> {CLAIMED, GATING} then
        lift_res (GraphDispatchResult_new RECONCILE job (''JOB_STATE_'' @ task_state_value (js_state job)) None)
      else if \<not> gd_allowed g then
        andthen (dp_block P (js_job_id job) (js_version job) worker (gd_evidence_ref g)) (\<lambda>blocked.
          lift_res (GraphDispatchResult_new DISPATCH_BLOCKED blocked (gd_reason_code g) None))
      else if gr_dispatch_mode q = INTERACTIVE_PULL then
        lift_res (GraphDispatchResult_new OFFERED job ''INTERACTIVE_PULL_OFFERED'' None)
      else
        andthen (if js_state job = CLAIMED
                 then dp_gate P (js_job_id job) (js_version job) worker (gd_evidence_ref g) else ret job) (\<lambda>job.
        andthen (dp_execute P (js_job_id job) (js_version job) worker (gr_operation_ref q)) (\<lambda>outcome.
          if jo_success outcome then
            lift_res (GraphDispatchResult_new EXECUTED (jo_job outcome) ''EXECUTION_REACHED_VERIFYING'' (Some outcome))
          else
            lift_res (GraphDispatchResult_new RECONCILE (jo_job outcome)
              (case jo_error_code outcome of None \<Rightarrow> ''EXECUTION_RECONCILE_REQUIRED'' | Some c \<Rightarrow> c) (Some outcome)))))"

definition dispatch_job ::
  "'s dispatch_port \<Rightarrow> GraphDispatchRequest \<Rightarrow> DispatchGateDecision \<Rightarrow> JobRuntimeState
     \<Rightarrow> ('s, GraphDispatchResult) action" where
  "dispatch_job P q g job =
     (if js_state job \<in> set EXISTING_STATES then
        lift_res (GraphDispatchResult_new EXISTING job (''JOB_ALREADY_'' @ task_state_value (js_state job)) None)
      else if js_state job \<in> set RECONCILE_STATES then
        lift_res (GraphDispatchResult_new RECONCILE job (''JOB_STATE_'' @ task_state_value (js_state job)) None)
      else if js_state job = TaskState.BLOCKED \<and> \<not> gd_allowed g then
        lift_res (GraphDispatchResult_new DISPATCH_BLOCKED job (gd_reason_code g) None)
      else
        andthen (make_ready P job) (\<lambda>job.
        andthen (claim_ready P (sa_worker_id (gr_assignment q)) job) (\<lambda>job.
        andthen (lift_res (assert_worker job (sa_worker_id (gr_assignment q)))) (\<lambda>_.
        run_claimed P q g job))))"

definition dispatch_failed ::
  "(string \<Rightarrow> string) \<Rightarrow> 's dispatch_port \<Rightarrow> GraphDispatchRequest \<Rightarrow> exn \<Rightarrow> ('s, GraphDispatchResult) action" where
  "dispatch_failed sha P q e =
     (case e of
        JobStoreErr c \<Rightarrow> if c = ''JOB_VERSION_CONFLICT'' then reconcile sha P q c else throw e
      | CoordinatorErr c recovery_required \<Rightarrow> if recovery_required then reconcile sha P q c else throw e
      | JobStateErr c \<Rightarrow> reconcile sha P q c
      | _ \<Rightarrow> throw e)"

definition dispatch ::
  "(string \<Rightarrow> string) \<Rightarrow> 's dispatch_port \<Rightarrow> (string \<Rightarrow> exn + GraphDispatchMode option)
     \<Rightarrow> GraphDispatchRequest \<Rightarrow> DispatchGateDecision \<Rightarrow> ('s, GraphDispatchResult) action" where
  "dispatch sha P resolve q g =
     andthen (lift_res (resolve (sa_worker_id (gr_assignment q)))) (\<lambda>mode.
     case mode of
       None \<Rightarrow> throw (GraphDispatchErr ''DISPATCH_MODE_UNKNOWN'')
     | Some m \<Rightarrow>
         if gr_dispatch_mode q \<noteq> m then throw (GraphDispatchErr ''DISPATCH_MODE_MISMATCH'')
         else catch (andthen (load_or_create sha P q) (dispatch_job P q g)) (dispatch_failed sha P q))"

section \<open>The port contract\<close>

text \<open>
  A write of the port moves the named job by the plan the policy makes for it, from the
  named version, or changes nothing.
\<close>

definition port_moved ::
  "('s \<Rightarrow> string \<Rightarrow> JobRuntimeState option) \<Rightarrow> string \<Rightarrow> int \<Rightarrow> TaskState \<Rightarrow> string option \<Rightarrow> 's
     \<Rightarrow> exn + JobRuntimeState \<Rightarrow> 's \<Rightarrow> bool" where
  "port_moved job i v t w s r s' = (case r of
       Inl _ \<Rightarrow> job s' = job s
     | Inr j' \<Rightarrow> (\<exists>j p. job s i = Some j \<and> js_version j = v \<and> plan_job_transition j t w None = Inr p
         \<and> j' = apply_plan j p \<and> job s' = (job s)(i \<mapsto> j')))"

definition port_executed ::
  "('s \<Rightarrow> string \<Rightarrow> JobRuntimeState option) \<Rightarrow> ('s \<Rightarrow> calls) \<Rightarrow> string \<Rightarrow> int \<Rightarrow> string \<Rightarrow> string \<Rightarrow> 's
     \<Rightarrow> exn + JobExecutionOutcome \<Rightarrow> 's \<Rightarrow> bool" where
  "port_executed job trace i v w op s r s' \<longleftrightarrow>
     (trace s' = trace s \<and> (\<exists>x. r = Inl x) \<and> job s' = job s)
     \<or> (\<exists>j ctx. job s i = Some j \<and> js_state j = GATING \<and> js_worker_id j = Some w \<and> js_version j = v
          \<and> trace s' = trace s @ [(op, ctx)] \<and> jx_job_id ctx = i \<and> jx_worker_id ctx = w
          \<and> jx_attempt_no ctx \<le> js_max_attempts j
          \<and> (case r of Inl x \<Rightarrow> \<exists>code. x = CoordinatorErr code True | Inr out \<Rightarrow> outcome_ok w out (job s' i)))"

definition past_dispatch :: "JobRuntimeState \<Rightarrow> bool" where
  "past_dispatch j \<longleftrightarrow> js_state j \<in> set EXISTING_STATES \<or> js_state j \<in> set RECONCILE_STATES"

locale graph_dispatch_port =
  fixes P :: "'s dispatch_port"
    and job :: "'s \<Rightarrow> string \<Rightarrow> JobRuntimeState option"
    and trace :: "'s \<Rightarrow> calls"
    and good :: "'s \<Rightarrow> bool"
  assumes job_law: "good s \<Longrightarrow> job s i = Some j \<Longrightarrow> job_reachable j \<and> js_job_id j = i"
    and get_law: "good s \<Longrightarrow> dp_get P i s = (r, s') \<Longrightarrow> good s' \<and> job s' = job s \<and> trace s' = trace s
      \<and> (\<forall>j. r = Inr j \<longrightarrow> job s i = Some j) \<and> (r = Inl (JobStoreErr ''JOB_NOT_FOUND'') \<longrightarrow> job s i = None)"
    and events_law: "good s \<Longrightarrow> dp_events P i s = (r', s') \<Longrightarrow> good s' \<and> job s' = job s \<and> trace s' = trace s"
    and create_law: "good s \<Longrightarrow> dp_create P i wo pr m s = (r, s') \<Longrightarrow> good s' \<and> trace s' = trace s
      \<and> (case r of Inl _ \<Rightarrow> job s' = job s | Inr j \<Rightarrow> job s i = None \<and> job s' = (job s)(i \<mapsto> j))"
    and checkpoint_law: "good s \<Longrightarrow> dp_checkpoint P i v c ev s = (r, s') \<Longrightarrow> good s' \<and> trace s' = trace s
      \<and> (case r of Inl _ \<Rightarrow> job s' = job s
           | Inr j' \<Rightarrow> (\<exists>j. job s i = Some j \<and> js_version j = v \<and> j' = bump j \<and> job s' = (job s)(i \<mapsto> j')))"
    and ready_law: "good s \<Longrightarrow> dp_mark_ready P i v s = (r, s') \<Longrightarrow>
      good s' \<and> trace s' = trace s \<and> port_moved job i v READY None s r s'"
    and claim_law: "good s \<Longrightarrow> dp_claim P i v w s = (r, s') \<Longrightarrow>
      good s' \<and> trace s' = trace s \<and> port_moved job i v CLAIMED (Some w) s r s'"
    and block_law: "good s \<Longrightarrow> dp_block P i v w ev s = (r, s') \<Longrightarrow>
      good s' \<and> trace s' = trace s \<and> port_moved job i v TaskState.BLOCKED (Some w) s r s'"
    and gate_law: "good s \<Longrightarrow> dp_gate P i v w ev s = (r, s') \<Longrightarrow>
      good s' \<and> trace s' = trace s \<and> port_moved job i v GATING (Some w) s r s'"
    and execute_law: "good s \<Longrightarrow> dp_execute P i v w op s = (re, s') \<Longrightarrow>
      good s' \<and> port_executed job trace i v w op s re s'"
begin

text \<open>Nothing executed yet, and the stored job is the one in hand.\<close>

definition holding :: "calls \<Rightarrow> string \<Rightarrow> JobRuntimeState \<Rightarrow> 's \<Rightarrow> bool" where
  "holding tr i j s \<longleftrightarrow> good s \<and> trace s = tr \<and> job s i = Some j"

definition idle :: "calls \<Rightarrow> 's \<Rightarrow> bool" where
  "idle tr s \<longleftrightarrow> good s \<and> trace s = tr"

lemma holding_id: "holding tr i j s \<Longrightarrow> js_job_id j = i \<and> job_inv j"
  using job_law job_reachable_inv unfolding holding_def by blast

lemma get_triple: "triple (idle tr) (dp_get P i) (holding tr i) (\<lambda>e. idle tr)"
  unfolding idle_def holding_def by (rule tripleI) (use get_law in fastforce)+

lemma create_triple: "triple (idle tr) (dp_create P i wo pr m) (holding tr i) (\<lambda>e. idle tr)"
  unfolding idle_def holding_def by (rule tripleI) (use create_law in fastforce)+

lemma events_triple: "triple (holding tr i j) (dp_events P k) (\<lambda>_. holding tr i j) (\<lambda>e. idle tr)"
  unfolding idle_def holding_def by (rule tripleI) (use events_law in fastforce)+

lemma checkpoint_triple: "triple (idle tr) (dp_checkpoint P i v c ev) (holding tr i) (\<lambda>e. idle tr)"
  unfolding idle_def holding_def by (rule tripleI) (use checkpoint_law in fastforce)+

lemma moved_triple:
  assumes "\<And>s r s'. good s \<Longrightarrow> m s = (r, s') \<Longrightarrow> good s' \<and> trace s' = trace s \<and> port_moved job i v t w s r s'"
  shows "triple (holding tr i j) m
    (\<lambda>j' s. holding tr i j' s \<and> (\<exists>p. plan_job_transition j t w None = Inr p \<and> j' = apply_plan j p)) (\<lambda>e. idle tr)"
  unfolding idle_def holding_def by (rule tripleI) (use assms in \<open>fastforce simp: port_moved_def\<close>)+

lemma holding_idle: "holding tr i j s \<Longrightarrow> idle tr s"
  by (simp add: holding_def idle_def)

lemma ensure_metadata_triple:
  assumes "js_job_id j = i"
  shows "triple (holding tr i j) (ensure_metadata sha P q j) (holding tr i) (\<lambda>e. idle tr)"
proof -
  have g: "triple (holding tr i j) (dp_get P i) (holding tr i) (\<lambda>e. idle tr)"
    by (rule triple_conseq[OF get_triple]) (auto intro: holding_idle)
  have c: "triple (holding tr i j) (dp_checkpoint P i v x y) (holding tr i) (\<lambda>e. idle tr)" for v x y
    by (rule triple_conseq[OF checkpoint_triple]) (auto intro: holding_idle)
  have t: "triple (holding tr i j) (throw e) (holding tr i) (\<lambda>e. idle tr)" for e
    by (rule triple_throw) (rule holding_idle)
  show ?thesis unfolding ensure_metadata_def assms
    by (rule triple_andthen[OF events_triple]) (simp add: Let_def g c t)
qed

lemma load_or_create_triple:
  "triple (idle tr) (load_or_create sha P q) (holding tr (key_job_id sha (gr_key q))) (\<lambda>e. idle tr)"
proof -
  let ?i = "key_job_id sha (gr_key q)"
  have t: "triple (idle tr) (throw e) (holding tr ?i) (\<lambda>e. idle tr)" for e by (rule triple_throw)
  have inner: "triple (idle tr) (catch (dp_create P ?i wo pr m) (\<lambda>e.
      if e \<noteq> JobStoreErr ''JOB_ALREADY_EXISTS'' then throw e else dp_get P ?i)) (holding tr ?i) (\<lambda>e. idle tr)" for wo pr m
    by (rule triple_catch[OF create_triple]) (simp add: t get_triple)
  have outer: "triple (idle tr) (catch (dp_get P ?i) (\<lambda>e.
      if e \<noteq> JobStoreErr ''JOB_NOT_FOUND'' then throw e
      else catch (dp_create P ?i wo pr m) (\<lambda>e. if e \<noteq> JobStoreErr ''JOB_ALREADY_EXISTS'' then throw e else dp_get P ?i)))
      (holding tr ?i) (\<lambda>e. idle tr)" for wo pr m
    by (rule triple_catch[OF get_triple]) (simp add: t inner)
  have check: "triple (holding tr ?i j) (if b then throw x else ensure_metadata sha P q j) (holding tr ?i) (\<lambda>e. idle tr)" for b x j
  proof (rule triple_pre)
    fix s
    assume h: "holding tr ?i j s"
    from holding_id[OF h] have "js_job_id j = ?i" by simp
    from ensure_metadata_triple[OF this] show "triple (\<lambda>s'. s' = s)
      (if b then throw x else ensure_metadata sha P q j) (holding tr ?i) (\<lambda>e. idle tr)"
      using h holding_idle[OF h] by (auto simp: triple_def throw_def)
  qed
  show ?thesis unfolding load_or_create_def Let_def by (rule triple_andthen[OF outer check])
qed

text \<open>What a dispatch may have done when it ends, and what its result says.\<close>

definition settled :: "calls \<Rightarrow> GraphDispatchRequest \<Rightarrow> DispatchGateDecision \<Rightarrow> string \<Rightarrow> 's \<Rightarrow> bool" where
  "settled tr q g i s \<longleftrightarrow> good s \<and> (trace s = tr \<or> (gd_allowed g \<and> gr_dispatch_mode q = PROGRAMMATIC_PUSH
     \<and> (\<exists>ctx. trace s = tr @ [(gr_operation_ref q, ctx)] \<and> jx_job_id ctx = i
          \<and> jx_worker_id ctx = sa_worker_id (gr_assignment q))))"

definition result_ok ::
  "calls \<Rightarrow> GraphDispatchRequest \<Rightarrow> DispatchGateDecision \<Rightarrow> string \<Rightarrow> GraphDispatchResult \<Rightarrow> 's \<Rightarrow> bool" where
  "result_ok tr q g i res s \<longleftrightarrow> settled tr q g i s \<and> job s i = Some (gx_job res) \<and>
     (case gx_action res of
        EXECUTED \<Rightarrow> trace s \<noteq> tr \<and> js_state (gx_job res) = VERIFYING
          \<and> js_worker_id (gx_job res) = Some (sa_worker_id (gr_assignment q))
      | OFFERED \<Rightarrow> trace s = tr \<and> gd_allowed g \<and> js_state (gx_job res) \<in> {CLAIMED, GATING}
          \<and> js_worker_id (gx_job res) = Some (sa_worker_id (gr_assignment q))
      | DISPATCH_BLOCKED \<Rightarrow> trace s = tr \<and> \<not> gd_allowed g \<and> js_state (gx_job res) = TaskState.BLOCKED
      | EXISTING \<Rightarrow> trace s = tr \<and> js_state (gx_job res) \<in> set EXISTING_STATES
      | RECONCILE \<Rightarrow> True)"

lemma settled_idle: "idle tr s \<Longrightarrow> settled tr q g i s"
  by (simp add: idle_def settled_def)

lemma result_triple:
  assumes "\<And>s. Pre s \<Longrightarrow> result_ok tr q g i \<lparr>gx_action = a, gx_job = j, gx_reason_code = c, gx_execution = x\<rparr> s"
  shows "triple Pre (lift_res (GraphDispatchResult_new a j c x)) (result_ok tr q g i) (\<lambda>e. settled tr q g i)"
proof (rule triple_lift_res)
  fix s e
  assume "Pre s"
  from assms[OF this] show "settled tr q g i s" by (simp add: result_ok_def)
next
  fix s y
  assume "Pre s" "GraphDispatchResult_new a j c x = Inr y"
  then show "result_ok tr q g i y s" using assms by (auto simp: GraphDispatchResult_new_def)
qed

lemma held_result:
  assumes "holding tr i j s"
    and "case a of EXECUTED \<Rightarrow> False
      | OFFERED \<Rightarrow> gd_allowed g \<and> js_state j \<in> {CLAIMED, GATING} \<and> js_worker_id j = Some (sa_worker_id (gr_assignment q))
      | DISPATCH_BLOCKED \<Rightarrow> \<not> gd_allowed g \<and> js_state j = TaskState.BLOCKED
      | EXISTING \<Rightarrow> js_state j \<in> set EXISTING_STATES | RECONCILE \<Rightarrow> True"
  shows "result_ok tr q g i \<lparr>gx_action = a, gx_job = j, gx_reason_code = c, gx_execution = x\<rparr> s"
  using assms by (auto simp: result_ok_def settled_def holding_def split: GraphDispatchAction.splits)

text \<open>The execution of a gated job and the report on it.\<close>

lemma execute_triple:
  assumes g: "gd_allowed g" "gr_dispatch_mode q = PROGRAMMATIC_PUSH"
  shows "triple (holding tr i j) (dp_execute P i v (sa_worker_id (gr_assignment q)) (gr_operation_ref q))
    (\<lambda>out s. settled tr q g i s \<and> trace s \<noteq> tr \<and> outcome_ok (sa_worker_id (gr_assignment q)) out (job s i))
    (\<lambda>e. settled tr q g i)"
proof (rule tripleI)
  fix s e s'
  assume h: "holding tr i j s"
    and e: "dp_execute P i v (sa_worker_id (gr_assignment q)) (gr_operation_ref q) s = (Inl e, s')"
  show "settled tr q g i s'"
    using execute_law[OF _ e] h g by (auto simp: holding_def settled_def port_executed_def)
next
  fix s out s'
  assume h: "holding tr i j s"
    and e: "dp_execute P i v (sa_worker_id (gr_assignment q)) (gr_operation_ref q) s = (Inr out, s')"
  show "settled tr q g i s' \<and> trace s' \<noteq> tr \<and> outcome_ok (sa_worker_id (gr_assignment q)) out (job s' i)"
    using execute_law[OF _ e] h g by (auto simp: holding_def settled_def port_executed_def)
qed

lemma report_triple:
  "triple (\<lambda>s. settled tr q g i s \<and> trace s \<noteq> tr \<and> outcome_ok (sa_worker_id (gr_assignment q)) out (job s i))
     (if jo_success out then lift_res (GraphDispatchResult_new EXECUTED (jo_job out) c (Some out))
      else lift_res (GraphDispatchResult_new RECONCILE (jo_job out) c' (Some out)))
     (result_ok tr q g i) (\<lambda>e. settled tr q g i)"
  by (rule triple_if; rule result_triple) (auto simp: result_ok_def outcome_ok_def)

lemma run_claimed_triple:
  assumes worker: "js_worker_id j \<in> {None, Some (sa_worker_id (gr_assignment q))}"
    and id: "js_job_id j = i" and inv: "job_inv j"
  shows "triple (holding tr i j) (run_claimed P q g j) (result_ok tr q g i) (\<lambda>e. settled tr q g i)"
proof -
  let ?w = "sa_worker_id (gr_assignment q)"
  have own: "js_worker_id j = Some ?w" if "js_state j \<in> {CLAIMED, GATING}"
    using worker inv that by (auto simp: job_inv_def OWNED_STATES_def)
  have rec: "triple (holding tr i j) (lift_res (GraphDispatchResult_new RECONCILE j c None))
      (result_ok tr q g i) (\<lambda>e. settled tr q g i)" for c
    by (rule result_triple) (rule held_result, simp_all)
  have off: "triple (holding tr i j) (lift_res (GraphDispatchResult_new OFFERED j c None))
      (result_ok tr q g i) (\<lambda>e. settled tr q g i)" if "gd_allowed g" "js_state j \<in> {CLAIMED, GATING}" for c
    by (rule result_triple) (rule held_result, use that own in auto)
  have blk: "triple (holding tr i j) (andthen (dp_block P i v ?w ev) (\<lambda>b.
      lift_res (GraphDispatchResult_new DISPATCH_BLOCKED b c None)))
      (result_ok tr q g i) (\<lambda>e. settled tr q g i)" if "\<not> gd_allowed g" for v ev c
  proof (rule triple_andthen)
    show "triple (holding tr i j) (dp_block P i v ?w ev) (\<lambda>j' s. holding tr i j' s \<and> js_state j' = TaskState.BLOCKED)
        (\<lambda>e. settled tr q g i)"
      by (rule triple_conseq[OF moved_triple[OF block_law]]) (auto dest: plan_fields(2) intro: settled_idle)
    show "triple (\<lambda>s. holding tr i b s \<and> js_state b = TaskState.BLOCKED)
        (lift_res (GraphDispatchResult_new DISPATCH_BLOCKED b c None)) (result_ok tr q g i) (\<lambda>e. settled tr q g i)" for b
      by (rule result_triple) (rule held_result, use that in auto)
  qed
  have gate: "triple (holding tr i j) (if js_state j = CLAIMED then dp_gate P i v ?w ev else ret j)
      (\<lambda>j' s. holding tr i j' s \<and> js_job_id j' = i) (\<lambda>e. settled tr q g i)" for v ev
  proof (rule triple_if)
    show "triple (holding tr i j) (dp_gate P i v ?w ev) (\<lambda>j' s. holding tr i j' s \<and> js_job_id j' = i)
        (\<lambda>e. settled tr q g i)"
      by (rule triple_conseq[OF moved_triple[OF gate_law]]) (auto simp: id intro: settled_idle)
  qed (rule triple_ret, simp add: id)
  have exec: "triple (\<lambda>s. holding tr i k s \<and> js_job_id k = i)
      (andthen (dp_execute P (js_job_id k) (js_version k) ?w (gr_operation_ref q)) (\<lambda>out.
         if jo_success out then lift_res (GraphDispatchResult_new EXECUTED (jo_job out) c (Some out))
         else lift_res (GraphDispatchResult_new RECONCILE (jo_job out) (c' out) (Some out))))
      (result_ok tr q g i) (\<lambda>e. settled tr q g i)"
    if "gd_allowed g" "gr_dispatch_mode q = PROGRAMMATIC_PUSH" for k c c'
  proof (cases "js_job_id k = i")
    case True
    show ?thesis unfolding True
      by (rule triple_conseq[OF triple_andthen[OF execute_triple[OF that] report_triple]]) auto
  qed (simp add: triple_def)
  have push: "gr_dispatch_mode q = PROGRAMMATIC_PUSH" if "gr_dispatch_mode q \<noteq> INTERACTIVE_PULL"
    using that by (cases "gr_dispatch_mode q") auto
  show ?thesis unfolding run_claimed_def Let_def id
    using rec off blk triple_andthen[OF gate exec] push by auto
qed

lemma make_ready_triple:
  "triple (holding tr i j) (make_ready P j) (\<lambda>j' s. holding tr i j' s) (\<lambda>e. settled tr q g i)"
proof (rule triple_pre)
  fix s
  assume h: "holding tr i j s"
  then have id: "js_job_id j = i" using holding_id by blast
  have "triple (holding tr i j) (make_ready P j) (holding tr i) (\<lambda>e. settled tr q g i)"
    unfolding make_ready_def id
    by (rule triple_if, rule triple_conseq[OF moved_triple[OF ready_law]])
       (auto intro: settled_idle triple_ret)
  then show "triple (\<lambda>s'. s' = s) (make_ready P j) (holding tr i) (\<lambda>e. settled tr q g i)"
    by (rule triple_conseq) (use h in auto)
qed

lemma claim_ready_triple:
  "triple (holding tr i j) (claim_ready P w j) (\<lambda>j' s. holding tr i j' s) (\<lambda>e. settled tr q g i)"
proof (rule triple_pre)
  fix s
  assume h: "holding tr i j s"
  then have id: "js_job_id j = i" using holding_id by blast
  have "triple (holding tr i j) (claim_ready P w j) (holding tr i) (\<lambda>e. settled tr q g i)"
    unfolding claim_ready_def id
    by (rule triple_if, rule triple_conseq[OF moved_triple[OF claim_law]])
       (auto intro: settled_idle triple_ret)
  then show "triple (\<lambda>s'. s' = s) (claim_ready P w j) (holding tr i) (\<lambda>e. settled tr q g i)"
    by (rule triple_conseq) (use h in auto)
qed

lemma assert_run_triple:
  "triple (holding tr i j) (andthen (lift_res (assert_worker j (sa_worker_id (gr_assignment q)))) (\<lambda>_. run_claimed P q g j))
     (result_ok tr q g i) (\<lambda>e. settled tr q g i)"
proof (rule triple_pre)
  fix s
  assume h: "holding tr i j s"
  note k = holding_id[OF h]
  show "triple (\<lambda>s'. s' = s) (andthen (lift_res (assert_worker j (sa_worker_id (gr_assignment q))))
      (\<lambda>_. run_claimed P q g j)) (result_ok tr q g i) (\<lambda>e. settled tr q g i)"
  proof (cases "js_worker_id j \<in> {None, Some (sa_worker_id (gr_assignment q))}")
    case True
    then have "assert_worker j (sa_worker_id (gr_assignment q)) = Inr ()" by (auto simp: assert_worker_def)
    then show ?thesis using run_claimed_triple[OF True, of i tr g] k h
      by (auto simp: triple_def andthen_def lift_res_def)
  next
    case False
    then show ?thesis using h by (auto simp: triple_def andthen_def lift_res_def assert_worker_def
          intro: settled_idle holding_idle)
  qed
qed

lemma dispatch_job_triple:
  "triple (holding tr i j) (dispatch_job P q g j) (result_ok tr q g i) (\<lambda>e. settled tr q g i)"
  unfolding dispatch_job_def
  by (intro triple_if result_triple triple_andthen[OF make_ready_triple]
      triple_andthen[OF claim_ready_triple] assert_run_triple)
     (erule held_result, simp)+

lemma reconcile_triple:
  "triple (settled tr q g (key_job_id sha (gr_key q))) (reconcile sha P q c)
     (result_ok tr q g (key_job_id sha (gr_key q))) (\<lambda>e. settled tr q g (key_job_id sha (gr_key q)))"
proof -
  let ?i = "key_job_id sha (gr_key q)"
  have "triple (settled tr q g ?i) (dp_get P ?i) (\<lambda>j s. settled tr q g ?i s \<and> job s ?i = Some j) (\<lambda>e. settled tr q g ?i)"
    unfolding settled_def by (rule tripleI) (use get_law in fastforce)+
  then show ?thesis unfolding reconcile_def
    by (rule triple_andthen) (rule result_triple, simp add: result_ok_def)
qed

lemma dispatch_triple:
  "triple (idle tr) (dispatch sha P resolve q g) (result_ok tr q g (key_job_id sha (gr_key q)))
     (\<lambda>e. settled tr q g (key_job_id sha (gr_key q)))"
proof -
  let ?i = "key_job_id sha (gr_key q)"
  have t: "triple (settled tr q g ?i) (throw e) (result_ok tr q g ?i) (\<lambda>e. settled tr q g ?i)" for e
    by (rule triple_throw)
  have fail: "triple (settled tr q g ?i) (dispatch_failed sha P q e) (result_ok tr q g ?i) (\<lambda>e. settled tr q g ?i)" for e
    unfolding dispatch_failed_def using t reconcile_triple by (cases e) auto
  have load: "triple (idle tr) (load_or_create sha P q) (holding tr ?i) (\<lambda>e. settled tr q g ?i)"
    by (rule triple_conseq[OF load_or_create_triple]) (auto intro: settled_idle)
  have main: "triple (idle tr) (catch (andthen (load_or_create sha P q) (dispatch_job P q g)) (dispatch_failed sha P q))
      (result_ok tr q g ?i) (\<lambda>e. settled tr q g ?i)"
    by (rule triple_catch[OF triple_andthen[OF load dispatch_job_triple] fail])
  have early: "triple (idle tr) (throw e) (result_ok tr q g ?i) (\<lambda>e. settled tr q g ?i)" for e
    by (rule triple_throw) (rule settled_idle)
  have "triple (idle tr) (lift_res (resolve (sa_worker_id (gr_assignment q)))) (\<lambda>_. idle tr) (\<lambda>e. settled tr q g ?i)"
    by (rule triple_lift_res) (auto intro: settled_idle)
  then show ?thesis unfolding dispatch_def
    by (rule triple_andthen) (simp split: option.split add: main early)
qed

text \<open>
  A job that has left the states in which it can be dispatched is not touched.
\<close>

definition frozen :: "calls \<Rightarrow> (string \<Rightarrow> JobRuntimeState option) \<Rightarrow> 's \<Rightarrow> bool" where
  "frozen tr m s \<longleftrightarrow> good s \<and> trace s = tr \<and> job s = m"

lemma get_frozen:
  "triple (frozen tr m) (dp_get P i) (\<lambda>j s. frozen tr m s \<and> m i = Some j)
     (\<lambda>e s. frozen tr m s \<and> (e = JobStoreErr ''JOB_NOT_FOUND'' \<longrightarrow> m i = None))"
  unfolding frozen_def by (rule tripleI) (use get_law in fastforce)+

lemma load_frozen:
  assumes j: "m (key_job_id sha (gr_key q)) = Some j" "past_dispatch j"
  shows "triple (frozen tr m) (load_or_create sha P q) (\<lambda>j' s. frozen tr m s \<and> j' = j) (\<lambda>e. frozen tr m)"
proof -
  let ?i = "key_job_id sha (gr_key q)"
  have ne: "js_state j \<noteq> NEW" using j(2) by (auto simp: past_dispatch_def EXISTING_STATES_def RECONCILE_STATES_def)
  have g: "triple (frozen tr m) (dp_get P ?i) (\<lambda>j' s. frozen tr m s \<and> j' = j)
      (\<lambda>e s. frozen tr m s \<and> e \<noteq> JobStoreErr ''JOB_NOT_FOUND'')"
    by (rule triple_conseq[OF get_frozen]) (use j(1) in auto)
  have outer: "triple (frozen tr m) (catch (dp_get P ?i) (\<lambda>e.
      if e \<noteq> JobStoreErr ''JOB_NOT_FOUND'' then throw e else h e))
      (\<lambda>j' s. frozen tr m s \<and> j' = j) (\<lambda>e. frozen tr m)" for h
    by (rule triple_catch[OF g]) (auto simp: triple_def throw_def)
  have meta: "triple (\<lambda>s. frozen tr m s \<and> k = j) (ensure_metadata sha P q k) (\<lambda>j' s. frozen tr m s \<and> j' = j)
      (\<lambda>e. frozen tr m)" for k
  proof (rule triple_pre)
    fix s
    assume s: "frozen tr m s \<and> k = j"
    then have id: "js_job_id k = ?i" using job_law j(1) by (auto simp: frozen_def)
    have ev: "triple (frozen tr m) (dp_events P ?i) (\<lambda>_. frozen tr m) (\<lambda>e. frozen tr m)"
      unfolding frozen_def by (rule tripleI) (use events_law in fastforce)+
    have g2: "triple (frozen tr m) (dp_get P ?i) (\<lambda>j' s. frozen tr m s \<and> j' = j) (\<lambda>e. frozen tr m)"
      by (rule triple_conseq[OF g]) auto
    have t: "triple (frozen tr m) (throw e) (\<lambda>j' s. frozen tr m s \<and> j' = j) (\<lambda>e. frozen tr m)" for e
      by (rule triple_throw)
    have "triple (frozen tr m) (ensure_metadata sha P q j) (\<lambda>j' s. frozen tr m s \<and> j' = j) (\<lambda>e. frozen tr m)"
      unfolding ensure_metadata_def using id s
      by (auto intro!: triple_andthen[OF ev] simp: Let_def g2 t ne)
    then show "triple (\<lambda>s'. s' = s) (ensure_metadata sha P q k) (\<lambda>j' s. frozen tr m s \<and> j' = j) (\<lambda>e. frozen tr m)"
      using s by (auto simp: triple_def)
  qed
  show ?thesis unfolding load_or_create_def Let_def
    by (rule triple_andthen[OF outer], rule triple_if) (auto simp: meta intro: triple_throw)
qed

lemma dispatch_frozen:
  assumes j: "m (key_job_id sha (gr_key q)) = Some j" "past_dispatch j"
  shows "triple (frozen tr m) (dispatch sha P resolve q g)
    (\<lambda>res s. frozen tr m s \<and> gx_action res \<in> {EXISTING, RECONCILE} \<and> gx_job res = j) (\<lambda>e. frozen tr m)"
proof -
  let ?i = "key_job_id sha (gr_key q)" and ?Q = "\<lambda>res s. frozen tr m s \<and> gx_action res \<in> {EXISTING, RECONCILE} \<and> gx_job res = j"
  have new: "triple (\<lambda>s. frozen tr m s \<and> k = j) (lift_res (GraphDispatchResult_new a k c x)) ?Q (\<lambda>e. frozen tr m)"
    if "a \<in> {EXISTING, RECONCILE}" for a k c x
    by (rule triple_lift_res) (use that in \<open>auto simp: GraphDispatchResult_new_def\<close>)
  have body: "triple (\<lambda>s. frozen tr m s \<and> k = j) (dispatch_job P q g k) ?Q (\<lambda>e. frozen tr m)" for k
  proof (cases "k = j")
    case True
    then show ?thesis unfolding dispatch_job_def using j(2) new[of _ j]
      by (auto simp: past_dispatch_def intro!: triple_if)
  qed (simp add: triple_def)
  have t: "triple (frozen tr m) (throw e) ?Q (\<lambda>e. frozen tr m)" for e by (rule triple_throw)
  have rec: "triple (frozen tr m) (reconcile sha P q c) ?Q (\<lambda>e. frozen tr m)" for c
  proof -
    have "triple (frozen tr m) (dp_get P ?i) (\<lambda>k s. frozen tr m s \<and> k = j) (\<lambda>e. frozen tr m)"
      by (rule triple_conseq[OF get_frozen]) (use j(1) in auto)
    then show ?thesis unfolding reconcile_def by (rule triple_andthen) (rule new, simp)
  qed
  have fail: "triple (frozen tr m) (dispatch_failed sha P q e) ?Q (\<lambda>e. frozen tr m)" for e
    unfolding dispatch_failed_def using t rec by (cases e) auto
  have main: "triple (frozen tr m) (catch (andthen (load_or_create sha P q) (dispatch_job P q g)) (dispatch_failed sha P q))
      ?Q (\<lambda>e. frozen tr m)"
    by (rule triple_catch[OF triple_andthen[OF load_frozen[where j = j and m = m, OF j] body] fail])
  have "triple (frozen tr m) (lift_res r) (\<lambda>_. frozen tr m) (\<lambda>e. frozen tr m)" for r
    by (rule triple_lift_res)
  then show ?thesis unfolding dispatch_def
  proof (rule triple_andthen)
    fix x
    show "triple (frozen tr m) (case x of None \<Rightarrow> throw (GraphDispatchErr ''DISPATCH_MODE_UNKNOWN'')
      | Some md \<Rightarrow> if gr_dispatch_mode q \<noteq> md then throw (GraphDispatchErr ''DISPATCH_MODE_MISMATCH'')
         else catch (andthen (load_or_create sha P q) (dispatch_job P q g)) (dispatch_failed sha P q)) ?Q (\<lambda>e. frozen tr m)"
      by (cases x) (simp_all only: option.case t triple_if main)
  qed
qed

end

section \<open>The job control service implements the port\<close>

definition job_control_port :: "(nat \<Rightarrow> string option) \<Rightarrow> JobDb backend \<Rightarrow> control dispatch_port" where
  "job_control_port f backend =
     \<lparr>dp_create = control_create_job f, dp_get = control_get_job, dp_events = control_list_events,
      dp_checkpoint = control_checkpoint f, dp_mark_ready = mark_ready f, dp_claim = claim f,
      dp_block = block f, dp_gate = gate f, dp_execute = execute_operation f backend\<rparr>"

definition control_job :: "control \<Rightarrow> string \<Rightarrow> JobRuntimeState option" where
  "control_job st = db_job (fst st)"

definition control_good :: "JobDb backend \<Rightarrow> control \<Rightarrow> bool" where
  "control_good backend st \<longleftrightarrow> db_inv (fst st) \<and> backend_uses_store backend"

lemma port_sel [simp]:
  "dp_create (job_control_port f b) = control_create_job f" "dp_get (job_control_port f b) = control_get_job"
  "dp_events (job_control_port f b) = control_list_events" "dp_checkpoint (job_control_port f b) = control_checkpoint f"
  "dp_mark_ready (job_control_port f b) = mark_ready f" "dp_claim (job_control_port f b) = claim f"
  "dp_block (job_control_port f b) = block f" "dp_gate (job_control_port f b) = gate f"
  "dp_execute (job_control_port f b) = execute_operation f b"
  by (simp_all add: job_control_port_def)

lemma on_db_result: "on_db op st = (r, st') \<longleftrightarrow> op (fst st) = (r, fst st') \<and> snd st' = snd st"
  by (cases st') (auto simp: on_db_def split: prod.splits)

lemma control_moved:
  assumes "control_good b s" and "on_db (transition f i t v w None ev) s = (r, s')"
  shows "control_good b s' \<and> snd s' = snd s \<and> port_moved control_job i v t w s r s'"
proof -
  have inv: "db_inv (fst s)" and t: "transition f i t v w None ev (fst s) = (r, fst s')" and sn: "snd s' = snd s"
    using assms by (auto simp: control_good_def on_db_result)
  show ?thesis
  proof (cases r)
    case (Inl e)
    then show ?thesis using sqlite.move_fail[OF inv t[unfolded Inl]] assms(1) sn
      by (simp add: control_good_def port_moved_def control_job_def)
  next
    case (Inr j')
    then show ?thesis using transition_refines[OF inv t[unfolded Inr]] assms(1) sn
      by (simp add: control_good_def port_moved_def control_job_def)
  qed
qed

lemma create_refines:
  assumes inv: "db_inv db" and c: "create_job f i w p m db = (r, db')"
  shows "db_inv db' \<and> (case r of Inl _ \<Rightarrow> db_job db' = db_job db
    | Inr j \<Rightarrow> db_job db i = None \<and> db_job db' = (db_job db)(i \<mapsto> j))"
proof (cases r)
  case (Inl e)
  then show ?thesis using create_job_Inl[OF c[unfolded Inl]] same_content_inv[OF _ inv] db_job_same by auto
next
  case (Inr j)
  note k = create_job_Inr[OF inv c[unfolded Inr]]
  have "js_job_id j = i" using new_job_fields[OF conjunct1[OF k]] by simp
  moreover have "job_valid j" using k new_job_inv by (auto simp: job_inv_def)
  ultimately show ?thesis using k Inr db_job_None[OF inv, of i] db_job_committed store_step_inv[OF inv store_step.create[OF c]]
    by auto
qed

lemma control_get:
  assumes "control_good b s" and "control_get_job i s = (r, s')"
  shows "control_good b s' \<and> control_job s' = control_job s \<and> snd s' = snd s
    \<and> (\<forall>j. r = Inr j \<longrightarrow> control_job s i = Some j)
    \<and> (r = Inl (JobStoreErr ''JOB_NOT_FOUND'') \<longrightarrow> control_job s i = None)"
proof -
  have inv: "db_inv (fst s)" and g: "get_job i (fst s) = (r, fst s')" and sn: "snd s' = snd s"
    using assms by (auto simp: control_good_def control_get_job_def on_db_result)
  have "db_job (fst s) i = None" if "r = Inl (JobStoreErr ''JOB_NOT_FOUND'')"
  proof -
    have "\<not> blank i" using g that by (auto simp: get_job_def)
    from get_job_value[OF inv this] g that show ?thesis by (auto split: option.splits)
  qed
  with sqlite.get_law[OF inv g] assms(1) sn show ?thesis by (auto simp: control_good_def control_job_def)
qed

lemma control_executed:
  assumes "control_good b s" and e: "execute_operation f b i v w op s = (r, s')"
  shows "control_good b s' \<and> port_executed control_job snd i v w op s r s'"
proof -
  have inv: "db_inv (fst s)" and bu: "backend_uses_store b" using assms(1) by (auto simp: control_good_def)
  obtain cs where x: "execute get_job (transition f) (checkpoint f) b i v w op (fst s) = (r, fst s', cs)"
    and t: "snd s' = snd s @ cs" using e by (auto simp: execute_operation_def split: prod.splits)
  from sqlite.execute_outcome[OF inv backend_uses_store_fair[OF bu] x] bu t show ?thesis
    unfolding sqlite.called_once_def port_executed_def control_good_def control_job_def by auto
qed

interpretation control: graph_dispatch_port "job_control_port f b" control_job snd "control_good b"
  for f b
proof (unfold_locales, goal_cases)
  case (1 s i j)
  then show ?case using sqlite.job_law by (auto simp: control_good_def control_job_def)
next
  case (2 s i r s')
  then show ?case using control_get by simp
next
  case (3 s i r' s')
  then have "list_events i (fst s) = (r', fst s')" "snd s' = snd s"
    by (simp_all add: control_list_events_def on_db_result)
  with 3(1) list_events_same[of "fst s" i] show ?case
    using same_content_inv db_job_same by (auto simp: control_good_def control_job_def)
next
  case (4 s i wo pr m r s')
  then have "create_job f i wo pr m (fst s) = (r, fst s')" "snd s' = snd s" "db_inv (fst s)"
    by (simp_all add: control_create_job_def on_db_result control_good_def)
  from create_refines[OF this(3,1)] this(2) 4(1) show ?case
    by (cases r) (simp_all add: control_good_def control_job_def)
next
  case (5 s i v c ev r s')
  then have k: "checkpoint f i c v ev (fst s) = (r, fst s')" "snd s' = snd s" "db_inv (fst s)"
    by (simp_all add: control_checkpoint_def on_db_result control_good_def)
  show ?case
  proof (cases r)
    case (Inl e)
    then show ?thesis using sqlite.check_fail[OF k(3)] k 5(1) by (auto simp: control_good_def control_job_def)
  next
    case (Inr j')
    then show ?thesis using checkpoint_refines[OF k(3) k(1)[unfolded Inr]] k 5(1)
      by (auto simp: control_good_def control_job_def)
  qed
next
  case (6 s i v r s')
  then show ?case using control_moved by (simp add: mark_ready_def)
next
  case (7 s i v w r s')
  then show ?case using control_moved by (simp add: claim_def)
next
  case (8 s i v w ev r s')
  then show ?case using control_moved by (simp add: block_def)
next
  case (9 s i v w ev r s')
  then show ?case using control_moved by (simp add: gate_def)
next
  case (10 s i v w op re s')
  then show ?case using control_executed by simp
qed

section \<open>Properties\<close>

text \<open>
  C8: a dispatch runs the operation at most once, and only when the gate allowed it, the
  worker is in push mode, and for the very job of the request's key and the worker of its
  assignment. The result describes the stored job: EXECUTED means that the operation ran
  and the job is in VERIFYING with that worker, OFFERED that it is claimed for that worker
  and nothing ran, BLOCKED that the gate refused and nothing ran, EXISTING that the job
  was already past execution and nothing ran.
\<close>

theorem dispatch_executes_at_most_once:
  assumes "store_reachable db" and "backend_uses_store backend"
    and "dispatch sha (job_control_port f backend) resolve q g (db, []) = (r, (db', calls))"
  shows "(calls \<noteq> [] \<longrightarrow> gd_allowed g \<and> gr_dispatch_mode q = PROGRAMMATIC_PUSH
      \<and> (\<exists>ctx. calls = [(gr_operation_ref q, ctx)] \<and> jx_job_id ctx = key_job_id sha (gr_key q)
           \<and> jx_worker_id ctx = sa_worker_id (gr_assignment q)))
    \<and> (\<forall>res. r = Inr res \<longrightarrow> db_job db' (key_job_id sha (gr_key q)) = Some (gx_job res)
         \<and> (gx_action res = EXECUTED \<longrightarrow> calls \<noteq> [] \<and> js_state (gx_job res) = VERIFYING
              \<and> js_worker_id (gx_job res) = Some (sa_worker_id (gr_assignment q)))
         \<and> (gx_action res = OFFERED \<longrightarrow> calls = [] \<and> js_worker_id (gx_job res) = Some (sa_worker_id (gr_assignment q)))
         \<and> (gx_action res = DISPATCH_BLOCKED \<longrightarrow> calls = [] \<and> \<not> gd_allowed g \<and> js_state (gx_job res) = TaskState.BLOCKED)
         \<and> (gx_action res = EXISTING \<longrightarrow> calls = []))"
proof -
  have "control.idle backend [] (db, [])"
    using assms(1,2) store_reachable_inv by (simp add: control.idle_def control_good_def)
  from tripleD[OF control.dispatch_triple this assms(3)] show ?thesis
    unfolding control.result_ok_def control.settled_def control_job_def
    by (cases r) (auto split: GraphDispatchAction.splits)
qed

text \<open>
  Dispatching is idempotent. When the job of the request's key has already executed or
  needs reconciliation, whatever the request and the gate say, no job changes and nothing
  runs; a result, if one is returned, reports that job as EXISTING or RECONCILE.
\<close>

theorem dispatch_idempotent:
  assumes "store_reachable db" and "backend_uses_store backend"
    and "db_job db (key_job_id sha (gr_key q)) = Some j"
    and "js_state j \<notin> {NEW, READY, TaskState.BLOCKED, CLAIMED, GATING}"
    and "dispatch sha (job_control_port f backend) resolve q g (db, []) = (r, (db', calls))"
  shows "calls = [] \<and> db_job db' = db_job db
    \<and> (\<forall>res. r = Inr res \<longrightarrow> gx_action res \<in> {EXISTING, RECONCILE} \<and> gx_job res = j)"
proof -
  have past: "past_dispatch j"
    using assms(4) by (cases "js_state j") (auto simp: past_dispatch_def EXISTING_STATES_def RECONCILE_STATES_def)
  have "control.frozen backend [] (db_job db) (db, [])"
    using assms(1,2) store_reachable_inv by (simp add: control.frozen_def control_good_def control_job_def)
  from tripleD[OF control.dispatch_frozen[of "db_job db", OF assms(3) past] this assms(5)] show ?thesis
    unfolding control.frozen_def control_job_def by (cases r) auto
qed

section \<open>A sample dispatch\<close>

definition sample_request :: GraphDispatchRequest where
  "sample_request = \<lparr>gr_key = \<lparr>gk_graph_id = ''g'', gk_graph_run_id = ''r'', gk_node_id = ''n''\<rparr>,
     gr_assignment = \<lparr>sa_node_id = ''n'', sa_worker_id = ''w'', sa_priority = 0\<rparr>,
     gr_project_id = ''p'', gr_work_order_ref = ''wo'', gr_operation_ref = ''build'',
     gr_dispatch_mode = PROGRAMMATIC_PUSH, gr_max_attempts = 3\<rparr>"

definition sample_gate :: DispatchGateDecision where
  "sample_gate = \<lparr>gd_allowed = True, gd_reason_code = ''ALLOW'', gd_evidence_ref = None\<rparr>"

definition sample_dispatch ::
  "GraphDispatchRequest \<Rightarrow> control \<Rightarrow> (exn + GraphDispatchResult) \<times> control" where
  "sample_dispatch q = dispatch (\<lambda>s. s) (job_control_port sample_ids ok_backend)
     (static_resolve [(''w'', PROGRAMMATIC_PUSH)]) q sample_gate"

text \<open>The database of the sample request after its operation ran.\<close>

definition sample_key :: string where
  "sample_key = key_job_id (\<lambda>s. s) (gr_key sample_request)"

definition sample_verifying :: JobDb where
  "sample_verifying =
     snd (transition sample_ids sample_key VERIFYING 6 (Some ''w'') None (Some ''ev'')
     (snd (transition sample_ids sample_key EXECUTING 5 (Some ''w'') None None
     (snd (transition sample_ids sample_key GATING 4 (Some ''w'') None None
     (snd (transition sample_ids sample_key CLAIMED 3 (Some ''w'') None None
     (snd (transition sample_ids sample_key READY 2 None None None
     (snd (checkpoint sample_ids sample_key (dispatch_metadata_ref (\<lambda>s. s) sample_request) 1 None
     (snd (create_job sample_ids sample_key ''wo'' ''p'' 3 empty_db)))))))))))))"

lemma sample_verifying_reachable: "store_reachable sample_verifying"
  unfolding sample_verifying_def by (intro store_reachable_ops empty_db_reachable)

theorem dispatch_executes_at_most_once_witness:
  "\<exists>res db' calls. sample_dispatch sample_request (empty_db, []) = (Inr res, (db', calls))
     \<and> gx_action res = EXECUTED \<and> js_state (gx_job res) = VERIFYING \<and> length calls = 1"
proof -
  obtain r db' calls where d: "sample_dispatch sample_request (empty_db, []) = (r, (db', calls))"
    by (metis surj_pair)
  have v: "case fst (sample_dispatch sample_request (empty_db, [])) of Inl _ \<Rightarrow> False | Inr res \<Rightarrow> gx_action res = EXECUTED"
    by code_simp
  then obtain res where r: "r = Inr res" "gx_action res = EXECUTED" using d by (cases r) auto
  from dispatch_executes_at_most_once[OF empty_db_reachable ok_backend_uses_store d[unfolded sample_dispatch_def]] r d
  show ?thesis by auto
qed

theorem dispatch_idempotent_witness:
  "\<exists>res db'. sample_dispatch sample_request (sample_verifying, []) = (Inr res, (db', []))
     \<and> gx_action res = EXISTING \<and> db_job db' = db_job sample_verifying"
proof -
  obtain r db' calls where d: "sample_dispatch sample_request (sample_verifying, []) = (r, (db', calls))"
    by (metis surj_pair)
  have v: "case fst (sample_dispatch sample_request (sample_verifying, [])) of Inl _ \<Rightarrow> False | Inr res \<Rightarrow> gx_action res = EXISTING"
    by code_simp
  then obtain res where r: "r = Inr res" "gx_action res = EXISTING" using d by (cases r) auto
  have s: "case db_job sample_verifying (key_job_id (\<lambda>s. s) (gr_key sample_request)) of None \<Rightarrow> False | Some j \<Rightarrow> js_state j = VERIFYING"
    by code_simp
  then obtain j where j: "db_job sample_verifying (key_job_id (\<lambda>s. s) (gr_key sample_request)) = Some j" "js_state j = VERIFYING"
    by (auto split: option.splits)
  then have "js_state j \<notin> {NEW, READY, TaskState.BLOCKED, CLAIMED, GATING}" by simp
  from dispatch_idempotent[OF sample_verifying_reachable ok_backend_uses_store j(1) this d[unfolded sample_dispatch_def]] r d
  show ?thesis by auto
qed


end
