(* ===== verification/Dispatch_Identity.thy ===== *)
theory Dispatch_Identity
  imports Graph_Dispatch
begin

text \<open>
  The identity of a dispatched job: the JSON text of a dispatch key determines the key, so
  two graph nodes share a durable job only if the digest collides.
\<close>

lemma key_payload_inj: "key_payload k = key_payload k' \<Longrightarrow> k = k'"
  by (cases k; cases k') (auto simp: key_payload_def json_object_def json_string_inj)

section \<open>Property\<close>

text \<open>
  Distinct dispatch keys have distinct durable jobs. As long as the digest does not map
  the texts of the two keys to the same value, the job ids of two keys are equal only
  if the graph, the run and the node are all equal; no choice of identifiers, whatever
  characters they hold, makes the texts of two keys coincide.
\<close>

theorem dispatch_key_identity:
  assumes "sha (key_payload k) = sha (key_payload k') \<longrightarrow> key_payload k = key_payload k'"
  shows "key_job_id sha k = key_job_id sha k' \<longleftrightarrow> k = k'"
  using assms key_payload_inj by (auto simp: key_job_id_def)

theorem dispatch_key_identity_witness:
  "key_job_id rev \<lparr>gk_graph_id = ''a'', gk_graph_run_id = ''b'', gk_node_id = ''c''\<rparr>
   \<noteq> key_job_id rev \<lparr>gk_graph_id = ''a'', gk_graph_run_id = ''bc'', gk_node_id = ''c''\<rparr>"
  using dispatch_key_identity[of rev "\<lparr>gk_graph_id = ''a'', gk_graph_run_id = ''b'', gk_node_id = ''c''\<rparr>"
      "\<lparr>gk_graph_id = ''a'', gk_graph_run_id = ''bc'', gk_node_id = ''c''\<rparr>"] by simp

end
