(* ===== verification/Lifecycle_Bridge.thy ===== *)
theory Lifecycle_Bridge
  imports Graph_Dispatch
begin

text \<open>
  The read-only projection of durable jobs to graph statuses,
  \<^verbatim>\<open>src/src/a_conductor/graph/lifecycle_bridge.py\<close>, and what it means for the ready set.
\<close>

section \<open>Definitions\<close>

fun TASK_STATE_PROJECTION :: "TaskState \<Rightarrow> TaskNodeStatus" where
  "TASK_STATE_PROJECTION NEW = TODO"
| "TASK_STATE_PROJECTION PLANNING = TODO"
| "TASK_STATE_PROJECTION READY = TODO"
| "TASK_STATE_PROJECTION CLAIMED = DOING"
| "TASK_STATE_PROJECTION GATING = DOING"
| "TASK_STATE_PROJECTION EXECUTING = DOING"
| "TASK_STATE_PROJECTION VERIFYING = DOING"
| "TASK_STATE_PROJECTION REVIEW_PENDING = DOING"
| "TASK_STATE_PROJECTION CHANGES_REQUIRED = DOING"
| "TASK_STATE_PROJECTION REPAIRING = DOING"
| "TASK_STATE_PROJECTION TaskState.BLOCKED = TaskNodeStatus.BLOCKED"
| "TASK_STATE_PROJECTION RECOVERY_NEEDED = TaskNodeStatus.BLOCKED"
| "TASK_STATE_PROJECTION COMPLETE = DONE"
| "TASK_STATE_PROJECTION FAILED = TaskNodeStatus.BLOCKED"
| "TASK_STATE_PROJECTION CANCELLED = SKIPPED"

definition project_job_state :: "JobRuntimeState \<Rightarrow> TaskNodeStatus" where
  "project_job_state job = TASK_STATE_PROJECTION (js_state job)"

definition project_node ::
  "(string \<Rightarrow> string) \<Rightarrow> (string \<Rightarrow> ('s, JobRuntimeState) action) \<Rightarrow> string \<Rightarrow> string \<Rightarrow> TaskNode
     \<Rightarrow> TaskNodeStatus dict \<Rightarrow> ('s, TaskNodeStatus dict) action" where
  "project_node sha get graph_id graph_run_id n projected =
     andthen (lift_res (GraphDispatchKey_post_init
        \<lparr>gk_graph_id = graph_id, gk_graph_run_id = graph_run_id, gk_node_id = tn_id n\<rparr>)) (\<lambda>key.
     catch
       (andthen (get (key_job_id sha key)) (\<lambda>job.
          if js_job_id job \<noteq> key_job_id sha key then throw (BridgeErr ''GRAPH_JOB_IDENTITY_MISMATCH'')
          else ret (AList.update (tn_id n) (project_job_state job) projected)))
       (\<lambda>e. if e \<noteq> JobStoreErr ''JOB_NOT_FOUND'' then throw e
            else ret (AList.update (tn_id n) TODO projected)))"

fun project_nodes ::
  "(string \<Rightarrow> string) \<Rightarrow> (string \<Rightarrow> ('s, JobRuntimeState) action) \<Rightarrow> string \<Rightarrow> string \<Rightarrow> TaskNode list
     \<Rightarrow> TaskNodeStatus dict \<Rightarrow> ('s, TaskNodeStatus dict) action" where
  "project_nodes sha get graph_id graph_run_id [] projected = ret projected"
| "project_nodes sha get graph_id graph_run_id (n # ns) projected =
     andthen (project_node sha get graph_id graph_run_id n projected)
       (project_nodes sha get graph_id graph_run_id ns)"

definition project_graph_node_states ::
  "(string \<Rightarrow> string) \<Rightarrow> (string \<Rightarrow> ('s, JobRuntimeState) action) \<Rightarrow> TaskGraph \<Rightarrow> string \<Rightarrow> string
     \<Rightarrow> ('s, TaskNodeStatus dict) action" where
  "project_graph_node_states sha get g graph_id graph_run_id =
     project_nodes sha get graph_id graph_run_id (nodes g) []"

section \<open>What the projection says of the store\<close>

text \<open>The job of a node in a graph run, as the store has it.\<close>

definition run_job :: "(string \<Rightarrow> string) \<Rightarrow> JobDb \<Rightarrow> string \<Rightarrow> string \<Rightarrow> string \<Rightarrow> JobRuntimeState option" where
  "run_job sha db graph_id graph_run_id i =
     (case GraphDispatchKey_post_init \<lparr>gk_graph_id = graph_id, gk_graph_run_id = graph_run_id, gk_node_id = i\<rparr> of
        Inl _ \<Rightarrow> None | Inr key \<Rightarrow> db_job db (key_job_id sha key))"

definition run_status :: "(string \<Rightarrow> string) \<Rightarrow> JobDb \<Rightarrow> string \<Rightarrow> string \<Rightarrow> string \<Rightarrow> TaskNodeStatus" where
  "run_status sha db graph_id graph_run_id i =
     (case run_job sha db graph_id graph_run_id i of None \<Rightarrow> TODO | Some j \<Rightarrow> project_job_state j)"

lemma project_node_result:
  assumes inv: "db_inv db" and r: "project_node sha get_job gid rid n d db = (x, db')"
  shows "db_inv db' \<and> db_job db' = db_job db
    \<and> (\<forall>d'. x = Inr d' \<longrightarrow> d' = AList.update (tn_id n) (run_status sha db gid rid (tn_id n)) d)"
proof (cases "GraphDispatchKey_post_init \<lparr>gk_graph_id = gid, gk_graph_run_id = rid, gk_node_id = tn_id n\<rparr>")
  case (Inl e)
  have "project_node sha get_job gid rid n d db = (Inl e, db)"
    unfolding project_node_def Inl by (simp add: andthen_def lift_res_def)
  then show ?thesis using r inv by simp
next
  case key: (Inr key)
  define i where "i = key_job_id sha key"
  have nb: "\<not> blank i" by (simp add: i_def key_job_id_def blank_iff py_isspace_def)
  obtain db1 where g: "get_job i db = (fst (get_job i db), db1)" and same: "same_content db db1"
    using get_job_same[of db i] by (metis prod.collapse)
  have v: "fst (get_job i db) = (case db_job db i of
    None \<Rightarrow> Inl (JobStoreErr ''JOB_NOT_FOUND'') | Some j \<Rightarrow> Inr j)" by (rule get_job_value[OF inv nb])
  have status: "run_status sha db gid rid (tn_id n) = (case db_job db i of None \<Rightarrow> TODO | Some j \<Rightarrow> project_job_state j)"
    unfolding run_status_def run_job_def key by (simp add: i_def)
  have "db' = db1 \<and> (\<forall>d'. x = Inr d' \<longrightarrow> d' = AList.update (tn_id n) (run_status sha db gid rid (tn_id n)) d)"
  proof (cases "db_job db i")
    case None
    then have "get_job i db = (Inl (JobStoreErr ''JOB_NOT_FOUND''), db1)" using g v by simp
    then show ?thesis using r status None unfolding project_node_def key
      by (auto simp: andthen_def lift_res_def catch_def ret_def i_def)
  next
    case (Some j)
    then have "get_job i db = (Inr j, db1)" using g v by simp
    moreover have "js_job_id j = i" using db_job_Some(2)[OF inv Some] .
    ultimately show ?thesis using r status Some unfolding project_node_def key
      by (auto simp: andthen_def lift_res_def catch_def ret_def i_def)
  qed
  then show ?thesis using same_content_inv[OF same inv] db_job_same[OF same] by simp
qed

lemma project_nodes_result:
  assumes "db_inv db" and "project_nodes sha get_job gid rid ns d db = (Inr d', db')"
    and "distinct (map tn_id ns)"
  shows "db_inv db' \<and> db_job db' = db_job db \<and> map_of d' = (\<lambda>i. if i \<in> tn_id ` set ns
    then Some (run_status sha db gid rid i) else map_of d i)"
  using assms
proof (induction ns arbitrary: d db)
  case Nil
  then show ?case by (simp add: ret_def)
next
  case (Cons n ns)
  obtain x db1 where one: "project_node sha get_job gid rid n d db = (x, db1)" by fastforce
  then obtain d1 where x: "x = Inr d1" and rest: "project_nodes sha get_job gid rid ns d1 db1 = (Inr d', db')"
    using Cons.prems(2) by (cases x) (auto simp: andthen_def)
  have p: "db_inv db1" "db_job db1 = db_job db"
    "d1 = AList.update (tn_id n) (run_status sha db gid rid (tn_id n)) d"
    using project_node_result[OF Cons.prems(1) one] x by auto
  have st: "run_status sha db1 = run_status sha db"
    unfolding fun_eq_iff run_status_def run_job_def p(2) by blast
  show ?case using Cons.IH[OF p(1) rest] Cons.prems(3) p by (auto simp: st fun_eq_iff)
qed

lemma projection_exact:
  assumes "db_inv db" and "wf_graph g"
    and "project_graph_node_states sha get_job g gid rid db = (Inr d, db')"
  shows "db_job db' = db_job db"
    "i \<in> tn_id ` set (nodes g) \<Longrightarrow> state_of (map_of d) i = run_status sha db gid rid i"
proof -
  have ids: "distinct (map tn_id (nodes g))"
    using assms(2) wf_nodes_id[OF assms(2)] by (auto simp: wf_graph_def)
  from project_nodes_result[OF assms(1) assms(3)[unfolded project_graph_node_states_def] ids]
  show "db_job db' = db_job db"
    "i \<in> tn_id ` set (nodes g) \<Longrightarrow> state_of (map_of d) i = run_status sha db gid rid i"
    by (simp_all add: state_of_def)
qed

text \<open>Which durable states each projected status stands for.\<close>

lemma projection_DONE: "TASK_STATE_PROJECTION s = DONE \<longleftrightarrow> s = COMPLETE"
  by (cases s) simp_all

lemma projection_SKIPPED: "TASK_STATE_PROJECTION s = SKIPPED \<longleftrightarrow> s = CANCELLED"
  by (cases s) simp_all

lemma projection_TODO: "TASK_STATE_PROJECTION s = TODO \<longleftrightarrow> s \<in> {NEW, PLANNING, READY}"
  by (cases s) simp_all

lemma projection_DOING:
  "TASK_STATE_PROJECTION s = DOING \<longleftrightarrow> s \<in> {CLAIMED, GATING, EXECUTING, VERIFYING,
     REVIEW_PENDING, CHANGES_REQUIRED, REPAIRING}"
  by (cases s) simp_all

lemmas projection_cases = projection_DONE projection_SKIPPED projection_TODO projection_DOING

lemma run_status_cases:
  "run_status sha db gid rid i \<in> {DONE, SKIPPED} \<longleftrightarrow>
     (\<exists>j. run_job sha db gid rid i = Some j \<and> js_state j \<in> {COMPLETE, CANCELLED})"
  "run_status sha db gid rid i = TODO \<longleftrightarrow>
     (\<forall>j. run_job sha db gid rid i = Some j \<longrightarrow> js_state j \<in> {NEW, PLANNING, READY})"
  "run_status sha db gid rid i = DOING \<longleftrightarrow>
     (\<exists>j. run_job sha db gid rid i = Some j \<and> js_state j \<in> {CLAIMED, GATING, EXECUTING, VERIFYING,
        REVIEW_PENDING, CHANGES_REQUIRED, REPAIRING})"
  by (auto simp: run_status_def project_job_state_def projection_cases split: option.split)

end
