(* ===== verification/Runtime_Safety.thy ===== *)
theory Runtime_Safety
  imports Core_Domain
begin

text \<open>
  The pure classifiers of observed runtime facts, \<^verbatim>\<open>src/src/a_conductor/runtime_safety.py\<close>.
  A fact the caller could not establish is \<^const>\<open>None\<close>; the process id of the source is an
  unbounded integer.
\<close>

section \<open>Classifications\<close>

datatype ProcessOwnership = PO_ABSENT | PO_OWNED | PO_STALE | PO_MISMATCH | PO_UNKNOWN

datatype PortBindingState = PB_FREE | PB_OWNED | PB_COLLISION | PB_UNKNOWN

datatype TunnelBindingState = TB_FREE | TB_OWNED | TB_COLLISION

datatype WorktreeBindingState = WB_AVAILABLE | WB_OWNED | WB_CONFLICT

record ProcessObservation =
  ob_pid_metadata_present :: bool
  ob_pid :: "int option"
  ob_process_exists :: "bool option"
  ob_executable_matches :: "bool option"
  ob_profile_matches :: "bool option"

definition no_pid :: "int option \<Rightarrow> bool" where
  "no_pid p = (case p of None \<Rightarrow> True | Some n \<Rightarrow> n \<le> 0)"

definition classify_process_ownership :: "ProcessObservation \<Rightarrow> ProcessOwnership" where
  "classify_process_ownership ob =
     (if \<not> ob_pid_metadata_present ob then PO_ABSENT
      else if no_pid (ob_pid ob) then PO_MISMATCH
      else if ob_process_exists ob = Some False then PO_STALE
      else if ob_process_exists ob = None then PO_UNKNOWN
      else if ob_executable_matches ob = Some False \<or> ob_profile_matches ob = Some False then PO_MISMATCH
      else if ob_executable_matches ob = None \<or> ob_profile_matches ob = None then PO_UNKNOWN
      else PO_OWNED)"

definition classify_port_binding :: "bool option \<Rightarrow> int option \<Rightarrow> int option \<Rightarrow> PortBindingState" where
  "classify_port_binding listening owning_pid expected_pid =
     (if listening = Some False then PB_FREE
      else if listening = None then PB_UNKNOWN
      else if no_pid owning_pid then PB_UNKNOWN
      else if \<not> no_pid expected_pid \<and> owning_pid = expected_pid then PB_OWNED
      else PB_COLLISION)"

definition classify_tunnel_binding ::
  "string \<Rightarrow> string option \<Rightarrow> string \<Rightarrow> exn + TunnelBindingState" where
  "classify_tunnel_binding binding_ref active_owner requesting =
     res_bind (require_text binding_ref ''binding_ref'') (\<lambda>_.
     res_bind (require_text requesting ''requesting_worker_id'') (\<lambda>_.
     case active_owner of
       None \<Rightarrow> Inr TB_FREE
     | Some owner \<Rightarrow>
         res_bind (require_text owner ''active_owner_worker_id'') (\<lambda>_.
           if owner = requesting then Inr TB_OWNED else Inr TB_COLLISION)))"

definition classify_worktree_binding ::
  "string \<Rightarrow> string option \<Rightarrow> string \<Rightarrow> exn + WorktreeBindingState" where
  "classify_worktree_binding worktree_key active_mutating requesting =
     res_bind (require_text worktree_key ''worktree_key'') (\<lambda>_.
     res_bind (require_text requesting ''requesting_worker_id'') (\<lambda>_.
     case active_mutating of
       None \<Rightarrow> Inr WB_AVAILABLE
     | Some owner \<Rightarrow>
         res_bind (require_text owner ''active_mutating_worker_id'') (\<lambda>_.
           if owner = requesting then Inr WB_OWNED else Inr WB_CONFLICT)))"

section \<open>What a classification establishes\<close>

text \<open>Ownership is claimed only on complete positive evidence.\<close>

lemma owned_process_iff:
  "classify_process_ownership ob = PO_OWNED \<longleftrightarrow>
     ob_pid_metadata_present ob \<and> (\<exists>p. ob_pid ob = Some p \<and> p > 0) \<and> ob_process_exists ob = Some True
     \<and> ob_executable_matches ob = Some True \<and> ob_profile_matches ob = Some True"
  unfolding classify_process_ownership_def no_pid_def
  by (auto split: option.splits)

lemma absent_process_iff:
  "classify_process_ownership ob = PO_ABSENT \<longleftrightarrow> \<not> ob_pid_metadata_present ob"
  by (simp add: classify_process_ownership_def)

lemma free_port_iff: "classify_port_binding l p e = PB_FREE \<longleftrightarrow> l = Some False"
  by (simp add: classify_port_binding_def)

lemma owned_port_iff:
  "classify_port_binding l p e = PB_OWNED \<longleftrightarrow> l = Some True \<and> (\<exists>n > 0. p = Some n \<and> e = Some n)"
  unfolding classify_port_binding_def no_pid_def
  by (cases l; cases p; cases e) auto

lemma free_tunnel_iff:
  "classify_tunnel_binding b a r = Inr TB_FREE \<longleftrightarrow> \<not> blank b \<and> \<not> blank r \<and> a = None"
  by (cases a) (auto simp: classify_tunnel_binding_def)

lemma worktree_conflict_iff:
  "classify_worktree_binding k a r = Inr WB_CONFLICT \<longleftrightarrow>
     \<not> blank k \<and> \<not> blank r \<and> (\<exists>owner. a = Some owner \<and> \<not> blank owner \<and> owner \<noteq> r)"
  by (cases a) (auto simp: classify_worktree_binding_def)

end
