(* ===== verification/Lifecycle_Policy.thy ===== *)
theory Lifecycle_Policy
  imports Runtime_Safety
begin

text \<open>
  The pure lifecycle decision policy, \<^verbatim>\<open>src/src/a_conductor/lifecycle.py\<close>: from one context
  of observed facts to a symbolic plan, a decision with its reason and its steps.
\<close>

section \<open>Data\<close>

datatype LifecycleAction = LA_START | LA_STOP | LA_RESTART | LA_RELEASE

datatype LifecycleDecision = LD_PROCEED | LD_NOOP | LD_REFUSE | LD_RECOVERY_REQUIRED

datatype LifecycleStep =
    VERIFY_ASSIGNMENT | VERIFY_RESOURCES | RENDER_PROFILE | PREFLIGHT | START_OWNED_PROCESS
  | WAIT_READY | VERIFY_PROJECT_IDENTITY | TARGETED_STOP | WAIT_EXIT | VERIFY_RELEASED
  | CLEAR_ASSIGNMENT | EMIT_EVIDENCE

record LifecycleContext =
  lc_action :: LifecycleAction
  lc_assignment_present :: bool
  lc_project_exists :: "bool option"
  lc_process_ownership :: ProcessOwnership
  lc_port_binding :: PortBindingState
  lc_tunnel_required :: bool
  lc_tunnel_binding :: TunnelBindingState
  lc_worktree_binding :: WorktreeBindingState
  lc_ready :: "bool option"
  lc_project_identity_ok :: "bool option"
  lc_worker_state :: WorkerState
  lc_active_task :: bool

record LifecyclePlan =
  lp_action :: LifecycleAction
  lp_decision :: LifecycleDecision
  lp_reason_code :: string
  lp_steps :: "LifecycleStep list"

section \<open>Guards\<close>

definition mk_plan ::
  "LifecycleContext \<Rightarrow> LifecycleDecision \<Rightarrow> string \<Rightarrow> LifecycleStep list \<Rightarrow> LifecyclePlan" where
  "mk_plan c d r steps = \<lparr>lp_action = lc_action c, lp_decision = d, lp_reason_code = r, lp_steps = steps\<rparr>"

definition assignment_guard :: "LifecycleContext \<Rightarrow> LifecyclePlan option" where
  "assignment_guard c =
     (if \<not> lc_assignment_present c then Some (mk_plan c LD_REFUSE ''ASSIGNMENT_MISSING'' [])
      else if lc_project_exists c = Some False then Some (mk_plan c LD_REFUSE ''PROJECT_NOT_FOUND'' [])
      else if lc_project_exists c = None then Some (mk_plan c LD_REFUSE ''PROJECT_EXISTENCE_UNKNOWN'' [])
      else if lc_worktree_binding c = WB_CONFLICT then Some (mk_plan c LD_REFUSE ''WORKTREE_CONFLICT'' [])
      else None)"

definition ownership_uncertainty :: "LifecycleContext \<Rightarrow> LifecyclePlan option" where
  "ownership_uncertainty c =
     (if lc_process_ownership c = PO_MISMATCH then Some (mk_plan c LD_REFUSE ''PID_MISMATCH'' [])
      else if lc_process_ownership c = PO_UNKNOWN
      then Some (mk_plan c LD_REFUSE ''PROCESS_OWNERSHIP_UNKNOWN'' [])
      else if lc_process_ownership c = PO_STALE
      then Some (mk_plan c LD_RECOVERY_REQUIRED ''STALE_PID_METADATA'' [])
      else None)"

definition start_resource_guard :: "LifecycleContext \<Rightarrow> LifecyclePlan option" where
  "start_resource_guard c =
     (if lc_tunnel_required c \<and> lc_tunnel_binding c = TB_COLLISION
      then Some (mk_plan c LD_REFUSE ''TUNNEL_COLLISION'' [])
      else if lc_port_binding c = PB_COLLISION then Some (mk_plan c LD_REFUSE ''PORT_IN_USE'' [])
      else if lc_port_binding c = PB_UNKNOWN
      then Some (mk_plan c LD_RECOVERY_REQUIRED ''PORT_STATE_UNKNOWN'' [])
      else if lc_port_binding c = PB_OWNED
      then Some (mk_plan c LD_RECOVERY_REQUIRED ''PORT_STILL_OWNED'' [])
      else if lc_tunnel_required c \<and> lc_tunnel_binding c = TB_OWNED
      then Some (mk_plan c LD_RECOVERY_REQUIRED ''TUNNEL_STILL_OWNED'' [])
      else None)"

definition start_steps :: "LifecycleStep list" where
  "start_steps = [VERIFY_ASSIGNMENT, VERIFY_RESOURCES, RENDER_PROFILE, PREFLIGHT,
     START_OWNED_PROCESS, WAIT_READY, VERIFY_PROJECT_IDENTITY, EMIT_EVIDENCE]"

section \<open>Plans\<close>

definition plan_start_owned :: "LifecycleContext \<Rightarrow> LifecyclePlan" where
  "plan_start_owned c =
     (if lc_tunnel_required c \<and> lc_tunnel_binding c = TB_COLLISION
      then mk_plan c LD_REFUSE ''TUNNEL_COLLISION'' []
      else if lc_port_binding c = PB_COLLISION then mk_plan c LD_REFUSE ''PORT_IN_USE'' []
      else if lc_port_binding c = PB_OWNED
        \<and> (\<not> lc_tunnel_required c \<or> lc_tunnel_binding c = TB_OWNED)
        \<and> lc_ready c = Some True \<and> lc_project_identity_ok c = Some True
      then mk_plan c LD_NOOP ''ALREADY_RUNNING'' [EMIT_EVIDENCE]
      else mk_plan c LD_RECOVERY_REQUIRED ''OWNED_RUNTIME_NOT_READY'' [EMIT_EVIDENCE])"

definition plan_start :: "LifecycleContext \<Rightarrow> LifecyclePlan" where
  "plan_start c =
     (case assignment_guard c of Some p \<Rightarrow> p | None \<Rightarrow>
     (case ownership_uncertainty c of Some p \<Rightarrow> p | None \<Rightarrow>
      if lc_process_ownership c = PO_OWNED then plan_start_owned c
      else (case start_resource_guard c of Some p \<Rightarrow> p | None \<Rightarrow>
        mk_plan c LD_PROCEED ''START_ALLOWED'' start_steps)))"

definition plan_stop :: "LifecycleContext \<Rightarrow> LifecyclePlan" where
  "plan_stop c =
     (case ownership_uncertainty c of Some p \<Rightarrow> p | None \<Rightarrow>
      if lc_process_ownership c = PO_ABSENT then mk_plan c LD_NOOP ''NOT_RUNNING'' [EMIT_EVIDENCE]
      else mk_plan c LD_PROCEED ''STOP_ALLOWED''
             [TARGETED_STOP, WAIT_EXIT, VERIFY_RELEASED, EMIT_EVIDENCE])"

definition plan_restart :: "LifecycleContext \<Rightarrow> LifecyclePlan" where
  "plan_restart c =
     (case assignment_guard c of Some p \<Rightarrow> p | None \<Rightarrow>
     (case ownership_uncertainty c of Some p \<Rightarrow> p | None \<Rightarrow>
      if lc_tunnel_required c \<and> lc_tunnel_binding c = TB_COLLISION
      then mk_plan c LD_REFUSE ''TUNNEL_COLLISION'' []
      else if lc_port_binding c = PB_COLLISION then mk_plan c LD_REFUSE ''PORT_IN_USE'' []
      else if lc_process_ownership c = PO_ABSENT then
        (case start_resource_guard c of Some p \<Rightarrow> p | None \<Rightarrow>
           mk_plan c LD_PROCEED ''RESTART_AS_START_ALLOWED'' start_steps)
      else mk_plan c LD_PROCEED ''RESTART_ALLOWED''
             [TARGETED_STOP, WAIT_EXIT, VERIFY_RELEASED, VERIFY_RESOURCES, RENDER_PROFILE, PREFLIGHT,
              START_OWNED_PROCESS, WAIT_READY, VERIFY_PROJECT_IDENTITY, EMIT_EVIDENCE]))"

definition plan_release :: "LifecycleContext \<Rightarrow> LifecyclePlan" where
  "plan_release c =
     (if lc_active_task c then mk_plan c LD_REFUSE ''ACTIVE_TASK'' []
      else (case ownership_uncertainty c of Some p \<Rightarrow> p | None \<Rightarrow>
        if lc_process_ownership c = PO_OWNED then mk_plan c LD_REFUSE ''WORKER_NOT_STOPPED'' []
        else if lc_worker_state c \<noteq> W_STOPPED then mk_plan c LD_REFUSE ''WORKER_NOT_STOPPED'' []
        else if \<not> (lc_port_binding c = PB_FREE
                    \<and> (\<not> lc_tunnel_required c \<or> lc_tunnel_binding c = TB_FREE))
        then mk_plan c LD_RECOVERY_REQUIRED ''RESOURCES_NOT_RELEASED'' []
        else if \<not> lc_assignment_present c then mk_plan c LD_NOOP ''ALREADY_FREE'' [EMIT_EVIDENCE]
        else mk_plan c LD_PROCEED ''RELEASE_ALLOWED'' [CLEAR_ASSIGNMENT, EMIT_EVIDENCE]))"

definition plan_lifecycle :: "LifecycleContext \<Rightarrow> LifecyclePlan" where
  "plan_lifecycle c = (case lc_action c of
     LA_START \<Rightarrow> plan_start c | LA_STOP \<Rightarrow> plan_stop c
   | LA_RESTART \<Rightarrow> plan_restart c | LA_RELEASE \<Rightarrow> plan_release c)"

section \<open>Reading the guards\<close>

lemma mk_plan_sel [simp]:
  "lp_action (mk_plan c d r ss) = lc_action c" "lp_decision (mk_plan c d r ss) = d"
  "lp_reason_code (mk_plan c d r ss) = r" "lp_steps (mk_plan c d r ss) = ss"
  by (simp_all add: mk_plan_def)

lemma assignment_guard_None:
  "assignment_guard c = None \<longleftrightarrow>
     lc_assignment_present c \<and> lc_project_exists c = Some True \<and> lc_worktree_binding c \<noteq> WB_CONFLICT"
  by (auto simp: assignment_guard_def)

lemma ownership_uncertainty_None:
  "ownership_uncertainty c = None \<longleftrightarrow> lc_process_ownership c \<in> {PO_ABSENT, PO_OWNED}"
  by (cases "lc_process_ownership c") (auto simp: ownership_uncertainty_def)

lemma start_resource_guard_None:
  "start_resource_guard c = None \<longleftrightarrow>
     lc_port_binding c = PB_FREE \<and> (lc_tunnel_required c \<longrightarrow> lc_tunnel_binding c = TB_FREE)"
  by (cases "lc_port_binding c"; cases "lc_tunnel_binding c") (auto simp: start_resource_guard_def)

text \<open>A plan of a guard has no steps and does not proceed.\<close>

definition halts :: "LifecycleContext \<Rightarrow> LifecyclePlan \<Rightarrow> bool" where
  "halts c p \<longleftrightarrow> lp_steps p = [] \<and> lp_decision p \<in> {LD_REFUSE, LD_RECOVERY_REQUIRED} \<and> lp_action p = lc_action c"

lemma guards_halt:
  "assignment_guard c = Some p \<Longrightarrow> halts c p"
  "ownership_uncertainty c = Some p \<Longrightarrow> halts c p"
  "start_resource_guard c = Some p \<Longrightarrow> halts c p"
  by (auto simp: halts_def assignment_guard_def ownership_uncertainty_def start_resource_guard_def
      split: if_splits)

section \<open>Safety of a plan\<close>

text \<open>The facts that allow each of the mutating steps.\<close>

definition start_allowed :: "LifecycleContext \<Rightarrow> bool" where
  "start_allowed c \<longleftrightarrow> lc_action c \<in> {LA_START, LA_RESTART}
     \<and> lc_assignment_present c \<and> lc_project_exists c = Some True \<and> lc_worktree_binding c \<noteq> WB_CONFLICT
     \<and> (lc_process_ownership c = PO_ABSENT \<and> lc_port_binding c = PB_FREE
          \<and> (lc_tunnel_required c \<longrightarrow> lc_tunnel_binding c = TB_FREE)
        \<or> lc_action c = LA_RESTART \<and> lc_process_ownership c = PO_OWNED \<and> lc_port_binding c \<noteq> PB_COLLISION
          \<and> (lc_tunnel_required c \<longrightarrow> lc_tunnel_binding c \<noteq> TB_COLLISION))"

definition stop_allowed :: "LifecycleContext \<Rightarrow> bool" where
  "stop_allowed c \<longleftrightarrow> lc_process_ownership c = PO_OWNED
     \<and> (lc_action c = LA_STOP \<or> lc_action c = LA_RESTART \<and> start_allowed c)"

definition clear_allowed :: "LifecycleContext \<Rightarrow> bool" where
  "clear_allowed c \<longleftrightarrow> lc_action c = LA_RELEASE \<and> lc_assignment_present c \<and> \<not> lc_active_task c
     \<and> lc_process_ownership c = PO_ABSENT \<and> lc_worker_state c = W_STOPPED \<and> lc_port_binding c = PB_FREE
     \<and> (lc_tunnel_required c \<longrightarrow> lc_tunnel_binding c = TB_FREE)"

definition plan_safe :: "LifecycleContext \<Rightarrow> LifecyclePlan \<Rightarrow> bool" where
  "plan_safe c p \<longleftrightarrow> lp_action p = lc_action c
     \<and> (lp_decision p = LD_PROCEED \<longleftrightarrow>
          START_OWNED_PROCESS \<in> set (lp_steps p) \<or> TARGETED_STOP \<in> set (lp_steps p)
          \<or> CLEAR_ASSIGNMENT \<in> set (lp_steps p))
     \<and> (START_OWNED_PROCESS \<in> set (lp_steps p) \<longleftrightarrow> start_allowed c)
     \<and> (TARGETED_STOP \<in> set (lp_steps p) \<longleftrightarrow> stop_allowed c)
     \<and> (CLEAR_ASSIGNMENT \<in> set (lp_steps p) \<longleftrightarrow> clear_allowed c)
     \<and> (RENDER_PROFILE \<in> set (lp_steps p) \<longrightarrow> START_OWNED_PROCESS \<in> set (lp_steps p))
     \<and> distinct (lp_steps p)"

lemmas allowed_defs = start_allowed_def stop_allowed_def clear_allowed_def

lemma halts_safe:
  "halts c p \<Longrightarrow> \<not> start_allowed c \<Longrightarrow> \<not> stop_allowed c \<Longrightarrow> \<not> clear_allowed c \<Longrightarrow> plan_safe c p"
  by (auto simp: halts_def plan_safe_def)

lemma plan_start_owned_quiet:
  "lp_steps (plan_start_owned c) \<in> {[], [EMIT_EVIDENCE]} \<and> lp_decision (plan_start_owned c) \<noteq> LD_PROCEED
     \<and> lp_action (plan_start_owned c) = lc_action c"
  by (simp add: plan_start_owned_def)

lemma plan_start_safe:
  assumes a: "lc_action c = LA_START"
  shows "plan_safe c (plan_start c)"
proof -
  have others: "\<not> stop_allowed c" "\<not> clear_allowed c" using a by (simp_all add: allowed_defs)
  have start: "start_allowed c \<longleftrightarrow> assignment_guard c = None \<and> lc_process_ownership c = PO_ABSENT
      \<and> start_resource_guard c = None"
    using a by (auto simp: start_allowed_def assignment_guard_None start_resource_guard_None)
  consider (guard) p where "assignment_guard c = Some p"
    | (unsure) p where "assignment_guard c = None" "ownership_uncertainty c = Some p"
    | (owned) "assignment_guard c = None" "ownership_uncertainty c = None" "lc_process_ownership c = PO_OWNED"
    | (resource) p where "assignment_guard c = None" "ownership_uncertainty c = None"
        "lc_process_ownership c = PO_ABSENT" "start_resource_guard c = Some p"
    | (go) "assignment_guard c = None" "ownership_uncertainty c = None"
        "lc_process_ownership c = PO_ABSENT" "start_resource_guard c = None"
    using ownership_uncertainty_None[of c] by (metis insert_iff not_None_eq singletonD)
  then show ?thesis
  proof cases
    case guard
    then show ?thesis using guards_halt(1) halts_safe others start by (simp add: plan_start_def)
  next
    case unsure
    then have "\<not> start_allowed c"
      using start ownership_uncertainty_None[of c] by auto
    with unsure show ?thesis using guards_halt(2) halts_safe others by (simp add: plan_start_def)
  next
    case owned
    then have "\<not> start_allowed c" using start by simp
    moreover have "plan_start c = plan_start_owned c" using owned by (simp add: plan_start_def)
    ultimately show ?thesis using plan_start_owned_quiet[of c] others by (auto simp: plan_safe_def)
  next
    case resource
    then show ?thesis using guards_halt(3) halts_safe others start by (simp add: plan_start_def)
  next
    case go
    then show ?thesis using others start by (simp add: plan_start_def plan_safe_def start_steps_def)
  qed
qed

lemma plan_restart_safe:
  assumes a: "lc_action c = LA_RESTART"
  shows "plan_safe c (plan_restart c)"
proof -
  define crash where "crash \<longleftrightarrow>
    lc_tunnel_required c \<and> lc_tunnel_binding c = TB_COLLISION \<or> lc_port_binding c = PB_COLLISION"
  have start: "start_allowed c \<longleftrightarrow> assignment_guard c = None \<and>
      (lc_process_ownership c = PO_ABSENT \<and> start_resource_guard c = None
       \<or> lc_process_ownership c = PO_OWNED \<and> \<not> crash)"
    using a by (auto simp: start_allowed_def assignment_guard_None start_resource_guard_None crash_def)
  have crash: "crash \<Longrightarrow> start_resource_guard c \<noteq> None"
    by (auto simp: crash_def start_resource_guard_def)
  have stop: "stop_allowed c \<longleftrightarrow> lc_process_ownership c = PO_OWNED \<and> start_allowed c"
    using a by (auto simp: stop_allowed_def)
  have clear: "\<not> clear_allowed c" using a by (simp add: clear_allowed_def)
  have halt: "plan_safe c p" if "halts c p" "\<not> start_allowed c" for p
    using halts_safe[OF that] stop clear that(2) by blast
  consider (guard) p where "assignment_guard c = Some p"
    | (unsure) p where "assignment_guard c = None" "ownership_uncertainty c = Some p"
    | (crash) "assignment_guard c = None" "ownership_uncertainty c = None" crash
    | (resource) p where "assignment_guard c = None" "ownership_uncertainty c = None" "\<not> crash"
        "lc_process_ownership c = PO_ABSENT" "start_resource_guard c = Some p"
    | (go) "assignment_guard c = None" "ownership_uncertainty c = None" "\<not> crash"
        "lc_process_ownership c = PO_ABSENT" "start_resource_guard c = None"
    | (stopgo) "assignment_guard c = None" "ownership_uncertainty c = None" "\<not> crash"
        "lc_process_ownership c = PO_OWNED"
    using ownership_uncertainty_None[of c] by (metis insert_iff not_None_eq singletonD)
  then show ?thesis
  proof cases
    case guard
    then show ?thesis using guards_halt(1) halt start by (simp add: plan_restart_def)
  next
    case unsure
    then have "\<not> start_allowed c" using start ownership_uncertainty_None[of c] by auto
    with unsure show ?thesis using guards_halt(2) halt by (simp add: plan_restart_def)
  next
    case crash
    then have "\<not> start_allowed c" using start \<open>crash \<Longrightarrow> start_resource_guard c \<noteq> None\<close> by blast
    moreover have "halts c (plan_restart c)"
      using crash unfolding crash_def by (auto simp: plan_restart_def halts_def)
    ultimately show ?thesis using halt by blast
  next
    case resource
    then have "plan_restart c = p" unfolding crash_def by (auto simp: plan_restart_def)
    then show ?thesis using guards_halt(3) halt resource start by simp
  next
    case go
    then have "plan_restart c = mk_plan c LD_PROCEED ''RESTART_AS_START_ALLOWED'' start_steps"
      unfolding crash_def by (auto simp: plan_restart_def)
    then show ?thesis using go start stop clear by (simp add: plan_safe_def start_steps_def)
  next
    case stopgo
    then have "plan_restart c = mk_plan c LD_PROCEED ''RESTART_ALLOWED''
       [TARGETED_STOP, WAIT_EXIT, VERIFY_RELEASED, VERIFY_RESOURCES, RENDER_PROFILE, PREFLIGHT,
        START_OWNED_PROCESS, WAIT_READY, VERIFY_PROJECT_IDENTITY, EMIT_EVIDENCE]"
      unfolding crash_def by (auto simp: plan_restart_def)
    then show ?thesis using stopgo start stop clear by (simp add: plan_safe_def)
  qed
qed

lemma plan_stop_safe:
  assumes "lc_action c = LA_STOP"
  shows "plan_safe c (plan_stop c)"
proof (cases "ownership_uncertainty c")
  case (Some p)
  then have "lc_process_ownership c \<noteq> PO_OWNED" using ownership_uncertainty_None[of c] by auto
  then show ?thesis
    using Some halts_safe[OF guards_halt(2)[OF Some]] assms by (simp add: plan_stop_def allowed_defs)
next
  case None
  then show ?thesis using assms ownership_uncertainty_None[of c]
    by (auto simp: plan_stop_def plan_safe_def allowed_defs)
qed

lemma plan_release_safe:
  assumes "lc_action c = LA_RELEASE"
  shows "plan_safe c (plan_release c)"
proof (cases "ownership_uncertainty c")
  case (Some p)
  then have no: "\<not> clear_allowed c" using ownership_uncertainty_None[of c] by (auto simp: clear_allowed_def)
  have "\<not> start_allowed c" "\<not> stop_allowed c" using assms by (simp_all add: allowed_defs)
  moreover have "halts c (plan_release c)"
    using Some guards_halt(2)[OF Some] by (simp add: plan_release_def) (simp add: halts_def)
  ultimately show ?thesis using no halts_safe by blast
next
  case None
  then show ?thesis using assms ownership_uncertainty_None[of c]
    by (auto simp: plan_release_def plan_safe_def allowed_defs)
qed

lemma plan_lifecycle_safe: "plan_safe c (plan_lifecycle c)"
  by (cases "lc_action c")
    (simp_all add: plan_lifecycle_def plan_start_safe plan_stop_safe plan_restart_safe plan_release_safe)


text \<open>A restart of an observed, owned process.\<close>

definition sample_observation :: ProcessObservation where
  "sample_observation = \<lparr>ob_pid_metadata_present = True, ob_pid = Some 4711, ob_process_exists = Some True,
     ob_executable_matches = Some True, ob_profile_matches = Some True\<rparr>"

definition sample_context :: "LifecycleAction \<Rightarrow> LifecycleContext" where
  "sample_context a = \<lparr>lc_action = a, lc_assignment_present = True, lc_project_exists = Some True,
     lc_process_ownership = classify_process_ownership sample_observation, lc_port_binding = PB_OWNED,
     lc_tunnel_required = True, lc_tunnel_binding = TB_OWNED, lc_worktree_binding = WB_OWNED,
     lc_ready = Some True, lc_project_identity_ok = Some True, lc_worker_state = W_READY,
     lc_active_task = False\<rparr>"


end
