(* ===== verification/Lifecycle_Executor.thy ===== *)
theory Lifecycle_Executor
  imports Lifecycle_Policy Action_Monad
begin

text \<open>
  The checkpointed execution of an approved plan, \<^verbatim>\<open>src/src/a_conductor/lifecycle_executor.py\<close>.
  The injected backend acts on the host state \<open>'h\<close>, the injected checkpoint sink on the
  journal state \<open>'j\<close>; both may raise. The interface of the journal is the locale
  \<open>checkpoint_journal\<close>, interpreted on the SQLite journal in \<open>Lifecycle_Journal\<close>.
\<close>

section \<open>Definitions\<close>

datatype LifecycleExecutionState = LX_COMPLETE | LX_FAILED | LX_REFUSED | LX_NOOP | LX_RECOVERY_REQUIRED

record LifecycleStepResult =
  sr_success :: bool
  sr_evidence_ref :: "string option"
  sr_error_code :: "string option"
  sr_recovery_required :: bool

record LifecycleCheckpoint =
  cp_transaction_id :: string
  cp_sequence_no :: int
  cp_action :: LifecycleAction
  cp_step :: LifecycleStep
  cp_evidence_ref :: "string option"

record LifecycleExecutionResult =
  lx_transaction_id :: string
  lx_state :: LifecycleExecutionState
  lx_reason_code :: string
  lx_completed_steps :: "LifecycleStep list"
  lx_evidence_refs :: "string list"
  lx_failed_step :: "LifecycleStep option"

type_synonym 'h step_backend = "LifecycleStep \<Rightarrow> ('h, LifecycleStepResult) action"
type_synonym 'j checkpoint_sink = "LifecycleCheckpoint \<Rightarrow> ('j, unit) action"

definition MUTATING_STEPS :: "LifecycleStep list" where
  "MUTATING_STEPS = [RENDER_PROFILE, START_OWNED_PROCESS, TARGETED_STOP, CLEAR_ASSIGNMENT]"

definition require_transaction_id :: "string \<Rightarrow> exn + string" where
  "require_transaction_id t = require_text t ''transaction_id''"

definition non_proceed_result :: "LifecyclePlan \<Rightarrow> string \<Rightarrow> exn + LifecycleExecutionResult" where
  "non_proceed_result p t =
     res_bind (case lp_decision p of
         LD_REFUSE \<Rightarrow> Inr LX_REFUSED | LD_NOOP \<Rightarrow> Inr LX_NOOP
       | LD_RECOVERY_REQUIRED \<Rightarrow> Inr LX_RECOVERY_REQUIRED
       | LD_PROCEED \<Rightarrow> Inl (AssertionErr ''KeyError'')) (\<lambda>st.
     Inr \<lparr>lx_transaction_id = t, lx_state = st, lx_reason_code = lp_reason_code p,
          lx_completed_steps = [], lx_evidence_refs = [], lx_failed_step = None\<rparr>)"

text \<open>\<^verbatim>\<open>step_result.error_code or "STEP_FAILED"\<close>: an empty code is falsy too.\<close>

definition error_code_or :: "string option \<Rightarrow> string \<Rightarrow> string" where
  "error_code_or c d = (case c of None \<Rightarrow> d | Some x \<Rightarrow> if x = [] then d else x)"

definition stopped_at ::
  "string \<Rightarrow> LifecycleExecutionState \<Rightarrow> string \<Rightarrow> LifecycleStep list \<Rightarrow> string list \<Rightarrow> LifecycleStep
     \<Rightarrow> LifecycleExecutionResult" where
  "stopped_at t st reason completed evidence step =
     \<lparr>lx_transaction_id = t, lx_state = st, lx_reason_code = reason, lx_completed_steps = completed,
      lx_evidence_refs = evidence, lx_failed_step = Some step\<rparr>"

text \<open>The loop over the remaining steps; \<open>k\<close> is the sequence number of the first of them.\<close>

fun execute_steps ::
  "'h step_backend \<Rightarrow> 'j checkpoint_sink \<Rightarrow> LifecycleAction \<Rightarrow> string \<Rightarrow> int \<Rightarrow> LifecycleStep list
     \<Rightarrow> LifecycleStep list \<Rightarrow> string list \<Rightarrow> 'h \<times> 'j \<Rightarrow> LifecycleExecutionResult \<times> 'h \<times> 'j" where
  "execute_steps backend sink a t k [] completed evidence s =
     (\<lparr>lx_transaction_id = t, lx_state = LX_COMPLETE, lx_reason_code = ''COMPLETE'',
       lx_completed_steps = completed, lx_evidence_refs = evidence, lx_failed_step = None\<rparr>, s)"
| "execute_steps backend sink a t k (step # steps) completed evidence (h, j) =
     (case backend step h of
        (Inl _, h') \<Rightarrow>
          (stopped_at t (if step \<in> set MUTATING_STEPS then LX_RECOVERY_REQUIRED else LX_FAILED)
             (if step \<in> set MUTATING_STEPS then ''BACKEND_EXECUTION_UNCERTAIN'' else ''BACKEND_EXECUTION_ERROR'')
             completed evidence step, h', j)
      | (Inr res, h') \<Rightarrow>
          (let evidence' = (case sr_evidence_ref res of None \<Rightarrow> evidence | Some e \<Rightarrow> evidence @ [e]) in
           if \<not> sr_success res then
             (stopped_at t (if sr_recovery_required res then LX_RECOVERY_REQUIRED else LX_FAILED)
                (error_code_or (sr_error_code res) ''STEP_FAILED'') completed evidence' step, h', j)
           else
             (case sink \<lparr>cp_transaction_id = t, cp_sequence_no = k, cp_action = a, cp_step = step,
                         cp_evidence_ref = sr_evidence_ref res\<rparr> j of
                (Inl _, j') \<Rightarrow>
                  (stopped_at t (if step \<in> set MUTATING_STEPS then LX_RECOVERY_REQUIRED else LX_FAILED)
                     (if step \<in> set MUTATING_STEPS then ''CHECKPOINT_PERSISTENCE_FAILED'' else ''CHECKPOINT_FAILED'')
                     completed evidence' step, h', j')
              | (Inr _, j') \<Rightarrow>
                  execute_steps backend sink a t (k + 1) steps (completed @ [step]) evidence' (h', j'))))"

definition execute_plan ::
  "LifecyclePlan \<Rightarrow> 'h step_backend \<Rightarrow> 'j checkpoint_sink \<Rightarrow> string
     \<Rightarrow> ('h \<times> 'j, LifecycleExecutionResult) action" where
  "execute_plan p backend sink t s =
     (case require_transaction_id t of
        Inl e \<Rightarrow> (Inl e, s)
      | Inr t \<Rightarrow>
          if lp_decision p \<noteq> LD_PROCEED then (non_proceed_result p t, s)
          else case execute_steps backend sink (lp_action p) t 1 (lp_steps p) [] [] s of
            (r, s') \<Rightarrow> (Inr r, s'))"

section \<open>The shape of a result\<close>

text \<open>
  Completed steps are a prefix of the plan; the failed step is the next one; a result is
  complete exactly when nothing failed.
\<close>

definition result_shape :: "LifecycleStep list \<Rightarrow> LifecycleStep list \<Rightarrow> LifecycleExecutionResult \<Rightarrow> bool" where
  "result_shape done rest r \<longleftrightarrow>
     (\<exists>n \<le> length rest. lx_completed_steps r = done @ take n rest
        \<and> (if n = length rest then lx_state r = LX_COMPLETE \<and> lx_failed_step r = None
           else lx_state r \<in> {LX_FAILED, LX_RECOVERY_REQUIRED} \<and> lx_failed_step r = Some (rest ! n)))"

lemma result_shape_stop:
  "result_shape done (step # rest) (stopped_at t st reason done ev step)"
  if "st \<in> {LX_FAILED, LX_RECOVERY_REQUIRED}"
  using that unfolding result_shape_def stopped_at_def
  by (intro exI[of _ 0]) simp

lemma result_shape_next:
  assumes "result_shape (done @ [step]) rest r"
  shows "result_shape done (step # rest) r"
proof -
  from assms obtain n where "n \<le> length rest" "lx_completed_steps r = (done @ [step]) @ take n rest"
    "if n = length rest then lx_state r = LX_COMPLETE \<and> lx_failed_step r = None
     else lx_state r \<in> {LX_FAILED, LX_RECOVERY_REQUIRED} \<and> lx_failed_step r = Some (rest ! n)"
    unfolding result_shape_def by blast
  then show ?thesis unfolding result_shape_def by (intro exI[of _ "Suc n"]) (simp split: if_splits)
qed

lemma execute_steps_shape:
  assumes "execute_steps backend sink a t k steps done ev (h, j) = (r, h', j')"
  shows "result_shape done steps r \<and> lx_transaction_id r = t"
  using assms
proof (induction steps arbitrary: k "done" ev h j)
  case Nil
  then show ?case by (auto simp: result_shape_def)
next
  case (Cons step steps)
  obtain x h1 where b: "backend step h = (x, h1)" by fastforce
  show ?case
  proof (cases x)
    case (Inl e)
    then show ?thesis using Cons.prems b
      by (auto simp: result_shape_stop) (simp_all add: stopped_at_def)
  next
    case res: (Inr res)
    define ev' where "ev' = (case sr_evidence_ref res of None \<Rightarrow> ev | Some e \<Rightarrow> ev @ [e])"
    define cp where "cp = \<lparr>cp_transaction_id = t, cp_sequence_no = k, cp_action = a, cp_step = step,
                         cp_evidence_ref = sr_evidence_ref res\<rparr>"
    obtain y j1 where sk: "sink cp j = (y, j1)" by fastforce
    show ?thesis
    proof (cases "sr_success res \<and> (\<exists>u. y = Inr u)")
      case True
      then have "execute_steps backend sink a t (k + 1) steps (done @ [step]) ev' (h1, j1) = (r, h', j')"
        using Cons.prems b res sk unfolding cp_def ev'_def by (auto simp: Let_def)
      from Cons.IH[OF this] show ?thesis using result_shape_next by blast
    next
      case False
      then have "\<exists>st reason. r = stopped_at t st reason done ev' step \<and> st \<in> {LX_FAILED, LX_RECOVERY_REQUIRED}"
        using Cons.prems b res sk unfolding cp_def ev'_def
        by (cases y) (auto simp: Let_def split: if_splits)
      then show ?thesis using result_shape_stop by (auto simp: stopped_at_def)
    qed
  qed
qed

section \<open>The journal interface\<close>

text \<open>
  What the executor and the recovery planner rely on. A recorded checkpoint is appended to
  the entries of its transaction unless it is there already; a call that raises leaves the
  entries alone; the entries of a transaction are numbered from one; loading returns them.
\<close>

definition append_entry ::
  "LifecycleCheckpoint \<Rightarrow> (string \<Rightarrow> LifecycleCheckpoint list) \<Rightarrow> string \<Rightarrow> LifecycleCheckpoint list" where
  "append_entry c E = (if c \<in> set (E (cp_transaction_id c)) then E
     else E(cp_transaction_id c := E (cp_transaction_id c) @ [c]))"

locale checkpoint_journal =
  fixes record_cp :: "'j checkpoint_sink"
    and load_cp :: "string \<Rightarrow> ('j, LifecycleCheckpoint list) action"
    and entries :: "'j \<Rightarrow> string \<Rightarrow> LifecycleCheckpoint list"
    and ok :: "'j \<Rightarrow> bool"
  assumes record_Inr: "ok j \<Longrightarrow> record_cp c j = (Inr u, j') \<Longrightarrow> ok j' \<and> entries j' = append_entry c (entries j)"
    and record_Inl: "ok j \<Longrightarrow> record_cp c j = (Inl e, j') \<Longrightarrow> ok j' \<and> entries j' = entries j"
    and numbered: "ok j \<Longrightarrow> map cp_sequence_no (entries j t) = [1..int (length (entries j t))]"
    and load_entries: "ok j \<Longrightarrow> \<not> blank t \<Longrightarrow>
      \<exists>j'. load_cp t j = (Inr (entries j t), j') \<and> ok j' \<and> entries j' = entries j"
begin

lemma record_next:
  assumes "ok j" and "cp_sequence_no c = int (length (entries j (cp_transaction_id c))) + 1"
    and "record_cp c j = (Inr u, j')"
  shows "ok j' \<and> entries j' = (entries j)(cp_transaction_id c := entries j (cp_transaction_id c) @ [c])"
proof -
  have "c \<notin> set (entries j (cp_transaction_id c))"
  proof
    assume "c \<in> set (entries j (cp_transaction_id c))"
    then have "cp_sequence_no c \<in> set (map cp_sequence_no (entries j (cp_transaction_id c)))" by simp
    then show False unfolding numbered[OF assms(1)] using assms(2) by simp
  qed
  then show ?thesis using record_Inr[OF assms(1,3)] by (simp add: append_entry_def)
qed

text \<open>The journal after a run holds, beyond what it held, exactly the completed steps.\<close>

lemma execute_steps_entries:
  assumes "execute_steps backend record_cp a t k steps done ev (h, j) = (r, h', j')"
    and "ok j" and "k = int (length (entries j t)) + 1"
  shows "ok j' \<and> (\<exists>new. entries j' = (entries j)(t := entries j t @ new)
    \<and> (\<forall>c \<in> set new. cp_action c = a \<and> cp_transaction_id c = t)
    \<and> lx_completed_steps r = done @ map cp_step new)"
  using assms
proof (induction steps arbitrary: k "done" ev h j)
  case Nil
  then show ?case by (intro conjI exI[of _ "[]"]) auto
next
  case (Cons step steps)
  obtain x h1 where b: "backend step h = (x, h1)" by fastforce
  show ?case
  proof (cases x)
    case (Inl e)
    then show ?thesis using Cons.prems b
      by (intro conjI exI[of _ "[]"]) (auto simp: stopped_at_def)
  next
    case res: (Inr res)
    define ev' where "ev' = (case sr_evidence_ref res of None \<Rightarrow> ev | Some e \<Rightarrow> ev @ [e])"
    define cp where "cp = \<lparr>cp_transaction_id = t, cp_sequence_no = k, cp_action = a, cp_step = step,
                         cp_evidence_ref = sr_evidence_ref res\<rparr>"
    have cp: "cp_transaction_id cp = t" "cp_sequence_no cp = k" "cp_action cp = a" "cp_step cp = step"
      by (simp_all add: cp_def)
    obtain y j1 where sk: "record_cp cp j = (y, j1)" by fastforce
    show ?thesis
    proof (cases "sr_success res")
      case False
      then show ?thesis using Cons.prems b res
        by (intro conjI exI[of _ "[]"]) (auto simp: stopped_at_def Let_def)
    next
      case success: True
      show ?thesis
      proof (cases y)
        case (Inl e)
        then have "j' = j1" "lx_completed_steps r = done"
          using Cons.prems(1) b res sk success unfolding cp_def by (auto simp: stopped_at_def Let_def)
        moreover have "ok j1 \<and> entries j1 = entries j" using record_Inl[OF Cons.prems(2)] sk Inl by blast
        ultimately show ?thesis by (intro conjI exI[of _ "[]"]) auto
      next
        case (Inr u)
        have rest: "execute_steps backend record_cp a t (k + 1) steps (done @ [step]) ev' (h1, j1) = (r, h', j')"
          using Cons.prems(1) b res sk success Inr unfolding cp_def ev'_def by (auto simp: Let_def)
        have j1: "ok j1" "entries j1 = (entries j)(t := entries j t @ [cp])"
          using record_next[of j cp u j1] Cons.prems(2,3) sk Inr cp by auto
        have "k + 1 = int (length (entries j1 t)) + 1" using Cons.prems(3) j1(2) by simp
        from Cons.IH[OF rest j1(1) this] obtain new where new: "ok j'"
          "entries j' = (entries j1)(t := entries j1 t @ new)"
          "\<forall>c \<in> set new. cp_action c = a \<and> cp_transaction_id c = t"
          "lx_completed_steps r = (done @ [step]) @ map cp_step new" by blast
        show ?thesis
        proof (intro conjI exI[of _ "cp # new"])
          show "ok j'" by (rule new(1))
          show "entries j' = (entries j)(t := entries j t @ (cp # new))"
            using new(2) j1(2) by (simp add: fun_eq_iff)
          show "\<forall>c \<in> set (cp # new). cp_action c = a \<and> cp_transaction_id c = t" using new(3) cp by simp
          show "lx_completed_steps r = done @ map cp_step (cp # new)" using new(4) cp by simp
        qed
      qed
    qed
  qed
qed

text \<open>A fresh transaction: what is loaded afterwards are the completed steps, in order.\<close>

lemma execute_plan_journal:
  assumes "execute_plan p backend record_cp t (h, j) = (Inr r, (h', j'))"
    and "ok j" and "entries j t = []" and "lp_decision p = LD_PROCEED"
  shows "ok j' \<and> (\<exists>cps. entries j' = (entries j)(t := cps) \<and> map cp_step cps = lx_completed_steps r
    \<and> (\<forall>c \<in> set cps. cp_action c = lp_action p \<and> cp_transaction_id c = t))
    \<and> result_shape [] (lp_steps p) r \<and> lx_transaction_id r = t \<and> \<not> blank t"
proof -
  have t: "\<not> blank t" and run: "execute_steps backend record_cp (lp_action p) t 1 (lp_steps p) [] [] (h, j) = (r, h', j')"
    using assms(1,4) by (auto simp: execute_plan_def require_transaction_id_def split: sum.splits prod.splits)
  have "(1::int) = int (length (entries j t)) + 1" using assms(3) by simp
  from execute_steps_entries[OF run assms(2) this] execute_steps_shape[OF run] t assms(3)
  show ?thesis by auto
qed

end

end
