(* ===== verification/Lifecycle_Journal.thy ===== *)
theory Lifecycle_Journal
  imports Lifecycle_Executor
begin

text \<open>
  The append-only SQLite checkpoint journal, \<^verbatim>\<open>src/src/a_conductor/lifecycle_journal.py\<close>. The
  database is the schema version and the rows of \<^verbatim>\<open>lifecycle_checkpoints\<close> with their text
  columns; the timestamp column, which nothing reads, is left out. Whether a statement of
  \<^verbatim>\<open>record\<close> fails with \<^verbatim>\<open>sqlite3.Error\<close> is decided by the environment, the argument
  \<open>db_fails\<close>; the code then rolls back.
\<close>

section \<open>Rows and values\<close>

fun lifecycle_action_value :: "LifecycleAction \<Rightarrow> string" where
  "lifecycle_action_value LA_START = ''START''"
| "lifecycle_action_value LA_STOP = ''STOP''"
| "lifecycle_action_value LA_RESTART = ''RESTART''"
| "lifecycle_action_value LA_RELEASE = ''RELEASE''"

fun lifecycle_step_value :: "LifecycleStep \<Rightarrow> string" where
  "lifecycle_step_value VERIFY_ASSIGNMENT = ''VERIFY_ASSIGNMENT''"
| "lifecycle_step_value VERIFY_RESOURCES = ''VERIFY_RESOURCES''"
| "lifecycle_step_value RENDER_PROFILE = ''RENDER_PROFILE''"
| "lifecycle_step_value PREFLIGHT = ''PREFLIGHT''"
| "lifecycle_step_value START_OWNED_PROCESS = ''START_OWNED_PROCESS''"
| "lifecycle_step_value WAIT_READY = ''WAIT_READY''"
| "lifecycle_step_value VERIFY_PROJECT_IDENTITY = ''VERIFY_PROJECT_IDENTITY''"
| "lifecycle_step_value TARGETED_STOP = ''TARGETED_STOP''"
| "lifecycle_step_value WAIT_EXIT = ''WAIT_EXIT''"
| "lifecycle_step_value VERIFY_RELEASED = ''VERIFY_RELEASED''"
| "lifecycle_step_value CLEAR_ASSIGNMENT = ''CLEAR_ASSIGNMENT''"
| "lifecycle_step_value EMIT_EVIDENCE = ''EMIT_EVIDENCE''"

text \<open>\<^verbatim>\<open>LifecycleAction(value)\<close> and \<^verbatim>\<open>LifecycleStep(value)\<close>.\<close>

definition lifecycle_action_of :: "string \<Rightarrow> exn + LifecycleAction" where
  "lifecycle_action_of v =
     (case filter (\<lambda>a. lifecycle_action_value a = v) [LA_START, LA_STOP, LA_RESTART, LA_RELEASE] of
        [] \<Rightarrow> Inl (ValueErr v) | a # _ \<Rightarrow> Inr a)"

definition lifecycle_step_of :: "string \<Rightarrow> exn + LifecycleStep" where
  "lifecycle_step_of v =
     (case filter (\<lambda>s. lifecycle_step_value s = v)
        [VERIFY_ASSIGNMENT, VERIFY_RESOURCES, RENDER_PROFILE, PREFLIGHT, START_OWNED_PROCESS, WAIT_READY,
         VERIFY_PROJECT_IDENTITY, TARGETED_STOP, WAIT_EXIT, VERIFY_RELEASED, CLEAR_ASSIGNMENT, EMIT_EVIDENCE] of
        [] \<Rightarrow> Inl (ValueErr v) | s # _ \<Rightarrow> Inr s)"

lemma lifecycle_action_of_value [simp]: "lifecycle_action_of (lifecycle_action_value a) = Inr a"
  by (cases a) (simp_all add: lifecycle_action_of_def)

lemma lifecycle_step_of_value [simp]: "lifecycle_step_of (lifecycle_step_value s) = Inr s"
  by (cases s) (simp_all add: lifecycle_step_of_def)

record CheckpointRow =
  cr_transaction_id :: string
  cr_sequence_no :: int
  cr_action :: string
  cr_step :: string
  cr_evidence_ref :: "string option"

record JournalDb =
  jd_schema :: "string option"
  jd_rows :: "CheckpointRow list"

definition JOURNAL_SCHEMA_VERSION :: string where
  "JOURNAL_SCHEMA_VERSION = ''1''"

section \<open>Operations\<close>

definition validate_checkpoint :: "LifecycleCheckpoint \<Rightarrow> exn + unit" where
  "validate_checkpoint c =
     res_bind (require_text (cp_transaction_id c) ''transaction_id'') (\<lambda>_.
     res_bind (require_positive_int (cp_sequence_no c) ''sequence_no'') (\<lambda>_.
     res_bind (require_optional_text (cp_evidence_ref c) ''evidence_ref'') (\<lambda>_. Inr ())))"

definition journal_initialize :: "(JournalDb, unit) action" where
  "journal_initialize db =
     (case jd_schema db of
        None \<Rightarrow> (Inr (), db\<lparr>jd_schema := Some JOURNAL_SCHEMA_VERSION\<rparr>)
      | Some v \<Rightarrow> if v \<noteq> JOURNAL_SCHEMA_VERSION then (Inl (JournalErr (''unsupported schema_version: '' @ v)), db)
                  else (Inr (), db))"

definition checkpoint_row :: "LifecycleCheckpoint \<Rightarrow> CheckpointRow" where
  "checkpoint_row c = \<lparr>cr_transaction_id = cp_transaction_id c, cr_sequence_no = cp_sequence_no c,
     cr_action = lifecycle_action_value (cp_action c), cr_step = lifecycle_step_value (cp_step c),
     cr_evidence_ref = cp_evidence_ref c\<rparr>"

text \<open>\<^verbatim>\<open>MAX(sequence_no)\<close> over the rows of the transaction, plus one.\<close>

definition expected_sequence :: "string \<Rightarrow> CheckpointRow list \<Rightarrow> int" where
  "expected_sequence t rows =
     (case map cr_sequence_no (filter (\<lambda>r. cr_transaction_id r = t) rows) of
        [] \<Rightarrow> 1 | s # ss \<Rightarrow> fold max ss s + 1)"

definition record_rows :: "LifecycleCheckpoint \<Rightarrow> CheckpointRow list \<Rightarrow> exn + CheckpointRow list" where
  "record_rows c rows =
     (case filter (\<lambda>r. cr_transaction_id r = cp_transaction_id c \<and> cr_sequence_no r = cp_sequence_no c) rows of
        existing # _ \<Rightarrow>
          if (cr_action existing, cr_step existing, cr_evidence_ref existing)
             = (lifecycle_action_value (cp_action c), lifecycle_step_value (cp_step c), cp_evidence_ref c)
          then Inr rows else Inl CheckpointConflictErr
      | [] \<Rightarrow>
          if cp_sequence_no c \<noteq> expected_sequence (cp_transaction_id c) rows
          then Inl (SequenceErr (expected_sequence (cp_transaction_id c) rows))
          else Inr (rows @ [checkpoint_row c]))"

definition journal_record :: "(LifecycleCheckpoint \<Rightarrow> bool) \<Rightarrow> LifecycleCheckpoint \<Rightarrow> (JournalDb, unit) action" where
  "journal_record db_fails c =
     andthen (lift_res (validate_checkpoint c)) (\<lambda>_.
     andthen journal_initialize (\<lambda>_ db.
       if db_fails c then (Inl (JournalErr ''unable to record lifecycle checkpoint''), db)
       else case record_rows c (jd_rows db) of
         Inl e \<Rightarrow> (Inl e, db)
       | Inr rows \<Rightarrow> (Inr (), db\<lparr>jd_rows := rows\<rparr>)))"

definition checkpoint_of_row :: "CheckpointRow \<Rightarrow> exn + LifecycleCheckpoint" where
  "checkpoint_of_row r =
     res_bind (lifecycle_action_of (cr_action r)) (\<lambda>a.
     res_bind (lifecycle_step_of (cr_step r)) (\<lambda>s.
     Inr \<lparr>cp_transaction_id = cr_transaction_id r, cp_sequence_no = cr_sequence_no r, cp_action = a,
          cp_step = s, cp_evidence_ref = cr_evidence_ref r\<rparr>))"

fun decode_rows :: "int \<Rightarrow> CheckpointRow list \<Rightarrow> exn + LifecycleCheckpoint list" where
  "decode_rows k [] = Inr []"
| "decode_rows k (r # rs) =
     (if cr_sequence_no r \<noteq> k then Inl (JournalErr ''invalid persisted checkpoint sequence'')
      else case checkpoint_of_row r of
        Inl _ \<Rightarrow> Inl (JournalErr ''invalid persisted checkpoint'')
      | Inr c \<Rightarrow> res_bind (decode_rows (k + 1) rs) (\<lambda>cs. Inr (c # cs)))"

definition select_rows :: "string \<Rightarrow> JournalDb \<Rightarrow> CheckpointRow list" where
  "select_rows t db = sort_key cr_sequence_no (filter (\<lambda>r. cr_transaction_id r = t) (jd_rows db))"

definition journal_load :: "string \<Rightarrow> (JournalDb, LifecycleCheckpoint list) action" where
  "journal_load t =
     andthen (lift_res (require_text t ''transaction_id'')) (\<lambda>_.
     andthen journal_initialize (\<lambda>_ db. (decode_rows 1 (select_rows t db), db)))"

section \<open>The journal invariant\<close>

text \<open>
  The rows are checkpoints, and those of one transaction are numbered from one in the
  order they were written.
\<close>

definition journal_holds :: "JournalDb \<Rightarrow> LifecycleCheckpoint list \<Rightarrow> bool" where
  "journal_holds db cs \<longleftrightarrow> jd_schema db \<in> {None, Some JOURNAL_SCHEMA_VERSION}
     \<and> jd_rows db = map checkpoint_row cs
     \<and> (\<forall>t. map cp_sequence_no (filter (\<lambda>c. cp_transaction_id c = t) cs)
            = [1..int (length (filter (\<lambda>c. cp_transaction_id c = t) cs))])"

definition journal_ok :: "JournalDb \<Rightarrow> bool" where
  "journal_ok db \<longleftrightarrow> (\<exists>cs. journal_holds db cs)"

definition journal_entries :: "JournalDb \<Rightarrow> string \<Rightarrow> LifecycleCheckpoint list" where
  "journal_entries db t = (case decode_rows 1 (select_rows t db) of Inr cs \<Rightarrow> cs | Inl _ \<Rightarrow> [])"

lemma checkpoint_of_row_inverse [simp]: "checkpoint_of_row (checkpoint_row c) = Inr c"
  by (simp add: checkpoint_of_row_def checkpoint_row_def)

lemma checkpoint_row_sel [simp]:
  "cr_transaction_id (checkpoint_row c) = cp_transaction_id c"
  "cr_sequence_no (checkpoint_row c) = cp_sequence_no c"
  "cr_action (checkpoint_row c) = lifecycle_action_value (cp_action c)"
  "cr_step (checkpoint_row c) = lifecycle_step_value (cp_step c)"
  "cr_evidence_ref (checkpoint_row c) = cp_evidence_ref c"
  by (simp_all add: checkpoint_row_def)

lemma checkpoint_row_inj [simp]: "checkpoint_row c = checkpoint_row d \<longleftrightarrow> c = d"
  by (metis checkpoint_of_row_inverse sum.inject(2))

lemma decode_checkpoint_rows:
  "map cp_sequence_no cs = [k..k + int (length cs) - 1] \<Longrightarrow> decode_rows k (map checkpoint_row cs) = Inr cs"
proof (induction cs arbitrary: k)
  case Nil
  then show ?case by simp
next
  case (Cons c cs)
  have "[k..k + int (length (c # cs)) - 1] = k # [k + 1..k + int (length (c # cs)) - 1]"
    by (subst upto_rec1) auto
  with Cons.prems have c: "cp_sequence_no c = k"
    and cs: "map cp_sequence_no cs = [k + 1..(k + 1) + int (length cs) - 1]"
    by (simp_all add: algebra_simps)
  show ?case using c Cons.IH[OF cs] by simp
qed

lemma holds_entries:
  assumes "journal_holds db cs"
  shows "decode_rows 1 (select_rows t db) = Inr (filter (\<lambda>c. cp_transaction_id c = t) cs)"
proof -
  define ds where "ds = filter (\<lambda>c. cp_transaction_id c = t) cs"
  have num: "map cp_sequence_no ds = [1..int (length ds)]"
    using assms by (simp add: journal_holds_def ds_def)
  have rows: "filter (\<lambda>r. cr_transaction_id r = t) (jd_rows db) = map checkpoint_row ds"
    using assms by (simp add: journal_holds_def filter_map o_def ds_def)
  have "sorted (map cr_sequence_no (map checkpoint_row ds))"
    using num sorted_upto[of 1 "int (length ds)"] by (simp add: o_def)
  then have "select_rows t db = map checkpoint_row ds"
    unfolding select_rows_def rows by (rule sort_key_id_if_sorted)
  then show ?thesis using decode_checkpoint_rows[of ds 1] num by (simp add: ds_def)
qed

lemma entries_holds:
  "journal_holds db cs \<Longrightarrow> journal_entries db t = filter (\<lambda>c. cp_transaction_id c = t) cs"
  by (simp add: journal_entries_def holds_entries)

lemma holds_expected:
  assumes "journal_holds db cs"
  shows "expected_sequence t (jd_rows db) = int (length (filter (\<lambda>c. cp_transaction_id c = t) cs)) + 1"
proof -
  define n where "n = int (length (filter (\<lambda>c. cp_transaction_id c = t) cs))"
  have seqs: "map cr_sequence_no (filter (\<lambda>r. cr_transaction_id r = t) (jd_rows db)) = [1..n]"
    using assms by (simp add: journal_holds_def filter_map o_def n_def)
  show ?thesis
  proof (cases "[1..n]")
    case Nil
    moreover have "n \<ge> 0" by (simp add: n_def)
    ultimately have "n = 0" using length_upto[of 1 n] by simp
    then show ?thesis unfolding expected_sequence_def seqs Nil n_def[symmetric] by simp
  next
    case (Cons s ss)
    then have "n \<ge> 1" by (cases "n \<ge> 1") auto
    then have "fold max ss s = n" using Cons by (rule fold_max_upto)
    then show ?thesis unfolding expected_sequence_def seqs Cons n_def[symmetric] by simp
  qed
qed

text \<open>A successful write: the checkpoint was there, or it is the next one of its transaction.\<close>

lemma record_rows_Inr:
  assumes h: "journal_holds db cs" and r: "record_rows c (jd_rows db) = Inr rows"
  shows "c \<in> set cs \<and> rows = jd_rows db
    \<or> c \<notin> set cs \<and> rows = map checkpoint_row (cs @ [c])
      \<and> cp_sequence_no c = int (length (filter (\<lambda>d. cp_transaction_id d = cp_transaction_id c) cs)) + 1"
proof (cases "filter (\<lambda>r. cr_transaction_id r = cp_transaction_id c \<and> cr_sequence_no r = cp_sequence_no c) (jd_rows db)")
  case Nil
  have rows: "jd_rows db = map checkpoint_row cs" using h by (simp add: journal_holds_def)
  have "c \<notin> set cs" using Nil unfolding rows filter_empty_conv by auto
  moreover have "cp_sequence_no c = expected_sequence (cp_transaction_id c) (jd_rows db)"
    using r Nil by (auto simp: record_rows_def split: if_splits)
  moreover have "rows = jd_rows db @ [checkpoint_row c]"
    using r Nil by (auto simp: record_rows_def split: if_splits)
  ultimately show ?thesis using holds_expected[OF h] rows by simp
next
  case (Cons e es)
  then have "e \<in> set (jd_rows db)" and key: "cr_transaction_id e = cp_transaction_id c" "cr_sequence_no e = cp_sequence_no c"
    by (auto dest: filter_eq_ConsD)
  then obtain d where d: "d \<in> set cs" "e = checkpoint_row d"
    using h unfolding journal_holds_def by (metis imageE list.set_map)
  have same: "cr_action e = lifecycle_action_value (cp_action c)" "cr_step e = lifecycle_step_value (cp_step c)"
    "cr_evidence_ref e = cp_evidence_ref c" and rows: "rows = jd_rows db"
    using r Cons by (auto simp: record_rows_def split: if_splits)
  have "e = checkpoint_row c" using key same by (cases e) (simp add: checkpoint_row_def)
  with d have "c = d" by simp
  with d(1) rows show ?thesis by simp
qed

lemma holds_snoc:
  assumes "journal_holds db cs"
    and "cp_sequence_no c = int (length (filter (\<lambda>d. cp_transaction_id d = cp_transaction_id c) cs)) + 1"
  shows "journal_holds (db\<lparr>jd_rows := map checkpoint_row (cs @ [c])\<rparr>) (cs @ [c])"
proof -
  have "[1..int n + 1] = [1..int n] @ [int n + 1]" for n by (simp add: upto_rec2)
  then show ?thesis using assms by (auto simp: journal_holds_def add.commute)
qed

lemma journal_initialize_ok:
  assumes "journal_holds db cs"
  shows "\<exists>db'. journal_initialize db = (Inr (), db') \<and> journal_holds db' cs \<and> jd_rows db' = jd_rows db"
  using assms by (auto simp: journal_holds_def journal_initialize_def)

lemma journal_record_cases:
  assumes h: "journal_holds db cs" and r: "journal_record f c db = (x, db')"
  shows "case x of Inl _ \<Rightarrow> journal_holds db' cs
    | Inr _ \<Rightarrow> if c \<in> set cs then journal_holds db' cs else journal_holds db' (cs @ [c])"
proof -
  obtain db1 where i: "journal_initialize db = (Inr (), db1)" and h1: "journal_holds db1 cs"
    using journal_initialize_ok[OF h] by blast
  show ?thesis
  proof (cases "validate_checkpoint c")
    case (Inl e)
    have "journal_record f c db = (Inl e, db)"
      unfolding journal_record_def andthen_def lift_res_def Inl by simp
    then show ?thesis using r h by simp
  next
    case v: (Inr u)
    show ?thesis
    proof (cases "f c")
      case True
      then show ?thesis using r v i h1 by (auto simp: journal_record_def andthen_def lift_res_def)
    next
      case False
      show ?thesis
      proof (cases "record_rows c (jd_rows db1)")
        case (Inl e)
        then show ?thesis using r v i h1 False by (auto simp: journal_record_def andthen_def lift_res_def)
      next
        case (Inr rows)
        then have "x = Inr ()" "db' = db1\<lparr>jd_rows := rows\<rparr>"
          using r v i False by (auto simp: journal_record_def andthen_def lift_res_def)
        then show ?thesis using record_rows_Inr[OF h1 Inr] h1 holds_snoc[OF h1, of c] by auto
      qed
    qed
  qed
qed

lemma append_entry_filter:
  "append_entry c (\<lambda>t. filter (\<lambda>d. cp_transaction_id d = t) cs)
     = (\<lambda>t. filter (\<lambda>d. cp_transaction_id d = t) (if c \<in> set cs then cs else cs @ [c]))"
  by (auto simp: append_entry_def fun_eq_iff)

text \<open>The SQLite journal is a checkpoint journal, whichever statements fail.\<close>

interpretation jr: checkpoint_journal "journal_record f" journal_load journal_entries journal_ok for f
proof (unfold_locales)
  fix j c u j'
  assume "journal_ok j" and r: "journal_record f c j = (Inr u, j')"
  then obtain cs where h: "journal_holds j cs" unfolding journal_ok_def by blast
  have h': "journal_holds j' (if c \<in> set cs then cs else cs @ [c])"
    using journal_record_cases[OF h r] by (simp split: if_splits)
  have "journal_entries j' = append_entry c (journal_entries j)"
    unfolding entries_holds[OF h'] entries_holds[OF h] append_entry_filter[symmetric] fun_eq_iff
    using entries_holds[OF h'] entries_holds[OF h] append_entry_filter[of c cs] by (simp add: fun_eq_iff append_entry_def)
  then show "journal_ok j' \<and> journal_entries j' = append_entry c (journal_entries j)"
    using h' journal_ok_def by blast
next
  fix j c e j'
  assume "journal_ok j" and r: "journal_record f c j = (Inl e, j')"
  then obtain cs where h: "journal_holds j cs" unfolding journal_ok_def by blast
  have h': "journal_holds j' cs" using journal_record_cases[OF h r] by simp
  then show "journal_ok j' \<and> journal_entries j' = journal_entries j"
    using journal_ok_def by (auto simp: fun_eq_iff entries_holds[OF h] entries_holds[OF h'])
next
  fix j t
  assume "journal_ok j"
  then obtain cs where h: "journal_holds j cs" unfolding journal_ok_def by blast
  then show "map cp_sequence_no (journal_entries j t) = [1..int (length (journal_entries j t))]"
    unfolding entries_holds[OF h] by (simp add: journal_holds_def)
next
  fix j and t :: string
  assume "journal_ok j" and t: "\<not> blank t"
  then obtain cs where h: "journal_holds j cs" unfolding journal_ok_def by blast
  obtain j1 where i: "journal_initialize j = (Inr (), j1)" and h1: "journal_holds j1 cs"
    using journal_initialize_ok[OF h] by blast
  have "journal_load t j = (Inr (journal_entries j t), j1)"
    using i t h holds_entries[OF h1] by (simp add: journal_load_def andthen_def lift_res_def require_text_def entries_holds)
  moreover have "journal_entries j1 = journal_entries j"
    by (simp add: fun_eq_iff entries_holds[OF h] entries_holds[OF h1])
  ultimately show "\<exists>j'. journal_load t j = (Inr (journal_entries j t), j') \<and> journal_ok j' \<and> journal_entries j' = journal_entries j"
    using h1 journal_ok_def by blast
qed

section \<open>Durability\<close>

text \<open>The databases later calls can leave, whatever they record and whichever statements fail.\<close>

inductive journal_later :: "JournalDb \<Rightarrow> JournalDb \<Rightarrow> bool" where
  later_refl: "journal_later db db"
| later_record: "journal_later db db1 \<Longrightarrow> journal_record f c db1 = (x, db2) \<Longrightarrow> journal_later db db2"

definition empty_journal :: JournalDb where
  "empty_journal = \<lparr>jd_schema = None, jd_rows = []\<rparr>"

lemma empty_journal_ok: "journal_ok empty_journal"
  unfolding journal_ok_def by (rule exI[of _ "[]"]) (simp add: journal_holds_def empty_journal_def)

lemma journal_later_holds:
  assumes "journal_later db db'" and "journal_holds db cs"
  shows "\<exists>new. journal_holds db' (cs @ new)"
  using assms
proof (induction rule: journal_later.induct)
  case (later_refl db)
  then show ?case by (intro exI[of _ "[]"]) simp
next
  case (later_record db db1 f c x db2)
  then obtain new where new: "journal_holds db1 (cs @ new)" by blast
  from journal_record_cases[OF this later_record(2)] have
    "journal_holds db2 (cs @ new) \<or> journal_holds db2 (cs @ new @ [c])"
    by (cases x) (auto split: if_splits)
  then show ?case by blast
qed

lemma numbered_nth:
  assumes "map cp_sequence_no cs = [1..int (length cs)]" and "c \<in> set cs"
  shows "1 \<le> cp_sequence_no c \<and> cp_sequence_no c \<le> int (length cs) \<and> cs ! nat (cp_sequence_no c - 1) = c"
proof -
  from assms(2) obtain i where i: "i < length cs" "cs ! i = c" by (auto simp: in_set_conv_nth)
  then have "map cp_sequence_no cs ! i = cp_sequence_no c" by simp
  then have "cp_sequence_no c = 1 + int i" unfolding assms(1) using i(1) by simp
  then show ?thesis using i by simp
qed

lemma record_rows_existing:
  assumes h: "journal_holds db cs" and d: "d \<in> set cs"
    and key: "cp_transaction_id c = cp_transaction_id d" "cp_sequence_no c = cp_sequence_no d"
  shows "record_rows c (jd_rows db) = (if c = d then Inr (jd_rows db) else Inl CheckpointConflictErr)"
proof -
  define Q where "Q = (\<lambda>r :: CheckpointRow. cr_transaction_id r = cp_transaction_id c \<and> cr_sequence_no r = cp_sequence_no c)"
  have rows: "jd_rows db = map checkpoint_row cs" using h by (simp add: journal_holds_def)
  then have "checkpoint_row d \<in> set (filter Q (jd_rows db))" using d key by (simp add: Q_def)
  then obtain e es where e: "filter Q (jd_rows db) = e # es" by (cases "filter Q (jd_rows db)") auto
  then have "e \<in> set (filter Q (jd_rows db))" by simp
  then obtain b where b: "e = checkpoint_row b" "b \<in> set cs" "cp_transaction_id b = cp_transaction_id d"
    "cp_sequence_no b = cp_sequence_no d" unfolding rows Q_def using key by auto
  define ds where "ds = filter (\<lambda>x. cp_transaction_id x = cp_transaction_id d) cs"
  have num: "map cp_sequence_no ds = [1..int (length ds)]" using h by (simp add: journal_holds_def ds_def)
  have "b \<in> set ds" "d \<in> set ds" using b d by (simp_all add: ds_def)
  then have "b = d" using numbered_nth[OF num] b(4) by metis
  have eq: "cr_action e = lifecycle_action_value (cp_action c) \<and> cr_step e = lifecycle_step_value (cp_step c)
      \<and> cr_evidence_ref e = cp_evidence_ref c \<longleftrightarrow> checkpoint_row d = checkpoint_row c"
    using key b(1) \<open>b = d\<close> by (auto simp: checkpoint_row_def)
  have "record_rows c (jd_rows db) = (case filter Q (jd_rows db) of
        existing # _ \<Rightarrow>
          if (cr_action existing, cr_step existing, cr_evidence_ref existing)
             = (lifecycle_action_value (cp_action c), lifecycle_step_value (cp_step c), cp_evidence_ref c)
          then Inr (jd_rows db) else Inl CheckpointConflictErr
      | [] \<Rightarrow>
          if cp_sequence_no c \<noteq> expected_sequence (cp_transaction_id c) (jd_rows db)
          then Inl (SequenceErr (expected_sequence (cp_transaction_id c) (jd_rows db)))
          else Inr (jd_rows db @ [checkpoint_row c]))"
    unfolding record_rows_def Q_def by (rule refl)
  then show ?thesis unfolding e using eq by auto
qed

lemma journal_record_existing:
  assumes h: "journal_holds db cs" and d: "d \<in> set cs" and v: "validate_checkpoint c = Inr ()"
    and f: "\<not> f c" and key: "cp_transaction_id c = cp_transaction_id d" "cp_sequence_no c = cp_sequence_no d"
  shows "fst (journal_record f c db) = (if c = d then Inr () else Inl CheckpointConflictErr)"
proof -
  obtain db1 where i: "journal_initialize db = (Inr (), db1)" and h1: "journal_holds db1 cs"
    using journal_initialize_ok[OF h] by blast
  show ?thesis using i f v record_rows_existing[OF h1 d key]
    by (auto simp: journal_record_def andthen_def lift_res_def)
qed

text \<open>
  A recorded checkpoint is durable. Once \<^verbatim>\<open>record\<close> has returned, then after any further
  calls, failing or not, \<^verbatim>\<open>load\<close> returns the checkpoints of the transaction numbered from one
  without a gap, with this one unchanged at its position; recording it again is accepted,
  and a different checkpoint under the same transaction and number is refused as a conflict.
\<close>

theorem journal_record_durable:
  assumes "journal_later empty_journal db" and "journal_record f c db = (Inr (), db1)"
    and "journal_later db1 db2"
  shows "(\<exists>cps db3. journal_load (cp_transaction_id c) db2 = (Inr cps, db3)
      \<and> map cp_sequence_no cps = [1..int (length cps)] \<and> (\<forall>x \<in> set cps. cp_transaction_id x = cp_transaction_id c)
      \<and> cp_sequence_no c \<le> int (length cps) \<and> cps ! nat (cp_sequence_no c - 1) = c)
    \<and> (\<not> g c \<longrightarrow> fst (journal_record g c db2) = Inr ())
    \<and> (\<not> g d \<and> d \<noteq> c \<and> validate_checkpoint d = Inr () \<and> cp_transaction_id d = cp_transaction_id c
         \<and> cp_sequence_no d = cp_sequence_no c
       \<longrightarrow> fst (journal_record g d db2) = Inl CheckpointConflictErr)"
proof -
  obtain cs where cs: "journal_holds db cs"
    using journal_later_holds[OF assms(1)] empty_journal_ok unfolding journal_ok_def by blast
  have v: "validate_checkpoint c = Inr ()"
    using assms(2) unfolding journal_record_def andthen_def lift_res_def
    by (cases "validate_checkpoint c") auto
  obtain cs1 where cs1: "journal_holds db1 cs1" "c \<in> set cs1"
    using journal_record_cases[OF cs assms(2)] by (cases "c \<in> set cs") auto
  obtain cs2 where cs2: "journal_holds db2 cs2" "c \<in> set cs2"
    using journal_later_holds[OF assms(3) cs1(1)] cs1(2) by auto
  have t: "\<not> blank (cp_transaction_id c)" using v by (auto simp: validate_checkpoint_def)
  have ok: "journal_ok db2" using cs2(1) journal_ok_def by blast
  obtain db3 where load: "journal_load (cp_transaction_id c) db2 = (Inr (journal_entries db2 (cp_transaction_id c)), db3)"
    using jr.load_entries[OF ok t] by blast
  have mem: "c \<in> set (journal_entries db2 (cp_transaction_id c))"
    "\<forall>x \<in> set (journal_entries db2 (cp_transaction_id c)). cp_transaction_id x = cp_transaction_id c"
    using cs2 by (simp_all add: entries_holds[OF cs2(1)])
  note num = jr.numbered[OF ok, of "cp_transaction_id c"]
  note at = numbered_nth[OF num mem(1)]
  show ?thesis
  proof (intro conjI)
    show "\<exists>cps db3. journal_load (cp_transaction_id c) db2 = (Inr cps, db3)
      \<and> map cp_sequence_no cps = [1..int (length cps)] \<and> (\<forall>x \<in> set cps. cp_transaction_id x = cp_transaction_id c)
      \<and> cp_sequence_no c \<le> int (length cps) \<and> cps ! nat (cp_sequence_no c - 1) = c"
      using load num mem(2) at by blast
    show "\<not> g c \<longrightarrow> fst (journal_record g c db2) = Inr ()"
      using journal_record_existing[OF cs2 v, of g] by simp
    show "\<not> g d \<and> d \<noteq> c \<and> validate_checkpoint d = Inr () \<and> cp_transaction_id d = cp_transaction_id c
         \<and> cp_sequence_no d = cp_sequence_no c
       \<longrightarrow> fst (journal_record g d db2) = Inl CheckpointConflictErr"
      using journal_record_existing[OF cs2, of d g] by simp
  qed
qed

definition sample_checkpoint :: "int \<Rightarrow> LifecycleStep \<Rightarrow> LifecycleCheckpoint" where
  "sample_checkpoint n s = \<lparr>cp_transaction_id = ''tx-1'', cp_sequence_no = n, cp_action = LA_STOP, cp_step = s,
     cp_evidence_ref = Some ''ev''\<rparr>"

definition sample_journal :: JournalDb where
  "sample_journal = snd (journal_record (\<lambda>_. False) (sample_checkpoint 1 TARGETED_STOP) empty_journal)"

theorem journal_record_durable_witness:
  "fst (journal_record (\<lambda>_. False) (sample_checkpoint 1 WAIT_EXIT) sample_journal) = Inl CheckpointConflictErr
   \<and> fst (journal_record (\<lambda>_. False) (sample_checkpoint 1 TARGETED_STOP) sample_journal) = Inr ()"
proof -
  have first: "journal_later empty_journal empty_journal" by (rule later_refl)
  have "fst (journal_record (\<lambda>_. False) (sample_checkpoint 1 TARGETED_STOP) empty_journal) = Inr ()" by code_simp
  then have rec: "journal_record (\<lambda>_. False) (sample_checkpoint 1 TARGETED_STOP) empty_journal = (Inr (), sample_journal)"
    by (simp add: sample_journal_def prod_eq_iff)
  have v: "validate_checkpoint (sample_checkpoint 1 WAIT_EXIT) = Inr ()" by code_simp
  show ?thesis
    using journal_record_durable[OF first rec later_refl, of "\<lambda>_. False" "sample_checkpoint 1 WAIT_EXIT"] v
    by (simp add: sample_checkpoint_def)
qed

end
