(* ===== verification/Lifecycle_Recovery.thy ===== *)
theory Lifecycle_Recovery
  imports Lifecycle_Journal
begin

text \<open>
  Resume planning from durable checkpoints, \<^verbatim>\<open>src/src/a_conductor/lifecycle_recovery.py\<close>, and
  what it means together with the executor and the journal: after a run that stopped
  anywhere, the plan to resume is the rest of the approved plan.
\<close>

section \<open>Definitions\<close>

datatype LifecycleReconciliationAssessment =
    CONSISTENT_WITH_JOURNAL | MUTATION_AHEAD_OF_JOURNAL | ASSESSED_DRIFT | ASSESSED_UNKNOWN

datatype LifecycleResumeDecision = LR_RESUME | LR_COMPLETE | LR_RECOVERY_REQUIRED | LR_REFUSE

record LifecycleResumePlan =
  rp_transaction_id :: string
  rp_decision :: LifecycleResumeDecision
  rp_reason_code :: string
  rp_durable_steps :: "LifecycleStep list"
  rp_remaining_steps :: "LifecycleStep list"
  rp_next_step :: "LifecycleStep option"

definition resume_result ::
  "string \<Rightarrow> LifecycleResumeDecision \<Rightarrow> string \<Rightarrow> LifecycleStep list \<Rightarrow> LifecycleStep list \<Rightarrow> LifecycleResumePlan" where
  "resume_result t d reason durable remaining =
     \<lparr>rp_transaction_id = t, rp_decision = d, rp_reason_code = reason, rp_durable_steps = durable,
      rp_remaining_steps = remaining,
      rp_next_step = (case remaining of [] \<Rightarrow> None | s # _ \<Rightarrow> Some s)\<rparr>"

text \<open>
  The validation loop: the reason of the refusal, or the durable steps. \<open>k\<close> is the expected
  sequence number; \<open>steps\<close> are the plan's steps from there on, at least as many as checkpoints.
\<close>

fun validate_checkpoints ::
  "string \<Rightarrow> LifecycleAction \<Rightarrow> int \<Rightarrow> LifecycleStep list \<Rightarrow> LifecycleCheckpoint list \<Rightarrow> string + LifecycleStep list" where
  "validate_checkpoints t a k steps [] = Inr []"
| "validate_checkpoints t a k steps (c # cs) =
     (if cp_transaction_id c \<noteq> t then Inl ''CHECKPOINT_TRANSACTION_MISMATCH''
      else if cp_action c \<noteq> a then Inl ''CHECKPOINT_ACTION_MISMATCH''
      else if cp_sequence_no c \<noteq> k then Inl ''CHECKPOINT_SEQUENCE_INVALID''
      else case steps of
        [] \<Rightarrow> Inl ''IndexError''
      | s # rest \<Rightarrow> if cp_step c \<noteq> s then Inl ''CHECKPOINT_PLAN_MISMATCH''
                    else res_bind (validate_checkpoints t a (k + 1) rest cs) (\<lambda>ds. Inr (cp_step c # ds)))"

definition resume_assessed ::
  "string \<Rightarrow> LifecycleStep list \<Rightarrow> LifecycleReconciliationAssessment \<Rightarrow> LifecycleStep list \<Rightarrow> LifecycleResumePlan" where
  "resume_assessed t steps assessment durable =
     (case assessment of
        ASSESSED_UNKNOWN \<Rightarrow> resume_result t LR_RECOVERY_REQUIRED ''RECONCILIATION_UNKNOWN'' durable []
      | MUTATION_AHEAD_OF_JOURNAL \<Rightarrow> resume_result t LR_RECOVERY_REQUIRED ''MUTATION_AHEAD_OF_JOURNAL'' durable []
      | ASSESSED_DRIFT \<Rightarrow> resume_result t LR_REFUSE ''UNEXPECTED_DRIFT'' durable []
      | CONSISTENT_WITH_JOURNAL \<Rightarrow>
          (let remaining = drop (length durable) steps in
           if remaining = [] then resume_result t LR_COMPLETE ''JOURNAL_COMPLETE'' durable []
           else resume_result t LR_RESUME ''RESUME_FROM_JOURNAL'' durable remaining))"

definition plan_lifecycle_resume ::
  "string \<Rightarrow> LifecyclePlan \<Rightarrow> LifecycleCheckpoint list \<Rightarrow> LifecycleReconciliationAssessment
     \<Rightarrow> exn + LifecycleResumePlan" where
  "plan_lifecycle_resume t p checkpoints assessment =
     res_bind (require_transaction_id t) (\<lambda>t. Inr (
       if lp_decision p \<noteq> LD_PROCEED then resume_result t LR_REFUSE ''PLAN_NOT_EXECUTABLE'' [] []
       else if length checkpoints > length (lp_steps p)
       then resume_result t LR_REFUSE ''CHECKPOINT_PLAN_MISMATCH'' [] []
       else case validate_checkpoints t (lp_action p) 1 (lp_steps p) checkpoints of
         Inl reason \<Rightarrow> resume_result t LR_REFUSE reason [] []
       | Inr durable \<Rightarrow> resume_assessed t (lp_steps p) assessment durable))"

section \<open>Validation\<close>

text \<open>The checkpoints a run of the plan leaves behind.\<close>

definition run_prefix :: "string \<Rightarrow> LifecyclePlan \<Rightarrow> LifecycleCheckpoint list \<Rightarrow> bool" where
  "run_prefix t p cs \<longleftrightarrow> map cp_step cs = take (length cs) (lp_steps p)
     \<and> map cp_sequence_no cs = [1..int (length cs)]
     \<and> (\<forall>c \<in> set cs. cp_action c = lp_action p \<and> cp_transaction_id c = t)"

lemma validate_checkpoints_Inr:
  "validate_checkpoints t a k steps cs = Inr ds \<longleftrightarrow>
     ds = map cp_step cs \<and> map cp_step cs = take (length cs) steps
     \<and> map cp_sequence_no cs = [k..k + int (length cs) - 1]
     \<and> (\<forall>c \<in> set cs. cp_action c = a \<and> cp_transaction_id c = t)"
proof (induction cs arbitrary: k steps ds)
  case Nil
  then show ?case by auto
next
  case (Cons c cs)
  have upto: "[k..k + int (length (c # cs)) - 1] = k # [k + 1..(k + 1) + int (length cs) - 1]"
    by (subst upto_rec1) (auto simp: algebra_simps)
  show ?case
  proof (cases steps)
    case Nil
    then show ?thesis by simp
  next
    case steps: (Cons s rest)
    show ?thesis unfolding upto using Cons.IH[of "k + 1" rest] steps by auto
  qed
qed

lemma resume_decision_iff:
  assumes "\<not> blank t" and "plan_lifecycle_resume t p cs a = Inr r"
  shows "rp_decision r \<in> {LR_RESUME, LR_COMPLETE} \<longleftrightarrow>
     lp_decision p = LD_PROCEED \<and> a = CONSISTENT_WITH_JOURNAL \<and> run_prefix t p cs"
proof -
  have len: "map cp_step cs = take (length cs) (lp_steps p) \<Longrightarrow> length cs \<le> length (lp_steps p)"
    by (metis length_map length_take min.absorb_iff2 min.commute nat_le_linear)
  have r: "r = (if lp_decision p \<noteq> LD_PROCEED then resume_result t LR_REFUSE ''PLAN_NOT_EXECUTABLE'' [] []
       else if length cs > length (lp_steps p) then resume_result t LR_REFUSE ''CHECKPOINT_PLAN_MISMATCH'' [] []
       else case validate_checkpoints t (lp_action p) 1 (lp_steps p) cs of
         Inl reason \<Rightarrow> resume_result t LR_REFUSE reason [] []
       | Inr durable \<Rightarrow> resume_assessed t (lp_steps p) a durable)"
    using assms by (simp add: plan_lifecycle_resume_def require_transaction_id_def)
  have assessed: "rp_decision (resume_assessed t ss a ds) \<in> {LR_RESUME, LR_COMPLETE} \<longleftrightarrow> a = CONSISTENT_WITH_JOURNAL"
    for ss ds by (cases a) (simp_all add: resume_assessed_def resume_result_def Let_def)
  have prefix: "run_prefix t p cs \<longleftrightarrow> (\<exists>ds. validate_checkpoints t (lp_action p) 1 (lp_steps p) cs = Inr ds)"
    unfolding run_prefix_def validate_checkpoints_Inr by auto
  show ?thesis
  proof (cases "validate_checkpoints t (lp_action p) 1 (lp_steps p) cs")
    case (Inl x)
    then show ?thesis using prefix r by (simp add: resume_result_def)
  next
    case (Inr ds)
    then have "length cs \<le> length (lp_steps p)" using len validate_checkpoints_Inr by blast
    then show ?thesis using prefix r assessed Inr by (simp add: resume_result_def)
  qed
qed

lemma resume_of_prefix:
  assumes "run_prefix t p cs" and "lp_decision p = LD_PROCEED" and "\<not> blank t"
  shows "plan_lifecycle_resume t p cs a = Inr (resume_assessed t (lp_steps p) a (map cp_step cs))"
proof -
  have "validate_checkpoints t (lp_action p) 1 (lp_steps p) cs = Inr (map cp_step cs)"
    using assms(1) unfolding run_prefix_def validate_checkpoints_Inr by simp
  moreover have "length cs \<le> length (lp_steps p)"
    using assms(1) unfolding run_prefix_def by (metis length_map length_take min.cobounded1)
  ultimately show ?thesis using assms(2,3)
    by (simp add: plan_lifecycle_resume_def require_transaction_id_def require_text_def)
qed

section \<open>Resuming a run\<close>

lemma run_leaves_prefix:
  assumes run: "execute_plan p backend (journal_record f) t (h, j) = (Inr r, (h', j'))"
    and ok: "journal_ok j" and fresh: "journal_entries j t = []" and proceed: "lp_decision p = LD_PROCEED"
  obtains j'' where "journal_load t j' = (Inr (journal_entries j' t), j'')" "run_prefix t p (journal_entries j' t)"
    "map cp_step (journal_entries j' t) = lx_completed_steps r" "result_shape [] (lp_steps p) r" "\<not> blank t"
proof -
  from jr.execute_plan_journal[OF run ok fresh proceed] obtain cps where
    ok': "journal_ok j'" and e: "journal_entries j' = (journal_entries j)(t := cps)"
    and steps: "map cp_step cps = lx_completed_steps r"
    and all: "\<forall>c \<in> set cps. cp_action c = lp_action p \<and> cp_transaction_id c = t"
    and shape: "result_shape [] (lp_steps p) r" and t: "\<not> blank t" by blast
  have cps: "journal_entries j' t = cps" using e by simp
  have "\<exists>n. lx_completed_steps r = take n (lp_steps p) \<and> n \<le> length (lp_steps p)"
    using shape unfolding result_shape_def by auto
  then have "map cp_step cps = take (length cps) (lp_steps p)"
    using steps by (metis length_map length_take min.absorb2)
  then have "run_prefix t p cps"
    using all jr.numbered[OF ok', of t] cps unfolding run_prefix_def by simp
  moreover obtain j'' where "journal_load t j' = (Inr cps, j'')" using jr.load_entries[OF ok' t] cps by metis
  ultimately show ?thesis using that steps shape t cps by blast
qed

text \<open>
  C24: recovery resumes exactly where the run stopped. A plan is executed under a fresh
  transaction on the SQLite journal; backend calls and database statements may fail
  anywhere. The loaded journal then holds exactly the completed steps, a prefix of the
  plan. If the host is assessed as consistent with the journal, the resume plan is
  the remaining suffix, starting with the step that failed, and it is complete exactly
  when the run was; in every other assessment nothing is resumed.
\<close>

theorem crash_resume_exact:
  assumes "execute_plan p backend (journal_record f) t (h, j) = (Inr r, (h', j'))"
    and "journal_later empty_journal j" and "journal_entries j t = []" and "lp_decision p = LD_PROCEED"
  shows "\<exists>cps j''. journal_load t j' = (Inr cps, j'') \<and> map cp_step cps = lx_completed_steps r
    \<and> (\<exists>plan. plan_lifecycle_resume t p cps CONSISTENT_WITH_JOURNAL = Inr plan
         \<and> lx_completed_steps r @ rp_remaining_steps plan = lp_steps p
         \<and> rp_next_step plan = lx_failed_step r
         \<and> (rp_decision plan = LR_COMPLETE \<longleftrightarrow> lx_state r = LX_COMPLETE)
         \<and> (rp_decision plan = LR_RESUME \<longleftrightarrow> lx_state r \<noteq> LX_COMPLETE))
    \<and> (\<forall>a plan. a \<noteq> CONSISTENT_WITH_JOURNAL \<and> plan_lifecycle_resume t p cps a = Inr plan
         \<longrightarrow> rp_remaining_steps plan = [] \<and> rp_decision plan \<in> {LR_RECOVERY_REQUIRED, LR_REFUSE})"
proof -
  have ok: "journal_ok j"
    using journal_later_holds[OF assms(2)] empty_journal_ok unfolding journal_ok_def by blast
  obtain j'' where load: "journal_load t j' = (Inr (journal_entries j' t), j'')"
    and pre: "run_prefix t p (journal_entries j' t)"
    and steps: "map cp_step (journal_entries j' t) = lx_completed_steps r"
    and shape: "result_shape [] (lp_steps p) r" and t: "\<not> blank t"
    using run_leaves_prefix[OF assms(1) ok assms(3,4)] by blast
  have resume: "plan_lifecycle_resume t p (journal_entries j' t) a
      = Inr (resume_assessed t (lp_steps p) a (lx_completed_steps r))" for a
    using resume_of_prefix[OF pre assms(4) t] steps by simp
  from shape obtain n where n: "n \<le> length (lp_steps p)" "lx_completed_steps r = take n (lp_steps p)"
    and st: "if n = length (lp_steps p) then lx_state r = LX_COMPLETE \<and> lx_failed_step r = None
      else lx_state r \<in> {LX_FAILED, LX_RECOVERY_REQUIRED} \<and> lx_failed_step r = Some (lp_steps p ! n)"
    unfolding result_shape_def by auto
  define plan where "plan = resume_assessed t (lp_steps p) CONSISTENT_WITH_JOURNAL (lx_completed_steps r)"
  have rest: "drop (length (lx_completed_steps r)) (lp_steps p) = drop n (lp_steps p)" using n by simp
  have "lx_completed_steps r @ rp_remaining_steps plan = lp_steps p \<and> rp_next_step plan = lx_failed_step r
     \<and> (rp_decision plan = LR_COMPLETE \<longleftrightarrow> lx_state r = LX_COMPLETE)
     \<and> (rp_decision plan = LR_RESUME \<longleftrightarrow> lx_state r \<noteq> LX_COMPLETE)"
  proof (cases "n = length (lp_steps p)")
    case True
    then show ?thesis using n st rest
      by (simp add: plan_def resume_assessed_def resume_result_def)
  next
    case False
    then have "drop n (lp_steps p) = lp_steps p ! n # drop (Suc n) (lp_steps p)"
      using n(1) by (simp add: Cons_nth_drop_Suc)
    then show ?thesis using False n st rest unfolding plan_def resume_assessed_def resume_result_def
      by (auto simp: Let_def id_take_nth_drop[symmetric])
  qed
  moreover have "rp_remaining_steps (resume_assessed t ss a ds) = []
      \<and> rp_decision (resume_assessed t ss a ds) \<in> {LR_RECOVERY_REQUIRED, LR_REFUSE}"
    if "a \<noteq> CONSISTENT_WITH_JOURNAL" for a ss ds
    using that by (cases a) (simp_all add: resume_assessed_def resume_result_def)
  ultimately show ?thesis using load steps resume unfolding plan_def by (metis sum.inject(2))
qed

text \<open>A stop whose third step the database refuses to record.\<close>

definition sample_backend :: "nat step_backend" where
  "sample_backend step h = (Inr \<lparr>sr_success = True, sr_evidence_ref = Some ''ev'', sr_error_code = None,
     sr_recovery_required = False\<rparr>, h + 1)"

definition sample_stop_plan :: LifecyclePlan where
  "sample_stop_plan = plan_lifecycle (sample_context LA_STOP)"

definition sample_run :: "(exn + LifecycleExecutionResult) \<times> nat \<times> JournalDb" where
  "sample_run = execute_plan sample_stop_plan sample_backend
     (journal_record (\<lambda>c. cp_step c = VERIFY_RELEASED)) ''tx-7'' (0, empty_journal)"

definition sample_stopped :: LifecycleExecutionResult where
  "sample_stopped = \<lparr>lx_transaction_id = ''tx-7'', lx_state = LX_FAILED, lx_reason_code = ''CHECKPOINT_FAILED'',
     lx_completed_steps = [TARGETED_STOP, WAIT_EXIT], lx_evidence_refs = [''ev'', ''ev'', ''ev''],
     lx_failed_step = Some VERIFY_RELEASED\<rparr>"

theorem crash_resume_exact_witness:
  "\<exists>cps j'' plan. journal_load ''tx-7'' (snd (snd sample_run)) = (Inr cps, j'')
     \<and> map cp_step cps = [TARGETED_STOP, WAIT_EXIT]
     \<and> plan_lifecycle_resume ''tx-7'' sample_stop_plan cps CONSISTENT_WITH_JOURNAL = Inr plan
     \<and> [TARGETED_STOP, WAIT_EXIT] @ rp_remaining_steps plan = lp_steps sample_stop_plan
     \<and> rp_next_step plan = Some VERIFY_RELEASED \<and> rp_decision plan = LR_RESUME"
proof -
  have "fst sample_run = Inr sample_stopped" by code_simp
  then have run: "execute_plan sample_stop_plan sample_backend
     (journal_record (\<lambda>c. cp_step c = VERIFY_RELEASED)) ''tx-7'' (0, empty_journal)
     = (Inr sample_stopped, (fst (snd sample_run), snd (snd sample_run)))"
    by (simp add: sample_run_def prod_eq_iff)
  have fresh: "journal_entries empty_journal ''tx-7'' = []" "lp_decision sample_stop_plan = LD_PROCEED"
    by code_simp+
  from crash_resume_exact[OF run later_refl fresh] show ?thesis
    unfolding sample_stopped_def by auto
qed

end
