(* ===== verification/Windows_Path.thy ===== *)
theory Windows_Path
  imports Conductor_Prelude
begin

text \<open>
  The part of Python's \<^verbatim>\<open>ntpath\<close> that keys a worktree: \<^verbatim>\<open>splitroot\<close>, \<^verbatim>\<open>normpath\<close> and
  \<^verbatim>\<open>normcase\<close>, on the code points below 256. The component loop of \<^verbatim>\<open>normpath\<close> is written
  with the kept components as a stack.
\<close>

section \<open>Definitions\<close>

definition bslash :: char where "bslash = CHR 0x5C"

definition to_sep :: "char \<Rightarrow> char" where
  "to_sep c = (if c = CHR ''/'' then bslash else c)"

definition lower_char :: "char \<Rightarrow> char" where
  "lower_char c = (let n = (of_char c :: nat) in
     if (65 \<le> n \<and> n \<le> 90) \<or> (192 \<le> n \<and> n \<le> 222 \<and> n \<noteq> 215) then char_of (n + 32) else c)"

definition normcase :: "string \<Rightarrow> string" where
  "normcase p = map (\<lambda>c. lower_char (to_sep c)) p"

fun split_on :: "char \<Rightarrow> string \<Rightarrow> string list" where
  "split_on s [] = [[]]"
| "split_on s (c # cs) =
     (if c = s then [] # split_on s cs
      else case split_on s cs of [] \<Rightarrow> [[c]] | w # ws \<Rightarrow> (c # w) # ws)"

fun join_with :: "char \<Rightarrow> string list \<Rightarrow> string" where
  "join_with s [] = []"
| "join_with s [w] = w"
| "join_with s (w # v # ws) = w @ s # join_with s (v # ws)"

text \<open>\<^verbatim>\<open>p.find(c, start)\<close>, \<^const>\<open>None\<close> for \<^verbatim>\<open>-1\<close>.\<close>

definition find_from :: "char \<Rightarrow> nat \<Rightarrow> string \<Rightarrow> nat option" where
  "find_from c start p =
     (let k = length (takeWhile (\<lambda>x. x \<noteq> c) (drop start p)) in
      if start + k < length p then Some (start + k) else None)"

text \<open>\<^verbatim>\<open>normp[:8].upper() == '\\?\UNC\'\<close>.\<close>

definition is_unc :: "string \<Rightarrow> bool" where
  "is_unc p = (map lower_char (take 8 p)
     = [bslash, bslash, CHR ''?'', bslash, CHR ''u'', CHR ''n'', CHR ''c'', bslash])"

text \<open>Drive, root and rest of a path whose separators are backslashes.\<close>

definition splitroot :: "string \<Rightarrow> string \<times> string \<times> string" where
  "splitroot p =
     (if take 1 p = [bslash] then
        (if take 1 (drop 1 p) = [bslash] then
           (case find_from bslash (if is_unc p then 8 else 2) p of
              None \<Rightarrow> (p, [], [])
            | Some i \<Rightarrow> (case find_from bslash (i + 1) p of
                None \<Rightarrow> (p, [], [])
              | Some k \<Rightarrow> (take k p, take 1 (drop k p), drop (k + 1) p)))
         else ([], take 1 p, drop 1 p))
      else if take 1 (drop 1 p) = '':'' then
        (if take 1 (drop 2 p) = [bslash] then (take 2 p, take 1 (drop 2 p), drop 3 p)
         else (take 2 p, [], drop 2 p))
      else ([], [], p))"

fun norm_comps :: "bool \<Rightarrow> string list \<Rightarrow> string list \<Rightarrow> string list" where
  "norm_comps rooted kept [] = rev kept"
| "norm_comps rooted kept (c # cs) =
     (if c = [] \<or> c = ''.'' then norm_comps rooted kept cs
      else if c = ''..'' then
        (if kept \<noteq> [] \<and> hd kept \<noteq> ''..'' then norm_comps rooted (tl kept) cs
         else if kept = [] \<and> rooted then norm_comps rooted kept cs
         else norm_comps rooted (c # kept) cs)
      else norm_comps rooted (c # kept) cs)"

definition normpath :: "string \<Rightarrow> string" where
  "normpath p =
     (case splitroot (map to_sep p) of (drive, root, rest) \<Rightarrow>
        let comps = norm_comps (root \<noteq> []) [] (split_on bslash rest) in
        if drive @ root = [] \<and> comps = [] then ''.'' else (drive @ root) @ join_with bslash comps)"

section \<open>Case and separators do not matter\<close>

text \<open>A character map that keeps the special characters apart from all others.\<close>

definition keeps_special :: "(char \<Rightarrow> char) \<Rightarrow> bool" where
  "keeps_special f \<longleftrightarrow> (\<forall>c. (f c = bslash \<longleftrightarrow> c = bslash) \<and> (f c = CHR ''.'' \<longleftrightarrow> c = CHR ''.'')
     \<and> (f c = CHR '':'' \<longleftrightarrow> c = CHR '':'') \<and> lower_char (f c) = lower_char c)"

lemma keeps_specialD:
  assumes "keeps_special f"
  shows "f c = bslash \<longleftrightarrow> c = bslash" "f c = CHR ''.'' \<longleftrightarrow> c = CHR ''.''"
    "f c = CHR '':'' \<longleftrightarrow> c = CHR '':''" "lower_char (f c) = lower_char c"
  using assms by (simp_all add: keeps_special_def)

lemma split_on_map:
  assumes "keeps_special f"
  shows "split_on bslash (map f s) = map (map f) (split_on bslash s)"
  by (induction s) (auto simp: keeps_specialD(1)[OF assms] split: list.splits)

lemma join_with_map: "f s = s \<Longrightarrow> join_with s (map (map f) ws) = map f (join_with s ws)"
  by (induction s ws rule: join_with.induct) auto

lemma find_from_map:
  assumes "keeps_special f"
  shows "find_from bslash k (map f p) = find_from bslash k p"
  by (simp add: find_from_def drop_map takeWhile_map o_def keeps_specialD(1)[OF assms])

lemma is_unc_map:
  assumes "keeps_special f"
  shows "is_unc (map f p) = is_unc p"
  by (simp add: is_unc_def take_map o_def keeps_specialD(4)[OF assms])

lemma take1_map:
  "\<forall>c. f c = x \<longleftrightarrow> c = x \<Longrightarrow> take 1 (map f p) = [x] \<longleftrightarrow> take 1 p = [x]"
  by (cases p) auto

lemma splitroot_map:
  assumes f: "keeps_special f"
  shows "splitroot (map f p) = (case splitroot p of (d, r, q) \<Rightarrow> (map f d, map f r, map f q))"
proof -
  have b: "take 1 (drop k (map f p)) = [bslash] \<longleftrightarrow> take 1 (drop k p) = [bslash]" for k
    using take1_map[of f bslash "drop k p"] keeps_specialD(1)[OF f] by (simp add: drop_map)
  have b0: "take 1 (map f p) = [bslash] \<longleftrightarrow> take 1 p = [bslash]" using b[of 0] by simp
  have c: "take 1 (drop 1 (map f p)) = '':'' \<longleftrightarrow> take 1 (drop 1 p) = '':''"
    using take1_map[of f "CHR '':''" "drop 1 p"] keeps_specialD(3)[OF f] by (simp add: drop_map)
  show ?thesis
    unfolding splitroot_def b b0 c find_from_map[OF f] is_unc_map[OF f]
    by (auto simp: take_map drop_map split: option.splits)
qed

lemma norm_comps_map:
  assumes f: "keeps_special f"
  shows "norm_comps r (map (map f) kept) (map (map f) cs) = map (map f) (norm_comps r kept cs)"
proof -
  have dot: "map f c = ''.'' \<longleftrightarrow> c = ''.''" for c
    by (cases c) (auto simp: keeps_specialD(2)[OF f])
  have dots: "map f c = ''..'' \<longleftrightarrow> c = ''..''" for c
    by (cases c; cases "tl c") (auto simp: keeps_specialD(2)[OF f])
  have hd: "kept \<noteq> [] \<Longrightarrow> hd (map (map f) kept) = ''..'' \<longleftrightarrow> hd kept = ''..''" for kept
    by (simp add: hd_map dots)
  show ?thesis
  proof (induction cs arbitrary: kept)
    case Nil
    then show ?case by (simp add: rev_map)
  next
    case (Cons c cs)
    have next_kept: "norm_comps r (map f c # map (map f) kept) (map (map f) cs) = map (map f) (norm_comps r (c # kept) cs)"
      and pop: "norm_comps r (tl (map (map f) kept)) (map (map f) cs) = map (map f) (norm_comps r (tl kept) cs)"
      using Cons.IH[of "c # kept"] Cons.IH[of "tl kept"] by (simp_all add: map_tl)
    show ?case
    proof (cases "c = [] \<or> c = ''.'' \<or> c \<noteq> ''..''")
      case True
      then have "map f c = [] \<or> map f c = ''.'' \<longleftrightarrow> c = [] \<or> c = ''.''" "map f c \<noteq> ''..''"
        using dot dots by auto
      then show ?thesis using True Cons.IH[of kept] next_kept by auto
    next
      case False
      then have c: "map f c = ''..''" "c = ''..''" "map f c \<noteq> []" "map f c \<noteq> ''.''" using dots[of c] by auto
      show ?thesis
      proof (cases kept)
        case Nil
        then show ?thesis using c Cons.IH[of "[]"] next_kept by (cases r) simp_all
      next
        case (Cons k ks)
        then show ?thesis using c next_kept pop dots[of k] by (cases "k = ''..''") simp_all
      qed
    qed
  qed
qed

lemma normpath_map:
  assumes f: "keeps_special f" and p: "\<And>c. c \<in> set p \<Longrightarrow> to_sep (f c) = f (to_sep c)"
  shows "normpath (map f p) = map f (normpath p)"
proof -
  have sep: "map to_sep (map f p) = map f (map to_sep p)" using p by simp
  have fs: "f bslash = bslash" "f CHR ''.'' = CHR ''.''"
    using keeps_specialD(1,2)[OF f] by simp_all
  obtain d r q where s: "splitroot (map to_sep p) = (d, r, q)" by (cases "splitroot (map to_sep p)") auto
  have "norm_comps (map f r \<noteq> []) [] (split_on bslash (map f q))
      = map (map f) (norm_comps (r \<noteq> []) [] (split_on bslash q))"
    using norm_comps_map[OF f, of "r \<noteq> []" "[]"] by (simp add: split_on_map[OF f])
  then show ?thesis
    unfolding normpath_def sep splitroot_map[OF f] s
    by (auto simp: Let_def join_with_map fs)
qed

lemma of_char_less: "(of_char c :: nat) < 256"
  using of_char_mod_256[of c] by (metis mod_less_divisor zero_less_numeral)

lemma lower_char_code:
  "(of_char (lower_char c) :: nat) = (let n = of_char c in
     if (65 \<le> n \<and> n \<le> 90) \<or> (192 \<le> n \<and> n \<le> 222 \<and> n \<noteq> 215) then n + 32 else n)"
  using of_char_less[of c] by (simp add: lower_char_def Let_def)

lemma lower_char_eq:
  assumes "\<not> (97 \<le> n \<and> n \<le> 122)" "n < 192" "\<not> (65 \<le> n \<and> n \<le> 90)" and n: "n = (of_char x :: nat)"
  shows "lower_char c = x \<longleftrightarrow> c = x"
proof -
  have "lower_char c = x \<longleftrightarrow> (of_char (lower_char c) :: nat) = of_char x" by simp
  also have "\<dots> \<longleftrightarrow> (of_char c :: nat) = of_char x"
    using assms unfolding lower_char_code Let_def by auto
  finally show ?thesis by simp
qed

lemma lower_char_idem: "lower_char (lower_char c) = lower_char c"
proof -
  have "(of_char (lower_char (lower_char c)) :: nat) = of_char (lower_char c)"
    unfolding lower_char_code Let_def by auto
  then show ?thesis by simp
qed

lemma lower_char_special:
  "lower_char c = bslash \<longleftrightarrow> c = bslash" "lower_char c = CHR ''.'' \<longleftrightarrow> c = CHR ''.''"
  "lower_char c = CHR '':'' \<longleftrightarrow> c = CHR '':''" "lower_char c = CHR ''/'' \<longleftrightarrow> c = CHR ''/''"
  by (rule lower_char_eq[where n=92], simp_all add: bslash_def)
    (rule lower_char_eq[where n=46], simp_all,
     rule lower_char_eq[where n=58], simp_all, rule lower_char_eq[where n=47], simp_all)

lemma lower_keeps_special: "keeps_special lower_char"
  by (simp add: keeps_special_def lower_char_special lower_char_idem)

lemma to_sep_lower: "to_sep (lower_char c) = lower_char (to_sep c)"
proof -
  have "lower_char bslash = bslash" by (simp add: lower_char_special)
  then show ?thesis by (auto simp: to_sep_def lower_char_special(4))
qed

lemma to_sep_idem: "to_sep (to_sep c) = to_sep c"
  by (simp add: to_sep_def bslash_def)

lemma normcase_idem [simp]: "normcase (normcase p) = normcase p"
  by (simp add: normcase_def to_sep_lower to_sep_idem lower_char_idem)

lemma normpath_to_sep: "normpath (map to_sep p) = normpath p"
  by (simp add: normpath_def o_def to_sep_idem)

lemma normcase_normpath: "normcase (normpath (normcase p)) = normcase (normpath p)"
proof -
  have "normcase p = map lower_char (map to_sep p)" by (simp add: normcase_def)
  then have "normpath (normcase p) = map lower_char (normpath (map to_sep p))"
    using normpath_map[OF lower_keeps_special, of "map to_sep p"] to_sep_lower by simp
  then show ?thesis
    by (simp add: normpath_to_sep normcase_def to_sep_lower lower_char_idem)
qed

lemma py_isspace_normcase: "py_isspace (lower_char (to_sep c)) = py_isspace c"
proof -
  have "py_isspace (lower_char c) = py_isspace c" for c
    unfolding py_isspace_def lower_char_code Let_def using of_char_less[of c] by auto
  moreover have "py_isspace (to_sep c) = py_isspace c" by (simp add: to_sep_def bslash_def py_isspace_def)
  ultimately show ?thesis by simp
qed

lemma py_strip_normcase: "py_strip (normcase p) = normcase (py_strip p)"
  by (simp add: py_strip_def py_lstrip_def normcase_def dropWhile_map rev_map o_def py_isspace_normcase)

end
