(* ===== verification/Registry.thy ===== *)
theory Registry
  imports Windows_Path Action_Monad
begin

text \<open>
  The in-memory registry of projects, workers and assignments,
  \<^verbatim>\<open>src/src/a_conductor/registry.py\<close>. The three dictionaries are kept in insertion order; an
  operation returns its result or exception and the registry it leaves. Projects, workers
  and assignments are instances that passed their constructors, so \<^verbatim>\<open>dataclasses.replace\<close>
  is the record update.
\<close>

section \<open>Definitions\<close>

definition windows_worktree_key :: "string \<Rightarrow> exn + string" where
  "windows_worktree_key path =
     (if blank path then Inl (ValueErr ''worktree path must not be blank'')
      else Inr (normcase (normpath (py_strip path))))"

record AssignmentRecord =
  ar_assignment :: Assignment
  ar_mutation_allowed :: bool
  ar_worktree_key :: string

record RegistrySnapshot =
  sn_projects :: "Project list"
  sn_workers :: "Worker list"
  sn_assignments :: "AssignmentRecord list"

record ControlPlaneRegistry =
  rg_projects :: "Project dict"
  rg_workers :: "Worker dict"
  rg_assignments :: "AssignmentRecord dict"

definition empty_registry :: ControlPlaneRegistry where
  "empty_registry = \<lparr>rg_projects = [], rg_workers = [], rg_assignments = []\<rparr>"

definition ar_worker_id :: "AssignmentRecord \<Rightarrow> string" where
  "ar_worker_id r = as_worker_id (ar_assignment r)"

definition register_project :: "Project \<Rightarrow> (ControlPlaneRegistry, Project) action" where
  "register_project p R =
     (if pj_project_id p \<in> fst ` set (rg_projects R)
      then (Inl (DuplicateRegistrationErr (''project_id already registered: '' @ pj_project_id p)), R)
      else (Inr p, R\<lparr>rg_projects := AList.update (pj_project_id p) p (rg_projects R)\<rparr>))"

definition register_worker :: "Worker \<Rightarrow> (ControlPlaneRegistry, Worker) action" where
  "register_worker w R =
     (if wk_worker_id w \<in> fst ` set (rg_workers R)
      then (Inl (DuplicateRegistrationErr (''worker_id already registered: '' @ wk_worker_id w)), R)
      else if wk_assignment_id w \<noteq> None
      then (Inl (ValueErr ''worker must be registered without an assignment''), R)
      else (Inr w, R\<lparr>rg_workers := AList.update (wk_worker_id w) w (rg_workers R)\<rparr>))"

text \<open>\<^verbatim>\<open>f"{n:02d}"\<close>.\<close>

fun decimal :: "nat \<Rightarrow> string" where
  "decimal n = (if n < 10 then [char_of (48 + n)] else decimal (n div 10) @ [char_of (48 + n mod 10)])"

definition decimal2 :: "nat \<Rightarrow> string" where
  "decimal2 n = (if n < 10 then CHR ''0'' # decimal n else decimal n)"

definition default_worker :: "nat \<Rightarrow> Worker" where
  "default_worker n = \<lparr>wk_worker_id = ''a-worker-'' @ decimal2 n, wk_display_name = ''A-Worker '' @ decimal n,
     wk_runtime_id = None, wk_assignment_id = None, wk_state = W_STOPPED\<rparr>"

fun register_workers :: "Worker list \<Rightarrow> (ControlPlaneRegistry, unit) action" where
  "register_workers [] = ret ()"
| "register_workers (w # ws) = andthen (register_worker w) (\<lambda>_. register_workers ws)"

definition with_default_workers :: "int \<Rightarrow> exn + ControlPlaneRegistry" where
  "with_default_workers n =
     (if n < 1 then Inl (ValueErr ''size'')
      else case register_workers (map default_worker [1..<Suc (nat n)]) empty_registry of
        (Inl e, _) \<Rightarrow> Inl e
      | (Inr _, R) \<Rightarrow> Inr R)"

definition get_project :: "string \<Rightarrow> (ControlPlaneRegistry, Project) action" where
  "get_project i R = (case map_of (rg_projects R) i of
     Some p \<Rightarrow> (Inr p, R) | None \<Rightarrow> (Inl (RegistryNotFoundErr (''project_id not found: '' @ i)), R))"

definition get_worker :: "string \<Rightarrow> (ControlPlaneRegistry, Worker) action" where
  "get_worker i R = (case map_of (rg_workers R) i of
     Some w \<Rightarrow> (Inr w, R) | None \<Rightarrow> (Inl (RegistryNotFoundErr (''worker_id not found: '' @ i)), R))"

definition runtime_mismatch :: "Worker \<Rightarrow> Assignment \<Rightarrow> bool" where
  "runtime_mismatch w a \<longleftrightarrow>
     wk_runtime_id w \<noteq> None \<and> as_runtime_id a \<noteq> None \<and> wk_runtime_id w \<noteq> as_runtime_id a"

text \<open>The scan for another worker's mutating assignment of the same worktree.\<close>

definition worktree_taken :: "ControlPlaneRegistry \<Rightarrow> string \<Rightarrow> string \<Rightarrow> bool" where
  "worktree_taken R key worker \<longleftrightarrow>
     list_ex (\<lambda>(_, r). ar_mutation_allowed r \<and> ar_worktree_key r = key \<and> ar_worker_id r \<noteq> worker) (rg_assignments R)"

definition store_assignment ::
  "Assignment \<Rightarrow> bool \<Rightarrow> string \<Rightarrow> Worker \<Rightarrow> (ControlPlaneRegistry, Assignment) action" where
  "store_assignment a mutation key w R =
     (Inr a, R\<lparr>rg_assignments := AList.update (as_assignment_id a)
                 \<lparr>ar_assignment = a, ar_mutation_allowed = mutation, ar_worktree_key = key\<rparr> (rg_assignments R),
               rg_workers := AList.update (wk_worker_id w) (w\<lparr>wk_assignment_id := Some (as_assignment_id a)\<rparr>)
                 (rg_workers R)\<rparr>)"

definition assign :: "Assignment \<Rightarrow> bool \<Rightarrow> (ControlPlaneRegistry, Assignment) action" where
  "assign a mutation =
     andthen (get_worker (as_worker_id a)) (\<lambda>w.
     andthen (get_project (as_project_id a)) (\<lambda>p R.
       if as_assignment_id a \<in> fst ` set (rg_assignments R)
       then (Inl (DuplicateRegistrationErr (''assignment_id already registered: '' @ as_assignment_id a)), R)
       else if wk_assignment_id w \<noteq> None
       then (Inl (AssignmentConflictErr (''worker already assigned: '' @ wk_worker_id w)), R)
       else if runtime_mismatch w a
       then (Inl (AssignmentConflictErr (''runtime mismatch for worker '' @ wk_worker_id w)), R)
       else andthen (lift_res (windows_worktree_key (pj_root_path p))) (\<lambda>key R.
         if mutation \<and> worktree_taken R key (wk_worker_id w)
         then (Inl (AssignmentConflictErr ''mutating worktree already assigned to another worker''), R)
         else store_assignment a mutation key w R) R))"

definition replace_assignment :: "Assignment \<Rightarrow> bool \<Rightarrow> (ControlPlaneRegistry, Assignment) action" where
  "replace_assignment a mutation =
     andthen (get_worker (as_worker_id a)) (\<lambda>w.
     andthen (get_project (as_project_id a)) (\<lambda>p R.
       if wk_state w \<noteq> W_STOPPED
       then (Inl (WorkerBusyErr (''busy worker assignment cannot be replaced until STOPPED: '' @ wk_worker_id w)), R)
       else case wk_assignment_id w of
         None \<Rightarrow> assign a mutation R
       | Some old \<Rightarrow>
           if as_assignment_id a \<in> fst ` set (rg_assignments R)
           then (Inl (DuplicateRegistrationErr (''assignment_id already registered: '' @ as_assignment_id a)), R)
           else if runtime_mismatch w a
           then (Inl (AssignmentConflictErr (''runtime mismatch for worker '' @ wk_worker_id w)), R)
           else andthen (lift_res (windows_worktree_key (pj_root_path p))) (\<lambda>key R.
             if mutation \<and> worktree_taken R key (wk_worker_id w)
             then (Inl (AssignmentConflictErr ''mutating worktree already assigned to another worker''), R)
             else store_assignment a mutation key w (R\<lparr>rg_assignments := AList.delete old (rg_assignments R)\<rparr>)) R))"

definition release_worker :: "string \<Rightarrow> (ControlPlaneRegistry, Worker) action" where
  "release_worker i =
     andthen (get_worker i) (\<lambda>w R.
       if wk_state w \<noteq> W_STOPPED
       then (Inl (WorkerBusyErr (''busy worker cannot be released until STOPPED: '' @ i)), R)
       else case wk_assignment_id w of
         None \<Rightarrow> (Inr w, R)
       | Some a \<Rightarrow> (Inr (w\<lparr>wk_assignment_id := None\<rparr>),
           R\<lparr>rg_assignments := AList.delete a (rg_assignments R),
             rg_workers := AList.update i (w\<lparr>wk_assignment_id := None\<rparr>) (rg_workers R)\<rparr>))"

definition set_worker_state :: "string \<Rightarrow> WorkerState \<Rightarrow> (ControlPlaneRegistry, Worker) action" where
  "set_worker_state i st =
     andthen (get_worker i) (\<lambda>w R.
       (Inr (w\<lparr>wk_state := st\<rparr>), R\<lparr>rg_workers := AList.update i (w\<lparr>wk_state := st\<rparr>) (rg_workers R)\<rparr>))"

definition rename_worker :: "string \<Rightarrow> string \<Rightarrow> (ControlPlaneRegistry, Worker) action" where
  "rename_worker i name =
     andthen (get_worker i) (\<lambda>w R.
       if blank name then (Inl (ValueErr ''display_name must not be blank''), R)
       else (Inr (w\<lparr>wk_display_name := py_strip name\<rparr>),
             R\<lparr>rg_workers := AList.update i (w\<lparr>wk_display_name := py_strip name\<rparr>) (rg_workers R)\<rparr>))"

definition unregister_worker :: "string \<Rightarrow> (ControlPlaneRegistry, Worker) action" where
  "unregister_worker i =
     andthen (get_worker i) (\<lambda>w R.
       if wk_assignment_id w \<noteq> None
       then (Inl (WorkerBusyErr (''assigned worker cannot be deleted: '' @ i)), R)
       else if wk_state w \<noteq> W_STOPPED
       then (Inl (WorkerBusyErr (''busy worker cannot be deleted until STOPPED: '' @ i)), R)
       else (Inr w, R\<lparr>rg_workers := AList.delete i (rg_workers R)\<rparr>))"

definition sorted_values :: "'v dict \<Rightarrow> 'v list" where
  "sorted_values d = map (\<lambda>k. the (map_of d k)) (sort (map fst d))"

definition snapshot :: "ControlPlaneRegistry \<Rightarrow> RegistrySnapshot" where
  "snapshot R = \<lparr>sn_projects = sorted_values (rg_projects R), sn_workers = sorted_values (rg_workers R),
     sn_assignments = sorted_values (rg_assignments R)\<rparr>"

section \<open>The invariant\<close>

text \<open>
  Over the three maps: keys are ids; an assignment record and its worker point at each
  other, match in runtime, and the record's key is the key of its project's path; two
  mutating records never share a worktree.
\<close>

definition record_ok ::
  "(string \<rightharpoonup> Project) \<Rightarrow> (string \<rightharpoonup> Worker) \<Rightarrow> string \<Rightarrow> AssignmentRecord \<Rightarrow> bool" where
  "record_ok P W a r \<longleftrightarrow> as_assignment_id (ar_assignment r) = a
     \<and> (\<exists>w. W (ar_worker_id r) = Some w \<and> wk_assignment_id w = Some a \<and> \<not> runtime_mismatch w (ar_assignment r))
     \<and> (\<exists>p. P (as_project_id (ar_assignment r)) = Some p
          \<and> windows_worktree_key (pj_root_path p) = Inr (ar_worktree_key r))"

definition maps_inv ::
  "(string \<rightharpoonup> Project) \<Rightarrow> (string \<rightharpoonup> Worker) \<Rightarrow> (string \<rightharpoonup> AssignmentRecord) \<Rightarrow> bool" where
  "maps_inv P W A \<longleftrightarrow>
     (\<forall>i p. P i = Some p \<longrightarrow> pj_project_id p = i)
     \<and> (\<forall>i w. W i = Some w \<longrightarrow> wk_worker_id w = i)
     \<and> (\<forall>i w a. W i = Some w \<and> wk_assignment_id w = Some a \<longrightarrow> (\<exists>r. A a = Some r \<and> ar_worker_id r = i))
     \<and> (\<forall>a r. A a = Some r \<longrightarrow> record_ok P W a r)
     \<and> (\<forall>a b r s. A a = Some r \<and> A b = Some s \<and> ar_mutation_allowed r \<and> ar_mutation_allowed s
          \<and> ar_worktree_key r = ar_worktree_key s \<longrightarrow> a = b)"

definition registry_inv :: "ControlPlaneRegistry \<Rightarrow> bool" where
  "registry_inv R \<longleftrightarrow> maps_inv (map_of (rg_projects R)) (map_of (rg_workers R)) (map_of (rg_assignments R))
     \<and> distinct (map fst (rg_projects R)) \<and> distinct (map fst (rg_workers R)) \<and> distinct (map fst (rg_assignments R))"

lemma maps_invD:
  assumes "maps_inv P W A"
  shows "P i = Some p \<Longrightarrow> pj_project_id p = i" "W i = Some w \<Longrightarrow> wk_worker_id w = i"
    "W i = Some w \<Longrightarrow> wk_assignment_id w = Some a \<Longrightarrow> \<exists>r. A a = Some r \<and> ar_worker_id r = i"
    "A a = Some r \<Longrightarrow> record_ok P W a r"
    "A a = Some r \<Longrightarrow> A b = Some s \<Longrightarrow> ar_mutation_allowed r \<Longrightarrow> ar_mutation_allowed s
       \<Longrightarrow> ar_worktree_key r = ar_worktree_key s \<Longrightarrow> a = b"
  using assms unfolding maps_inv_def by blast+

lemma maps_invI:
  assumes "\<And>i p. P i = Some p \<Longrightarrow> pj_project_id p = i" and "\<And>i w. W i = Some w \<Longrightarrow> wk_worker_id w = i"
    and "\<And>i w a. W i = Some w \<Longrightarrow> wk_assignment_id w = Some a \<Longrightarrow> \<exists>r. A a = Some r \<and> ar_worker_id r = i"
    and "\<And>a r. A a = Some r \<Longrightarrow> record_ok P W a r"
    and "\<And>a b r s. A a = Some r \<Longrightarrow> A b = Some s \<Longrightarrow> ar_mutation_allowed r \<Longrightarrow> ar_mutation_allowed s
       \<Longrightarrow> ar_worktree_key r = ar_worktree_key s \<Longrightarrow> a = b"
  shows "maps_inv P W A"
  unfolding maps_inv_def using assms by blast

lemma record_ok_project:
  "record_ok P W a r \<Longrightarrow> P i = None \<Longrightarrow> record_ok (P(i \<mapsto> p)) W a r"
  unfolding record_ok_def by (metis fun_upd_other option.distinct(1))

text \<open>A worker that keeps its id, its assignment and its runtime.\<close>

lemma record_ok_worker:
  assumes "record_ok P W a r" and "W i = Some w" and "wk_assignment_id w' = wk_assignment_id w"
    and "wk_runtime_id w' = wk_runtime_id w"
  shows "record_ok P (W(i \<mapsto> w')) a r"
  using assms unfolding record_ok_def runtime_mismatch_def by (cases "ar_worker_id r = i") auto

lemma maps_inv_project:
  assumes "maps_inv P W A" and "P (pj_project_id p) = None"
  shows "maps_inv (P(pj_project_id p \<mapsto> p)) W A"
  using maps_invD[OF assms(1)] record_ok_project[where p=p] assms(2)
  by (intro maps_invI) (auto split: if_splits)

lemma maps_inv_new_worker:
  assumes inv: "maps_inv P W A" and "W (wk_worker_id w) = None" and "wk_assignment_id w = None"
  shows "maps_inv P (W(wk_worker_id w \<mapsto> w)) A"
proof (intro maps_invI)
  fix a r
  assume "A a = Some r"
  then have "record_ok P W a r" by (rule maps_invD(4)[OF inv])
  then show "record_ok P (W(wk_worker_id w \<mapsto> w)) a r"
    using assms(2) unfolding record_ok_def by (metis fun_upd_other option.distinct(1))
qed (use maps_invD[OF inv] assms in \<open>auto split: if_splits\<close>)

lemma maps_inv_same_worker:
  assumes inv: "maps_inv P W A" and w: "W i = Some w" and "wk_worker_id w' = i"
    and "wk_assignment_id w' = wk_assignment_id w" and "wk_runtime_id w' = wk_runtime_id w"
  shows "maps_inv P (W(i \<mapsto> w')) A"
  using maps_invD[OF inv] record_ok_worker[where W=W and i=i and w=w and w'=w'] assms
  by (intro maps_invI) (auto split: if_splits)

lemma maps_inv_drop_worker:
  assumes inv: "maps_inv P W A" and w: "W i = Some w" and "wk_assignment_id w = None"
  shows "maps_inv P (W(i := None)) A"
proof (intro maps_invI)
  fix a r
  assume "A a = Some r"
  then have "record_ok P W a r" by (rule maps_invD(4)[OF inv])
  then show "record_ok P (W(i := None)) a r"
    using w assms(3) unfolding record_ok_def by (metis fun_upd_other option.distinct(1) option.inject)
qed (use maps_invD[OF inv] assms in \<open>auto split: if_splits\<close>)

lemma maps_inv_release:
  assumes inv: "maps_inv P W A" and w: "W i = Some w" and a: "wk_assignment_id w = Some a"
  shows "maps_inv P (W(i \<mapsto> w\<lparr>wk_assignment_id := None\<rparr>)) (A(a := None))"
proof (intro maps_invI)
  fix j v b
  assume v: "(W(i \<mapsto> w\<lparr>wk_assignment_id := None\<rparr>)) j = Some v" "wk_assignment_id v = Some b"
  then have j: "j \<noteq> i" "W j = Some v" by (auto split: if_splits)
  then obtain r where r: "A b = Some r" "ar_worker_id r = j" using maps_invD(3)[OF inv] v(2) by blast
  obtain r' where "A a = Some r'" "ar_worker_id r' = i" using maps_invD(3)[OF inv w a] by blast
  with r j have "b \<noteq> a" by auto
  with r show "\<exists>r. (A(a := None)) b = Some r \<and> ar_worker_id r = j" by simp
next
  fix b r
  assume "(A(a := None)) b = Some r"
  then have b: "b \<noteq> a" "A b = Some r" by (auto split: if_splits)
  then have "record_ok P W b r" using maps_invD(4)[OF inv] by blast
  then show "record_ok P (W(i \<mapsto> w\<lparr>wk_assignment_id := None\<rparr>)) b r"
    using w a b(1) unfolding record_ok_def by (metis fun_upd_other option.inject)
qed (use maps_invD[OF inv] w in \<open>auto split: if_splits\<close>)

lemma maps_inv_assign:
  assumes inv: "maps_inv P W A" and w: "W (as_worker_id a) = Some w" "wk_assignment_id w = None"
    and p: "P (as_project_id a) = Some p" "windows_worktree_key (pj_root_path p) = Inr key"
    and new: "A (as_assignment_id a) = None" and rt: "\<not> runtime_mismatch w a"
    and free: "mutation \<longrightarrow> \<not> (\<exists>b r. A b = Some r \<and> ar_mutation_allowed r \<and> ar_worktree_key r = key
       \<and> ar_worker_id r \<noteq> as_worker_id a)"
    and r: "r = \<lparr>ar_assignment = a, ar_mutation_allowed = mutation, ar_worktree_key = key\<rparr>"
  shows "maps_inv P (W(as_worker_id a \<mapsto> w\<lparr>wk_assignment_id := Some (as_assignment_id a)\<rparr>))
    (A(as_assignment_id a \<mapsto> r))"
proof -
  define w' where "w' = w\<lparr>wk_assignment_id := Some (as_assignment_id a)\<rparr>"
  have not_own: "ar_worker_id s \<noteq> as_worker_id a" if "A b = Some s" for b s
    using maps_invD(4)[OF inv that] w unfolding record_ok_def by auto
  have old: "record_ok P (W(as_worker_id a \<mapsto> w')) b s" if "A b = Some s" for b s
    using maps_invD(4)[OF inv that] not_own[OF that] unfolding record_ok_def by simp
  have fresh: "record_ok P (W(as_worker_id a \<mapsto> w')) (as_assignment_id a) r"
    using p rt unfolding record_ok_def r w'_def ar_worker_id_def runtime_mismatch_def by simp
  have clash: "\<not> (mutation \<and> ar_mutation_allowed s \<and> ar_worktree_key s = key)" if "A b = Some s" for b s
    using free not_own that by blast
  show ?thesis unfolding w'_def[symmetric]
  proof (intro maps_invI)
    fix i v b
    assume v: "(W(as_worker_id a \<mapsto> w')) i = Some v" "wk_assignment_id v = Some b"
    show "\<exists>r'. (A(as_assignment_id a \<mapsto> r)) b = Some r' \<and> ar_worker_id r' = i"
    proof (cases "i = as_worker_id a")
      case True
      then show ?thesis using v by (auto simp: w'_def r ar_worker_id_def)
    next
      case False
      then obtain s where "A b = Some s" "ar_worker_id s = i" using maps_invD(3)[OF inv, of i v b] v by auto
      then show ?thesis using new by (auto split: if_splits)
    qed
  next
    fix b s
    assume "(A(as_assignment_id a \<mapsto> r)) b = Some s"
    then show "record_ok P (W(as_worker_id a \<mapsto> w')) b s" using old fresh by (auto split: if_splits)
  next
    fix b c s u
    assume "(A(as_assignment_id a \<mapsto> r)) b = Some s" "(A(as_assignment_id a \<mapsto> r)) c = Some u"
      "ar_mutation_allowed s" "ar_mutation_allowed u" "ar_worktree_key s = ar_worktree_key u"
    then show "b = c" using maps_invD(5)[OF inv, of b s c u] clash[of b s] clash[of c u]
      by (auto simp: r split: if_splits)
  qed (use maps_invD(1,2)[OF inv] w in \<open>auto simp: w'_def split: if_splits\<close>)
qed

section \<open>Every operation keeps the invariant\<close>

lemma map_of_delete [simp]: "map_of (AList.delete k d) = (map_of d)(k := None)"
  by (rule delete_conv')

lemma distinct_update_keys: "distinct (map fst d) \<Longrightarrow> distinct (map fst (AList.update k v d))"
  by (rule distinct_update)

lemma distinct_delete_keys: "distinct (map fst d) \<Longrightarrow> distinct (map fst (AList.delete k d))"
  by (rule distinct_delete)

lemmas registry_dicts = distinct_update_keys distinct_delete_keys

lemma not_key: "k \<notin> fst ` set d \<longleftrightarrow> map_of d k = None"
  by (simp add: map_of_eq_None_iff)

lemma get_worker_result:
  "get_worker i R = (x, R') \<Longrightarrow> R' = R \<and> (\<forall>w. x = Inr w \<longrightarrow> map_of (rg_workers R) i = Some w)"
  by (auto simp: get_worker_def split: option.splits)

lemma get_project_result:
  "get_project i R = (x, R') \<Longrightarrow> R' = R \<and> (\<forall>p. x = Inr p \<longrightarrow> map_of (rg_projects R) i = Some p)"
  by (auto simp: get_project_def split: option.splits)

text \<open>Reading a call step by step: the value a call continues with, or the exception.\<close>

lemma andthen_result:
  assumes "andthen m k s = (x, s')"
  obtains e where "m s = (Inl e, s')" "x = Inl e"
  | y s1 where "m s = (Inr y, s1)" "k y s1 = (x, s')"
  using assms by (auto simp: andthen_def split: prod.splits sum.splits)

lemma get_worker_then:
  assumes "andthen (get_worker i) k R = (x, R')"
  shows "(\<exists>e. x = Inl e \<and> R' = R) \<or> (\<exists>w. map_of (rg_workers R) i = Some w \<and> k w R = (x, R'))"
  using assms by (auto simp: andthen_def get_worker_def split: option.splits)

lemma get_project_then:
  assumes "andthen (get_project i) k R = (x, R')"
  shows "(\<exists>e. x = Inl e \<and> R' = R) \<or> (\<exists>p. map_of (rg_projects R) i = Some p \<and> k p R = (x, R'))"
  using assms by (auto simp: andthen_def get_project_def split: option.splits)

text \<open>An operation either raises and leaves the registry alone, or keeps the invariant.\<close>

definition keeps :: "(ControlPlaneRegistry, 'a) action \<Rightarrow> bool" where
  "keeps m \<longleftrightarrow> (\<forall>R x R'. registry_inv R \<longrightarrow> m R = (x, R') \<longrightarrow> registry_inv R' \<and> (\<forall>e. x = Inl e \<longrightarrow> R' = R))"

lemma keepsI:
  assumes "\<And>R x R'. registry_inv R \<Longrightarrow> m R = (x, R') \<Longrightarrow> (\<exists>e. x = Inl e) \<and> R' = R \<or> (\<exists>y. x = Inr y) \<and> registry_inv R'"
  shows "keeps m"
  unfolding keeps_def using assms by fastforce

lemma register_project_keeps: "keeps (register_project p)"
  by (rule keepsI) (auto simp: register_project_def registry_inv_def not_key registry_dicts
      intro!: maps_inv_project split: if_splits)

lemma register_worker_keeps: "keeps (register_worker w)"
  by (rule keepsI) (auto simp: register_worker_def registry_inv_def not_key registry_dicts
      intro!: maps_inv_new_worker split: if_splits)

lemma registry_inv_worker_id:
  "registry_inv R \<Longrightarrow> map_of (rg_workers R) i = Some w \<Longrightarrow> wk_worker_id w = i"
  using maps_invD(2) unfolding registry_inv_def by blast

lemma set_worker_state_keeps: "keeps (set_worker_state i st)"
proof (rule keepsI)
  fix R x R'
  assume inv: "registry_inv R" and r: "set_worker_state i st R = (x, R')"
  show "(\<exists>e. x = Inl e) \<and> R' = R \<or> (\<exists>y. x = Inr y) \<and> registry_inv R'"
    using get_worker_then[OF r[unfolded set_worker_state_def]] inv registry_inv_worker_id[OF inv, of i]
    by (auto simp: registry_inv_def registry_dicts intro!: maps_inv_same_worker)
qed

lemma rename_worker_keeps: "keeps (rename_worker i name)"
proof (rule keepsI)
  fix R x R'
  assume inv: "registry_inv R" and r: "rename_worker i name R = (x, R')"
  show "(\<exists>e. x = Inl e) \<and> R' = R \<or> (\<exists>y. x = Inr y) \<and> registry_inv R'"
    using get_worker_then[OF r[unfolded rename_worker_def]] inv registry_inv_worker_id[OF inv, of i]
    by (auto simp: registry_inv_def registry_dicts intro!: maps_inv_same_worker split: if_splits)
qed

lemma unregister_worker_keeps: "keeps (unregister_worker i)"
proof (rule keepsI)
  fix R x R'
  assume inv: "registry_inv R" and r: "unregister_worker i R = (x, R')"
  show "(\<exists>e. x = Inl e) \<and> R' = R \<or> (\<exists>y. x = Inr y) \<and> registry_inv R'"
    using get_worker_then[OF r[unfolded unregister_worker_def]] inv
    by (auto simp: registry_inv_def registry_dicts intro!: maps_inv_drop_worker split: if_splits)
qed

lemma release_worker_keeps: "keeps (release_worker i)"
proof (rule keepsI)
  fix R x R'
  assume inv: "registry_inv R" and r: "release_worker i R = (x, R')"
  show "(\<exists>e. x = Inl e) \<and> R' = R \<or> (\<exists>y. x = Inr y) \<and> registry_inv R'"
    using get_worker_then[OF r[unfolded release_worker_def]] inv
    by (auto simp: registry_inv_def registry_dicts intro!: maps_inv_release split: if_splits option.splits)
qed

lemma worktree_taken_iff:
  assumes "distinct (map fst (rg_assignments R))"
  shows "worktree_taken R key w \<longleftrightarrow> (\<exists>b r. map_of (rg_assignments R) b = Some r \<and> ar_mutation_allowed r
    \<and> ar_worktree_key r = key \<and> ar_worker_id r \<noteq> w)"
  using map_of_eq_Some_iff[OF assms] by (auto simp: worktree_taken_def list_ex_iff)

lemma lift_res_then:
  assumes "andthen (lift_res v) k R = (x, R')"
  shows "(\<exists>e. v = Inl e \<and> x = Inl e \<and> R' = R) \<or> (\<exists>y. v = Inr y \<and> k y R = (x, R'))"
  using assms by (auto simp: andthen_def lift_res_def split: sum.splits)

lemma store_assignment_inv:
  assumes inv: "registry_inv R" and w: "map_of (rg_workers R) (as_worker_id a) = Some w" "wk_assignment_id w = None"
    and p: "map_of (rg_projects R) (as_project_id a) = Some p" "windows_worktree_key (pj_root_path p) = Inr key"
    and new: "as_assignment_id a \<notin> fst ` set (rg_assignments R)" and rt: "\<not> runtime_mismatch w a"
    and free: "\<not> (mutation \<and> worktree_taken R key (wk_worker_id w))"
  shows "registry_inv (snd (store_assignment a mutation key w R))"
proof -
  have m: "maps_inv (map_of (rg_projects R)) (map_of (rg_workers R)) (map_of (rg_assignments R))"
    and d: "distinct (map fst (rg_assignments R))"
    using inv by (simp_all add: registry_inv_def)
  have id: "wk_worker_id w = as_worker_id a" using registry_inv_worker_id[OF inv w(1)] .
  show ?thesis
    using inv maps_inv_assign[OF m w p _ rt _ refl, of mutation] new free
    unfolding worktree_taken_iff[OF d] id not_key
    by (simp add: registry_inv_def store_assignment_def registry_dicts id)
qed

lemma assign_cases:
  assumes "assign a mutation R = (x, R')"
  shows "(\<exists>e. x = Inl e) \<and> R' = R \<or> (\<exists>w p key. map_of (rg_workers R) (as_worker_id a) = Some w
     \<and> map_of (rg_projects R) (as_project_id a) = Some p \<and> as_assignment_id a \<notin> fst ` set (rg_assignments R)
     \<and> wk_assignment_id w = None \<and> \<not> runtime_mismatch w a
     \<and> windows_worktree_key (pj_root_path p) = Inr key \<and> \<not> (mutation \<and> worktree_taken R key (wk_worker_id w))
     \<and> store_assignment a mutation key w R = (x, R'))"
  using get_worker_then[OF assms[unfolded assign_def]]
  by (auto dest!: get_project_then lift_res_then split: if_splits)

lemma assign_keeps: "keeps (assign a mutation)"
proof (rule keepsI)
  fix R x R'
  assume inv: "registry_inv R" and r: "assign a mutation R = (x, R')"
  show "(\<exists>e. x = Inl e) \<and> R' = R \<or> (\<exists>y. x = Inr y) \<and> registry_inv R'"
    using assign_cases[OF r]
  proof (elim disjE exE conjE)
    fix w p key
    assume w: "map_of (rg_workers R) (as_worker_id a) = Some w" "map_of (rg_projects R) (as_project_id a) = Some p"
      "as_assignment_id a \<notin> fst ` set (rg_assignments R)" "wk_assignment_id w = None" "\<not> runtime_mismatch w a"
      "windows_worktree_key (pj_root_path p) = Inr key" "\<not> (mutation \<and> worktree_taken R key (wk_worker_id w))"
      and st: "store_assignment a mutation key w R = (x, R')"
    have "registry_inv R'" using store_assignment_inv[OF inv w(1,4,2,6,3,5,7)] st by simp
    moreover have "x = Inr a" using st by (simp add: store_assignment_def)
    ultimately show ?thesis by blast
  qed blast
qed

lemma replace_cases:
  assumes "replace_assignment a mutation R = (x, R')"
  shows "(\<exists>e. x = Inl e) \<and> R' = R \<or> assign a mutation R = (x, R')
   \<or> (\<exists>w p key old. map_of (rg_workers R) (as_worker_id a) = Some w \<and> wk_state w = W_STOPPED
     \<and> map_of (rg_projects R) (as_project_id a) = Some p \<and> as_assignment_id a \<notin> fst ` set (rg_assignments R)
     \<and> wk_assignment_id w = Some old \<and> \<not> runtime_mismatch w a
     \<and> windows_worktree_key (pj_root_path p) = Inr key \<and> \<not> (mutation \<and> worktree_taken R key (wk_worker_id w))
     \<and> store_assignment a mutation key w (R\<lparr>rg_assignments := AList.delete old (rg_assignments R)\<rparr>) = (x, R'))"
  using get_worker_then[OF assms[unfolded replace_assignment_def]]
  by (auto dest!: get_project_then lift_res_then split: if_splits option.splits)

lemma replace_assignment_keeps: "keeps (replace_assignment a mutation)"
proof (rule keepsI)
  fix R x R'
  assume inv: "registry_inv R" and r: "replace_assignment a mutation R = (x, R')"
  show "(\<exists>e. x = Inl e) \<and> R' = R \<or> (\<exists>y. x = Inr y) \<and> registry_inv R'"
    using replace_cases[OF r]
  proof (elim disjE exE conjE)
    assume "assign a mutation R = (x, R')"
    then show ?thesis using assign_keeps inv unfolding keeps_def by (metis sumE)
  next
    fix w p key old
    assume w: "map_of (rg_workers R) (as_worker_id a) = Some w" "map_of (rg_projects R) (as_project_id a) = Some p"
      "as_assignment_id a \<notin> fst ` set (rg_assignments R)" "wk_assignment_id w = Some old" "\<not> runtime_mismatch w a"
      "windows_worktree_key (pj_root_path p) = Inr key" "\<not> (mutation \<and> worktree_taken R key (wk_worker_id w))"
      and st: "store_assignment a mutation key w (R\<lparr>rg_assignments := AList.delete old (rg_assignments R)\<rparr>) = (x, R')"
    define w0 where "w0 = w\<lparr>wk_assignment_id := None\<rparr>"
    define R0 where "R0 = R\<lparr>rg_assignments := AList.delete old (rg_assignments R),
      rg_workers := AList.update (as_worker_id a) w0 (rg_workers R)\<rparr>"
    have inv0: "registry_inv R0"
      using inv maps_inv_release[where W="map_of (rg_workers R)", of _ _ "as_worker_id a" w old] w(1,4)
      by (simp add: registry_inv_def R0_def w0_def registry_dicts)
    have id: "wk_worker_id w = as_worker_id a" using registry_inv_worker_id[OF inv w(1)] .
    have taken: "worktree_taken R0 key (wk_worker_id w0) \<Longrightarrow> worktree_taken R key (wk_worker_id w)"
      using inv inv0 unfolding registry_inv_def
      by (auto simp: worktree_taken_iff R0_def w0_def split: if_splits)
    have "registry_inv (snd (store_assignment a mutation key w0 R0))"
    proof (rule store_assignment_inv[OF inv0])
      show "as_assignment_id a \<notin> fst ` set (rg_assignments R0)"
        using w(3) unfolding not_key by (simp add: R0_def)
      show "\<not> runtime_mismatch w0 a" using w(5) by (simp add: runtime_mismatch_def w0_def)
      show "\<not> (mutation \<and> worktree_taken R0 key (wk_worker_id w0))" using w(7) taken by blast
    qed (use w in \<open>simp_all add: R0_def w0_def\<close>)
    then have "registry_inv R'"
      using st inv by (auto simp: store_assignment_def R0_def w0_def registry_inv_def id registry_dicts)
    moreover have "x = Inr a" using st by (simp add: store_assignment_def)
    ultimately show ?thesis by blast
  qed blast
qed

section \<open>Reachable registries\<close>

inductive registry_step :: "ControlPlaneRegistry \<Rightarrow> ControlPlaneRegistry \<Rightarrow> bool" where
  step_register_project: "register_project p R = (x, R') \<Longrightarrow> registry_step R R'"
| step_register_worker: "register_worker w R = (y, R') \<Longrightarrow> registry_step R R'"
| step_assign: "assign a m R = (z, R') \<Longrightarrow> registry_step R R'"
| step_replace: "replace_assignment a m R = (z, R') \<Longrightarrow> registry_step R R'"
| step_release: "release_worker i R = (y, R') \<Longrightarrow> registry_step R R'"
| step_set_state: "set_worker_state i st R = (y, R') \<Longrightarrow> registry_step R R'"
| step_rename: "rename_worker i n R = (y, R') \<Longrightarrow> registry_step R R'"
| step_unregister: "unregister_worker i R = (y, R') \<Longrightarrow> registry_step R R'"

inductive registry_reachable :: "ControlPlaneRegistry \<Rightarrow> bool" where
  reach_empty: "registry_reachable empty_registry"
| reach_step: "registry_reachable R \<Longrightarrow> registry_step R R' \<Longrightarrow> registry_reachable R'"

lemmas registry_ops_keep = register_project_keeps register_worker_keeps assign_keeps replace_assignment_keeps
  release_worker_keeps set_worker_state_keeps rename_worker_keeps unregister_worker_keeps

lemma keepsD: "keeps m \<Longrightarrow> registry_inv R \<Longrightarrow> m R = (x, R') \<Longrightarrow> registry_inv R'"
  "keeps m \<Longrightarrow> registry_inv R \<Longrightarrow> m R = (Inl e, R') \<Longrightarrow> R' = R"
  unfolding keeps_def by blast+

lemma registry_step_inv: "registry_step R R' \<Longrightarrow> registry_inv R \<Longrightarrow> registry_inv R'"
  by (induction rule: registry_step.induct) (auto intro: keepsD(1) registry_ops_keep)

lemma empty_registry_inv: "registry_inv empty_registry"
  by (simp add: registry_inv_def empty_registry_def maps_inv_def)

lemma registry_reachable_inv: "registry_reachable R \<Longrightarrow> registry_inv R"
  by (induction rule: registry_reachable.induct) (auto intro: registry_step_inv empty_registry_inv)

lemma worktree_key_normcase:
  assumes "normcase p = normcase q"
  shows "windows_worktree_key p = windows_worktree_key q"
proof -
  have "normcase (normpath (py_strip s)) = normcase (normpath (py_strip (normcase s)))" for s
    by (simp add: py_strip_normcase normcase_normpath)
  moreover have "blank s = blank (normcase s)" for s
    by (simp add: blank_def py_strip_normcase) (simp add: normcase_def)
  ultimately show ?thesis using assms unfolding windows_worktree_key_def by metis
qed

text \<open>
  C25: assignments are exclusive. In every registry reached by any sequence of calls, failing
  or not, two mutating assignments of projects whose root paths differ at most in letter
  case and in the kind of slash are the same assignment; every assignment belongs to a
  registered worker that points back at it and whose runtime it matches, and every worker
  that holds an assignment is the worker of that assignment.
\<close>

theorem registry_worktree_exclusive:
  assumes "registry_reachable R"
  shows "(map_of (rg_assignments R) a = Some r \<and> map_of (rg_assignments R) b = Some s
      \<and> ar_mutation_allowed r \<and> ar_mutation_allowed s
      \<and> map_of (rg_projects R) (as_project_id (ar_assignment r)) = Some p
      \<and> map_of (rg_projects R) (as_project_id (ar_assignment s)) = Some q
      \<and> normcase (pj_root_path p) = normcase (pj_root_path q) \<longrightarrow> a = b)
    \<and> (map_of (rg_assignments R) a = Some r \<longrightarrow> (\<exists>w. map_of (rg_workers R) (ar_worker_id r) = Some w
         \<and> wk_assignment_id w = Some a \<and> \<not> runtime_mismatch w (ar_assignment r)))
    \<and> (map_of (rg_workers R) i = Some v \<and> wk_assignment_id v = Some a
         \<longrightarrow> (\<exists>r. map_of (rg_assignments R) a = Some r \<and> ar_worker_id r = i))"
proof -
  have inv: "maps_inv (map_of (rg_projects R)) (map_of (rg_workers R)) (map_of (rg_assignments R))"
    using registry_reachable_inv[OF assms] by (simp add: registry_inv_def)
  note d = maps_invD[OF inv]
  show ?thesis
  proof (intro conjI impI; (elim conjE)?)
    assume h: "map_of (rg_assignments R) a = Some r" "map_of (rg_assignments R) b = Some s"
      "ar_mutation_allowed r" "ar_mutation_allowed s"
      "map_of (rg_projects R) (as_project_id (ar_assignment r)) = Some p"
      "map_of (rg_projects R) (as_project_id (ar_assignment s)) = Some q"
      "normcase (pj_root_path p) = normcase (pj_root_path q)"
    have "windows_worktree_key (pj_root_path p) = Inr (ar_worktree_key r)"
      "windows_worktree_key (pj_root_path q) = Inr (ar_worktree_key s)"
      using d(4)[OF h(1)] d(4)[OF h(2)] h(5,6) unfolding record_ok_def by auto
    then have "ar_worktree_key r = ar_worktree_key s" using worktree_key_normcase[OF h(7)] by simp
    then show "a = b" using d(5) h(1-4) by blast
  next
    assume "map_of (rg_assignments R) a = Some r"
    from d(4)[OF this] show "\<exists>w. map_of (rg_workers R) (ar_worker_id r) = Some w
         \<and> wk_assignment_id w = Some a \<and> \<not> runtime_mismatch w (ar_assignment r)"
      unfolding record_ok_def by blast
  next
    assume "map_of (rg_workers R) i = Some v" "wk_assignment_id v = Some a"
    then show "\<exists>r. map_of (rg_assignments R) a = Some r \<and> ar_worker_id r = i" by (rule d(3))
  qed
qed

definition sample_project :: "string \<Rightarrow> string \<Rightarrow> Project" where
  "sample_project i path = \<lparr>pj_project_id = i, pj_display_name = i, pj_root_path = path\<rparr>"

definition sample_assignment :: "string \<Rightarrow> string \<Rightarrow> string \<Rightarrow> Assignment" where
  "sample_assignment a w p = \<lparr>as_assignment_id = a, as_worker_id = w, as_project_id = p, as_runtime_id = None\<rparr>"

definition sample_registry0 :: ControlPlaneRegistry where
  "sample_registry0 = snd (register_project (sample_project ''p1'' ''C:/Work/Repo'')
     (snd (register_worker (default_worker 2) (snd (register_worker (default_worker 1) empty_registry)))))"

definition sample_registry :: ControlPlaneRegistry where
  "sample_registry = snd (assign (sample_assignment ''a1'' ''a-worker-01'' ''p1'') True sample_registry0)"

lemma registry_reachable_snd:
  "registry_reachable R \<Longrightarrow> registry_reachable (snd (register_project p R))"
  "registry_reachable R \<Longrightarrow> registry_reachable (snd (register_worker w R))"
  "registry_reachable R \<Longrightarrow> registry_reachable (snd (assign a m R))"
  by (metis reach_step step_register_project step_register_worker step_assign prod.collapse)+

lemma sample_registry_reachable: "registry_reachable sample_registry0" "registry_reachable sample_registry"
  unfolding sample_registry_def sample_registry0_def by (intro registry_reachable_snd reach_empty)+

theorem registry_worktree_exclusive_witness:
  "\<exists>r. map_of (rg_assignments sample_registry) ''a1'' = Some r \<and> ar_worker_id r = ''a-worker-01''"
proof -
  have "map_of (rg_workers sample_registry) ''a-worker-01''
      = Some ((default_worker 1)\<lparr>wk_assignment_id := Some ''a1''\<rparr>)" by code_simp
  then show ?thesis using registry_worktree_exclusive[OF sample_registry_reachable(2), where a = "''a1''" and i = "''a-worker-01''"
      and v = "(default_worker 1)\<lparr>wk_assignment_id := Some ''a1''\<rparr>"]
    by simp
qed

text \<open>
  \<^verbatim>\<open>assign\<close> on every branch. From a reachable registry it succeeds exactly when worker and
  project are registered, the id is new, the worker is free, the runtimes agree, the
  project has a worktree key, and no other worker mutates that worktree (for a mutating
  assignment); it then binds the worker to the assignment and changes nothing else. When
  it raises, the registry is unchanged.
\<close>

theorem assign_exact:
  assumes "registry_reachable R" and "assign a m R = (x, R')"
  shows "((\<exists>y. x = Inr y) \<longleftrightarrow> (\<exists>w p key. map_of (rg_workers R) (as_worker_id a) = Some w
        \<and> map_of (rg_projects R) (as_project_id a) = Some p \<and> map_of (rg_assignments R) (as_assignment_id a) = None
        \<and> wk_assignment_id w = None \<and> \<not> runtime_mismatch w a \<and> windows_worktree_key (pj_root_path p) = Inr key
        \<and> (m \<longrightarrow> (\<forall>b r. map_of (rg_assignments R) b = Some r \<and> ar_mutation_allowed r \<longrightarrow> ar_worktree_key r \<noteq> key))))
    \<and> ((\<exists>e. x = Inl e) \<longrightarrow> R' = R)
    \<and> (\<forall>y. x = Inr y \<longrightarrow> y = a \<and> rg_projects R' = rg_projects R
         \<and> map_option wk_assignment_id (map_of (rg_workers R') (as_worker_id a)) = Some (Some (as_assignment_id a))
         \<and> (\<forall>i. i \<noteq> as_worker_id a \<longrightarrow> map_of (rg_workers R') i = map_of (rg_workers R) i)
         \<and> (\<forall>b. b \<noteq> as_assignment_id a \<longrightarrow> map_of (rg_assignments R') b = map_of (rg_assignments R) b))"
proof -
  have inv: "registry_inv R" by (rule registry_reachable_inv[OF assms(1)])
  have dist: "distinct (map fst (rg_assignments R))" using inv by (simp add: registry_inv_def)
  have own: "wk_assignment_id w \<noteq> None"
    if "map_of (rg_assignments R) b = Some r" "map_of (rg_workers R) (ar_worker_id r) = Some w" for b r w
  proof -
    have "record_ok (map_of (rg_projects R)) (map_of (rg_workers R)) b r"
      using inv maps_invD(4) that(1) unfolding registry_inv_def by blast
    then show ?thesis using that(2) unfolding record_ok_def by auto
  qed
  have free: "worktree_taken R key (wk_worker_id w) \<longleftrightarrow>
      (\<exists>b r. map_of (rg_assignments R) b = Some r \<and> ar_mutation_allowed r \<and> ar_worktree_key r = key)"
    if "map_of (rg_workers R) (as_worker_id a) = Some w" "wk_assignment_id w = None" for w key
    using own that registry_inv_worker_id[OF inv that(1)] unfolding worktree_taken_iff[OF dist] by metis
  define good where "good w p key \<longleftrightarrow> map_of (rg_workers R) (as_worker_id a) = Some w
        \<and> map_of (rg_projects R) (as_project_id a) = Some p \<and> as_assignment_id a \<notin> fst ` set (rg_assignments R)
        \<and> wk_assignment_id w = None \<and> \<not> runtime_mismatch w a \<and> windows_worktree_key (pj_root_path p) = Inr key
        \<and> \<not> (m \<and> worktree_taken R key (wk_worker_id w))" for w p key
  have good: "good w p key \<longleftrightarrow> map_of (rg_workers R) (as_worker_id a) = Some w
        \<and> map_of (rg_projects R) (as_project_id a) = Some p \<and> map_of (rg_assignments R) (as_assignment_id a) = None
        \<and> wk_assignment_id w = None \<and> \<not> runtime_mismatch w a \<and> windows_worktree_key (pj_root_path p) = Inr key
        \<and> (m \<longrightarrow> (\<forall>b r. map_of (rg_assignments R) b = Some r \<and> ar_mutation_allowed r \<longrightarrow> ar_worktree_key r \<noteq> key))"
    for w p key unfolding good_def not_key using free by blast
  have run: "good w p key \<Longrightarrow> assign a m R = store_assignment a m key w R" for w p key
    unfolding good_def by (auto simp: assign_def andthen_def get_worker_def get_project_def lift_res_def)
  from assign_cases[OF assms(2)] consider (no) e where "x = Inl e" "R' = R"
    | (yes) w p key where "good w p key" "store_assignment a m key w R = (x, R')"
    unfolding good_def by blast
  then show ?thesis
  proof cases
    case no
    have "\<not> good w p key" for w p key
      using run[of w p key] assms(2) no by (auto simp: store_assignment_def)
    then show ?thesis unfolding good[symmetric] using no by simp
  next
    case yes
    have id: "wk_worker_id w = as_worker_id a"
      using registry_inv_worker_id[OF inv] yes(1) unfolding good_def by blast
    show ?thesis unfolding good[symmetric] using yes id by (auto simp: store_assignment_def)
  qed
qed

theorem assign_exact_witness:
  "\<exists>e. fst (assign (sample_assignment ''a2'' ''a-worker-02'' ''p1'') True sample_registry) = Inl e
     \<and> snd (assign (sample_assignment ''a2'' ''a-worker-02'' ''p1'') True sample_registry) = sample_registry"
proof -
  define out where "out = assign (sample_assignment ''a2'' ''a-worker-02'' ''p1'') True sample_registry"
  have "\<not> isl (fst out) = False" unfolding out_def by code_simp
  then obtain e where e: "fst out = Inl e" by (auto simp: isl_def)
  have "assign (sample_assignment ''a2'' ''a-worker-02'' ''p1'') True sample_registry = (fst out, snd out)"
    by (simp add: out_def)
  from assign_exact[OF sample_registry_reachable(2) this] e show ?thesis by (simp add: out_def)
qed

end
