(* ===== verification/Lifecycle_Coordinator.thy ===== *)
theory Lifecycle_Coordinator
  imports Lifecycle_Recovery Registry
begin

text \<open>
  The application-level lifecycle coordination, \<^verbatim>\<open>src/src/a_conductor/lifecycle_coordinator.py\<close>:
  observe, plan, execute through the checkpointed executor, persist the worker state. The
  injected services are the fields of a record of ports; the state is the host, the
  journal and the state service, here the registry.
\<close>

section \<open>Definitions\<close>

record ('h, 'j, 'r) lifecycle_ports =
  po_observe :: "string \<Rightarrow> LifecycleAction \<Rightarrow> ('h, LifecycleContext) action"
  po_backend :: "string \<Rightarrow> LifecycleAction \<Rightarrow> ('h, 'h step_backend) action"
  po_sink :: "'j checkpoint_sink"
  po_set_state :: "string \<Rightarrow> WorkerState \<Rightarrow> ('r, Worker) action"
  po_planner :: "LifecycleContext \<Rightarrow> exn + LifecyclePlan"
  po_transaction_id :: "('h, string) action"

definition on_host :: "('h, 'a) action \<Rightarrow> ('h \<times> 'j \<times> 'r, 'a) action" where
  "on_host m = (\<lambda>(h, j, r). case m h of (x, h') \<Rightarrow> (x, (h', j, r)))"

definition on_state :: "('r, 'a) action \<Rightarrow> ('h \<times> 'j \<times> 'r, 'a) action" where
  "on_state m = (\<lambda>(h, j, r). case m r of (x, r') \<Rightarrow> (x, (h, j, r')))"

definition on_execution :: "('h \<times> 'j, 'a) action \<Rightarrow> ('h \<times> 'j \<times> 'r, 'a) action" where
  "on_execution m = (\<lambda>(h, j, r). case m (h, j) of (x, (h', j')) \<Rightarrow> (x, (h', j', r)))"

definition non_proceed_backend :: "'h step_backend" where
  "non_proceed_backend step = throw (AssertionErr ''non-proceed plan attempted backend step'')"

definition pre_execution_state :: "LifecycleAction \<Rightarrow> WorkerState option" where
  "pre_execution_state a =
     (if a = LA_START \<or> a = LA_RESTART then Some W_STARTING
      else if a = LA_STOP then Some W_STOPPING else None)"

definition successful_state :: "LifecycleAction \<Rightarrow> WorkerState" where
  "successful_state a = (if a = LA_START \<or> a = LA_RESTART then W_READY else W_STOPPED)"

definition transaction_id :: "('h, 'j, 'r) lifecycle_ports \<Rightarrow> ('h \<times> 'j \<times> 'r, string) action" where
  "transaction_id P =
     andthen (catch (on_host (po_transaction_id P)) (\<lambda>_. throw (LifecycleErr ''TRANSACTION_ID_INVALID'' False))) (\<lambda>t.
       if blank t then throw (LifecycleErr ''TRANSACTION_ID_INVALID'' False) else ret (py_strip t))"

definition persist_state ::
  "('h, 'j, 'r) lifecycle_ports \<Rightarrow> string \<Rightarrow> WorkerState \<Rightarrow> bool \<Rightarrow> ('h \<times> 'j \<times> 'r, unit) action" where
  "persist_state P worker st recovery =
     catch (andthen (on_state (po_set_state P worker st)) (\<lambda>_. ret ()))
       (\<lambda>_. throw (LifecycleErr ''WORKER_STATE_PERSISTENCE_FAILED'' recovery))"

definition observe :: "('h, 'j, 'r) lifecycle_ports \<Rightarrow> string \<Rightarrow> LifecycleAction
     \<Rightarrow> ('h \<times> 'j \<times> 'r, LifecycleContext) action" where
  "observe P worker a =
     (if blank worker then throw (LifecycleErr ''WORKER_ID_INVALID'' False)
      else andthen (catch (on_host (po_observe P worker a))
             (\<lambda>_. throw (LifecycleErr ''LIFECYCLE_CONTEXT_UNAVAILABLE'' False))) (\<lambda>context.
        if lc_action context \<noteq> a then throw (LifecycleErr ''LIFECYCLE_CONTEXT_INVALID'' False) else ret context))"

definition observe_and_plan :: "('h, 'j, 'r) lifecycle_ports \<Rightarrow> string \<Rightarrow> LifecycleAction
     \<Rightarrow> ('h \<times> 'j \<times> 'r, LifecyclePlan) action" where
  "observe_and_plan P worker a =
     andthen (observe P worker a) (\<lambda>context.
       catch (lift_res (po_planner P context)) (\<lambda>_. throw (LifecycleErr ''LIFECYCLE_PLAN_FAILED'' False)))"

definition settle_non_proceed :: "('h, 'j, 'r) lifecycle_ports \<Rightarrow> string \<Rightarrow> LifecycleAction
     \<Rightarrow> LifecycleExecutionResult \<Rightarrow> ('h \<times> 'j \<times> 'r, LifecycleExecutionResult) action" where
  "settle_non_proceed P worker a res =
     (case lx_state res of
        LX_REFUSED \<Rightarrow> ret res
      | LX_NOOP \<Rightarrow> andthen (persist_state P worker (successful_state a) False) (\<lambda>_. ret res)
      | LX_RECOVERY_REQUIRED \<Rightarrow> andthen (persist_state P worker W_ERROR True) (\<lambda>_. ret res)
      | _ \<Rightarrow> ret res)"

definition create_backend :: "('h, 'j, 'r) lifecycle_ports \<Rightarrow> string \<Rightarrow> LifecycleAction
     \<Rightarrow> ('h \<times> 'j \<times> 'r, 'h step_backend) action" where
  "create_backend P worker a =
     catch (on_host (po_backend P worker a)) (\<lambda>_.
       andthen (catch (persist_state P worker W_ERROR False) (\<lambda>_. ret ())) (\<lambda>_.
         throw (LifecycleErr ''LIFECYCLE_BACKEND_UNAVAILABLE'' False)))"

definition settle_executed :: "('h, 'j, 'r) lifecycle_ports \<Rightarrow> string \<Rightarrow> LifecycleAction
     \<Rightarrow> LifecycleExecutionResult \<Rightarrow> ('h \<times> 'j \<times> 'r, LifecycleExecutionResult) action" where
  "settle_executed P worker a res =
     (if lx_state res = LX_COMPLETE \<or> lx_state res = LX_NOOP
      then andthen (persist_state P worker (successful_state a) True) (\<lambda>_. ret res)
      else if lx_state res = LX_FAILED \<or> lx_state res = LX_RECOVERY_REQUIRED
      then andthen (persist_state P worker W_ERROR True) (\<lambda>_. ret res)
      else ret res)"

definition execute_lifecycle :: "('h, 'j, 'r) lifecycle_ports \<Rightarrow> string \<Rightarrow> LifecycleAction
     \<Rightarrow> ('h \<times> 'j \<times> 'r, LifecycleExecutionResult) action" where
  "execute_lifecycle P worker a =
     (if blank worker then throw (LifecycleErr ''WORKER_ID_INVALID'' False)
      else andthen (transaction_id P) (\<lambda>t.
        andthen (observe_and_plan P worker a) (\<lambda>p.
          if lp_decision p \<noteq> LD_PROCEED then
            andthen (on_execution (execute_plan p non_proceed_backend (po_sink P) t)) (settle_non_proceed P worker a)
          else
            andthen (case pre_execution_state a of None \<Rightarrow> ret () | Some st \<Rightarrow> persist_state P worker st False) (\<lambda>_.
            andthen (create_backend P worker a) (\<lambda>backend.
            andthen (on_execution (execute_plan p backend (po_sink P) t)) (settle_executed P worker a))))))"

section \<open>The registry as state service\<close>

definition with_state :: "string \<Rightarrow> WorkerState \<Rightarrow> ControlPlaneRegistry \<Rightarrow> ControlPlaneRegistry" where
  "with_state i st R = snd (set_worker_state i st R)"

definition worker_state_in :: "ControlPlaneRegistry \<Rightarrow> string \<Rightarrow> WorkerState option" where
  "worker_state_in R i = map_option wk_state (map_of (rg_workers R) i)"

lemma set_worker_state_eq:
  "set_worker_state i st R = (case map_of (rg_workers R) i of
     None \<Rightarrow> (Inl (RegistryNotFoundErr (''worker_id not found: '' @ i)), R)
   | Some w \<Rightarrow> (Inr (w\<lparr>wk_state := st\<rparr>), with_state i st R))"
  by (simp add: with_state_def set_worker_state_def andthen_def get_worker_def split: option.split)

lemma with_state_twice [simp]: "with_state i s1 (with_state i s2 R) = with_state i s1 R"
  by (cases "map_of (rg_workers R) i")
    (simp_all add: with_state_def set_worker_state_def andthen_def get_worker_def update_last)

lemma worker_state_in_with_state [simp]:
  "worker_state_in (with_state i st R) k =
     (if k = i \<and> worker_state_in R i \<noteq> None then Some st else worker_state_in R k)"
  by (cases "map_of (rg_workers R) i")
    (auto simp: worker_state_in_def with_state_def set_worker_state_def andthen_def get_worker_def)

lemma with_state_unregistered: "worker_state_in R i = None \<Longrightarrow> with_state i st R = R"
  by (simp add: worker_state_in_def with_state_def set_worker_state_def andthen_def get_worker_def)

lemma persist_result:
  assumes "po_set_state P = set_worker_state"
  shows "persist_state P w st rr (h, j, R) =
    (if worker_state_in R w = None then (Inl (LifecycleErr ''WORKER_STATE_PERSISTENCE_FAILED'' rr), (h, j, R))
     else (Inr (), (h, j, with_state w st R)))"
  unfolding persist_state_def assms worker_state_in_def
  by (auto simp: catch_def andthen_def on_state_def ret_def throw_def set_worker_state_eq split: option.split)

section \<open>What a call leaves behind\<close>

text \<open>
  \<open>quiet\<close> states are those before any backend step: the host property \<open>Q\<close>, which observation
  and backend creation keep, still holds, and the journal is untouched. The worker is
  as before or, once registered and marked, in some state.
\<close>

definition quiet :: "('h \<Rightarrow> bool) \<Rightarrow> 'j \<Rightarrow> ControlPlaneRegistry \<Rightarrow> 'h \<times> 'j \<times> ControlPlaneRegistry \<Rightarrow> bool" where
  "quiet Q j R s \<longleftrightarrow> (\<exists>h. s = (h, j, R) \<and> Q h)"

definition marked :: "string \<Rightarrow> ControlPlaneRegistry \<Rightarrow> ControlPlaneRegistry \<Rightarrow> bool" where
  "marked w R R1 \<longleftrightarrow> R1 = R \<or> worker_state_in R w \<noteq> None \<and> (\<exists>st. R1 = with_state w st R)"

definition raised ::
  "('h \<Rightarrow> bool) \<Rightarrow> 'j \<Rightarrow> string \<Rightarrow> ControlPlaneRegistry \<Rightarrow> exn \<Rightarrow> 'h \<times> 'j \<times> ControlPlaneRegistry \<Rightarrow> bool" where
  "raised Q j w R e s \<longleftrightarrow> (\<exists>c rr h' j' R'. s = (h', j', R') \<and> e = LifecycleErr c rr
     \<and> (\<not> rr \<longrightarrow> Q h' \<and> j' = j) \<and> (R' = R \<or> R' = with_state w W_ERROR R))"

definition final_registry ::
  "string \<Rightarrow> LifecycleAction \<Rightarrow> ControlPlaneRegistry \<Rightarrow> LifecycleExecutionState \<Rightarrow> ControlPlaneRegistry" where
  "final_registry w a R st = (case st of
     LX_REFUSED \<Rightarrow> R
   | LX_COMPLETE \<Rightarrow> with_state w (successful_state a) R
   | LX_NOOP \<Rightarrow> with_state w (successful_state a) R
   | _ \<Rightarrow> with_state w W_ERROR R)"

definition returned :: "string \<Rightarrow> LifecycleAction \<Rightarrow> ControlPlaneRegistry \<Rightarrow> LifecycleExecutionResult
     \<Rightarrow> 'h \<times> 'j \<times> ControlPlaneRegistry \<Rightarrow> bool" where
  "returned w a R res s \<longleftrightarrow> (\<exists>h' j'. s = (h', j', final_registry w a R (lx_state res)))
     \<and> (lx_state res \<noteq> LX_REFUSED \<longrightarrow> worker_state_in R w \<noteq> None)"

definition host_keeps :: "('h \<Rightarrow> bool) \<Rightarrow> ('h, 'a) action \<Rightarrow> bool" where
  "host_keeps Q m \<longleftrightarrow> (\<forall>h x h'. Q h \<longrightarrow> m h = (x, h') \<longrightarrow> Q h')"

lemma host_quiet:
  assumes "host_keeps Q m"
  shows "triple (quiet Q j R) (on_host m) (\<lambda>_. quiet Q j R) (\<lambda>_. quiet Q j R)"
  using assms by (intro tripleI) (auto simp: quiet_def on_host_def host_keeps_def split: prod.splits)

lemma raised_iff [simp]: "raised Q j w R (LifecycleErr c rr) (h', j', R') \<longleftrightarrow>
     (\<not> rr \<longrightarrow> Q h' \<and> j' = j) \<and> (R' = R \<or> R' = with_state w W_ERROR R)"
  by (auto simp: raised_def)

lemma raised_quiet: "quiet Q j R s \<Longrightarrow> raised Q j w R (LifecycleErr c rr) s"
  by (auto simp: quiet_def raised_def)

lemma transaction_id_triple:
  assumes "host_keeps Q (po_transaction_id P)"
  shows "triple (quiet Q j R) (transaction_id P) (\<lambda>t s. \<not> blank t \<and> quiet Q j R s) (raised Q j w R)"
  unfolding transaction_id_def
proof (rule triple_andthen)
  show "triple (quiet Q j R) (catch (on_host (po_transaction_id P))
      (\<lambda>_. throw (LifecycleErr ''TRANSACTION_ID_INVALID'' False))) (\<lambda>_. quiet Q j R) (raised Q j w R)"
    by (rule triple_catch[OF host_quiet[OF assms]]) (intro triple_throw raised_quiet)
qed (intro triple_if triple_throw triple_ret; simp add: raised_quiet)

lemma observe_and_plan_triple:
  assumes "\<And>w a. host_keeps Q (po_observe P w a)"
  shows "triple (quiet Q j R) (observe_and_plan P w a) (\<lambda>_. quiet Q j R) (raised Q j w R)"
proof -
  have look: "triple (quiet Q j R) (catch (on_host (po_observe P w a))
      (\<lambda>_. throw (LifecycleErr ''LIFECYCLE_CONTEXT_UNAVAILABLE'' False))) (\<lambda>_. quiet Q j R) (raised Q j w R)"
    by (rule triple_catch[OF host_quiet[OF assms]]) (intro triple_throw raised_quiet)
  have ob: "triple (quiet Q j R) (observe P w a) (\<lambda>_. quiet Q j R) (raised Q j w R)"
    unfolding observe_def
    by (intro triple_if triple_throw triple_andthen[OF look] triple_ret) (simp_all add: raised_quiet)
  have plan: "triple (quiet Q j R) (lift_res (po_planner P c)) (\<lambda>_. quiet Q j R) (\<lambda>_. quiet Q j R)" for c
    by (rule triple_lift_res)
  show ?thesis unfolding observe_and_plan_def
    by (rule triple_andthen[OF ob], rule triple_catch[OF plan], intro triple_throw raised_quiet)
qed

text \<open>States once the worker may be marked, before (\<open>Q\<close>, the journal as it was) and after execution.\<close>

definition midway ::
  "('h \<times> 'j \<Rightarrow> bool) \<Rightarrow> string \<Rightarrow> ControlPlaneRegistry \<Rightarrow> 'h \<times> 'j \<times> ControlPlaneRegistry \<Rightarrow> bool" where
  "midway Z w R s \<longleftrightarrow> (\<exists>h j R1. s = (h, j, R1) \<and> Z (h, j) \<and> marked w R R1)"

lemma marked_refl: "marked w R R"
  by (simp add: marked_def)

lemma marked_error: "marked w R R1 \<Longrightarrow> worker_state_in R1 w \<noteq> None \<Longrightarrow> with_state w st R1 = with_state w st R"
  by (auto simp: marked_def)

lemma marked_registered: "marked w R R1 \<Longrightarrow> worker_state_in R1 w = None \<longleftrightarrow> worker_state_in R w = None"
  by (auto simp: marked_def)

lemma marked_unregistered: "marked w R R1 \<Longrightarrow> worker_state_in R w = None \<Longrightarrow> R1 = R"
  by (auto simp: marked_def)

lemma persist_first_triple:
  assumes "po_set_state P = set_worker_state"
  shows "triple (quiet Q j R) (persist_state P w st False) (\<lambda>_. midway (\<lambda>(h, j'). Q h \<and> j' = j) w R) (raised Q j w R)"
  by (rule tripleI) (auto simp: quiet_def persist_result[OF assms] midway_def marked_def split: if_splits)

lemma create_backend_triple:
  assumes st: "po_set_state P = set_worker_state" and keep: "host_keeps Q (po_backend P w a)"
  shows "triple (midway (\<lambda>(h, j'). Q h \<and> j' = j) w R) (create_backend P w a)
    (\<lambda>_. midway (\<lambda>(h, j'). Q h \<and> j' = j) w R) (raised Q j w R)"
  unfolding create_backend_def
proof (rule triple_catch)
  show "triple (midway (\<lambda>(h, j'). Q h \<and> j' = j) w R) (on_host (po_backend P w a))
    (\<lambda>_. midway (\<lambda>(h, j'). Q h \<and> j' = j) w R) (\<lambda>_. midway (\<lambda>(h, j'). Q h \<and> j' = j) w R)"
    using keep by (intro tripleI) (auto simp: midway_def on_host_def host_keeps_def split: prod.splits)
  show "triple (midway (\<lambda>(h, j'). Q h \<and> j' = j) w R)
     (andthen (catch (persist_state P w W_ERROR False) (\<lambda>_. ret ()))
       (\<lambda>_. throw (LifecycleErr ''LIFECYCLE_BACKEND_UNAVAILABLE'' False)))
     (\<lambda>_. midway (\<lambda>(h, j'). Q h \<and> j' = j) w R) (raised Q j w R)" for e :: exn
  proof (rule tripleI)
    fix s x s'
    assume m: "midway (\<lambda>(h, j'). Q h \<and> j' = j) w R s"
      and r: "andthen (catch (persist_state P w W_ERROR False) (\<lambda>_. ret ()))
       (\<lambda>_. throw (LifecycleErr ''LIFECYCLE_BACKEND_UNAVAILABLE'' False)) s = (Inl x, s')"
    then obtain h R1 where s: "s = (h, j, R1)" "Q h" "marked w R R1" by (auto simp: midway_def)
    show "raised Q j w R x s'"
      using r s marked_error[OF s(3), of W_ERROR] marked_unregistered[OF s(3)] marked_registered[OF s(3)]
      by (auto simp: andthen_def catch_def ret_def throw_def persist_result[OF st] split: if_splits)
  qed (auto simp: andthen_def catch_def ret_def throw_def split: prod.splits sum.splits)
qed

lemma execute_plan_Inr:
  assumes "\<not> blank t" and "execute_plan p backend sink t s = (x, s')"
  shows "\<exists>res. x = Inr res \<and> (if lp_decision p = LD_PROCEED
     then lx_state res \<in> {LX_COMPLETE, LX_FAILED, LX_RECOVERY_REQUIRED}
     else s' = s \<and> lx_state res \<in> {LX_REFUSED, LX_NOOP, LX_RECOVERY_REQUIRED})"
proof (cases "lp_decision p = LD_PROCEED")
  case True
  obtain h j where s: "s = (h, j)" by (cases s)
  obtain res h' j' where run: "execute_steps backend sink (lp_action p) t 1 (lp_steps p) [] [] (h, j) = (res, h', j')"
    by (metis prod_cases3)
  have "result_shape [] (lp_steps p) res" using execute_steps_shape[OF run] by blast
  then have "lx_state res \<in> {LX_COMPLETE, LX_FAILED, LX_RECOVERY_REQUIRED}"
    unfolding result_shape_def by (auto split: if_splits)
  then show ?thesis
    using True assms run s by (auto simp: execute_plan_def require_transaction_id_def require_text_def)
next
  case False
  then show ?thesis using assms
    by (cases "lp_decision p") (auto simp: execute_plan_def require_transaction_id_def require_text_def non_proceed_result_def)
qed

lemma run_plan_triple:
  assumes "\<not> blank t" and "lp_decision p = LD_PROCEED"
  shows "triple (midway Z w R) (on_execution (execute_plan p backend sink t))
    (\<lambda>res s. lx_state res \<in> {LX_COMPLETE, LX_FAILED, LX_RECOVERY_REQUIRED} \<and> midway (\<lambda>_. True) w R s) E"
proof (rule tripleI)
  fix s e s'
  assume "midway Z w R s" "on_execution (execute_plan p backend sink t) s = (Inl e, s')"
  then show "E e s'" using execute_plan_Inr[OF assms(1), of p backend sink]
    by (fastforce simp: midway_def on_execution_def split: prod.splits)
next
  fix s res s'
  assume "midway Z w R s" "on_execution (execute_plan p backend sink t) s = (Inr res, s')"
  then show "lx_state res \<in> {LX_COMPLETE, LX_FAILED, LX_RECOVERY_REQUIRED} \<and> midway (\<lambda>_. True) w R s'"
    using execute_plan_Inr[OF assms(1), of p backend sink] assms(2)
    by (fastforce simp: midway_def on_execution_def split: prod.splits)
qed

lemma settle_executed_triple:
  assumes st: "po_set_state P = set_worker_state" and res: "lx_state res \<in> {LX_COMPLETE, LX_FAILED, LX_RECOVERY_REQUIRED}"
  shows "triple (midway (\<lambda>_. True) w R) (settle_executed P w a res) (returned w a R) (raised Q j w R)"
proof -
  have go: "triple (midway (\<lambda>_. True) w R) (andthen (persist_state P w fin True) (\<lambda>_. ret res))
      (returned w a R) (raised Q j w R)" if "final_registry w a R (lx_state res) = with_state w fin R" for fin
  proof (rule tripleI)
    fix s e s'
    assume "midway (\<lambda>_. True) w R s" "andthen (persist_state P w fin True) (\<lambda>_. ret res) s = (Inl e, s')"
    then show "raised Q j w R e s'" using marked_registered marked_unregistered
      by (auto simp: midway_def andthen_def ret_def persist_result[OF st] split: if_splits)
  next
    fix s r s'
    assume m: "midway (\<lambda>_. True) w R s" and r: "andthen (persist_state P w fin True) (\<lambda>_. ret res) s = (Inr r, s')"
    then obtain h j1 R1 where s: "s = (h, j1, R1)" "marked w R R1" by (auto simp: midway_def)
    then show "returned w a R r s'" using r that marked_registered[OF s(2)] marked_error[OF s(2), of fin]
      by (auto simp: andthen_def ret_def persist_result[OF st] returned_def split: if_splits)
  qed
  show ?thesis using res go unfolding settle_executed_def by (auto simp: final_registry_def)
qed

lemma settle_non_proceed_triple:
  assumes st: "po_set_state P = set_worker_state" and res: "lx_state res \<in> {LX_REFUSED, LX_NOOP, LX_RECOVERY_REQUIRED}"
  shows "triple (quiet Q j R) (settle_non_proceed P w a res) (returned w a R) (raised Q j w R)"
proof -
  have go: "triple (quiet Q j R) (andthen (persist_state P w fin rr) (\<lambda>_. ret res))
      (returned w a R) (raised Q j w R)" if "final_registry w a R (lx_state res) = with_state w fin R" for fin rr
    using that by (intro tripleI) (auto simp: quiet_def andthen_def ret_def persist_result[OF st] returned_def split: if_splits)
  have "triple (quiet Q j R) (ret res) (returned w a R) (raised Q j w R)" if "lx_state res = LX_REFUSED"
    using that by (intro triple_ret) (auto simp: quiet_def returned_def final_registry_def)
  then show ?thesis using res go unfolding settle_non_proceed_def by (auto simp: final_registry_def)
qed

lemma non_proceed_triple:
  assumes "\<not> blank t" and "lp_decision p \<noteq> LD_PROCEED"
  shows "triple (quiet Q j R) (on_execution (execute_plan p backend sink t))
    (\<lambda>res s. lx_state res \<in> {LX_REFUSED, LX_NOOP, LX_RECOVERY_REQUIRED} \<and> quiet Q j R s) E"
proof (rule tripleI)
  fix s e s'
  assume "quiet Q j R s" "on_execution (execute_plan p backend sink t) s = (Inl e, s')"
  then show "E e s'" using execute_plan_Inr[OF assms(1), of p backend sink]
    by (fastforce simp: quiet_def on_execution_def split: prod.splits)
next
  fix s res s'
  assume "quiet Q j R s" "on_execution (execute_plan p backend sink t) s = (Inr res, s')"
  then show "lx_state res \<in> {LX_REFUSED, LX_NOOP, LX_RECOVERY_REQUIRED} \<and> quiet Q j R s'"
    using execute_plan_Inr[OF assms(1), of p backend sink] assms(2)
    by (fastforce simp: quiet_def on_execution_def split: prod.splits)
qed

lemma pre_state_triple:
  assumes "po_set_state P = set_worker_state"
  shows "triple (quiet Q j R) (case pre of None \<Rightarrow> ret () | Some st \<Rightarrow> persist_state P w st False)
    (\<lambda>_. midway (\<lambda>(h, j'). Q h \<and> j' = j) w R) (raised Q j w R)"
  by (cases pre) (auto simp: quiet_def midway_def marked_refl intro!: triple_ret persist_first_triple[OF assms])

lemma execute_lifecycle_triple:
  assumes st: "po_set_state P = set_worker_state" and tid: "host_keeps Q (po_transaction_id P)"
    and ob: "\<And>w a. host_keeps Q (po_observe P w a)" and cr: "\<And>w a. host_keeps Q (po_backend P w a)"
  shows "triple (quiet Q j R) (execute_lifecycle P w a) (returned w a R) (raised Q j w R)"
proof -
  have non: "triple (quiet Q j R)
      (andthen (on_execution (execute_plan p non_proceed_backend (po_sink P) t)) (settle_non_proceed P w a))
      (returned w a R) (raised Q j w R)" if "\<not> blank t" "lp_decision p \<noteq> LD_PROCEED" for p t
    by (rule triple_andthen[OF non_proceed_triple[OF that]], rule triple_fact, rule settle_non_proceed_triple[OF st])
  have go: "triple (quiet Q j R)
      (andthen (case pre_execution_state a of None \<Rightarrow> ret () | Some st \<Rightarrow> persist_state P w st False) (\<lambda>_.
       andthen (create_backend P w a) (\<lambda>backend.
       andthen (on_execution (execute_plan p backend (po_sink P) t)) (settle_executed P w a))))
      (returned w a R) (raised Q j w R)" if "\<not> blank t" "lp_decision p = LD_PROCEED" for p t
    by (rule triple_andthen[OF pre_state_triple[OF st]], rule triple_andthen[OF create_backend_triple[OF st cr]],
        rule triple_andthen[OF run_plan_triple[OF that]], rule triple_fact, rule settle_executed_triple[OF st])
  show ?thesis unfolding execute_lifecycle_def
  proof (rule triple_if)
    show "triple (quiet Q j R) (throw (LifecycleErr ''WORKER_ID_INVALID'' False)) (returned w a R) (raised Q j w R)"
      by (intro triple_throw raised_quiet)
  qed (rule triple_andthen[OF transaction_id_triple[OF tid]], rule triple_fact,
       rule triple_andthen[OF observe_and_plan_triple[OF ob]], rule triple_if, erule (1) non, rule go, simp_all)
qed


text \<open>A restart on a host that counts its steps; the checkpoint of the started process is refused.\<close>

definition sample_ports :: "(nat, JournalDb, ControlPlaneRegistry) lifecycle_ports" where
  "sample_ports = \<lparr>po_observe = (\<lambda>_ a. ret (sample_context a)), po_backend = (\<lambda>_ _. ret sample_backend),
     po_sink = journal_record (\<lambda>c. cp_step c = START_OWNED_PROCESS), po_set_state = set_worker_state,
     po_planner = (\<lambda>c. Inr (plan_lifecycle c)), po_transaction_id = ret '' tx-9 ''\<rparr>"

definition sample_restart :: "(exn + LifecycleExecutionResult) \<times> nat \<times> JournalDb \<times> ControlPlaneRegistry" where
  "sample_restart = execute_lifecycle sample_ports ''a-worker-01'' LA_RESTART (0, empty_journal, sample_registry)"


end
