(* ===== verification/Worker_Lease.thy ===== *)
theory Worker_Lease
  imports Registry Glob_Overlap
begin

text \<open>
  The values of worker leasing, \<^verbatim>\<open>src/src/a_conductor/worker_lease.py\<close>: candidates, requests,
  leases and recovery observations with the checks of their constructors, the health and
  recovery classification of a lease, and the preflight of a candidate.

  A time argument is a timezone-aware instant (microseconds since the epoch), a naive
  datetime or a text. What \<^verbatim>\<open>datetime\<close> does is the record \<open>time_lib\<close>: rendering an instant
  in UTC and parsing an ISO text to an instant (\<^const>\<open>None\<close> for a malformed or naive one);
  every statement below holds for all of them unless it says otherwise.
\<close>

section \<open>Text and scopes\<close>

definition lease_text :: "nat \<Rightarrow> string \<Rightarrow> string \<Rightarrow> exn + string" where
  "lease_text max_length v field =
     (if blank v then Inl (ValueErr field)
      else let cleaned = py_strip v in
        if length cleaned > max_length \<or> CHR 0x00 \<in> set cleaned \<or> CHR 0x0D \<in> set cleaned \<or> CHR 0x0A \<in> set cleaned
        then Inl (ValueErr field) else Inr cleaned)"

definition lease_optional_text :: "string option \<Rightarrow> string \<Rightarrow> exn + string option" where
  "lease_optional_text v field = (case v of None \<Rightarrow> Inr None
     | Some x \<Rightarrow> res_bind (lease_text 512 x field) (\<lambda>y. Inr (Some y)))"

fun lease_texts :: "string list \<Rightarrow> string \<Rightarrow> exn + string list" where
  "lease_texts [] field = Inr []"
| "lease_texts (v # vs) field =
     res_bind (lease_text 512 v field) (\<lambda>y. res_bind (lease_texts vs field) (\<lambda>ys. Inr (y # ys)))"

definition lease_scope :: "string list \<Rightarrow> string \<Rightarrow> exn + string list" where
  "lease_scope values field =
     res_bind (lease_texts values field) (\<lambda>r. if distinct r then Inr r else Inl (ValueErr field))"

fun lease_scopes :: "string list list \<Rightarrow> string \<Rightarrow> exn + string list list" where
  "lease_scopes [] field = Inr []"
| "lease_scopes (v # vs) field =
     res_bind (lease_scope v field) (\<lambda>y. res_bind (lease_scopes vs field) (\<lambda>ys. Inr (y # ys)))"

text \<open>
  The characters a bracket expression of \<^verbatim>\<open>fnmatch\<close> matches: ranges are read from left to
  right, a reversed range is empty, a leading exclamation mark negates.
\<close>

fun class_members :: "string \<Rightarrow> char \<Rightarrow> bool" where
  "class_members (a # d # b # cs) c =
     (if d = CHR ''-'' then (a \<le> c \<and> c \<le> b) \<or> class_members cs c
      else a = c \<or> class_members (d # b # cs) c)"
| "class_members [a, b] c = (c = a \<or> c = b)"
| "class_members [a] c = (c = a)"
| "class_members [] c = False"

definition class_matches :: "string \<Rightarrow> char \<Rightarrow> bool" where
  "class_matches body c = (case body of
     [] \<Rightarrow> False
   | x # xs \<Rightarrow> if x = CHR ''!'' then \<not> class_members xs c else class_members body c)"

definition mutable_scope_is_authorized :: "string list \<Rightarrow> string list \<Rightarrow> bool" where
  "mutable_scope_is_authorized allowed mutable =
     list_all (\<lambda>expression. expression \<in> set allowed
       \<or> (\<not> list_ex (\<lambda>ch. ch \<in> set ''*?['') expression
          \<and> list_ex (\<lambda>pattern. fnmatchcase class_matches pattern expression) allowed)) mutable"

text \<open>
  \<^verbatim>\<open>str.upper\<close> on the code points whose upper case is below 256 and one character; the three
  others (sharp s, micro sign, y with diaeresis) occur in none of the compared constants.
\<close>

definition upper_char :: "char \<Rightarrow> char" where
  "upper_char c = (let n = (of_char c :: nat) in
     if (97 \<le> n \<and> n \<le> 122) \<or> (224 \<le> n \<and> n \<le> 254 \<and> n \<noteq> 247) then char_of (n - 32) else c)"

definition hex_char :: "char \<Rightarrow> bool" where
  "hex_char c = (let n = (of_char c :: nat) in
     (48 \<le> n \<and> n \<le> 57) \<or> (65 \<le> n \<and> n \<le> 70) \<or> (97 \<le> n \<and> n \<le> 102))"

definition HEAD_RE :: "string \<Rightarrow> bool" where
  "HEAD_RE h = (7 \<le> length h \<and> length h \<le> 64 \<and> list_all hex_char h)"

definition lease_head :: "string \<Rightarrow> string \<Rightarrow> exn + string" where
  "lease_head v field = res_bind (lease_text 64 v field) (\<lambda>h.
     if HEAD_RE h then Inr (map lower_char h) else Inl (ValueErr field))"

definition DIRTY_STATES :: "string list" where
  "DIRTY_STATES = [''CLEAN'', ''DIRTY'', ''UNKNOWN'']"

definition lease_dirty :: "string \<Rightarrow> exn + string" where
  "lease_dirty v = res_bind (lease_text 16 v ''dirty_state'') (\<lambda>d.
     let d = map upper_char d in if d \<in> set DIRTY_STATES then Inr d else Inl (ValueErr ''dirty_state''))"

section \<open>Time\<close>

record time_lib =
  tl_render :: "int \<Rightarrow> string"
  tl_parse :: "string \<Rightarrow> int option"

datatype time_arg = Instant int | NaiveDatetime | TimeText string

definition timestamp :: "time_lib \<Rightarrow> time_arg \<Rightarrow> string \<Rightarrow> exn + string" where
  "timestamp T v field = (case v of
     Instant t \<Rightarrow> Inr (tl_render T t)
   | NaiveDatetime \<Rightarrow> Inl (ValueErr field)
   | TimeText s \<Rightarrow> lease_text 64 s field)"

definition timestamp_datetime :: "time_lib \<Rightarrow> time_arg \<Rightarrow> string \<Rightarrow> exn + int" where
  "timestamp_datetime T v field = res_bind (timestamp T v field) (\<lambda>text.
     case tl_parse T text of None \<Rightarrow> Inl (ValueErr field) | Some t \<Rightarrow> Inr t)"

definition timestamp_add_seconds :: "time_lib \<Rightarrow> time_arg \<Rightarrow> int \<Rightarrow> string \<Rightarrow> exn + string" where
  "timestamp_add_seconds T v seconds field = res_bind (timestamp_datetime T v field) (\<lambda>t.
     timestamp T (Instant (t + seconds * 1000000)) field)"

definition timestamp_compare :: "time_lib \<Rightarrow> string \<Rightarrow> string \<Rightarrow> exn + int" where
  "timestamp_compare T left right =
     res_bind (timestamp_datetime T (TimeText left) ''timestamp'') (\<lambda>a.
     res_bind (timestamp_datetime T (TimeText right) ''timestamp'') (\<lambda>b.
       Inr (if a > b then 1 else if a < b then -1 else 0)))"

section \<open>Candidates, requests and leases\<close>

datatype LeaseMutationIntent = LM_READ_ONLY | LM_MUTATION

record WorkerLeaseCandidate =
  wc_worker_id :: string
  wc_state :: string
  wc_reserved :: bool
  wc_active_task :: bool
  wc_capabilities :: "string list"
  wc_runtime_id :: "string option"
  wc_project_id :: "string option"
  wc_worktree :: "string option"
  wc_branch :: "string option"
  wc_head :: "string option"
  wc_health_fresh :: bool
  wc_ownership_known :: bool
  wc_dirty_state :: string
  wc_mutation_authorized :: bool
  wc_occupied_mutable_scopes :: "string list list"

definition WorkerLeaseCandidate_post_init :: "WorkerLeaseCandidate \<Rightarrow> exn + WorkerLeaseCandidate" where
  "WorkerLeaseCandidate_post_init c =
     res_bind (lease_text 128 (wc_worker_id c) ''worker_id'') (\<lambda>worker_id.
     res_bind (lease_text 32 (wc_state c) ''state'') (\<lambda>state.
     res_bind (lease_scope (wc_capabilities c) ''capabilities'') (\<lambda>capabilities.
     res_bind (lease_optional_text (wc_runtime_id c) ''runtime_id'') (\<lambda>runtime_id.
     res_bind (lease_optional_text (wc_project_id c) ''project_id'') (\<lambda>project_id.
     res_bind (lease_optional_text (wc_worktree c) ''worktree'') (\<lambda>worktree.
     res_bind (lease_optional_text (wc_branch c) ''branch'') (\<lambda>branch.
     res_bind (lease_optional_text (wc_head c) ''head'') (\<lambda>head.
     res_bind (lease_dirty (wc_dirty_state c)) (\<lambda>dirty.
     res_bind (lease_scopes (wc_occupied_mutable_scopes c) ''occupied_mutable_scopes'') (\<lambda>scopes.
     Inr (c\<lparr>wc_worker_id := worker_id, wc_state := map upper_char state, wc_capabilities := capabilities,
            wc_runtime_id := runtime_id, wc_project_id := project_id, wc_worktree := worktree,
            wc_branch := branch, wc_head := head, wc_dirty_state := dirty,
            wc_occupied_mutable_scopes := scopes\<rparr>)))))))))))"

record WorkerLeaseRequest =
  wq_session_id :: string
  wq_task_id :: string
  wq_project_id :: string
  wq_ordered_worker_ids :: "string list"
  wq_required_capabilities :: "string list"
  wq_required_runtime_id :: "string option"
  wq_worktree :: string
  wq_branch :: string
  wq_expected_head :: string
  wq_mutation_intent :: LeaseMutationIntent
  wq_allowed_scope :: "string list"
  wq_forbidden_scope :: "string list"
  wq_mutable_scope :: "string list"
  wq_rdc_fallback_eligible :: bool
  wq_lease_ttl_seconds :: int

definition check_request_scopes ::
  "LeaseMutationIntent \<Rightarrow> int \<Rightarrow> string list \<Rightarrow> string list \<Rightarrow> string list \<Rightarrow> exn + unit" where
  "check_request_scopes intent ttl allowed forbidden mutable =
     (if ttl < 1 \<or> ttl > 86400 then Inl (ValueErr ''lease_ttl_seconds must be between 1 and 86400'')
      else if intent = LM_READ_ONLY \<and> mutable \<noteq> [] then Inl (ValueErr ''read-only lease cannot request mutable_scope'')
      else if intent = LM_MUTATION \<and> mutable = [] then Inl (ValueErr ''mutation lease requires mutable_scope'')
      else if intent = LM_MUTATION \<and> \<not> mutable_scope_is_authorized allowed mutable
      then Inl (ValueErr ''mutable_scope escapes allowed_scope'')
      else if mutable \<noteq> [] \<and> forbidden \<noteq> [] \<and> write_sets_overlap mutable forbidden
      then Inl (ValueErr ''mutable_scope overlaps forbidden_scope'') else Inr ())"

definition WorkerLeaseRequest_post_init :: "WorkerLeaseRequest \<Rightarrow> exn + WorkerLeaseRequest" where
  "WorkerLeaseRequest_post_init q =
     res_bind (lease_text 128 (wq_session_id q) ''session_id'') (\<lambda>session.
     res_bind (lease_text 256 (wq_task_id q) ''task_id'') (\<lambda>task.
     res_bind (lease_text 128 (wq_project_id q) ''project_id'') (\<lambda>project.
     res_bind (lease_scope (wq_ordered_worker_ids q) ''ordered_worker_ids'') (\<lambda>workers.
     if workers = [] then Inl (ValueErr ''ordered_worker_ids must not be empty'') else
     res_bind (lease_scope (wq_required_capabilities q) ''required_capabilities'') (\<lambda>capabilities.
     res_bind (lease_optional_text (wq_required_runtime_id q) ''required_runtime_id'') (\<lambda>runtime.
     res_bind (lease_text 512 (wq_worktree q) ''worktree'') (\<lambda>worktree.
     res_bind (lease_text 256 (wq_branch q) ''branch'') (\<lambda>branch.
     res_bind (lease_head (wq_expected_head q) ''expected_head'') (\<lambda>head.
     res_bind (lease_scope (wq_allowed_scope q) ''allowed_scope'') (\<lambda>allowed.
     res_bind (lease_scope (wq_forbidden_scope q) ''forbidden_scope'') (\<lambda>forbidden.
     res_bind (lease_scope (wq_mutable_scope q) ''mutable_scope'') (\<lambda>mutable.
     res_bind (check_request_scopes (wq_mutation_intent q) (wq_lease_ttl_seconds q) allowed forbidden mutable) (\<lambda>_.
     Inr (q\<lparr>wq_session_id := session, wq_task_id := task, wq_project_id := project,
            wq_ordered_worker_ids := workers, wq_required_capabilities := capabilities,
            wq_required_runtime_id := runtime, wq_worktree := worktree, wq_branch := branch,
            wq_expected_head := head, wq_allowed_scope := allowed, wq_forbidden_scope := forbidden,
            wq_mutable_scope := mutable\<rparr>))))))))))))))"

record WorkerLease =
  wl_lease_id :: string
  wl_worker_id :: string
  wl_session_id :: string
  wl_task_id :: string
  wl_project_id :: string
  wl_runtime_id :: "string option"
  wl_worktree_key :: string
  wl_branch :: string
  wl_expected_head :: string
  wl_required_capabilities :: "string list"
  wl_allowed_scope :: "string list"
  wl_forbidden_scope :: "string list"
  wl_mutable_scope :: "string list"
  wl_mutation_intent :: LeaseMutationIntent
  wl_acquired_at :: string
  wl_heartbeat_at :: string
  wl_lease_ttl_seconds :: int
  wl_expires_at :: "string option"
  wl_released_at :: "string option"
  wl_quarantined_at :: "string option"
  wl_quarantine_code :: "string option"
  wl_recovery_classification :: "RecoveryClassification option"
  wl_recovery_evidence_ref :: "string option"
  wl_reconciled_at :: "string option"
  wl_hotspot_key :: "string option"

definition request_matches_lease :: "WorkerLeaseRequest \<Rightarrow> WorkerLease \<Rightarrow> string option \<Rightarrow> exn + bool" where
  "request_matches_lease q l hotspot =
     (if wl_worker_id l \<notin> set (wq_ordered_worker_ids q) \<or> wl_project_id l \<noteq> wq_project_id q then Inr False
      else res_bind (windows_worktree_key (wq_worktree q)) (\<lambda>key. Inr (
        wl_worktree_key l = key
        \<and> wl_branch l = wq_branch q
        \<and> map lower_char (wl_expected_head l) = map lower_char (wq_expected_head q)
        \<and> wl_mutation_intent l = wq_mutation_intent q
        \<and> set (wl_required_capabilities l) = set (wq_required_capabilities q)
        \<and> set (wl_allowed_scope l) = set (wq_allowed_scope q)
        \<and> set (wl_forbidden_scope l) = set (wq_forbidden_scope q)
        \<and> set (wl_mutable_scope l) = set (wq_mutable_scope q)
        \<and> wl_lease_ttl_seconds l = wq_lease_ttl_seconds q
        \<and> (wq_required_runtime_id q = None \<or> wl_runtime_id l = wq_required_runtime_id q)
        \<and> (hotspot = None \<or> wl_hotspot_key l = None \<or> wl_hotspot_key l = hotspot))))"

definition require_matching_request :: "WorkerLeaseRequest \<Rightarrow> WorkerLease \<Rightarrow> string option \<Rightarrow> exn + WorkerLease" where
  "require_matching_request q l hotspot =
     res_bind (request_matches_lease q l hotspot) (\<lambda>ok.
       if ok then Inr l else Inl (WorkerLeaseErr ''LEASE_REQUEST_CONFLICT''))"

section \<open>Health and recovery\<close>

datatype LeaseHealthKind = LH_ACTIVE | LH_STALE | LH_QUARANTINED | LH_RELEASED | LH_EXPIRY_UNKNOWN

definition lease_health_kind :: "time_lib \<Rightarrow> WorkerLease \<Rightarrow> string \<Rightarrow> exn + LeaseHealthKind" where
  "lease_health_kind T l now =
     (if wl_released_at l \<noteq> None then Inr LH_RELEASED
      else if wl_quarantine_code l \<noteq> None then Inr LH_QUARANTINED
      else case wl_expires_at l of
        None \<Rightarrow> Inr LH_EXPIRY_UNKNOWN
      | Some expiry \<Rightarrow> res_bind (timestamp_compare T now expiry) (\<lambda>order.
          if order \<ge> 0 then Inr LH_STALE else Inr LH_ACTIVE))"

record WorkerLeaseRecoveryObservation =
  wo_worker_id :: string
  wo_worktree :: string
  wo_branch :: string
  wo_head :: string
  wo_dirty_state :: string
  wo_ownership_known :: bool
  wo_runtime_running :: "bool option"
  wo_recovery_classification :: RecoveryClassification
  wo_evidence_ref :: string
  wo_observed_at :: string

definition WorkerLeaseRecoveryObservation_new ::
  "time_lib \<Rightarrow> time_arg \<Rightarrow> WorkerLeaseRecoveryObservation \<Rightarrow> exn + WorkerLeaseRecoveryObservation" where
  "WorkerLeaseRecoveryObservation_new T observed_at v =
     res_bind (lease_text 128 (wo_worker_id v) ''worker_id'') (\<lambda>worker.
     res_bind (lease_text 512 (wo_worktree v) ''worktree'') (\<lambda>worktree.
     res_bind (lease_text 256 (wo_branch v) ''branch'') (\<lambda>branch.
     res_bind (lease_head (wo_head v) ''head'') (\<lambda>head.
     res_bind (lease_dirty (wo_dirty_state v)) (\<lambda>dirty.
     res_bind (lease_text 512 (wo_evidence_ref v) ''evidence_ref'') (\<lambda>evidence.
     res_bind (timestamp T observed_at ''observed_at'') (\<lambda>observed.
     Inr (v\<lparr>wo_worker_id := worker, wo_worktree := worktree, wo_branch := branch, wo_head := head,
            wo_dirty_state := dirty, wo_evidence_ref := evidence, wo_observed_at := observed\<rparr>))))))))"

definition reconciliation_quarantine_reason :: "WorkerLease \<Rightarrow> WorkerLeaseRecoveryObservation \<Rightarrow> string option" where
  "reconciliation_quarantine_reason l v =
     (if wo_worker_id v \<noteq> wl_worker_id l then Some ''WORKER_MISMATCH''
      else if \<not> wo_ownership_known v then Some ''OWNERSHIP_UNKNOWN''
      else if windows_worktree_key (wo_worktree v) \<noteq> Inr (wl_worktree_key l) then Some ''WORKTREE_MISMATCH''
      else if wo_branch v \<noteq> wl_branch l then Some ''BRANCH_MISMATCH''
      else if wo_runtime_running v = None then Some ''RUNTIME_STATE_UNKNOWN''
      else if wo_runtime_running v = Some True then Some ''RUNTIME_STILL_RUNNING''
      else if wo_dirty_state v = ''UNKNOWN'' then Some ''WORKTREE_DIRTY_UNKNOWN''
      else if wo_dirty_state v \<noteq> ''CLEAN'' then Some ''WORKTREE_DIRTY''
      else case wo_recovery_classification v of
        UNKNOWN \<Rightarrow> Some ''RECOVERY_UNKNOWN''
      | PARTIAL_MUTATION \<Rightarrow> Some ''PARTIAL_MUTATION''
      | MUTATION_COMPLETE_UNVERIFIED \<Rightarrow> Some ''MUTATION_COMPLETE_UNVERIFIED''
      | UNEXPECTED_DRIFT \<Rightarrow> Some ''UNEXPECTED_DRIFT''
      | NO_MUTATION \<Rightarrow> if map lower_char (wo_head v) \<noteq> map lower_char (wl_expected_head l)
                       then Some ''HEAD_MISMATCH'' else None
      | COMPLETE_VERIFIED \<Rightarrow> None)"

section \<open>Preflight\<close>

datatype CandidateRejectionKind =
    CANDIDATE_MISSING | ACTIVE_TASK | WORKER_NOT_READY | WORKER_RESERVED | CAPABILITY_MISMATCH
  | RUNTIME_MISMATCH | PROJECT_MISMATCH | WORKTREE_MISMATCH | BRANCH_MISMATCH | HEAD_MISMATCH
  | HEALTH_STALE | OWNERSHIP_UNKNOWN | DIRTY_UNKNOWN | DIRTY_WORKTREE | MUTATION_UNAUTHORIZED
  | MUTABLE_SCOPE_OVERLAP | LEASE_BUSY

definition same_worktree :: "string option \<Rightarrow> string \<Rightarrow> bool" where
  "same_worktree a b = (case a of None \<Rightarrow> False | Some p \<Rightarrow>
     (case (windows_worktree_key p, windows_worktree_key b) of (Inr x, Inr y) \<Rightarrow> x = y | _ \<Rightarrow> False))"

definition preflight :: "WorkerLeaseRequest \<Rightarrow> WorkerLeaseCandidate \<Rightarrow> CandidateRejectionKind option" where
  "preflight q c =
     (if wc_active_task c then Some ACTIVE_TASK
      else if wc_state c \<noteq> ''READY'' then Some WORKER_NOT_READY
      else if wc_reserved c then Some WORKER_RESERVED
      else if \<not> list_all (\<lambda>x. x \<in> set (wc_capabilities c)) (wq_required_capabilities q) then Some CAPABILITY_MISMATCH
      else if wq_required_runtime_id q \<noteq> None \<and> wc_runtime_id c \<noteq> wq_required_runtime_id q then Some RUNTIME_MISMATCH
      else if wc_project_id c \<noteq> Some (wq_project_id q) then Some PROJECT_MISMATCH
      else if \<not> same_worktree (wc_worktree c) (wq_worktree q) then Some WORKTREE_MISMATCH
      else if wc_branch c \<noteq> Some (wq_branch q) then Some BRANCH_MISMATCH
      else if map_option (map lower_char) (wc_head c) \<noteq> Some (map lower_char (wq_expected_head q)) then Some HEAD_MISMATCH
      else if \<not> wc_health_fresh c then Some HEALTH_STALE
      else if \<not> wc_ownership_known c then Some OWNERSHIP_UNKNOWN
      else if wc_dirty_state c = ''UNKNOWN'' then Some DIRTY_UNKNOWN
      else if wq_mutation_intent q = LM_MUTATION then
        (if wc_dirty_state c \<noteq> ''CLEAN'' then Some DIRTY_WORKTREE
         else if \<not> wc_mutation_authorized c then Some MUTATION_UNAUTHORIZED
         else if list_ex (\<lambda>occupied. write_sets_overlap (wq_mutable_scope q) occupied) (wc_occupied_mutable_scopes c)
         then Some MUTABLE_SCOPE_OVERLAP else None)
      else None)"

end
