(* ===== verification/Lease_Store.thy ===== *)
theory Lease_Store
  imports Worker_Lease
begin

text \<open>
  The SQLite worker-lease store, \<^verbatim>\<open>SQLiteWorkerLeaseStore\<close> of
  \<^verbatim>\<open>src/src/a_conductor/worker_lease.py\<close>. The database is the rows of its two tables after
  \<^verbatim>\<open>initialize\<close>; a JSON column holds the list of strings its text denotes, \<^const>\<open>None\<close> when the
  text denotes no such list. A method that raises leaves the database it started from (the
  transaction is rolled back). The hotspot resolver is a parameter; \<^const>\<open>None\<close> is a raise.
\<close>

section \<open>Rows\<close>

type_synonym json_list = "string list option"

record LeaseRow =
  lr_lease_id :: string
  lr_worker_id :: string
  lr_session_id :: string
  lr_task_id :: string
  lr_project_id :: string
  lr_runtime_id :: "string option"
  lr_worktree_key :: string
  lr_branch :: string
  lr_expected_head :: string
  lr_required_capabilities_json :: json_list
  lr_allowed_scope_json :: json_list
  lr_forbidden_scope_json :: json_list
  lr_mutable_scope_json :: json_list
  lr_mutation_intent :: string
  lr_acquired_at :: string
  lr_heartbeat_at :: string
  lr_lease_ttl_seconds :: int
  lr_expires_at :: "string option"
  lr_released_at :: "string option"
  lr_quarantined_at :: "string option"
  lr_quarantine_code :: "string option"
  lr_recovery_classification :: "string option"
  lr_recovery_evidence_ref :: "string option"
  lr_reconciled_at :: "string option"
  lr_hotspot_key :: "string option"

record ReservationRow =
  rr_reservation_id :: string
  rr_session_id :: string
  rr_task_id :: string
  rr_runtime_kind :: string
  rr_state :: string
  rr_worker_id :: "string option"
  rr_acquired_at :: string
  rr_updated_at :: string
  rr_project_id :: "string option"
  rr_worktree_key :: "string option"
  rr_mutable_scope_json :: json_list

record LeaseDb =
  ld_leases :: "LeaseRow list"
  ld_reservations :: "ReservationRow list"

definition empty_leases :: LeaseDb where
  "empty_leases = \<lparr>ld_leases = [], ld_reservations = []\<rparr>"

fun intent_value :: "LeaseMutationIntent \<Rightarrow> string" where
  "intent_value LM_READ_ONLY = ''READ_ONLY''"
| "intent_value LM_MUTATION = ''MUTATION''"

definition intent_of :: "string \<Rightarrow> exn + LeaseMutationIntent" where
  "intent_of v = (if v = ''READ_ONLY'' then Inr LM_READ_ONLY else if v = ''MUTATION'' then Inr LM_MUTATION
     else Inl (WorkerLeaseErr ''LEASE_DATA_INVALID''))"

definition decode_scope :: "json_list \<Rightarrow> exn + string list" where
  "decode_scope raw = (case raw of None \<Rightarrow> Inl (WorkerLeaseErr ''LEASE_DATA_INVALID'') | Some v \<Rightarrow> Inr v)"

definition lease_recovery_of :: "string option \<Rightarrow> exn + RecoveryClassification option" where
  "lease_recovery_of raw = (case raw of None \<Rightarrow> Inr None
     | Some v \<Rightarrow> (case recovery_of v of Inl _ \<Rightarrow> Inl (WorkerLeaseErr ''LEASE_DATA_INVALID'') | Inr c \<Rightarrow> Inr (Some c)))"

definition lease_from_row :: "LeaseRow \<Rightarrow> exn + WorkerLease" where
  "lease_from_row r =
     res_bind (intent_of (lr_mutation_intent r)) (\<lambda>intent.
     res_bind (lease_recovery_of (lr_recovery_classification r)) (\<lambda>recovery.
     res_bind (decode_scope (lr_required_capabilities_json r)) (\<lambda>caps.
     res_bind (decode_scope (lr_allowed_scope_json r)) (\<lambda>allowed.
     res_bind (decode_scope (lr_forbidden_scope_json r)) (\<lambda>forbidden.
     res_bind (decode_scope (lr_mutable_scope_json r)) (\<lambda>mutable.
     Inr \<lparr>wl_lease_id = lr_lease_id r, wl_worker_id = lr_worker_id r, wl_session_id = lr_session_id r,
          wl_task_id = lr_task_id r, wl_project_id = lr_project_id r, wl_runtime_id = lr_runtime_id r,
          wl_worktree_key = lr_worktree_key r, wl_branch = lr_branch r, wl_expected_head = lr_expected_head r,
          wl_required_capabilities = caps, wl_allowed_scope = allowed, wl_forbidden_scope = forbidden,
          wl_mutable_scope = mutable, wl_mutation_intent = intent, wl_acquired_at = lr_acquired_at r,
          wl_heartbeat_at = lr_heartbeat_at r, wl_lease_ttl_seconds = lr_lease_ttl_seconds r,
          wl_expires_at = lr_expires_at r, wl_released_at = lr_released_at r,
          wl_quarantined_at = lr_quarantined_at r, wl_quarantine_code = lr_quarantine_code r,
          wl_recovery_classification = recovery, wl_recovery_evidence_ref = lr_recovery_evidence_ref r,
          wl_reconciled_at = lr_reconciled_at r, wl_hotspot_key = lr_hotspot_key r\<rparr>))))))"

text \<open>The values of the INSERT statement.\<close>

definition lease_row :: "WorkerLease \<Rightarrow> LeaseRow" where
  "lease_row l =
     \<lparr>lr_lease_id = wl_lease_id l, lr_worker_id = wl_worker_id l, lr_session_id = wl_session_id l,
      lr_task_id = wl_task_id l, lr_project_id = wl_project_id l, lr_runtime_id = wl_runtime_id l,
      lr_worktree_key = wl_worktree_key l, lr_branch = wl_branch l, lr_expected_head = wl_expected_head l,
      lr_required_capabilities_json = Some (wl_required_capabilities l),
      lr_allowed_scope_json = Some (wl_allowed_scope l), lr_forbidden_scope_json = Some (wl_forbidden_scope l),
      lr_mutable_scope_json = Some (wl_mutable_scope l), lr_mutation_intent = intent_value (wl_mutation_intent l),
      lr_acquired_at = wl_acquired_at l, lr_heartbeat_at = wl_heartbeat_at l,
      lr_lease_ttl_seconds = wl_lease_ttl_seconds l, lr_expires_at = wl_expires_at l,
      lr_released_at = wl_released_at l, lr_quarantined_at = wl_quarantined_at l,
      lr_quarantine_code = wl_quarantine_code l,
      lr_recovery_classification = map_option recovery_value (wl_recovery_classification l),
      lr_recovery_evidence_ref = wl_recovery_evidence_ref l, lr_reconciled_at = wl_reconciled_at l,
      lr_hotspot_key = wl_hotspot_key l\<rparr>"

definition active_row :: "LeaseRow \<Rightarrow> bool" where
  "active_row r \<longleftrightarrow> lr_released_at r = None"

definition owner_row :: "string \<Rightarrow> string \<Rightarrow> LeaseDb \<Rightarrow> LeaseRow option" where
  "owner_row session task db =
     fetchone (\<lambda>r. lr_session_id r = session \<and> lr_task_id r = task \<and> active_row r) (ld_leases db)"

definition worker_row :: "string \<Rightarrow> LeaseDb \<Rightarrow> LeaseRow option" where
  "worker_row worker db = fetchone (\<lambda>r. lr_worker_id r = worker \<and> active_row r) (ld_leases db)"

definition lease_id_row :: "string \<Rightarrow> LeaseDb \<Rightarrow> LeaseRow option" where
  "lease_id_row i db = fetchone (\<lambda>r. lr_lease_id r = i) (ld_leases db)"

definition reservation_row :: "string \<Rightarrow> LeaseDb \<Rightarrow> ReservationRow option" where
  "reservation_row i db = fetchone (\<lambda>r. rr_reservation_id r = i) (ld_reservations db)"

section \<open>Leases\<close>

definition resolve_mutation_hotspot :: "(string \<Rightarrow> string option) \<Rightarrow> string \<Rightarrow> exn + string" where
  "resolve_mutation_hotspot resolver worktree =
     (case resolver worktree of
        None \<Rightarrow> Inl (WorkerLeaseErr ''HOTSPOT_IDENTITY_FAILED'')
      | Some h \<Rightarrow> (case lease_text 128 h ''hotspot_key'' of
          Inl _ \<Rightarrow> Inl (WorkerLeaseErr ''HOTSPOT_IDENTITY_FAILED'') | Inr k \<Rightarrow> Inr k))"

datatype HotspotFenceKind = LOCAL_FENCE_ENFORCED | LOCAL_FENCE_RECONCILIATION_REQUIRED

definition active_mutation_rows :: "LeaseDb \<Rightarrow> LeaseRow list" where
  "active_mutation_rows db = filter (\<lambda>r. active_row r \<and> lr_mutation_intent r = ''MUTATION'') (ld_leases db)"

definition hotspot_fence_status :: "LeaseDb \<Rightarrow> HotspotFenceKind \<times> nat \<times> nat" where
  "hotspot_fence_status db =
     (let missing = length (filter (\<lambda>r. lr_hotspot_key r = None) (active_mutation_rows db)) in
      (if missing = 0 then LOCAL_FENCE_ENFORCED else LOCAL_FENCE_RECONCILIATION_REQUIRED,
       length (active_mutation_rows db), missing))"

definition find_active_owner_task :: "string \<Rightarrow> string \<Rightarrow> LeaseDb \<Rightarrow> exn + WorkerLease option" where
  "find_active_owner_task session task db =
     res_bind (lease_text 128 session ''session_id'') (\<lambda>session.
     res_bind (lease_text 256 task ''task_id'') (\<lambda>task.
     case owner_row session task db of None \<Rightarrow> Inr None
     | Some r \<Rightarrow> res_bind (lease_from_row r) (\<lambda>l. Inr (Some l))))"

definition new_lease ::
  "WorkerLeaseRequest \<Rightarrow> WorkerLeaseCandidate \<Rightarrow> string \<Rightarrow> string \<Rightarrow> string \<Rightarrow> string option \<Rightarrow> exn + WorkerLease" where
  "new_lease q c lease_id acquired expiry hotspot =
     res_bind (windows_worktree_key (wq_worktree q)) (\<lambda>key.
     Inr \<lparr>wl_lease_id = lease_id, wl_worker_id = wc_worker_id c, wl_session_id = wq_session_id q,
          wl_task_id = wq_task_id q, wl_project_id = wq_project_id q, wl_runtime_id = wc_runtime_id c,
          wl_worktree_key = key, wl_branch = wq_branch q, wl_expected_head = wq_expected_head q,
          wl_required_capabilities = wq_required_capabilities q, wl_allowed_scope = wq_allowed_scope q,
          wl_forbidden_scope = wq_forbidden_scope q, wl_mutable_scope = wq_mutable_scope q,
          wl_mutation_intent = wq_mutation_intent q, wl_acquired_at = acquired, wl_heartbeat_at = acquired,
          wl_lease_ttl_seconds = wq_lease_ttl_seconds q, wl_expires_at = Some expiry, wl_released_at = None,
          wl_quarantined_at = None, wl_quarantine_code = None, wl_recovery_classification = None,
          wl_recovery_evidence_ref = None, wl_reconciled_at = None, wl_hotspot_key = hotspot\<rparr>)"

text \<open>The admission of a mutation: no active mutation without a hotspot, no overlap at this hotspot.\<close>

fun scopes_clash :: "string list \<Rightarrow> LeaseRow list \<Rightarrow> exn + unit" where
  "scopes_clash scope [] = Inr ()"
| "scopes_clash scope (r # rs) = res_bind (decode_scope (lr_mutable_scope_json r)) (\<lambda>other.
     if write_sets_overlap scope other then Inl (WorkerLeaseErr ''MUTABLE_SCOPE_OVERLAP'')
     else scopes_clash scope rs)"

definition admit_mutation :: "WorkerLease \<Rightarrow> LeaseDb \<Rightarrow> exn + unit" where
  "admit_mutation l db =
     (if wl_mutation_intent l \<noteq> LM_MUTATION then Inr ()
      else if list_ex (\<lambda>r. lr_hotspot_key r = None) (active_mutation_rows db)
      then Inl (WorkerLeaseErr ''HOTSPOT_RECONCILIATION_REQUIRED'')
      else scopes_clash (wl_mutable_scope l)
             (filter (\<lambda>r. lr_hotspot_key r = wl_hotspot_key l) (active_mutation_rows db)))"

definition handoff_fenced :: "WorkerLease \<Rightarrow> LeaseDb \<Rightarrow> bool" where
  "handoff_fenced l db =
     (case fetchone (\<lambda>r. rr_worker_id r = Some (wl_worker_id l) \<and> rr_state r \<in> {''PROVISIONED'', ''RECOVERY_REQUIRED''})
             (ld_reservations db) of
        None \<Rightarrow> False
      | Some r \<Rightarrow> rr_state r \<noteq> ''PROVISIONED'' \<or> rr_session_id r \<noteq> wl_session_id l \<or> rr_task_id r \<noteq> wl_task_id l)"

definition insert_lease :: "WorkerLease \<Rightarrow> (LeaseDb, WorkerLease option \<times> bool) action" where
  "insert_lease l db =
     (if lease_id_row (wl_lease_id l) db \<noteq> None \<or> worker_row (wl_worker_id l) db \<noteq> None
         \<or> owner_row (wl_session_id l) (wl_task_id l) db \<noteq> None
      then (if worker_row (wl_worker_id l) db \<noteq> None then (Inr (None, False), db)
            else (Inl (WorkerLeaseErr ''LEASE_ID_CONFLICT''), db))
      else (Inr (Some l, True), db\<lparr>ld_leases := ld_leases db @ [lease_row l]\<rparr>))"

definition acquire_lease :: "WorkerLeaseRequest \<Rightarrow> WorkerLease \<Rightarrow> (LeaseDb, WorkerLease option \<times> bool) action" where
  "acquire_lease q l db =
     (case owner_row (wl_session_id l) (wl_task_id l) db of
        Some r \<Rightarrow> (res_bind (lease_from_row r) (\<lambda>old.
                    res_bind (require_matching_request q old (wl_hotspot_key l)) (\<lambda>old. Inr (Some old, False))), db)
      | None \<Rightarrow>
          if worker_row (wl_worker_id l) db \<noteq> None then (Inr (None, False), db)
          else if handoff_fenced l db then (Inr (None, False), db)
          else case admit_mutation l db of
            Inl e \<Rightarrow> (Inl e, db)
          | Inr _ \<Rightarrow> insert_lease l db)"

definition try_acquire_result ::
  "time_lib \<Rightarrow> (string \<Rightarrow> string option) \<Rightarrow> WorkerLeaseRequest \<Rightarrow> WorkerLeaseCandidate \<Rightarrow> string \<Rightarrow> time_arg
     \<Rightarrow> string option \<Rightarrow> (LeaseDb, WorkerLease option \<times> bool) action" where
  "try_acquire_result T resolver q c lease_id acquired_at expires_at =
     andthen (lift_res (
       res_bind (lease_text 128 lease_id ''lease_id'') (\<lambda>lease_id.
       res_bind (timestamp T acquired_at ''acquired_at'') (\<lambda>acquired.
       res_bind (lease_optional_text expires_at ''expires_at'') (\<lambda>expiry.
       res_bind (case expiry of
           None \<Rightarrow> timestamp_add_seconds T (TimeText acquired) (wq_lease_ttl_seconds q) ''expires_at''
         | Some e \<Rightarrow> res_bind (timestamp_datetime T (TimeText e) ''expires_at'') (\<lambda>_. Inr e)) (\<lambda>expiry.
       res_bind (if wq_mutation_intent q = LM_MUTATION
                 then res_bind (resolve_mutation_hotspot resolver (wq_worktree q)) (\<lambda>h. Inr (Some h))
                 else Inr None) (\<lambda>hotspot.
       new_lease q c lease_id acquired expiry hotspot))))))) (acquire_lease q)"

definition try_acquire ::
  "time_lib \<Rightarrow> (string \<Rightarrow> string option) \<Rightarrow> WorkerLeaseRequest \<Rightarrow> WorkerLeaseCandidate \<Rightarrow> string \<Rightarrow> time_arg
     \<Rightarrow> string option \<Rightarrow> (LeaseDb, WorkerLease option) action" where
  "try_acquire T resolver q c lease_id acquired_at expires_at =
     andthen (try_acquire_result T resolver q c lease_id acquired_at expires_at) (\<lambda>(l, _). ret l)"

definition inspect_health :: "time_lib \<Rightarrow> string \<Rightarrow> time_arg \<Rightarrow> LeaseDb \<Rightarrow> exn + (LeaseHealthKind \<times> WorkerLease)" where
  "inspect_health T lease_id now db =
     res_bind (lease_text 128 lease_id ''lease_id'') (\<lambda>lease_id.
     res_bind (timestamp T now ''now'') (\<lambda>now.
     case lease_id_row lease_id db of
       None \<Rightarrow> Inl (WorkerLeaseErr ''LEASE_NOT_FOUND'')
     | Some r \<Rightarrow> res_bind (lease_from_row r) (\<lambda>l. res_bind (lease_health_kind T l now) (\<lambda>k. Inr (k, l)))))"

text \<open>\<^verbatim>\<open>UPDATE worker_leases SET ... WHERE lease_id = ? AND released_at IS NULL\<close>.\<close>

definition update_active :: "string \<Rightarrow> (LeaseRow \<Rightarrow> LeaseRow) \<Rightarrow> LeaseDb \<Rightarrow> LeaseDb" where
  "update_active i f db =
     db\<lparr>ld_leases := map (\<lambda>r. if lr_lease_id r = i \<and> active_row r then f r else r) (ld_leases db)\<rparr>"

definition owned_lease :: "string \<Rightarrow> string \<Rightarrow> string \<Rightarrow> LeaseDb \<Rightarrow> exn + WorkerLease" where
  "owned_lease i session task db =
     (case lease_id_row i db of
        None \<Rightarrow> Inl (WorkerLeaseErr ''LEASE_NOT_FOUND'')
      | Some r \<Rightarrow> res_bind (lease_from_row r) (\<lambda>l.
          if wl_session_id l \<noteq> session \<or> wl_task_id l \<noteq> task
          then Inl (WorkerLeaseErr ''LEASE_OWNER_MISMATCH'') else Inr l))"

definition lease_args :: "string \<Rightarrow> string \<Rightarrow> string \<Rightarrow> exn + string \<times> string \<times> string" where
  "lease_args i session task =
     res_bind (lease_text 128 i ''lease_id'') (\<lambda>i.
     res_bind (lease_text 128 session ''session_id'') (\<lambda>session.
     res_bind (lease_text 256 task ''task_id'') (\<lambda>task. Inr (i, session, task))))"

text \<open>The checks of a heartbeat: the lease alone when the beat is a repetition, else the new expiry.\<close>

definition heartbeat_expiry :: "time_lib \<Rightarrow> WorkerLease \<Rightarrow> string \<Rightarrow> exn + string option" where
  "heartbeat_expiry T l beat =
     (if wl_released_at l \<noteq> None then Inl (WorkerLeaseErr ''LEASE_RELEASED'')
      else if wl_quarantine_code l \<noteq> None then Inl (WorkerLeaseErr ''LEASE_QUARANTINED'')
      else case wl_expires_at l of
        None \<Rightarrow> Inl (WorkerLeaseErr ''LEASE_EXPIRY_UNKNOWN'')
      | Some expiry \<Rightarrow>
          res_bind (timestamp_compare T beat (wl_heartbeat_at l)) (\<lambda>order.
          if order < 0 then Inl (WorkerLeaseErr ''LEASE_HEARTBEAT_STALE'')
          else if order = 0 then Inr None
          else res_bind (timestamp_compare T beat expiry) (\<lambda>late.
            if late \<ge> 0 then Inl (WorkerLeaseErr ''LEASE_HEARTBEAT_EXPIRED'')
            else res_bind (timestamp_add_seconds T (TimeText beat) (wl_lease_ttl_seconds l) ''expires_at'') (\<lambda>e.
              Inr (Some e)))))"

definition heartbeat :: "time_lib \<Rightarrow> string \<Rightarrow> string \<Rightarrow> string \<Rightarrow> time_arg \<Rightarrow> (LeaseDb, WorkerLease) action" where
  "heartbeat T i session task at =
     andthen (lift_res (res_bind (lease_args i session task) (\<lambda>a.
       res_bind (timestamp T at ''heartbeat_at'') (\<lambda>beat. Inr (a, beat))))) (\<lambda>((i, session, task), beat) db.
     case owned_lease i session task db of
       Inl e \<Rightarrow> (Inl e, db)
     | Inr l \<Rightarrow> (case heartbeat_expiry T l beat of
         Inl e \<Rightarrow> (Inl e, db)
       | Inr None \<Rightarrow> (Inr l, db)
       | Inr (Some expiry) \<Rightarrow>
           (let db' = update_active i (\<lambda>r. r\<lparr>lr_heartbeat_at := beat, lr_expires_at := Some expiry\<rparr>) db in
            (case lease_id_row i db' of
               None \<Rightarrow> Inl (WorkerLeaseErr ''LEASE_DATA_INVALID'') | Some r \<Rightarrow> lease_from_row r, db'))))"

fun latest_of :: "time_lib \<Rightarrow> string \<Rightarrow> string option list \<Rightarrow> exn + string" where
  "latest_of T latest [] = Inr latest"
| "latest_of T latest (None # vs) = latest_of T latest vs"
| "latest_of T latest (Some v # vs) = res_bind (timestamp_compare T v latest) (\<lambda>order.
     latest_of T (if order > 0 then v else latest) vs)"

definition reconcile_guard :: "time_lib \<Rightarrow> WorkerLease \<Rightarrow> string \<Rightarrow> exn + unit" where
  "reconcile_guard T l observed =
     (if wl_released_at l \<noteq> None then Inl (WorkerLeaseErr ''LEASE_RELEASED'')
      else res_bind (latest_of T (wl_heartbeat_at l) [wl_quarantined_at l, wl_reconciled_at l]) (\<lambda>latest.
        res_bind (timestamp_compare T observed latest) (\<lambda>order.
        if order < 0 then Inl (WorkerLeaseErr ''LEASE_OBSERVATION_STALE'')
        else res_bind (lease_health_kind T l observed) (\<lambda>health.
          if health = LH_ACTIVE then Inl (WorkerLeaseErr ''LEASE_NOT_STALE'') else Inr ()))))"

datatype LeaseReconciliationKind = LEASE_RECONCILED_RELEASED | LEASE_RECONCILED_QUARANTINED

definition coalesce :: "string option \<Rightarrow> string \<Rightarrow> string option" where
  "coalesce a b = (case a of None \<Rightarrow> Some b | Some x \<Rightarrow> Some x)"

definition reconcile_row :: "string option \<Rightarrow> string \<Rightarrow> WorkerLeaseRecoveryObservation \<Rightarrow> LeaseRow \<Rightarrow> LeaseRow" where
  "reconcile_row reason observed v r =
     (case reason of
        None \<Rightarrow> r\<lparr>lr_released_at := Some observed,
                  lr_recovery_classification := Some (recovery_value (wo_recovery_classification v)),
                  lr_recovery_evidence_ref := Some (wo_evidence_ref v), lr_reconciled_at := Some observed\<rparr>
      | Some why \<Rightarrow> r\<lparr>lr_quarantined_at := coalesce (lr_quarantined_at r) observed, lr_quarantine_code := Some why,
                  lr_recovery_classification := Some (recovery_value (wo_recovery_classification v)),
                  lr_recovery_evidence_ref := Some (wo_evidence_ref v), lr_reconciled_at := Some observed\<rparr>)"

definition reconcile_stale ::
  "time_lib \<Rightarrow> string \<Rightarrow> string \<Rightarrow> string \<Rightarrow> WorkerLeaseRecoveryObservation
     \<Rightarrow> (LeaseDb, LeaseReconciliationKind \<times> WorkerLease \<times> string) action" where
  "reconcile_stale T i session task v =
     andthen (lift_res (res_bind (lease_args i session task) (\<lambda>a.
       res_bind (timestamp T (TimeText (wo_observed_at v)) ''observed_at'') (\<lambda>o'. Inr (a, o')))))
     (\<lambda>((i, session, task), observed) db.
     case owned_lease i session task db of
       Inl e \<Rightarrow> (Inl e, db)
     | Inr l \<Rightarrow> (case reconcile_guard T l observed of
         Inl e \<Rightarrow> (Inl e, db)
       | Inr _ \<Rightarrow>
           (let reason = reconciliation_quarantine_reason l v;
                db' = update_active i (reconcile_row reason observed v) db in
            (res_bind (case lease_id_row i db' of
                 None \<Rightarrow> Inl (WorkerLeaseErr ''LEASE_DATA_INVALID'') | Some r \<Rightarrow> lease_from_row r) (\<lambda>l'.
               Inr (case reason of
                  None \<Rightarrow> (LEASE_RECONCILED_RELEASED, l', ''RECONCILED_SAFE_RELEASE'')
                | Some why \<Rightarrow> (LEASE_RECONCILED_QUARANTINED, l', why))), db'))))"

fun lease_list :: "LeaseRow list \<Rightarrow> exn + WorkerLease list" where
  "lease_list [] = Inr []"
| "lease_list (r # rs) = res_bind (lease_from_row r) (\<lambda>l. res_bind (lease_list rs) (\<lambda>ls. Inr (l # ls)))"

definition list_active :: "LeaseDb \<Rightarrow> exn + WorkerLease list" where
  "list_active db = lease_list (sort_key lr_worker_id (sort_key lr_lease_id (filter active_row (ld_leases db))))"

definition release_guard :: "time_lib \<Rightarrow> WorkerLease \<Rightarrow> string \<Rightarrow> exn + unit" where
  "release_guard T l released =
     res_bind (timestamp_compare T released (wl_heartbeat_at l)) (\<lambda>order.
     if order < 0 then Inl (WorkerLeaseErr ''LEASE_RELEASE_STALE'')
     else if wl_quarantine_code l \<noteq> None then Inl (WorkerLeaseErr ''LEASE_RECOVERY_REQUIRED'')
     else case wl_expires_at l of
       None \<Rightarrow> Inl (WorkerLeaseErr ''LEASE_RECOVERY_REQUIRED'')
     | Some expiry \<Rightarrow> res_bind (timestamp_compare T released expiry) (\<lambda>late.
         if late \<ge> 0 then Inl (WorkerLeaseErr ''LEASE_RECOVERY_REQUIRED'') else Inr ()))"

record LeaseReleaseResult =
  lrr_released :: bool
  lrr_already_released :: bool

definition release :: "time_lib \<Rightarrow> string \<Rightarrow> string \<Rightarrow> string \<Rightarrow> time_arg \<Rightarrow> (LeaseDb, LeaseReleaseResult) action" where
  "release T i session task at =
     andthen (lift_res (res_bind (lease_args i session task) (\<lambda>a.
       res_bind (timestamp T at ''released_at'') (\<lambda>t. Inr (a, t))))) (\<lambda>((i, session, task), released) db.
     case owned_lease i session task db of
       Inl e \<Rightarrow> (Inl e, db)
     | Inr l \<Rightarrow>
         if wl_released_at l \<noteq> None then (Inr \<lparr>lrr_released = False, lrr_already_released = True\<rparr>, db)
         else case release_guard T l released of
           Inl e \<Rightarrow> (Inl e, db)
         | Inr _ \<Rightarrow> (Inr \<lparr>lrr_released = True, lrr_already_released = False\<rparr>,
                      update_active i (\<lambda>r. r\<lparr>lr_released_at := Some released\<rparr>) db))"

end
