(* ===== verification/Lease_Provisioning.thy ===== *)
theory Lease_Provisioning
  imports Lease_Store
begin

text \<open>
  The provisioning reservations of the worker-lease store,
  \<^verbatim>\<open>src/src/a_conductor/worker_lease.py\<close>: bounded reservation of extra workers, the reservation
  state machine, and the fence that keeps a handed-over worker for its owner.
\<close>

section \<open>Records\<close>

record WorkerProvisioningReservationRecord =
  pv_reservation_id :: string
  pv_session_id :: string
  pv_task_id :: string
  pv_runtime_kind :: string
  pv_state :: string
  pv_worker_id :: "string option"
  pv_acquired_at :: string
  pv_updated_at :: string
  pv_project_id :: "string option"
  pv_worktree_key :: "string option"
  pv_mutable_scope :: "string list"

definition RESERVATION_STATES :: "string list" where
  "RESERVATION_STATES = [''PRE_PROVISION'', ''ACTIVE'', ''PROVISIONING'', ''PROVISIONED'', ''CAPACITY'',
     ''RECOVERY_REQUIRED'', ''RELEASED'']"

definition CONSUMING_STATES :: "string list" where
  "CONSUMING_STATES = [''PRE_PROVISION'', ''ACTIVE'', ''PROVISIONING'', ''PROVISIONED'', ''CAPACITY'',
     ''RECOVERY_REQUIRED'']"

definition reservation_data_invalid :: "exn + 'a \<Rightarrow> exn + 'a" where
  "reservation_data_invalid v = (case v of
     Inl (ValueErr _) \<Rightarrow> Inl (WorkerLeaseErr ''PROVISIONING_RESERVATION_DATA_INVALID'') | _ \<Rightarrow> v)"

definition provisioning_record_from_row :: "time_lib \<Rightarrow> ReservationRow \<Rightarrow> exn + WorkerProvisioningReservationRecord" where
  "provisioning_record_from_row T r = reservation_data_invalid (
     res_bind (lease_text 32 (rr_state r) ''state'') (\<lambda>state.
     let state = map upper_char state in
     if state \<notin> set RESERVATION_STATES then Inl (ValueErr ''provisioning reservation state invalid'') else
     res_bind (lease_text 128 (rr_reservation_id r) ''reservation_id'') (\<lambda>reservation_id.
     res_bind (lease_text 128 (rr_session_id r) ''session_id'') (\<lambda>session_id.
     res_bind (lease_text 256 (rr_task_id r) ''task_id'') (\<lambda>task_id.
     res_bind (lease_text 128 (rr_runtime_kind r) ''runtime_kind'') (\<lambda>runtime_kind.
     res_bind (lease_optional_text (rr_worker_id r) ''worker_id'') (\<lambda>worker_id.
     res_bind (timestamp T (TimeText (rr_acquired_at r)) ''acquired_at'') (\<lambda>acquired_at.
     res_bind (timestamp T (TimeText (rr_updated_at r)) ''updated_at'') (\<lambda>updated_at.
     res_bind (timestamp_datetime T (TimeText acquired_at) ''acquired_at'') (\<lambda>_.
     res_bind (timestamp_datetime T (TimeText updated_at) ''updated_at'') (\<lambda>_.
     res_bind (lease_optional_text (rr_project_id r) ''project_id'') (\<lambda>project_id.
     res_bind (lease_optional_text (rr_worktree_key r) ''worktree_key'') (\<lambda>worktree_key.
     res_bind (decode_scope (rr_mutable_scope_json r)) (\<lambda>scope.
     Inr \<lparr>pv_reservation_id = reservation_id, pv_session_id = session_id, pv_task_id = task_id,
          pv_runtime_kind = runtime_kind, pv_state = state, pv_worker_id = worker_id,
          pv_acquired_at = acquired_at, pv_updated_at = updated_at, pv_project_id = project_id,
          pv_worktree_key = worktree_key, pv_mutable_scope = scope\<rparr>))))))))))))))"

fun reservation_list :: "time_lib \<Rightarrow> ReservationRow list \<Rightarrow> exn + WorkerProvisioningReservationRecord list" where
  "reservation_list T [] = Inr []"
| "reservation_list T (r # rs) = res_bind (provisioning_record_from_row T r) (\<lambda>p.
     res_bind (reservation_list T rs) (\<lambda>ps. Inr (p # ps)))"

section \<open>Operations\<close>

datatype WorkerProvisioningReservationKind = PK_ACQUIRED | PK_EXISTING | PK_LIMIT_WAIT | PK_RECOVERY_REQUIRED

record WorkerProvisioningReservationResult =
  pk_kind :: WorkerProvisioningReservationKind
  pk_record :: "WorkerProvisioningReservationRecord option"
  pk_reason_code :: string

definition owner_reservation :: "string \<Rightarrow> string \<Rightarrow> LeaseDb \<Rightarrow> ReservationRow option" where
  "owner_reservation session task db = fetchone (\<lambda>r. rr_session_id r = session \<and> rr_task_id r = task
     \<and> rr_state r \<noteq> ''RELEASED'') (ld_reservations db)"

definition existing_reservation ::
  "time_lib \<Rightarrow> string \<Rightarrow> string option \<Rightarrow> string option \<Rightarrow> string list \<Rightarrow> ReservationRow
     \<Rightarrow> exn + WorkerProvisioningReservationResult" where
  "existing_reservation T runtime_kind project worktree_key scope r =
     res_bind (provisioning_record_from_row T r) (\<lambda>existing.
     if pv_runtime_kind existing \<noteq> runtime_kind \<or> pv_project_id existing \<noteq> project
        \<or> pv_worktree_key existing \<noteq> worktree_key \<or> pv_mutable_scope existing \<noteq> scope
     then Inl (WorkerLeaseErr ''PROVISIONING_RESERVATION_CONFLICT'')
     else Inr \<lparr>pk_kind = PK_EXISTING, pk_record = Some existing, pk_reason_code = ''PROVISIONING_ALREADY_ACTIVE''\<rparr>)"

definition insert_reservation ::
  "time_lib \<Rightarrow> ReservationRow \<Rightarrow> (LeaseDb, WorkerProvisioningReservationResult) action" where
  "insert_reservation T row db =
     (if reservation_row (rr_reservation_id row) db \<noteq> None
         \<or> owner_reservation (rr_session_id row) (rr_task_id row) db \<noteq> None
      then (Inl (WorkerLeaseErr ''PROVISIONING_RESERVATION_CONFLICT''), db)
      else (let db' = db\<lparr>ld_reservations := ld_reservations db @ [row]\<rparr> in
        (case reservation_row (rr_reservation_id row) db' of
           None \<Rightarrow> (Inr \<lparr>pk_kind = PK_RECOVERY_REQUIRED, pk_record = None,
                         pk_reason_code = ''PROVISIONING_RECORD_MISSING''\<rparr>, db)
         | Some r \<Rightarrow> (case provisioning_record_from_row T r of
             Inl e \<Rightarrow> (Inl e, db)
           | Inr p \<Rightarrow> (Inr \<lparr>pk_kind = PK_ACQUIRED, pk_record = Some p, pk_reason_code = ''PROVISIONING_RESERVED''\<rparr>,
                       db')))))"

definition reserve_worker ::
  "time_lib \<Rightarrow> int \<Rightarrow> ReservationRow \<Rightarrow> string list \<Rightarrow> (LeaseDb, WorkerProvisioningReservationResult) action" where
  "reserve_worker T max_extra row scope db =
     (case owner_reservation (rr_session_id row) (rr_task_id row) db of
        Some r \<Rightarrow> (existing_reservation T (rr_runtime_kind row) (rr_project_id row) (rr_worktree_key row) scope r, db)
      | None \<Rightarrow>
          (let active = filter (\<lambda>r. rr_state r \<in> set CONSUMING_STATES) (ld_reservations db) in
           case reservation_list T active of
             Inl e \<Rightarrow> (Inl e, db)
           | Inr _ \<Rightarrow>
               if int (length active) \<ge> max_extra
               then (Inr \<lparr>pk_kind = PK_LIMIT_WAIT, pk_record = None, pk_reason_code = ''ELASTIC_CAPACITY_LIMIT_REACHED''\<rparr>, db)
               else insert_reservation T row db))"

definition acquire_provisioning_reservation ::
  "time_lib \<Rightarrow> string \<Rightarrow> string \<Rightarrow> string \<Rightarrow> string \<Rightarrow> int \<Rightarrow> time_arg \<Rightarrow> string option \<Rightarrow> string option \<Rightarrow> string list
     \<Rightarrow> (LeaseDb, WorkerProvisioningReservationResult) action" where
  "acquire_provisioning_reservation T reservation_id session_id task_id runtime_kind max_extra now project worktree scope =
     andthen (lift_res (
       res_bind (lease_text 128 reservation_id ''reservation_id'') (\<lambda>reservation_id.
       res_bind (lease_text 128 session_id ''session_id'') (\<lambda>session_id.
       res_bind (lease_text 256 task_id ''task_id'') (\<lambda>task_id.
       res_bind (lease_text 128 runtime_kind ''runtime_kind'') (\<lambda>runtime_kind.
       res_bind (lease_optional_text project ''project_id'') (\<lambda>project.
       res_bind (case worktree of None \<Rightarrow> Inr None
         | Some w \<Rightarrow> res_bind (lease_text 512 w ''worktree'') (\<lambda>w.
             res_bind (windows_worktree_key w) (\<lambda>k. Inr (Some k)))) (\<lambda>worktree_key.
       res_bind (lease_scope scope ''mutable_scope'') (\<lambda>scope.
       if \<not> (1 \<le> max_extra \<and> max_extra \<le> 99) then Inl (ValueErr ''max_extra_workers must be between 1 and 99'') else
       res_bind (timestamp T now ''now'') (\<lambda>observed_at.
       res_bind (timestamp_datetime T (TimeText observed_at) ''now'') (\<lambda>_.
       Inr (\<lparr>rr_reservation_id = reservation_id, rr_session_id = session_id, rr_task_id = task_id,
            rr_runtime_kind = runtime_kind, rr_state = ''PRE_PROVISION'', rr_worker_id = None,
            rr_acquired_at = observed_at, rr_updated_at = observed_at, rr_project_id = project,
            rr_worktree_key = worktree_key, rr_mutable_scope_json = Some scope\<rparr>, scope))))))))))))
     (\<lambda>(row, scope). reserve_worker T max_extra row scope)"

definition reservation_transitions :: "string \<Rightarrow> string list" where
  "reservation_transitions s =
     (if s = ''PRE_PROVISION'' then [''PROVISIONING'', ''RECOVERY_REQUIRED'', ''RELEASED'']
      else if s = ''ACTIVE'' then [''RECOVERY_REQUIRED'']
      else if s = ''PROVISIONING'' then [''PROVISIONED'', ''RECOVERY_REQUIRED'']
      else if s = ''PROVISIONED'' then [''CAPACITY'', ''RECOVERY_REQUIRED'']
      else [])"

text \<open>A worker that an active lease of another owner holds.\<close>

definition foreign_lease :: "string option \<Rightarrow> string \<Rightarrow> string \<Rightarrow> LeaseDb \<Rightarrow> bool" where
  "foreign_lease worker session task db =
     (case worker of None \<Rightarrow> False | Some w \<Rightarrow>
     (case worker_row w db of None \<Rightarrow> False
      | Some r \<Rightarrow> lr_session_id r \<noteq> session \<or> lr_task_id r \<noteq> task))"

definition set_reservation :: "string \<Rightarrow> string \<Rightarrow> string option \<Rightarrow> string \<Rightarrow> LeaseDb \<Rightarrow> LeaseDb" where
  "set_reservation i target worker observed_at db =
     db\<lparr>ld_reservations := map (\<lambda>r. if rr_reservation_id r = i
        then r\<lparr>rr_state := target, rr_worker_id := worker, rr_updated_at := observed_at\<rparr> else r) (ld_reservations db)\<rparr>"

text \<open>The two partial unique indexes of the table, as the UPDATE leaves it.\<close>

definition reservation_indexes_ok :: "LeaseDb \<Rightarrow> bool" where
  "reservation_indexes_ok db =
     (let live = filter (\<lambda>r. rr_state r \<noteq> ''RELEASED'') (ld_reservations db) in
      distinct (map (\<lambda>r. (rr_session_id r, rr_task_id r)) live)
      \<and> distinct (map rr_worker_id (filter (\<lambda>r. rr_worker_id r \<noteq> None) live)))"

definition move_reservation ::
  "time_lib \<Rightarrow> string \<Rightarrow> string \<Rightarrow> string \<Rightarrow> string \<Rightarrow> string option \<Rightarrow> string
     \<Rightarrow> (LeaseDb, WorkerProvisioningReservationRecord) action" where
  "move_reservation T i session task target worker observed_at db =
     (case reservation_row i db of
        None \<Rightarrow> (Inl (WorkerLeaseErr ''PROVISIONING_RESERVATION_NOT_FOUND''), db)
      | Some row \<Rightarrow>
        (case provisioning_record_from_row T row of
           Inl e \<Rightarrow> (Inl e, db)
         | Inr current \<Rightarrow>
             if pv_session_id current \<noteq> session \<or> pv_task_id current \<noteq> task
             then (Inl (WorkerLeaseErr ''PROVISIONING_OWNER_MISMATCH''), db)
             else if pv_state current = target \<and> pv_worker_id current = worker then (Inr current, db)
             else if target \<notin> set (reservation_transitions (pv_state current))
             then (Inl (WorkerLeaseErr ''PROVISIONING_RESERVATION_STATE_MISMATCH''), db)
             else if target = ''PROVISIONED'' \<and> foreign_lease worker session task db
             then (Inl (WorkerLeaseErr ''PROVISIONING_WORKER_LEASE_CONFLICT''), db)
             else (let db' = set_reservation i target worker observed_at db in
               if \<not> reservation_indexes_ok db'
               then (Inl (WorkerLeaseErr ''PROVISIONING_RESERVATION_WORKER_CONFLICT''), db)
               else (case reservation_row i db' of
                 None \<Rightarrow> (Inl (WorkerLeaseErr ''PROVISIONING_RESERVATION_NOT_FOUND''), db)
               | Some r \<Rightarrow> (case provisioning_record_from_row T r of Inl e \<Rightarrow> (Inl e, db) | Inr p \<Rightarrow> (Inr p, db'))))))"

definition transition_provisioning_reservation ::
  "time_lib \<Rightarrow> string \<Rightarrow> string \<Rightarrow> string \<Rightarrow> string \<Rightarrow> time_arg \<Rightarrow> string option
     \<Rightarrow> (LeaseDb, WorkerProvisioningReservationRecord) action" where
  "transition_provisioning_reservation T reservation_id session_id task_id state now worker_id =
     andthen (lift_res (
       res_bind (lease_text 128 reservation_id ''reservation_id'') (\<lambda>reservation_id.
       res_bind (lease_text 128 session_id ''session_id'') (\<lambda>session_id.
       res_bind (lease_text 256 task_id ''task_id'') (\<lambda>task_id.
       res_bind (lease_text 32 state ''state'') (\<lambda>state.
       let target = map upper_char state in
       if target \<notin> {''PROVISIONING'', ''PROVISIONED'', ''CAPACITY'', ''RECOVERY_REQUIRED'', ''RELEASED''}
       then Inl (ValueErr ''provisioning transition state invalid'') else
       res_bind (timestamp T now ''now'') (\<lambda>observed_at.
       res_bind (timestamp_datetime T (TimeText observed_at) ''now'') (\<lambda>_.
       res_bind (lease_optional_text worker_id ''worker_id'') (\<lambda>worker.
       if target \<in> {''PROVISIONED'', ''CAPACITY''} \<and> worker = None
       then Inl (ValueErr ''provisioned/capacity reservation requires worker_id'')
       else Inr (reservation_id, session_id, task_id, target, worker, observed_at))))))))))
     (\<lambda>(i, session, task, target, worker, observed_at). move_reservation T i session task target worker observed_at)"

definition list_provisioning_reservations ::
  "time_lib \<Rightarrow> bool \<Rightarrow> LeaseDb \<Rightarrow> exn + WorkerProvisioningReservationRecord list" where
  "list_provisioning_reservations T consuming_only db =
     reservation_list T (sort_key rr_acquired_at (sort_key rr_reservation_id
       (filter (\<lambda>r. consuming_only \<longrightarrow> rr_state r \<in> set CONSUMING_STATES) (ld_reservations db))))"

definition stale_residue :: "time_lib \<Rightarrow> int \<Rightarrow> int \<Rightarrow> LeaseDb \<Rightarrow> WorkerProvisioningReservationRecord
     \<Rightarrow> exn + WorkerProvisioningReservationRecord" where
  "stale_residue T now stale_after db current =
     (if pv_state current = ''RELEASED'' then Inr current
      else if pv_state current = ''CAPACITY'' then Inl (WorkerLeaseErr ''PROVISIONING_CAPACITY_RETIREMENT_FORBIDDEN'')
      else res_bind (timestamp_datetime T (TimeText (pv_updated_at current)) ''updated_at'') (\<lambda>updated.
        if now - updated < stale_after * 1000000 then Inl (WorkerLeaseErr ''PROVISIONING_NOT_STALE'')
        else case pv_worker_id current of
          None \<Rightarrow> Inl (WorkerLeaseErr ''PROVISIONING_RUNTIME_ABSENCE_EVIDENCE_REQUIRED'')
        | Some w \<Rightarrow> if worker_row w db \<noteq> None then Inl (WorkerLeaseErr ''PROVISIONING_WORKER_IN_USE'')
                    else Inl (WorkerLeaseErr ''PROVISIONING_WORKER_DECOMMISSION_EVIDENCE_REQUIRED'')))"

definition reconcile_stale_provisioning ::
  "time_lib \<Rightarrow> string \<Rightarrow> string \<Rightarrow> string \<Rightarrow> time_arg \<Rightarrow> int \<Rightarrow> (LeaseDb, WorkerProvisioningReservationRecord) action" where
  "reconcile_stale_provisioning T reservation_id session_id task_id now stale_after db =
     (res_bind (lease_text 128 reservation_id ''reservation_id'') (\<lambda>i.
      res_bind (lease_text 128 session_id ''session_id'') (\<lambda>session.
      res_bind (lease_text 256 task_id ''task_id'') (\<lambda>task.
      if \<not> (1 \<le> stale_after \<and> stale_after \<le> 31536000)
      then Inl (ValueErr ''stale_after_seconds must be between 1 and 31536000'') else
      res_bind (timestamp T now ''now'') (\<lambda>observed_at.
      res_bind (timestamp_datetime T (TimeText observed_at) ''now'') (\<lambda>now_dt.
      case reservation_row i db of
        None \<Rightarrow> Inl (WorkerLeaseErr ''PROVISIONING_RESERVATION_NOT_FOUND'')
      | Some row \<Rightarrow> res_bind (provisioning_record_from_row T row) (\<lambda>current.
          if pv_session_id current \<noteq> session \<or> pv_task_id current \<noteq> task
          then Inl (WorkerLeaseErr ''PROVISIONING_OWNER_MISMATCH'')
          else stale_residue T now_dt stale_after db current)))))), db)"

end
