(* ===== verification/Lease_Invariant.thy ===== *)
theory Lease_Invariant
  imports Lease_Provisioning
begin

text \<open>
  The exclusivity invariant of the worker-lease store over both tables, and that every
  operation keeps it: one active lease per worker and per owner task, disjoint mutable
  scopes at a hotspot, and the handoff fence between reservations and leases.
\<close>

section \<open>The invariant\<close>

definition lease_active :: "WorkerLease \<Rightarrow> bool" where
  "lease_active l \<longleftrightarrow> wl_released_at l = None"

definition lease_mutating :: "WorkerLease \<Rightarrow> bool" where
  "lease_mutating l \<longleftrightarrow> wl_mutation_intent l = LM_MUTATION"

definition lease_owner :: "WorkerLease \<Rightarrow> string \<times> string" where
  "lease_owner l = (wl_session_id l, wl_task_id l)"

definition same_hotspot_free :: "WorkerLease \<Rightarrow> WorkerLease \<Rightarrow> bool" where
  "same_hotspot_free l m \<longleftrightarrow> \<not> (lease_active l \<and> lease_active m \<and> lease_mutating l \<and> lease_mutating m
     \<and> wl_hotspot_key l = wl_hotspot_key m \<and> write_sets_overlap (wl_mutable_scope l) (wl_mutable_scope m))"

definition leases_ok :: "WorkerLease list \<Rightarrow> bool" where
  "leases_ok ls \<longleftrightarrow> distinct (map wl_lease_id ls)
     \<and> inj_on wl_worker_id {l \<in> set ls. lease_active l}
     \<and> inj_on lease_owner {l \<in> set ls. lease_active l}
     \<and> (\<forall>l \<in> set ls. py_strip (wl_lease_id l) = wl_lease_id l)
     \<and> (\<forall>l \<in> set ls. lease_active l \<and> lease_mutating l \<longrightarrow> wl_hotspot_key l \<noteq> None)
     \<and> (\<forall>l \<in> set ls. \<forall>m \<in> set ls. l \<noteq> m \<longrightarrow> same_hotspot_free l m)"

definition reservations_ok :: "LeaseDb \<Rightarrow> bool" where
  "reservations_ok db \<longleftrightarrow> distinct (map rr_reservation_id (ld_reservations db)) \<and> reservation_indexes_ok db
     \<and> (\<forall>r \<in> set (ld_reservations db). py_strip (rr_session_id r) = rr_session_id r \<and> py_strip (rr_task_id r) = rr_task_id r)"

definition fence_ok :: "WorkerLease list \<Rightarrow> ReservationRow list \<Rightarrow> bool" where
  "fence_ok ls rs \<longleftrightarrow> (\<forall>r \<in> set rs. \<forall>l \<in> set ls. rr_state r = ''PROVISIONED'' \<and> lease_active l
     \<and> rr_worker_id r = Some (wl_worker_id l) \<longrightarrow> lease_owner l = (rr_session_id r, rr_task_id r))"

definition store_holds :: "LeaseDb \<Rightarrow> WorkerLease list \<Rightarrow> bool" where
  "store_holds db ls \<longleftrightarrow> ld_leases db = map lease_row ls \<and> leases_ok ls \<and> reservations_ok db
     \<and> fence_ok ls (ld_reservations db)"

section \<open>Reading rows\<close>

lemma intent_of_value [simp]: "intent_of (intent_value i) = Inr i"
  by (cases i) (simp_all add: intent_of_def)

lemma intent_value_mutation [simp]: "intent_value i = ''MUTATION'' \<longleftrightarrow> i = LM_MUTATION"
  by (cases i) simp_all

lemma lease_recovery_of_value [simp]: "lease_recovery_of (map_option recovery_value c) = Inr c"
  by (cases c) (simp_all add: lease_recovery_of_def)

lemma lease_row_sel [simp]:
  "lr_lease_id (lease_row l) = wl_lease_id l" "lr_worker_id (lease_row l) = wl_worker_id l"
  "lr_session_id (lease_row l) = wl_session_id l" "lr_task_id (lease_row l) = wl_task_id l"
  "lr_mutable_scope_json (lease_row l) = Some (wl_mutable_scope l)"
  "lr_mutation_intent (lease_row l) = intent_value (wl_mutation_intent l)"
  "lr_hotspot_key (lease_row l) = wl_hotspot_key l" "active_row (lease_row l) = lease_active l"
  by (simp_all add: lease_row_def active_row_def lease_active_def)

lemma lease_from_row_row [simp]: "lease_from_row (lease_row l) = Inr l"
proof -
  have "lease_recovery_of (lr_recovery_classification (lease_row l)) = Inr (wl_recovery_classification l)"
    by (simp add: lease_row_def)
  then show ?thesis by (simp add: lease_from_row_def decode_scope_def) (simp add: lease_row_def)
qed

lemma table_rows:
  assumes "ld_leases db = map lease_row ls"
  shows "owner_row s t db = map_option lease_row (fetchone (\<lambda>l. wl_session_id l = s \<and> wl_task_id l = t \<and> lease_active l) ls)"
    "worker_row w db = map_option lease_row (fetchone (\<lambda>l. wl_worker_id l = w \<and> lease_active l) ls)"
    "lease_id_row i db = map_option lease_row (fetchone (\<lambda>l. wl_lease_id l = i) ls)"
    "active_mutation_rows db = map lease_row (filter (\<lambda>l. lease_active l \<and> lease_mutating l) ls)"
  by (simp_all add: owner_row_def worker_row_def lease_id_row_def active_mutation_rows_def assms fetchone_map
      filter_map o_def lease_mutating_def)

section \<open>Admission\<close>

lemma scopes_clash_Inr:
  "scopes_clash s (map lease_row ms) = Inr () \<longleftrightarrow> (\<forall>m \<in> set ms. \<not> write_sets_overlap s (wl_mutable_scope m))"
  by (induction ms) (auto simp: decode_scope_def)

lemma admit_mutation_Inr:
  assumes "ld_leases db = map lease_row ls" and "admit_mutation l db = Inr u" and "lease_mutating l"
    and "m \<in> set ls" and "lease_active m" and "lease_mutating m"
  shows "wl_hotspot_key m \<noteq> None"
    "wl_hotspot_key m = wl_hotspot_key l \<Longrightarrow> \<not> write_sets_overlap (wl_mutable_scope l) (wl_mutable_scope m)"
proof -
  have intent: "wl_mutation_intent l = LM_MUTATION" using assms(3) by (simp add: lease_mutating_def)
  have known: "\<not> list_ex (\<lambda>r. lr_hotspot_key r = None) (active_mutation_rows db)"
    and clash: "scopes_clash (wl_mutable_scope l)
      (filter (\<lambda>r. lr_hotspot_key r = wl_hotspot_key l) (active_mutation_rows db)) = Inr ()"
    using assms(2) intent by (auto simp: admit_mutation_def split: if_splits)
  from known show "wl_hotspot_key m \<noteq> None"
    unfolding table_rows(4)[OF assms(1)] using assms(4-6) by (auto simp: list_ex_iff)
  have rows: "filter (\<lambda>r. lr_hotspot_key r = wl_hotspot_key l) (active_mutation_rows db)
      = map lease_row (filter (\<lambda>m. wl_hotspot_key m = wl_hotspot_key l) (filter (\<lambda>l. lease_active l \<and> lease_mutating l) ls))"
    unfolding table_rows(4)[OF assms(1)] by (simp add: filter_map o_def)
  from clash[unfolded rows scopes_clash_Inr] assms(4-6)
  show "wl_hotspot_key m = wl_hotspot_key l \<Longrightarrow> \<not> write_sets_overlap (wl_mutable_scope l) (wl_mutable_scope m)"
    by auto
qed

lemma leases_ok_insert:
  assumes ok: "leases_ok ls" and act: "lease_active l"
    and id: "wl_lease_id l \<notin> wl_lease_id ` set ls" "py_strip (wl_lease_id l) = wl_lease_id l"
    and worker: "\<And>m. m \<in> set ls \<Longrightarrow> lease_active m \<Longrightarrow> wl_worker_id m \<noteq> wl_worker_id l"
    and owner: "\<And>m. m \<in> set ls \<Longrightarrow> lease_active m \<Longrightarrow> lease_owner m \<noteq> lease_owner l"
    and hot: "lease_mutating l \<Longrightarrow> wl_hotspot_key l \<noteq> None"
    and free: "\<And>m. m \<in> set ls \<Longrightarrow> same_hotspot_free l m"
  shows "leases_ok (ls @ [l])"
proof -
  have act_set: "{m \<in> set (ls @ [l]). lease_active m} = insert l {m \<in> set ls. lease_active m}" using act by auto
  have sym: "same_hotspot_free m l" if "m \<in> set ls" for m
    using free[OF that] write_sets_overlap_sym unfolding same_hotspot_free_def by metis
  have "inj_on wl_worker_id {m \<in> set (ls @ [l]). lease_active m}"
    unfolding act_set inj_on_insert using ok worker by (fastforce simp: leases_ok_def)
  moreover have "inj_on lease_owner {m \<in> set (ls @ [l]). lease_active m}"
    unfolding act_set inj_on_insert using ok owner by (fastforce simp: leases_ok_def)
  moreover have "distinct (map wl_lease_id (ls @ [l]))" using ok id by (simp add: leases_ok_def)
  moreover have "\<forall>m \<in> set (ls @ [l]). py_strip (wl_lease_id m) = wl_lease_id m" using ok id(2) by (auto simp: leases_ok_def)
  moreover have "\<forall>m \<in> set (ls @ [l]). lease_active m \<and> lease_mutating m \<longrightarrow> wl_hotspot_key m \<noteq> None"
    using ok hot by (auto simp: leases_ok_def)
  moreover have "\<forall>a \<in> set (ls @ [l]). \<forall>b \<in> set (ls @ [l]). a \<noteq> b \<longrightarrow> same_hotspot_free a b"
    using ok free sym by (auto simp: leases_ok_def)
  ultimately show ?thesis unfolding leases_ok_def by blast
qed

text \<open>An update of one active lease that keeps who holds what, and may only release it.\<close>

definition keeps_claim :: "(WorkerLease \<Rightarrow> WorkerLease) \<Rightarrow> bool" where
  "keeps_claim g \<longleftrightarrow> (\<forall>l. wl_lease_id (g l) = wl_lease_id l \<and> wl_worker_id (g l) = wl_worker_id l
     \<and> lease_owner (g l) = lease_owner l \<and> wl_mutation_intent (g l) = wl_mutation_intent l
     \<and> wl_hotspot_key (g l) = wl_hotspot_key l \<and> wl_mutable_scope (g l) = wl_mutable_scope l
     \<and> (lease_active (g l) \<longrightarrow> lease_active l))"

lemma leases_ok_map:
  assumes ok: "leases_ok ls" and g: "keeps_claim g"
  shows "leases_ok (map g ls)"
proof -
  have gk: "wl_lease_id (g l) = wl_lease_id l" "wl_worker_id (g l) = wl_worker_id l" "lease_owner (g l) = lease_owner l"
    "lease_mutating (g l) = lease_mutating l" "wl_hotspot_key (g l) = wl_hotspot_key l"
    "wl_mutable_scope (g l) = wl_mutable_scope l" "lease_active (g l) \<Longrightarrow> lease_active l" for l
    using g by (auto simp: keeps_claim_def lease_mutating_def)
  have free: "same_hotspot_free l m \<Longrightarrow> same_hotspot_free (g l) (g m)" for l m
    unfolding same_hotspot_free_def using gk by metis
  have "distinct (map wl_lease_id (map g ls))" using ok by (simp add: leases_ok_def o_def gk)
  moreover have "\<forall>m \<in> set (map g ls). py_strip (wl_lease_id m) = wl_lease_id m" using ok by (simp add: leases_ok_def gk)
  moreover have sub: "{l \<in> set (map g ls). lease_active l} \<subseteq> g ` {l \<in> set ls. lease_active l}"
    using gk(7) by auto
  moreover have "inj_on wl_worker_id {l \<in> set (map g ls). lease_active l}"
  proof (rule inj_on_subset[OF inj_on_imageI sub])
    show "inj_on (wl_worker_id \<circ> g) {l \<in> set ls. lease_active l}" using ok by (simp add: leases_ok_def o_def gk(2))
  qed
  moreover have "inj_on lease_owner {l \<in> set (map g ls). lease_active l}"
  proof (rule inj_on_subset[OF inj_on_imageI sub])
    show "inj_on (lease_owner \<circ> g) {l \<in> set ls. lease_active l}" using ok by (simp add: leases_ok_def o_def gk(3))
  qed
  moreover have "\<forall>l \<in> set (map g ls). lease_active l \<and> lease_mutating l \<longrightarrow> wl_hotspot_key l \<noteq> None"
  proof (intro ballI impI)
    fix m
    assume "m \<in> set (map g ls)" "lease_active m \<and> lease_mutating m"
    then obtain l where "l \<in> set ls" "m = g l" "lease_active l" "lease_mutating l" using gk(4,7) by auto
    then show "wl_hotspot_key m \<noteq> None" using ok gk(5)[of l] unfolding leases_ok_def by metis
  qed
  moreover have "\<forall>l \<in> set (map g ls). \<forall>m \<in> set (map g ls). l \<noteq> m \<longrightarrow> same_hotspot_free l m"
  proof (intro ballI impI)
    fix a b
    assume "a \<in> set (map g ls)" "b \<in> set (map g ls)" "a \<noteq> b"
    then obtain l m where "l \<in> set ls" "m \<in> set ls" "a = g l" "b = g m" "l \<noteq> m" by auto
    then show "same_hotspot_free a b" using ok free unfolding leases_ok_def by blast
  qed
  ultimately show ?thesis unfolding leases_ok_def by blast
qed

lemma fence_ok_map:
  assumes "fence_ok ls rs" and "keeps_claim g"
  shows "fence_ok (map g ls) rs"
  using assms unfolding fence_ok_def keeps_claim_def by auto

section \<open>Operations on leases\<close>

lemma live_worker_unique:
  assumes "reservation_indexes_ok db" and "r \<in> set (ld_reservations db)" and "r' \<in> set (ld_reservations db)"
    and "rr_state r \<noteq> ''RELEASED''" and "rr_state r' \<noteq> ''RELEASED''"
    and "rr_worker_id r = Some w" and "rr_worker_id r' = Some w"
  shows "r = r'"
proof -
  define live where "live = filter (\<lambda>r. rr_worker_id r \<noteq> None) (filter (\<lambda>r. rr_state r \<noteq> ''RELEASED'') (ld_reservations db))"
  have "inj_on rr_worker_id (set live)"
    using assms(1) by (simp add: reservation_indexes_ok_def Let_def live_def distinct_map)
  moreover have "r \<in> set live" "r' \<in> set live" using assms by (simp_all add: live_def)
  ultimately show ?thesis using assms(6,7) unfolding inj_on_def by metis
qed

lemma fence_ok_insert:
  assumes "fence_ok ls (ld_reservations db)" and "reservation_indexes_ok db" and "\<not> handoff_fenced l db"
  shows "fence_ok (ls @ [l]) (ld_reservations db)"
proof -
  have "lease_owner l = (rr_session_id r, rr_task_id r)"
    if r: "r \<in> set (ld_reservations db)" "rr_state r = ''PROVISIONED''" "rr_worker_id r = Some (wl_worker_id l)" for r
  proof -
    define Q where "Q = (\<lambda>r :: ReservationRow. rr_worker_id r = Some (wl_worker_id l)
      \<and> rr_state r \<in> {''PROVISIONED'', ''RECOVERY_REQUIRED''})"
    have "fetchone Q (ld_reservations db) = Some r"
    proof (rule fetchone_unique[OF r(1)])
      show "Q r" using r by (simp add: Q_def)
      show "y = r" if "y \<in> set (ld_reservations db)" "Q y" for y
        using live_worker_unique[OF assms(2) that(1) r(1)] that(2) r(2,3) by (auto simp: Q_def)
    qed
    then show ?thesis using assms(3) unfolding handoff_fenced_def Q_def lease_owner_def by simp
  qed
  then show ?thesis using assms(1) unfolding fence_ok_def by auto
qed

lemma acquire_lease_cases:
  assumes h: "store_holds db ls" and act: "lease_active l" and strip: "py_strip (wl_lease_id l) = wl_lease_id l"
    and hot: "lease_mutating l \<Longrightarrow> wl_hotspot_key l \<noteq> None" and r: "acquire_lease q l db = (x, db')"
  shows "db' = db \<and> (\<forall>m b. x = Inr (Some m, b) \<longrightarrow> \<not> b \<and> m \<in> set ls \<and> lease_active m \<and> lease_owner m = lease_owner l)
    \<or> x = Inr (Some l, True) \<and> store_holds db' (ls @ [l]) \<and> ld_reservations db' = ld_reservations db"
proof -
  have t: "ld_leases db = map lease_row ls" and ok: "leases_ok ls" using h by (simp_all add: store_holds_def)
  note rows = table_rows[OF t]
  show ?thesis
  proof (cases "owner_row (wl_session_id l) (wl_task_id l) db")
    case (Some row)
    then obtain m where m: "row = lease_row m" "m \<in> set ls" "lease_active m" "lease_owner m = lease_owner l"
      unfolding rows by (auto dest!: fetchone_Some simp: lease_owner_def)
    have "x = res_bind (require_matching_request q m (wl_hotspot_key l)) (\<lambda>old. Inr (Some old, False))" "db' = db"
      using r Some m(1) by (auto simp: acquire_lease_def)
    then show ?thesis using m by (auto simp: require_matching_request_def split: if_splits)
  next
    case no_owner: None
    show ?thesis
    proof (cases "worker_row (wl_worker_id l) db \<noteq> None \<or> handoff_fenced l db \<or> isl (admit_mutation l db)
        \<or> lease_id_row (wl_lease_id l) db \<noteq> None")
      case True
      then show ?thesis using r no_owner
        by (cases "admit_mutation l db") (auto simp: acquire_lease_def insert_lease_def split: if_splits)
    next
      case False
      then obtain u where admit: "admit_mutation l db = Inr u" by (cases "admit_mutation l db") auto
      have x: "x = Inr (Some l, True)" and db': "db' = db\<lparr>ld_leases := ld_leases db @ [lease_row l]\<rparr>"
        using r no_owner False admit by (auto simp: acquire_lease_def insert_lease_def)
      have "leases_ok (ls @ [l])"
      proof (rule leases_ok_insert[OF ok act])
        show "wl_lease_id l \<notin> wl_lease_id ` set ls" using False by (auto simp: rows fetchone_None)
        show "py_strip (wl_lease_id l) = wl_lease_id l" by (rule strip)
        show "wl_worker_id m \<noteq> wl_worker_id l" if "m \<in> set ls" "lease_active m" for m
          using False that by (auto simp: rows fetchone_None)
        show "lease_owner m \<noteq> lease_owner l" if "m \<in> set ls" "lease_active m" for m
          using no_owner that by (auto simp: rows fetchone_None lease_owner_def)
        show "wl_hotspot_key l \<noteq> None" if "lease_mutating l" by (rule hot[OF that])
        show "same_hotspot_free l m" if "m \<in> set ls" for m
          using admit_mutation_Inr(2)[OF t admit _ that] by (auto simp: same_hotspot_free_def)
      qed
      moreover have "fence_ok (ls @ [l]) (ld_reservations db)"
        using fence_ok_insert h False by (simp add: store_holds_def reservations_ok_def)
      ultimately show ?thesis using h x db'
        by (simp add: store_holds_def reservations_ok_def reservation_indexes_ok_def t)
    qed
  qed
qed

lemma lease_text_strip: "lease_text n v f = Inr y \<Longrightarrow> y = py_strip v"
  by (auto simp: lease_text_def Let_def split: if_splits)

lemma new_lease_fields:
  assumes "new_lease q c i acq ex hs = Inr l"
  shows "lease_active l" "wl_hotspot_key l = hs" "wl_mutation_intent l = wq_mutation_intent q"
    "wl_lease_id l = i" "wl_worker_id l = wc_worker_id c" "lease_owner l = (wq_session_id q, wq_task_id q)"
    "wl_mutable_scope l = wq_mutable_scope q" "wl_quarantine_code l = None"
  using assms by (auto simp: new_lease_def lease_active_def lease_owner_def)

lemma try_acquire_result_cases:
  assumes h: "store_holds db ls" and r: "try_acquire_result T res q c i acq ex db = (x, db')"
  shows "db' = db \<and> (\<forall>m b. x = Inr (Some m, b) \<longrightarrow> \<not> b \<and> m \<in> set ls \<and> lease_active m
        \<and> lease_owner m = (wq_session_id q, wq_task_id q))
    \<or> (\<exists>l. x = Inr (Some l, True) \<and> store_holds db' (ls @ [l]) \<and> ld_reservations db' = ld_reservations db
        \<and> lease_active l \<and> wl_worker_id l = wc_worker_id c \<and> lease_owner l = (wq_session_id q, wq_task_id q)
        \<and> wl_mutable_scope l = wq_mutable_scope q \<and> wl_mutation_intent l = wq_mutation_intent q)"
proof -
  from lift_res_then[OF r[unfolded try_acquire_result_def]] show ?thesis
  proof (elim disjE exE conjE)
    fix l
    assume l: "res_bind (lease_text 128 i ''lease_id'') (\<lambda>lease_id.
       res_bind (timestamp T acq ''acquired_at'') (\<lambda>acquired.
       res_bind (lease_optional_text ex ''expires_at'') (\<lambda>expiry.
       res_bind (case expiry of
           None \<Rightarrow> timestamp_add_seconds T (TimeText acquired) (wq_lease_ttl_seconds q) ''expires_at''
         | Some e \<Rightarrow> res_bind (timestamp_datetime T (TimeText e) ''expires_at'') (\<lambda>_. Inr e)) (\<lambda>expiry.
       res_bind (if wq_mutation_intent q = LM_MUTATION
                 then res_bind (resolve_mutation_hotspot res (wq_worktree q)) (\<lambda>h. Inr (Some h))
                 else Inr None) (\<lambda>hotspot.
       new_lease q c lease_id acquired expiry hotspot))))) = Inr l"
      and a: "acquire_lease q l db = (x, db')"
    from l obtain i' acq' ex' hs where n: "new_lease q c i' acq' ex' hs = Inr l" and i': "lease_text 128 i ''lease_id'' = Inr i'"
      and hs: "(if wq_mutation_intent q = LM_MUTATION
                 then res_bind (resolve_mutation_hotspot res (wq_worktree q)) (\<lambda>h. Inr (Some h))
                 else Inr None) = (Inr hs :: exn + string option)" by (simp only: res_bind_Inr_iff) blast
    note f = new_lease_fields[OF n]
    have hot: "lease_mutating l \<Longrightarrow> wl_hotspot_key l \<noteq> None"
    proof -
      assume "lease_mutating l"
      then have "wq_mutation_intent q = LM_MUTATION" using f(3) by (simp add: lease_mutating_def)
      then obtain x where "hs = Some x" using hs by auto
      then show ?thesis using f(2) by simp
    qed
    have strip: "py_strip (wl_lease_id l) = wl_lease_id l" using lease_text_strip[OF i'] f(4) by simp
    from acquire_lease_cases[OF h f(1) strip hot a] f show ?thesis by auto
  qed auto
qed

definition touch :: "string \<Rightarrow> (WorkerLease \<Rightarrow> WorkerLease) \<Rightarrow> WorkerLease \<Rightarrow> WorkerLease" where
  "touch i g l = (if wl_lease_id l = i \<and> lease_active l then g l else l)"

lemma touch_keeps: "keeps_claim g \<Longrightarrow> keeps_claim (touch i g)"
  by (simp add: keeps_claim_def touch_def)

lemma update_active_holds:
  assumes h: "store_holds db ls" and g: "keeps_claim g" and f: "\<And>l. f (lease_row l) = lease_row (g l)"
  shows "store_holds (update_active i f db) (map (touch i g) ls)"
    "ld_reservations (update_active i f db) = ld_reservations db"
proof -
  have rows: "ld_leases (update_active i f db) = map lease_row (map (touch i g) ls)"
    using h f by (simp add: store_holds_def update_active_def touch_def)
  show "ld_reservations (update_active i f db) = ld_reservations db" by (simp add: update_active_def)
  then show "store_holds (update_active i f db) (map (touch i g) ls)"
    using h rows leases_ok_map[OF _ touch_keeps[OF g]] fence_ok_map[OF _ touch_keeps[OF g]]
    by (simp add: store_holds_def reservations_ok_def reservation_indexes_ok_def)
qed

lemma owned_lease_Inr:
  assumes "store_holds db ls" and "owned_lease i s t db = Inr l"
  shows "l \<in> set ls" "wl_lease_id l = i" "lease_owner l = (s, t)"
  using assms by (auto simp: owned_lease_def store_holds_def table_rows lease_owner_def
      dest!: fetchone_Some split: option.splits if_splits)

text \<open>The lease read back after an update of an active lease is the updated one.\<close>

lemma row_after_update:
  assumes h: "store_holds db ls" and l: "l \<in> set ls" "wl_lease_id l = i" "lease_active l"
    and g: "keeps_claim g" and f: "\<And>l. f (lease_row l) = lease_row (g l)"
  shows "lease_id_row i (update_active i f db) = Some (lease_row (g l))"
proof -
  have rows: "ld_leases (update_active i f db) = map lease_row (map (touch i g) ls)"
    using h f by (simp add: store_holds_def update_active_def touch_def)
  have ids: "distinct (map wl_lease_id (map (touch i g) ls))"
    using update_active_holds(1)[OF h g f, of i] by (simp add: store_holds_def leases_ok_def)
  have gl: "touch i g l = g l" "wl_lease_id (g l) = i" using l g by (simp_all add: touch_def keeps_claim_def)
  have "fetchone (\<lambda>l. wl_lease_id l = i) (map (touch i g) ls) = Some (g l)"
  proof (rule fetchone_unique)
    show mem: "g l \<in> set (map (touch i g) ls)" using l(1) gl(1) by (metis imageI list.set_map)
    show "wl_lease_id (g l) = i" by (rule gl(2))
    show "y = g l" if "y \<in> set (map (touch i g) ls)" "wl_lease_id y = i" for y
      using ids mem that gl(2) unfolding distinct_map inj_on_def by metis
  qed
  then show ?thesis by (simp add: table_rows(3)[OF rows])
qed

text \<open>The three updates of the store, as updates of the lease.\<close>

definition beaten :: "string \<Rightarrow> string \<Rightarrow> WorkerLease \<Rightarrow> WorkerLease" where
  "beaten beat expiry l = l\<lparr>wl_heartbeat_at := beat, wl_expires_at := Some expiry\<rparr>"

definition released_lease :: "string \<Rightarrow> WorkerLease \<Rightarrow> WorkerLease" where
  "released_lease t l = l\<lparr>wl_released_at := Some t\<rparr>"

definition reconciled ::
  "string option \<Rightarrow> string \<Rightarrow> WorkerLeaseRecoveryObservation \<Rightarrow> WorkerLease \<Rightarrow> WorkerLease" where
  "reconciled reason observed v l = (case reason of
     None \<Rightarrow> l\<lparr>wl_released_at := Some observed, wl_recovery_classification := Some (wo_recovery_classification v),
              wl_recovery_evidence_ref := Some (wo_evidence_ref v), wl_reconciled_at := Some observed\<rparr>
   | Some why \<Rightarrow> l\<lparr>wl_quarantined_at := coalesce (wl_quarantined_at l) observed, wl_quarantine_code := Some why,
              wl_recovery_classification := Some (wo_recovery_classification v),
              wl_recovery_evidence_ref := Some (wo_evidence_ref v), wl_reconciled_at := Some observed\<rparr>)"

lemma updates_keep_claim:
  "keeps_claim (beaten b e)" "keeps_claim (released_lease t)" "keeps_claim (reconciled reason obs v)"
  by (auto simp: keeps_claim_def beaten_def released_lease_def reconciled_def lease_owner_def lease_active_def
      split: option.split)

lemma update_rows:
  "(\<lambda>r. r\<lparr>lr_heartbeat_at := b, lr_expires_at := Some e\<rparr>) (lease_row l) = lease_row (beaten b e l)"
  "(\<lambda>r. r\<lparr>lr_released_at := Some t\<rparr>) (lease_row l) = lease_row (released_lease t l)"
  "reconcile_row reason obs v (lease_row l) = lease_row (reconciled reason obs v l)"
  by (simp_all add: lease_row_def beaten_def released_lease_def reconciled_def reconcile_row_def split: option.split)

lemma heartbeat_cases:
  assumes h: "store_holds db ls" and r: "heartbeat T i s t at db = (x, db')"
  shows "db' = db \<and> (isl x \<or> (\<exists>l \<in> set ls. x = Inr l \<and> lease_active l \<and> lease_owner l = (py_strip s, py_strip t)))
    \<or> (\<exists>i b e l. l \<in> set ls \<and> wl_lease_id l = i \<and> lease_active l \<and> lease_owner l = (py_strip s, py_strip t)
    \<and> x = Inr (beaten b e l)
    \<and> heartbeat_expiry T l b = Inr (Some e)
    \<and> store_holds db' (map (touch i (beaten b e)) ls) \<and> ld_reservations db' = ld_reservations db)"
proof -
  from lift_res_then[OF r[unfolded heartbeat_def]] show ?thesis
  proof (elim disjE exE conjE)
    fix y
    assume args: "res_bind (lease_args i s t) (\<lambda>a. res_bind (timestamp T at ''heartbeat_at'') (\<lambda>beat. Inr (a, beat))) = Inr y"
      and body: "(\<lambda>((i, session, task), beat) db. case owned_lease i session task db of
       Inl e \<Rightarrow> (Inl e, db)
     | Inr l \<Rightarrow> (case heartbeat_expiry T l beat of
         Inl e \<Rightarrow> (Inl e, db)
       | Inr None \<Rightarrow> (Inr l, db)
       | Inr (Some expiry) \<Rightarrow>
           (let db' = update_active i (\<lambda>r. r\<lparr>lr_heartbeat_at := beat, lr_expires_at := Some expiry\<rparr>) db in
            (case lease_id_row i db' of
               None \<Rightarrow> Inl (WorkerLeaseErr ''LEASE_DATA_INVALID'') | Some r \<Rightarrow> lease_from_row r, db')))) y db = (x, db')"
    obtain i' s' t' b where y: "y = ((i', s', t'), b)" by (cases y) auto
    have st: "s' = py_strip s" "t' = py_strip t"
      using args y by (auto simp: lease_args_def lease_text_def Let_def split: if_splits)
    show ?thesis
    proof (cases "owned_lease i' s' t' db")
      case (Inl e)
      then have "x = Inl e" "db' = db" using body y by auto
      then show ?thesis by simp
    next
      case (Inr l)
      note own = owned_lease_Inr[OF h Inr]
      show ?thesis
      proof (cases "\<exists>e. heartbeat_expiry T l b = Inr (Some e)")
        case False
        show ?thesis
        proof (cases "heartbeat_expiry T l b")
          case (Inl e)
          then show ?thesis using body y Inr by auto
        next
          case e: (Inr eo)
          then have "eo = None" using False by (cases eo) auto
          then have x: "x = Inr l" "db' = db" "heartbeat_expiry T l b = Inr None" using body y Inr e by auto
          then have "lease_active l" by (auto simp: heartbeat_expiry_def lease_active_def split: if_splits)
          then show ?thesis using x own st by auto
        qed
      next
        case True
        then obtain e where e: "heartbeat_expiry T l b = Inr (Some e)" by blast
        have act: "lease_active l" using e by (auto simp: heartbeat_expiry_def lease_active_def split: if_splits)
        note up = update_active_holds[where f = "\<lambda>r. r\<lparr>lr_heartbeat_at := b, lr_expires_at := Some e\<rparr>"
            and g = "beaten b e" and i = i', OF h updates_keep_claim(1) update_rows(1)]
        have row: "lease_id_row i' (update_active i' (\<lambda>r. r\<lparr>lr_heartbeat_at := b, lr_expires_at := Some e\<rparr>) db)
            = Some (lease_row (beaten b e l))"
          by (rule row_after_update[where g = "beaten b e", OF h own(1,2) act updates_keep_claim(1)]) (rule update_rows(1))
        have "(lease_from_row (lease_row (beaten b e l)),
            update_active i' (\<lambda>r. r\<lparr>lr_heartbeat_at := b, lr_expires_at := Some e\<rparr>) db) = (x, db')"
          using body unfolding y by (simp only: prod.case Inr e sum.case option.case Let_def row)
        then have x: "x = Inr (beaten b e l)"
          and d: "db' = update_active i' (\<lambda>r. r\<lparr>lr_heartbeat_at := b, lr_expires_at := Some e\<rparr>) db"
          by (simp_all only: prod.inject lease_from_row_row)
        show ?thesis
          by (rule disjI2, rule exI[of _ i'], rule exI[of _ b], rule exI[of _ e], rule exI[of _ l])
            (intro conjI own(1,2) own(3)[unfolded st] act x e up[folded d])
      qed
    qed
  qed auto
qed

lemma release_cases:
  assumes h: "store_holds db ls" and r: "release T i s t at db = (x, db')"
  shows "db' = db \<and> (\<forall>rr. x = Inr rr \<longrightarrow> \<not> lrr_released rr)
    \<or> (\<exists>i u l. l \<in> set ls \<and> wl_lease_id l = i \<and> lease_active l \<and> lease_owner l = (py_strip s, py_strip t)
    \<and> timestamp T at ''released_at'' = Inr u \<and> release_guard T l u = Inr ()
    \<and> x = Inr \<lparr>lrr_released = True, lrr_already_released = False\<rparr>
    \<and> store_holds db' (map (touch i (released_lease u)) ls) \<and> ld_reservations db' = ld_reservations db)"
proof -
  from lift_res_then[OF r[unfolded release_def]] show ?thesis
  proof (elim disjE exE conjE)
    fix y
    assume args: "res_bind (lease_args i s t) (\<lambda>a. res_bind (timestamp T at ''released_at'') (\<lambda>t. Inr (a, t))) = Inr y"
      and body: "(\<lambda>((i, session, task), released) db. case owned_lease i session task db of
       Inl e \<Rightarrow> (Inl e, db)
     | Inr l \<Rightarrow>
         if wl_released_at l \<noteq> None then (Inr \<lparr>lrr_released = False, lrr_already_released = True\<rparr>, db)
         else case release_guard T l released of
           Inl e \<Rightarrow> (Inl e, db)
         | Inr _ \<Rightarrow> (Inr \<lparr>lrr_released = True, lrr_already_released = False\<rparr>,
                      update_active i (\<lambda>r. r\<lparr>lr_released_at := Some released\<rparr>) db)) y db = (x, db')"
    obtain i' s' t' u where y: "y = ((i', s', t'), u)" by (cases y) auto
    have st: "s' = py_strip s" "t' = py_strip t" "timestamp T at ''released_at'' = Inr u"
      using args y by (auto simp: lease_args_def lease_text_def Let_def split: if_splits)
    show ?thesis
    proof (cases "owned_lease i' s' t' db")
      case (Inl e)
      then show ?thesis using body y by auto
    next
      case (Inr l)
      note own = owned_lease_Inr[OF h Inr]
      show ?thesis
      proof (cases "wl_released_at l = None \<and> release_guard T l u = Inr ()")
        case False
        then show ?thesis using body y Inr by (cases "release_guard T l u") (auto split: if_splits)
      next
        case True
        note up = update_active_holds[where f = "\<lambda>r. r\<lparr>lr_released_at := Some u\<rparr>"
            and g = "released_lease u" and i = i', OF h updates_keep_claim(2) update_rows(2)]
        have "(Inr \<lparr>lrr_released = True, lrr_already_released = False\<rparr>,
            update_active i' (\<lambda>r. r\<lparr>lr_released_at := Some u\<rparr>) db) = (x, db')"
          using body True unfolding y by (simp only: prod.case Inr sum.case if_False simp_thms)
        then have x: "x = Inr \<lparr>lrr_released = True, lrr_already_released = False\<rparr>"
          and d: "db' = update_active i' (\<lambda>r. r\<lparr>lr_released_at := Some u\<rparr>) db"
          by (simp_all only: prod.inject)
        show ?thesis
          by (rule disjI2, rule exI[of _ i'], rule exI[of _ u], rule exI[of _ l])
            (use True own st x up d in \<open>simp_all add: lease_active_def\<close>)
      qed
    qed
  qed auto
qed

lemma reconcile_stale_cases:
  assumes h: "store_holds db ls" and r: "reconcile_stale T i s t v db = (x, db')"
  shows "db' = db \<and> isl x \<or> (\<exists>i u l. l \<in> set ls \<and> wl_lease_id l = i \<and> lease_active l \<and> reconcile_guard T l u = Inr () \<and> u = py_strip (wo_observed_at v)
    \<and> lease_owner l = (py_strip s, py_strip t)
    \<and> x = Inr (case reconciliation_quarantine_reason l v of
         None \<Rightarrow> (LEASE_RECONCILED_RELEASED, reconciled None u v l, ''RECONCILED_SAFE_RELEASE'')
       | Some why \<Rightarrow> (LEASE_RECONCILED_QUARANTINED, reconciled (Some why) u v l, why))
    \<and> store_holds db' (map (touch i (reconciled (reconciliation_quarantine_reason l v) u v)) ls)
    \<and> ld_reservations db' = ld_reservations db)"
proof -
  from lift_res_then[OF r[unfolded reconcile_stale_def]] show ?thesis
  proof (elim disjE exE conjE)
    fix y
    assume args: "res_bind (lease_args i s t) (\<lambda>a. res_bind (timestamp T (TimeText (wo_observed_at v)) ''observed_at'')
        (\<lambda>o'. Inr (a, o'))) = Inr y"
      and body: "(\<lambda>((i, session, task), observed) db. case owned_lease i session task db of
       Inl e \<Rightarrow> (Inl e, db)
     | Inr l \<Rightarrow> (case reconcile_guard T l observed of
         Inl e \<Rightarrow> (Inl e, db)
       | Inr _ \<Rightarrow>
           (let reason = reconciliation_quarantine_reason l v;
                db' = update_active i (reconcile_row reason observed v) db in
            (res_bind (case lease_id_row i db' of
                 None \<Rightarrow> Inl (WorkerLeaseErr ''LEASE_DATA_INVALID'') | Some r \<Rightarrow> lease_from_row r) (\<lambda>l'.
               Inr (case reason of
                  None \<Rightarrow> (LEASE_RECONCILED_RELEASED, l', ''RECONCILED_SAFE_RELEASE'')
                | Some why \<Rightarrow> (LEASE_RECONCILED_QUARANTINED, l', why))), db')))) y db = (x, db')"
    obtain i' s' t' u where y: "y = ((i', s', t'), u)" by (cases y) auto
    have st: "s' = py_strip s" "t' = py_strip t" "u = py_strip (wo_observed_at v)"
      using args y by (auto simp: lease_args_def lease_text_def timestamp_def Let_def split: if_splits)
    show ?thesis
    proof (cases "owned_lease i' s' t' db")
      case (Inl e)
      then show ?thesis using body y by auto
    next
      case (Inr l)
      note own = owned_lease_Inr[OF h Inr]
      define reason where "reason = reconciliation_quarantine_reason l v"
      show ?thesis
      proof (cases "reconcile_guard T l u")
        case (Inl e)
        then show ?thesis using body y Inr by auto
      next
        case guard: (Inr z)
        then have g: "reconcile_guard T l u = Inr ()" by simp
        have act: "lease_active l" using g by (auto simp: reconcile_guard_def lease_active_def split: if_splits)
        note up = update_active_holds[where f = "reconcile_row reason u v" and g = "reconciled reason u v" and i = i',
            OF h updates_keep_claim(3) update_rows(3)]
        have row: "lease_id_row i' (update_active i' (reconcile_row reason u v) db) = Some (lease_row (reconciled reason u v l))"
          by (rule row_after_update[where g = "reconciled reason u v", OF h own(1,2) act updates_keep_claim(3)])
            (rule update_rows(3))
        have "(res_bind (lease_from_row (lease_row (reconciled reason u v l))) (\<lambda>l'.
               Inr (case reason of
                  None \<Rightarrow> (LEASE_RECONCILED_RELEASED, l', ''RECONCILED_SAFE_RELEASE'')
                | Some why \<Rightarrow> (LEASE_RECONCILED_QUARANTINED, l', why))),
            update_active i' (reconcile_row reason u v) db) = (x, db')"
          using body unfolding y reason_def[symmetric]
          by (simp only: prod.case Inr g sum.case Let_def reason_def[symmetric] row option.case)
        then have x: "x = Inr (case reason of
         None \<Rightarrow> (LEASE_RECONCILED_RELEASED, reconciled None u v l, ''RECONCILED_SAFE_RELEASE'')
       | Some why \<Rightarrow> (LEASE_RECONCILED_QUARANTINED, reconciled (Some why) u v l, why))"
          and d: "db' = update_active i' (reconcile_row reason u v) db"
          by (cases reason; simp only: prod.inject lease_from_row_row res_bind.simps option.case)+
        have "store_holds db' (map (touch i' (reconciled reason u v)) ls)" "ld_reservations db' = ld_reservations db"
          unfolding d by (rule up)+
        then show ?thesis using own act g x st unfolding reason_def by blast
      qed
    qed
  qed auto
qed

section \<open>Operations on reservations\<close>

lemma provisioning_record_owner:
  assumes "provisioning_record_from_row T r = Inr p"
  shows "pv_session_id p = py_strip (rr_session_id r)" "pv_task_id p = py_strip (rr_task_id r)"
    "pv_state p = map upper_char (py_strip (rr_state r))"
  using assms by (auto simp: provisioning_record_from_row_def reservation_data_invalid_def lease_text_def Let_def
      split: sum.splits exn.splits if_splits)

lemma set_reservation_holds:
  assumes h: "store_holds db ls" and row: "row \<in> set (ld_reservations db)" "rr_reservation_id row = i"
    and idx: "reservation_indexes_ok (set_reservation i target worker obs db)"
    and free: "target = ''PROVISIONED'' \<Longrightarrow> \<not> foreign_lease worker (rr_session_id row) (rr_task_id row) db"
  shows "store_holds (set_reservation i target worker obs db) ls"
proof -
  define upd where "upd = (\<lambda>r :: ReservationRow. if rr_reservation_id r = i
        then r\<lparr>rr_state := target, rr_worker_id := worker, rr_updated_at := obs\<rparr> else r)"
  have rows: "ld_reservations (set_reservation i target worker obs db) = map upd (ld_reservations db)"
    and leases: "ld_leases (set_reservation i target worker obs db) = ld_leases db"
    by (simp_all add: set_reservation_def upd_def)
  have upd: "rr_reservation_id (upd r) = rr_reservation_id r" "rr_session_id (upd r) = rr_session_id r"
    "rr_task_id (upd r) = rr_task_id r" for r by (simp_all add: upd_def)
  have t: "ld_leases db = map lease_row ls" using h by (simp add: store_holds_def)
  have ids: "inj_on rr_reservation_id (set (ld_reservations db))"
    using h by (simp add: store_holds_def reservations_ok_def distinct_map)
  have "fence_ok ls (map upd (ld_reservations db))"
    unfolding fence_ok_def
  proof (intro ballI impI, elim conjE)
    fix r' l
    assume "r' \<in> set (map upd (ld_reservations db))" and l: "l \<in> set ls" "lease_active l"
      and st: "rr_state r' = ''PROVISIONED''" and w: "rr_worker_id r' = Some (wl_worker_id l)"
    then obtain r where r: "r \<in> set (ld_reservations db)" "r' = upd r" by auto
    show "lease_owner l = (rr_session_id r', rr_task_id r')"
    proof (cases "rr_reservation_id r = i")
      case False
      then have "r' = r" using r(2) by (simp add: upd_def)
      then show ?thesis using h l st w r(1) unfolding store_holds_def fence_ok_def by blast
    next
      case True
      then have "r = row" using ids r(1) row unfolding inj_on_def by metis
      moreover have "target = ''PROVISIONED''" "worker = Some (wl_worker_id l)" using True st w r(2) by (simp_all add: upd_def)
      ultimately have nf: "\<not> foreign_lease (Some (wl_worker_id l)) (rr_session_id r) (rr_task_id r) db" using free by simp
      have inj: "inj_on wl_worker_id {l \<in> set ls. lease_active l}" using h by (simp add: store_holds_def leases_ok_def)
      have "fetchone (\<lambda>m. wl_worker_id m = wl_worker_id l \<and> lease_active m) ls = Some l"
        by (rule fetchone_unique) (use l inj in \<open>auto simp: inj_on_def\<close>)
      then have "worker_row (wl_worker_id l) db = Some (lease_row l)" by (simp add: table_rows(2)[OF t])
      then show ?thesis using nf r(2) by (simp add: foreign_lease_def lease_owner_def upd)
    qed
  qed
  then show ?thesis using h idx unfolding store_holds_def reservations_ok_def rows leases
    by (simp add: upd o_def)
qed

lemma move_reservation_cases:
  assumes h: "store_holds db ls" and r: "move_reservation T i s t target worker obs db = (x, db')"
  shows "db' = db \<or> (\<exists>row. row \<in> set (ld_reservations db) \<and> rr_reservation_id row = i
     \<and> (rr_session_id row, rr_task_id row) = (s, t)
     \<and> target \<in> set (reservation_transitions (map upper_char (py_strip (rr_state row))))
     \<and> db' = set_reservation i target worker obs db \<and> store_holds db' ls)"
proof (cases "reservation_row i db")
  case None
  then show ?thesis using r by (simp add: move_reservation_def)
next
  case (Some row)
  then have row: "row \<in> set (ld_reservations db)" "rr_reservation_id row = i"
    unfolding reservation_row_def by (auto dest!: fetchone_Some)
  show ?thesis
  proof (cases "provisioning_record_from_row T row")
    case (Inl e)
    then show ?thesis using r Some by (simp add: move_reservation_def)
  next
    case (Inr cur)
    note c = provisioning_record_owner[OF Inr]
    have strip: "py_strip (rr_session_id row) = rr_session_id row" "py_strip (rr_task_id row) = rr_task_id row"
      using h row by (auto simp: store_holds_def reservations_ok_def)
    define db1 where "db1 = set_reservation i target worker obs db"
    show ?thesis
    proof (cases "pv_session_id cur = s \<and> pv_task_id cur = t \<and> target \<in> set (reservation_transitions (pv_state cur))
        \<and> \<not> (target = ''PROVISIONED'' \<and> foreign_lease worker s t db) \<and> reservation_indexes_ok db1")
      case False
      then show ?thesis using r Some Inr
        by (auto simp: move_reservation_def Let_def db1_def[symmetric]
            split: if_splits)
    next
      case True
      have own: "rr_session_id row = s" "rr_task_id row = t" using True c strip by simp_all
      have hold: "store_holds db1 ls"
        unfolding db1_def by (rule set_reservation_holds[OF h row]) (use True own db1_def in auto)
      have "db' = db \<or> db' = db1" using r Some Inr True
        by (auto simp: move_reservation_def Let_def db1_def[symmetric]
            split: if_splits option.splits sum.splits)
      then show ?thesis
      proof
        assume "db' = db1"
        then show ?thesis using hold row own True c(3) db1_def by metis
      qed simp
    qed
  qed
qed

definition consuming_count :: "LeaseDb \<Rightarrow> nat" where
  "consuming_count db = length (filter (\<lambda>r. rr_state r \<in> set CONSUMING_STATES) (ld_reservations db))"

definition fresh_reservation :: "ReservationRow \<Rightarrow> bool" where
  "fresh_reservation r \<longleftrightarrow> rr_state r = ''PRE_PROVISION'' \<and> rr_worker_id r = None
     \<and> py_strip (rr_session_id r) = rr_session_id r \<and> py_strip (rr_task_id r) = rr_task_id r"

lemma append_reservation_holds:
  assumes h: "store_holds db ls" and fresh: "fresh_reservation row"
    and id: "reservation_row (rr_reservation_id row) db = None"
    and owner: "owner_reservation (rr_session_id row) (rr_task_id row) db = None"
  shows "store_holds (db\<lparr>ld_reservations := ld_reservations db @ [row]\<rparr>) ls"
proof -
  have new_id: "rr_reservation_id row \<notin> rr_reservation_id ` set (ld_reservations db)"
    using id by (auto simp: reservation_row_def fetchone_None)
  have new_owner: "\<forall>r \<in> set (ld_reservations db). rr_state r \<noteq> ''RELEASED'' \<longrightarrow>
      (rr_session_id r, rr_task_id r) \<noteq> (rr_session_id row, rr_task_id row)"
    using owner by (auto simp: owner_reservation_def fetchone_None)
  have "reservation_indexes_ok (db\<lparr>ld_reservations := ld_reservations db @ [row]\<rparr>)"
    using h fresh new_owner
    by (auto simp: store_holds_def reservations_ok_def reservation_indexes_ok_def Let_def fresh_reservation_def)
  moreover have "fence_ok ls (ld_reservations db @ [row])"
    using h fresh by (auto simp: store_holds_def fence_ok_def fresh_reservation_def)
  ultimately show ?thesis using h fresh new_id by (simp add: store_holds_def reservations_ok_def fresh_reservation_def)
qed

lemma reserve_worker_cases:
  assumes h: "store_holds db ls" and fresh: "fresh_reservation row"
    and r: "reserve_worker T mx row sc db = (x, db')"
  shows "db' = db \<or> (db' = db\<lparr>ld_reservations := ld_reservations db @ [row]\<rparr> \<and> store_holds db' ls
    \<and> int (consuming_count db') \<le> mx)"
proof (cases "db' = db")
  case False
  define db1 where "db1 = db\<lparr>ld_reservations := ld_reservations db @ [row]\<rparr>"
  define active where "active = filter (\<lambda>r. rr_state r \<in> set CONSUMING_STATES) (ld_reservations db)"
  have own: "owner_reservation (rr_session_id row) (rr_task_id row) db = None"
    using r False by (auto simp: reserve_worker_def split: option.splits)
  have room: "int (length active) < mx" and ins: "insert_reservation T row db = (x, db')"
    using r own False unfolding reserve_worker_def Let_def active_def[symmetric]
    by (auto split: sum.splits if_splits)
  have id: "reservation_row (rr_reservation_id row) db = None" and db': "db' = db1"
    using ins False unfolding insert_reservation_def Let_def db1_def[symmetric]
    by (auto split: if_splits option.splits sum.splits)
  have "consuming_count db' = Suc (length active)"
    using fresh by (simp add: db' db1_def consuming_count_def active_def fresh_reservation_def CONSUMING_STATES_def)
  then show ?thesis using append_reservation_holds[OF h fresh id own] room by (simp add: db' db1_def)
qed simp

lemma acquire_provisioning_cases:
  assumes h: "store_holds db ls"
    and r: "acquire_provisioning_reservation T i s t k mx now pj wt sc db = (x, db')"
  shows "db' = db \<or> (\<exists>row. db' = db\<lparr>ld_reservations := ld_reservations db @ [row]\<rparr> \<and> store_holds db' ls
    \<and> int (consuming_count db') \<le> mx \<and> mx \<le> 99 \<and> fresh_reservation row)"
proof -
  from lift_res_then[OF r[unfolded acquire_provisioning_reservation_def]] show ?thesis
  proof (elim disjE exE conjE)
    fix y
    assume args: "res_bind (lease_text 128 i ''reservation_id'') (\<lambda>reservation_id.
       res_bind (lease_text 128 s ''session_id'') (\<lambda>session_id.
       res_bind (lease_text 256 t ''task_id'') (\<lambda>task_id.
       res_bind (lease_text 128 k ''runtime_kind'') (\<lambda>runtime_kind.
       res_bind (lease_optional_text pj ''project_id'') (\<lambda>project.
       res_bind (case wt of None \<Rightarrow> Inr None
         | Some w \<Rightarrow> res_bind (lease_text 512 w ''worktree'') (\<lambda>w.
             res_bind (windows_worktree_key w) (\<lambda>k. Inr (Some k)))) (\<lambda>worktree_key.
       res_bind (lease_scope sc ''mutable_scope'') (\<lambda>scope.
       if \<not> (1 \<le> mx \<and> mx \<le> 99) then Inl (ValueErr ''max_extra_workers must be between 1 and 99'') else
       res_bind (timestamp T now ''now'') (\<lambda>observed_at.
       res_bind (timestamp_datetime T (TimeText observed_at) ''now'') (\<lambda>_.
       Inr (\<lparr>rr_reservation_id = reservation_id, rr_session_id = session_id, rr_task_id = task_id,
            rr_runtime_kind = runtime_kind, rr_state = ''PRE_PROVISION'', rr_worker_id = None,
            rr_acquired_at = observed_at, rr_updated_at = observed_at, rr_project_id = project,
            rr_worktree_key = worktree_key, rr_mutable_scope_json = Some scope\<rparr>, scope)))))))))) = Inr y"
      and body: "(\<lambda>(row, scope). reserve_worker T mx row scope) y db = (x, db')"
    obtain row scope where y: "y = (row, scope)" by (cases y)
    have fresh: "fresh_reservation row" and mx: "mx \<le> 99"
      using args unfolding y
      by (auto simp: res_bind_Inr_iff fresh_reservation_def dest!: lease_text_strip split: if_splits)
    from reserve_worker_cases[OF h fresh, of T mx scope x db'] body y fresh mx show ?thesis by auto
  qed auto
qed

lemma transition_provisioning_cases:
  assumes h: "store_holds db ls"
    and r: "transition_provisioning_reservation T i s t st now w db = (x, db')"
  shows "db' = db \<or> (\<exists>row target worker obs. row \<in> set (ld_reservations db) \<and> rr_reservation_id row = py_strip i
     \<and> (rr_session_id row, rr_task_id row) = (py_strip s, py_strip t)
     \<and> target \<in> set (reservation_transitions (map upper_char (py_strip (rr_state row))))
     \<and> db' = set_reservation (py_strip i) target worker obs db \<and> store_holds db' ls)"
proof -
  from lift_res_then[OF r[unfolded transition_provisioning_reservation_def]] show ?thesis
  proof (elim disjE exE conjE)
    fix y
    assume args: "res_bind (lease_text 128 i ''reservation_id'') (\<lambda>reservation_id.
       res_bind (lease_text 128 s ''session_id'') (\<lambda>session_id.
       res_bind (lease_text 256 t ''task_id'') (\<lambda>task_id.
       res_bind (lease_text 32 st ''state'') (\<lambda>state.
       let target = map upper_char state in
       if target \<notin> {''PROVISIONING'', ''PROVISIONED'', ''CAPACITY'', ''RECOVERY_REQUIRED'', ''RELEASED''}
       then Inl (ValueErr ''provisioning transition state invalid'') else
       res_bind (timestamp T now ''now'') (\<lambda>observed_at.
       res_bind (timestamp_datetime T (TimeText observed_at) ''now'') (\<lambda>_.
       res_bind (lease_optional_text w ''worker_id'') (\<lambda>worker.
       if target \<in> {''PROVISIONED'', ''CAPACITY''} \<and> worker = None
       then Inl (ValueErr ''provisioned/capacity reservation requires worker_id'')
       else Inr (reservation_id, session_id, task_id, target, worker, observed_at)))))))) = Inr y"
      and body: "(\<lambda>(i, session, task, target, worker, observed_at).
        move_reservation T i session task target worker observed_at) y db = (x, db')"
    obtain i' s' t' target worker obs where y: "y = (i', s', t', target, worker, obs)" by (cases y) auto
    have strip: "i' = py_strip i" "s' = py_strip s" "t' = py_strip t"
      using args unfolding y Let_def
      by (auto simp: res_bind_Inr_iff dest!: lease_text_strip split: if_splits)
    from move_reservation_cases[OF h, of T i' s' t' target worker obs x db'] body y strip show ?thesis by simp blast
  qed auto
qed

section \<open>Reachable stores\<close>

inductive lease_step :: "time_lib \<Rightarrow> (string \<Rightarrow> string option) \<Rightarrow> LeaseDb \<Rightarrow> LeaseDb \<Rightarrow> bool" for T res where
  step_try_acquire: "try_acquire_result T res q c i acq ex db = (x, db') \<Longrightarrow> lease_step T res db db'"
| step_heartbeat: "heartbeat T i s t at db = (x, db') \<Longrightarrow> lease_step T res db db'"
| step_reconcile: "reconcile_stale T i s t v db = (x, db') \<Longrightarrow> lease_step T res db db'"
| step_release: "release T i s t at db = (x, db') \<Longrightarrow> lease_step T res db db'"
| step_reserve: "acquire_provisioning_reservation T i s t k mx now pj wt sc db = (x, db') \<Longrightarrow> lease_step T res db db'"
| step_transition: "transition_provisioning_reservation T i s t st now w db = (x, db') \<Longrightarrow> lease_step T res db db'"
| step_reconcile_provisioning: "reconcile_stale_provisioning T i s t now st db = (x, db') \<Longrightarrow> lease_step T res db db'"

inductive lease_reachable :: "time_lib \<Rightarrow> (string \<Rightarrow> string option) \<Rightarrow> LeaseDb \<Rightarrow> bool" for T res where
  reach_init: "lease_reachable T res empty_leases"
| reach_step: "lease_reachable T res db \<Longrightarrow> lease_step T res db db' \<Longrightarrow> lease_reachable T res db'"

lemma empty_holds: "store_holds empty_leases []"
  by (simp add: store_holds_def empty_leases_def leases_ok_def reservations_ok_def reservation_indexes_ok_def
      Let_def fence_ok_def)

lemma lease_step_holds:
  assumes "lease_step T res db db'" and h: "store_holds db ls"
  shows "\<exists>ls'. store_holds db' ls'"
  using assms(1)
proof cases
  case (step_try_acquire q c i acq ex x)
  then show ?thesis using try_acquire_result_cases[OF h step_try_acquire] h by blast
next
  case (step_heartbeat i s t at x)
  then show ?thesis using heartbeat_cases[OF h step_heartbeat] h by blast
next
  case (step_reconcile i s t v x)
  then show ?thesis using reconcile_stale_cases[OF h step_reconcile] h by blast
next
  case (step_release i s t at x)
  then show ?thesis using release_cases[OF h step_release] h by blast
next
  case (step_reserve i s t k mx now pj wt sc x)
  then show ?thesis using acquire_provisioning_cases[OF h step_reserve] h by blast
next
  case (step_transition i s t st now w x)
  then show ?thesis using transition_provisioning_cases[OF h step_transition] h by blast
next
  case (step_reconcile_provisioning i s t now st x)
  then show ?thesis using h by (auto simp: reconcile_stale_provisioning_def)
qed

lemma lease_reachable_holds: "lease_reachable T res db \<Longrightarrow> \<exists>ls. store_holds db ls"
proof (induction rule: lease_reachable.induct)
  case reach_init
  then show ?case using empty_holds by blast
next
  case (reach_step db db')
  then show ?case using lease_step_holds by blast
qed

section \<open>Capacity\<close>

definition capacity_ok :: "LeaseDb \<Rightarrow> bool" where
  "capacity_ok db \<longleftrightarrow> (\<forall>r \<in> set (ld_reservations db). rr_state r \<in> set RESERVATION_STATES) \<and> consuming_count db \<le> 99"

lemma reservation_states_normal:
  "s \<in> set RESERVATION_STATES \<Longrightarrow> map upper_char (py_strip s) = s"
  unfolding RESERVATION_STATES_def by (auto; code_simp)

lemma transition_targets:
  "target \<in> set (reservation_transitions s) \<Longrightarrow> target \<in> set RESERVATION_STATES"
  "target \<in> set (reservation_transitions s) \<Longrightarrow> s \<in> set CONSUMING_STATES"
  by (auto simp: reservation_transitions_def RESERVATION_STATES_def CONSUMING_STATES_def split: if_splits)

lemma filter_map_le:
  assumes "\<And>x. x \<in> set xs \<Longrightarrow> Q (f x) \<Longrightarrow> Q x"
  shows "length (filter Q (map f xs)) \<le> length (filter Q xs)"
  using assms by (induction xs) auto

lemma set_reservation_capacity:
  assumes c: "capacity_ok db" and ids: "distinct (map rr_reservation_id (ld_reservations db))"
    and row: "row \<in> set (ld_reservations db)" "rr_reservation_id row = i"
    and tr: "target \<in> set (reservation_transitions (map upper_char (py_strip (rr_state row))))"
  shows "capacity_ok (set_reservation i target worker obs db)"
proof -
  have only: "r = row" if "r \<in> set (ld_reservations db)" "rr_reservation_id r = i" for r
    using ids that row unfolding distinct_map inj_on_def by metis
  have st: "rr_state row \<in> set RESERVATION_STATES" using c row by (simp add: capacity_ok_def)
  have cons: "rr_state row \<in> set CONSUMING_STATES"
    using transition_targets(2)[OF tr] unfolding reservation_states_normal[OF st] .
  have "consuming_count (set_reservation i target worker obs db) \<le> consuming_count db"
    unfolding consuming_count_def set_reservation_def
    by (subst (1) LeaseDb.surjective, simp only: LeaseDb.select_convs LeaseDb.update_convs, rule filter_map_le)
      (use only cons in \<open>auto split: if_splits\<close>)
  moreover have "\<forall>r \<in> set (ld_reservations (set_reservation i target worker obs db)). rr_state r \<in> set RESERVATION_STATES"
    using c transition_targets(1)[OF tr] by (auto simp: capacity_ok_def set_reservation_def)
  ultimately show ?thesis using c by (simp add: capacity_ok_def)
qed

lemma lease_step_capacity:
  assumes "lease_step T res db db'" and h: "store_holds db ls" and c: "capacity_ok db"
  shows "capacity_ok db'"
proof -
  have same: "capacity_ok db'" if "ld_reservations db' = ld_reservations db"
    using c that by (simp add: capacity_ok_def consuming_count_def)
  from assms(1) show ?thesis
  proof cases
    case (step_try_acquire q c' i acq ex x)
    then show ?thesis using try_acquire_result_cases[OF h step_try_acquire] same by blast
  next
    case (step_heartbeat i s t at x)
    then show ?thesis using heartbeat_cases[OF h step_heartbeat] same by blast
  next
    case (step_reconcile i s t v x)
    then show ?thesis using reconcile_stale_cases[OF h step_reconcile] same by blast
  next
    case (step_release i s t at x)
    then show ?thesis using release_cases[OF h step_release] same by blast
  next
    case (step_reserve i s t k mx now pj wt sc x)
    from acquire_provisioning_cases[OF h step_reserve] show ?thesis
      using same c by (auto simp: capacity_ok_def fresh_reservation_def RESERVATION_STATES_def)
  next
    case (step_transition i s t st now w x)
    from transition_provisioning_cases[OF h step_transition] show ?thesis
      using same c set_reservation_capacity h by (auto simp: store_holds_def reservations_ok_def)
  next
    case (step_reconcile_provisioning i s t now st x)
    then show ?thesis using same by (auto simp: reconcile_stale_provisioning_def)
  qed
qed

lemma lease_reachable_capacity: "lease_reachable T res db \<Longrightarrow> capacity_ok db"
proof (induction rule: lease_reachable.induct)
  case reach_init
  then show ?case by (simp add: capacity_ok_def consuming_count_def empty_leases_def)
next
  case (reach_step db db')
  then show ?case using lease_step_capacity lease_reachable_holds by blast
qed

end
