(* ===== verification/Lease_Broker.thy ===== *)
theory Lease_Broker
  imports Lease_Invariant
begin

text \<open>
  The lease broker, \<^verbatim>\<open>WorkerLeaseBroker\<close> of \<^verbatim>\<open>src/src/a_conductor/worker_lease.py\<close>: the ordered
  search for a worker over an injected store. The store is a record of the methods the
  broker calls; the hotspot resolver is optional, as in the source. The clock is read once
  (\<open>now\<close>), the \<open>k\<close>-th call of the id factory returns \<open>ids k\<close>. What the broker relies on is the
  locale \<open>lease_provider\<close>, interpreted on the SQLite store.
\<close>

section \<open>Definitions\<close>

record 's lease_store_api =
  ls_find :: "string \<Rightarrow> string \<Rightarrow> 's \<Rightarrow> exn + WorkerLease option"
  ls_health :: "string \<Rightarrow> time_arg \<Rightarrow> 's \<Rightarrow> exn + (LeaseHealthKind \<times> WorkerLease)"
  ls_acquire :: "WorkerLeaseRequest \<Rightarrow> WorkerLeaseCandidate \<Rightarrow> string \<Rightarrow> time_arg
     \<Rightarrow> ('s, WorkerLease option \<times> bool) action"
  ls_resolver :: "(string \<Rightarrow> exn + string) option"

datatype LeaseOutcomeKind = LO_LEASED | LO_EXISTING | LO_RECOVERY_REQUIRED | LO_RDC_READ_ONLY | LO_WAIT

type_synonym CandidateRejection = "string \<times> CandidateRejectionKind"

record WorkerLeaseOutcome =
  oc_kind :: LeaseOutcomeKind
  oc_lease :: "WorkerLease option"
  oc_rejections :: "CandidateRejection list"

fun candidates_by_worker ::
  "WorkerLeaseCandidate list \<Rightarrow> (string \<times> WorkerLeaseCandidate) list
     \<Rightarrow> exn + (string \<times> WorkerLeaseCandidate) list" where
  "candidates_by_worker [] d = Inr d"
| "candidates_by_worker (c # cs) d =
     (if map_of d (wc_worker_id c) \<noteq> None then Inl (ValueErr ''candidate worker_id must be unique'')
      else candidates_by_worker cs (AList.update (wc_worker_id c) c d))"

definition propose_lease ::
  "'s lease_store_api \<Rightarrow> WorkerLeaseRequest \<Rightarrow> WorkerLeaseCandidate \<Rightarrow> string \<Rightarrow> time_arg
     \<Rightarrow> ('s, WorkerLease option \<times> bool) action" where
  "propose_lease S q c i now = andthen (lift_res (lease_text 128 i ''lease_id'')) (\<lambda>i. ls_acquire S q c i now)"

definition exhausted :: "WorkerLeaseRequest \<Rightarrow> CandidateRejection list \<Rightarrow> WorkerLeaseOutcome" where
  "exhausted q rejections =
     \<lparr>oc_kind = (if wq_mutation_intent q = LM_READ_ONLY \<and> wq_rdc_fallback_eligible q then LO_RDC_READ_ONLY else LO_WAIT),
      oc_lease = None, oc_rejections = rejections\<rparr>"

fun broker_loop ::
  "'s lease_store_api \<Rightarrow> WorkerLeaseRequest \<Rightarrow> (string \<Rightarrow> WorkerLeaseCandidate option) \<Rightarrow> (nat \<Rightarrow> string) \<Rightarrow> time_arg
     \<Rightarrow> nat \<Rightarrow> string list \<Rightarrow> CandidateRejection list \<Rightarrow> ('s, WorkerLeaseOutcome) action" where
  "broker_loop S q by_worker ids now k [] rej s = (Inr (exhausted q rej), s)"
| "broker_loop S q by_worker ids now k (w # ws) rej s =
     (case by_worker w of
        None \<Rightarrow> broker_loop S q by_worker ids now k ws (rej @ [(w, CANDIDATE_MISSING)]) s
      | Some c \<Rightarrow> (case preflight q c of
          Some reason \<Rightarrow> broker_loop S q by_worker ids now k ws (rej @ [(w, reason)]) s
        | None \<Rightarrow> (case propose_lease S q c (ids k) now s of
            (Inl e, s') \<Rightarrow>
              if e = WorkerLeaseErr ''MUTABLE_SCOPE_OVERLAP''
              then broker_loop S q by_worker ids now (Suc k) ws (rej @ [(w, MUTABLE_SCOPE_OVERLAP)]) s'
              else (Inl e, s')
          | (Inr (Some l, created), s') \<Rightarrow>
              (Inr \<lparr>oc_kind = (if created then LO_LEASED else LO_EXISTING), oc_lease = Some l, oc_rejections = rej\<rparr>, s')
          | (Inr (None, created), s') \<Rightarrow>
              broker_loop S q by_worker ids now (Suc k) ws (rej @ [(w, LEASE_BUSY)]) s')))"

definition broker_hotspot :: "'s lease_store_api \<Rightarrow> WorkerLeaseRequest \<Rightarrow> exn + string option" where
  "broker_hotspot S q =
     (if wq_mutation_intent q = LM_MUTATION then
        (case ls_resolver S of None \<Rightarrow> Inr None
         | Some resolver \<Rightarrow> res_bind (resolver (wq_worktree q)) (\<lambda>h. Inr (Some h)))
      else Inr None)"

definition broker_existing ::
  "'s lease_store_api \<Rightarrow> WorkerLeaseRequest \<Rightarrow> string option \<Rightarrow> WorkerLease \<Rightarrow> time_arg \<Rightarrow> 's \<Rightarrow> exn + WorkerLeaseOutcome" where
  "broker_existing S q hotspot existing now s =
     res_bind (require_matching_request q existing hotspot) (\<lambda>matching.
     res_bind (ls_health S (wl_lease_id matching) now s) (\<lambda>(kind, lease).
     res_bind (require_matching_request q lease hotspot) (\<lambda>latest.
     Inr \<lparr>oc_kind = (if kind = LH_ACTIVE then LO_EXISTING else LO_RECOVERY_REQUIRED),
          oc_lease = Some latest, oc_rejections = []\<rparr>)))"

definition broker_acquire ::
  "'s lease_store_api \<Rightarrow> (nat \<Rightarrow> string) \<Rightarrow> time_arg \<Rightarrow> WorkerLeaseRequest \<Rightarrow> WorkerLeaseCandidate list
     \<Rightarrow> ('s, WorkerLeaseOutcome) action" where
  "broker_acquire S ids now q candidates s =
     (case broker_hotspot S q of
        Inl e \<Rightarrow> (Inl e, s)
      | Inr hotspot \<Rightarrow> (case ls_find S (wq_session_id q) (wq_task_id q) s of
          Inl e \<Rightarrow> (Inl e, s)
        | Inr (Some existing) \<Rightarrow> (broker_existing S q hotspot existing now s, s)
        | Inr None \<Rightarrow> (case candidates_by_worker candidates [] of
            Inl e \<Rightarrow> (Inl e, s)
          | Inr d \<Rightarrow> broker_loop S q (map_of d) ids now 0 (wq_ordered_worker_ids q) [] s)))"

definition sqlite_lease_store :: "time_lib \<Rightarrow> (string \<Rightarrow> string option) \<Rightarrow> LeaseDb lease_store_api" where
  "sqlite_lease_store T resolver =
     \<lparr>ls_find = find_active_owner_task, ls_health = inspect_health T,
      ls_acquire = (\<lambda>q c i now. try_acquire_result T resolver q c i now None),
      ls_resolver = Some (resolve_mutation_hotspot resolver)\<rparr>"

section \<open>What the broker relies on\<close>

text \<open>Why a worker was passed over, given the active leases and the fenced workers.\<close>

fun rejected_because ::
  "WorkerLease list \<Rightarrow> (string \<Rightarrow> string \<times> string \<Rightarrow> bool) \<Rightarrow> WorkerLeaseRequest
     \<Rightarrow> (string \<Rightarrow> WorkerLeaseCandidate option) \<Rightarrow> CandidateRejection \<Rightarrow> bool" where
  "rejected_because held fenced q by_worker (w, why) \<longleftrightarrow> (case by_worker w of
     None \<Rightarrow> why = CANDIDATE_MISSING
   | Some c \<Rightarrow> preflight q c = Some why \<or> preflight q c = None \<and>
       (why = LEASE_BUSY \<and> (w \<in> wl_worker_id ` set held \<or> fenced w (wq_session_id q, wq_task_id q))
        \<or> why = MUTABLE_SCOPE_OVERLAP \<and>
          (\<exists>m \<in> set held. lease_mutating m \<and> write_sets_overlap (wq_mutable_scope q) (wl_mutable_scope m))))"

locale lease_provider =
  fixes S :: "'s lease_store_api"
    and held :: "'s \<Rightarrow> WorkerLease list"
    and fenced :: "'s \<Rightarrow> string \<Rightarrow> string \<times> string \<Rightarrow> bool"
    and ok :: "'s \<Rightarrow> bool"
  assumes find_some: "ok s \<Longrightarrow> ls_find S a b s = Inr (Some l) \<Longrightarrow> l \<in> set (held s) \<and> lease_owner l = (py_strip a, py_strip b)"
    and find_none: "ok s \<Longrightarrow> ls_find S a b s = Inr None \<Longrightarrow> (py_strip a, py_strip b) \<notin> lease_owner ` set (held s)"
    and health_same: "ok s \<Longrightarrow> l \<in> set (held s) \<Longrightarrow> ls_health S (wl_lease_id l) now s = Inr (k, m) \<Longrightarrow> m = l"
    and acquire_raise: "ok s \<Longrightarrow> ls_acquire S q c i now s = (Inl e, s') \<Longrightarrow> s' = s"
    and acquire_overlap: "ok s \<Longrightarrow> ls_acquire S q c i now s = (Inl (WorkerLeaseErr ''MUTABLE_SCOPE_OVERLAP''), s') \<Longrightarrow>
      \<exists>m \<in> set (held s). lease_mutating m \<and> write_sets_overlap (wq_mutable_scope q) (wl_mutable_scope m)"
    and acquire_busy: "ok s \<Longrightarrow> ls_acquire S q c i now s = (Inr (None, u), s') \<Longrightarrow> s' = s \<and>
      (wc_worker_id c \<in> wl_worker_id ` set (held s) \<or> fenced s (wc_worker_id c) (wq_session_id q, wq_task_id q))"
    and acquire_old: "ok s \<Longrightarrow> ls_acquire S q c i now s = (Inr (Some l, False), s') \<Longrightarrow>
      s' = s \<and> l \<in> set (held s) \<and> lease_owner l = (wq_session_id q, wq_task_id q)"
    and acquire_new: "ok s \<Longrightarrow> ls_acquire S q c i now s = (Inr (Some l, True), s') \<Longrightarrow> ok s' \<and> held s' = held s @ [l]
      \<and> wl_worker_id l = wc_worker_id c \<and> lease_owner l = (wq_session_id q, wq_task_id q)
      \<and> wl_mutable_scope l = wq_mutable_scope q \<and> wl_mutation_intent l = wq_mutation_intent q"
begin

lemma propose_cases:
  assumes s: "ok s" and r: "propose_lease S q c i now s = (r, s')"
    and no: "(wq_session_id q, wq_task_id q) \<notin> lease_owner ` set (held s)"
  shows "(\<exists>e. r = Inl e \<and> s' = s \<and> (e = WorkerLeaseErr ''MUTABLE_SCOPE_OVERLAP'' \<longrightarrow>
        (\<exists>m \<in> set (held s). lease_mutating m \<and> write_sets_overlap (wq_mutable_scope q) (wl_mutable_scope m))))
    \<or> (\<exists>b. r = Inr (None, b) \<and> s' = s \<and>
        (\<not> fenced s (wc_worker_id c) (wq_session_id q, wq_task_id q) \<longrightarrow> wc_worker_id c \<in> wl_worker_id ` set (held s)))
    \<or> (\<exists>l. r = Inr (Some l, True) \<and> ok s' \<and> held s' = held s @ [l] \<and> wl_worker_id l = wc_worker_id c
        \<and> lease_owner l = (wq_session_id q, wq_task_id q)
        \<and> wl_mutable_scope l = wq_mutable_scope q \<and> wl_mutation_intent l = wq_mutation_intent q)"
proof -
  from lift_res_then[OF r[unfolded propose_lease_def]] consider
    (bad) e where "lease_text 128 i ''lease_id'' = Inl e" "r = Inl e" "s' = s"
    | (call) y where "ls_acquire S q c y now s = (r, s')" by blast
  then show ?thesis
  proof cases
    case bad
    then have "e \<noteq> WorkerLeaseErr ''MUTABLE_SCOPE_OVERLAP''" by (auto simp: lease_text_def Let_def split: if_splits)
    then show ?thesis using bad by blast
  next
    case call
    show ?thesis
    proof (cases r)
      case (Inl e)
      then have c: "ls_acquire S q c y now s = (Inl e, s')" using call by simp
      have "\<exists>m \<in> set (held s). lease_mutating m \<and> write_sets_overlap (wq_mutable_scope q) (wl_mutable_scope m)"
        if "e = WorkerLeaseErr ''MUTABLE_SCOPE_OVERLAP''"
        by (rule acquire_overlap[OF s c[unfolded that]])
      then show ?thesis using acquire_raise[OF s c] Inl by (intro disjI1 exI[of _ e]) simp
    next
      case (Inr p)
      obtain lo b where p: "p = (lo, b)" by (cases p)
      show ?thesis
      proof (cases lo)
        case None
        then have c: "ls_acquire S q c y now s = (Inr (None, b), s')" using call Inr p by simp
        show ?thesis using acquire_busy[OF s c] Inr p None by (intro disjI2 disjI1 exI[of _ b]) auto
      next
        case (Some l)
        then have c: "ls_acquire S q c y now s = (Inr (Some l, b), s')" using call Inr p by simp
        have b: "b"
        proof (rule ccontr)
          assume "\<not> b"
          then have "ls_acquire S q c y now s = (Inr (Some l, False), s')" using c by simp
          from acquire_old[OF s this] no show False by force
        qed
        then have "ls_acquire S q c y now s = (Inr (Some l, True), s')" using c by simp
        from acquire_new[OF s this] show ?thesis using Inr p Some b by (intro disjI2 exI[of _ l]) simp
      qed
    qed
  qed
qed

lemma broker_loop_outcome:
  assumes "ok s" and "(wq_session_id q, wq_task_id q) \<notin> lease_owner ` set (held s)"
    and "\<And>w c. by_worker w = Some c \<Longrightarrow> wc_worker_id c = w"
    and "broker_loop S q by_worker ids now k ws rej s = (r, s')"
  shows "(\<exists>e. r = Inl e \<and> s' = s)
    \<or> (\<exists>rs. r = Inr (exhausted q (rej @ rs)) \<and> s' = s \<and> map fst rs = ws \<and> list_all (rejected_because (held s) (fenced s) q by_worker) rs)
    \<or> (\<exists>rs l c ws'. r = Inr \<lparr>oc_kind = LO_LEASED, oc_lease = Some l, oc_rejections = rej @ rs\<rparr>
        \<and> ws = map fst rs @ wl_worker_id l # ws' \<and> list_all (rejected_because (held s) (fenced s) q by_worker) rs
        \<and> by_worker (wl_worker_id l) = Some c \<and> preflight q c = None
        \<and> ok s' \<and> held s' = held s @ [l] \<and> lease_owner l = (wq_session_id q, wq_task_id q)
        \<and> wl_mutable_scope l = wq_mutable_scope q \<and> wl_mutation_intent l = wq_mutation_intent q)"
  using assms(4)
proof (induction ws arbitrary: rej k)
  case Nil
  then show ?case by auto
next
  case (Cons w ws)
  have next_one: ?case
    if "broker_loop S q by_worker ids now k' ws (rej @ [(w, why)]) s = (r, s')" "rejected_because (held s) (fenced s) q by_worker (w, why)"
    for k' why
  proof -
    from Cons.IH[OF that(1)] show ?thesis
    proof (elim disjE exE conjE)
      fix rs
      assume "r = Inr (exhausted q ((rej @ [(w, why)]) @ rs))" "s' = s" "map fst rs = ws" "list_all (rejected_because (held s) (fenced s) q by_worker) rs"
      then show ?thesis using that(2) by (intro disjI2 disjI1 exI[of _ "(w, why) # rs"]) simp
    next
      fix rs l c ws'
      assume "r = Inr \<lparr>oc_kind = LO_LEASED, oc_lease = Some l, oc_rejections = (rej @ [(w, why)]) @ rs\<rparr>"
        "ws = map fst rs @ wl_worker_id l # ws'" "list_all (rejected_because (held s) (fenced s) q by_worker) rs"
        "by_worker (wl_worker_id l) = Some c" "preflight q c = None" "ok s'" "held s' = held s @ [l]"
        "lease_owner l = (wq_session_id q, wq_task_id q)"
        "wl_mutable_scope l = wq_mutable_scope q" "wl_mutation_intent l = wq_mutation_intent q"
      then show ?thesis using that(2)
        by (intro disjI2 exI[of _ "(w, why) # rs"] exI[of _ l] exI[of _ c] exI[of _ ws']) simp
    qed simp
  qed
  show ?case
  proof (cases "by_worker w")
    case None
    then show ?thesis using next_one[of k CANDIDATE_MISSING] Cons.prems by simp
  next
    case c: (Some c)
    have wid: "wc_worker_id c = w" by (rule assms(3)[OF c])
    show ?thesis
    proof (cases "preflight q c")
      case (Some why)
      then show ?thesis using next_one[of k why] Cons.prems c by simp
    next
      case None
      obtain x s1 where p: "propose_lease S q c (ids k) now s = (x, s1)" by fastforce
      from propose_cases[OF assms(1) p assms(2)] show ?thesis
      proof (elim disjE exE conjE)
        fix e
        assume e: "x = Inl e" "s1 = s" "e = WorkerLeaseErr ''MUTABLE_SCOPE_OVERLAP'' \<longrightarrow>
          (\<exists>m \<in> set (held s). lease_mutating m \<and> write_sets_overlap (wq_mutable_scope q) (wl_mutable_scope m))"
        show ?thesis
        proof (cases "e = WorkerLeaseErr ''MUTABLE_SCOPE_OVERLAP''")
          case True
          then show ?thesis using next_one[of "Suc k" MUTABLE_SCOPE_OVERLAP] Cons.prems c None p e by simp
        next
          case False
          then show ?thesis using Cons.prems c None p e by auto
        qed
      next
        fix b
        assume "x = Inr (None, b)" "s1 = s"
          "\<not> fenced s (wc_worker_id c) (wq_session_id q, wq_task_id q) \<longrightarrow> wc_worker_id c \<in> wl_worker_id ` set (held s)"
        then show ?thesis using next_one[of "Suc k" LEASE_BUSY] Cons.prems c None p wid by auto
      next
        fix l
        assume "x = Inr (Some l, True)" "ok s1" "held s1 = held s @ [l]" "wl_worker_id l = wc_worker_id c"
          "lease_owner l = (wq_session_id q, wq_task_id q)"
          "wl_mutable_scope l = wq_mutable_scope q" "wl_mutation_intent l = wq_mutation_intent q"
        then show ?thesis using Cons.prems c None p wid
          by (intro disjI2 exI[of _ "[]"] exI[of _ l] exI[of _ c] exI[of _ ws]) auto
      qed
    qed
  qed
qed

end

section \<open>The SQLite store provides it\<close>

definition held_leases :: "LeaseDb \<Rightarrow> WorkerLease list" where
  "held_leases db = concat (map (\<lambda>r. case lease_from_row r of Inl _ \<Rightarrow> [] | Inr l \<Rightarrow> [l]) (filter active_row (ld_leases db)))"

definition worker_fenced :: "LeaseDb \<Rightarrow> string \<Rightarrow> string \<times> string \<Rightarrow> bool" where
  "worker_fenced db w owner \<longleftrightarrow> (\<exists>r \<in> set (ld_reservations db). rr_worker_id r = Some w \<and>
     (rr_state r = ''RECOVERY_REQUIRED'' \<or> rr_state r = ''PROVISIONED'' \<and> (rr_session_id r, rr_task_id r) \<noteq> owner))"

definition lease_store_ok :: "LeaseDb \<Rightarrow> bool" where
  "lease_store_ok db \<longleftrightarrow> (\<exists>ls. store_holds db ls)"

lemma held_leases_holds: "store_holds db ls \<Longrightarrow> held_leases db = filter lease_active ls"
proof -
  assume h: "store_holds db ls"
  have "concat (map (\<lambda>r. case lease_from_row r of Inl _ \<Rightarrow> [] | Inr l \<Rightarrow> [l]) (filter active_row (map lease_row ls)))
      = filter lease_active ls" by (induction ls) simp_all
  then show ?thesis using h by (simp add: held_leases_def store_holds_def)
qed

lemma scopes_clash_Inl:
  "scopes_clash s (map lease_row ms) = Inl e \<Longrightarrow> \<exists>m \<in> set ms. write_sets_overlap s (wl_mutable_scope m)"
  by (induction ms) (auto simp: decode_scope_def split: if_splits)

lemma handoff_fenced_worker: "handoff_fenced l db \<Longrightarrow> worker_fenced db (wl_worker_id l) (lease_owner l)"
  by (auto simp: handoff_fenced_def worker_fenced_def lease_owner_def dest!: fetchone_Some split: option.splits)

text \<open>Why the store refuses a lease without raising, or raises for an overlap.\<close>

lemma acquire_lease_refusals:
  assumes h: "store_holds db ls" and r: "acquire_lease q l db = (x, db')"
  shows "x = Inr (None, b) \<Longrightarrow> wl_worker_id l \<in> wl_worker_id ` set (held_leases db) \<or> worker_fenced db (wl_worker_id l) (lease_owner l)"
    "x = Inl (WorkerLeaseErr ''MUTABLE_SCOPE_OVERLAP'') \<Longrightarrow>
      \<exists>m \<in> set (held_leases db). lease_mutating m \<and> write_sets_overlap (wl_mutable_scope l) (wl_mutable_scope m)"
proof -
  have t: "ld_leases db = map lease_row ls" using h by (simp add: store_holds_def)
  note held = held_leases_holds[OF h] and rows = table_rows[OF t]
  have busy: "wl_worker_id l \<in> wl_worker_id ` set (held_leases db)" if "worker_row (wl_worker_id l) db = Some y" for y
  proof -
    from that obtain m where "m \<in> set ls" "wl_worker_id m = wl_worker_id l" "lease_active m"
      by (auto simp: rows dest!: fetchone_Some)
    then show ?thesis by (intro image_eqI[of _ _ m]) (simp_all add: held)
  qed
  assume x: "x = Inr (None, b)"
  show "wl_worker_id l \<in> wl_worker_id ` set (held_leases db) \<or> worker_fenced db (wl_worker_id l) (lease_owner l)"
    using r x busy handoff_fenced_worker
    by (auto simp: acquire_lease_def insert_lease_def require_matching_request_def
        split: option.splits if_splits sum.splits)
next
  have t: "ld_leases db = map lease_row ls" using h by (simp add: store_holds_def)
  note held = held_leases_holds[OF h] and rows = table_rows[OF t]
  assume x: "x = Inl (WorkerLeaseErr ''MUTABLE_SCOPE_OVERLAP'')"
  have key: "windows_worktree_key p \<noteq> Inl (WorkerLeaseErr c)" for p c
    by (simp add: windows_worktree_key_def Let_def split: sum.split)
  have no_owner: "owner_row (wl_session_id l) (wl_task_id l) db = None"
  proof (rule ccontr)
    assume "owner_row (wl_session_id l) (wl_task_id l) db \<noteq> None"
    then obtain m where "owner_row (wl_session_id l) (wl_task_id l) db = Some (lease_row m)" unfolding rows by auto
    then show False using r x key
      by (auto simp: acquire_lease_def require_matching_request_def request_matches_lease_def
          split: if_splits sum.splits)
  qed
  have "admit_mutation l db = Inl (WorkerLeaseErr ''MUTABLE_SCOPE_OVERLAP'')"
    using r x no_owner by (auto simp: acquire_lease_def insert_lease_def split: if_splits sum.splits)
  then have "scopes_clash (wl_mutable_scope l) (map lease_row (filter (\<lambda>m. wl_hotspot_key m = wl_hotspot_key l)
      (filter (\<lambda>l. lease_active l \<and> lease_mutating l) ls))) = Inl (WorkerLeaseErr ''MUTABLE_SCOPE_OVERLAP'')"
    by (auto simp: admit_mutation_def rows filter_map o_def split: if_splits)
  from scopes_clash_Inl[OF this] show "\<exists>m \<in> set (held_leases db). lease_mutating m \<and> write_sets_overlap (wl_mutable_scope l) (wl_mutable_scope m)"
    by (auto simp: held)
qed

lemma timestamp_Inl:
  "timestamp T v f = Inl e \<Longrightarrow> \<exists>x. e = ValueErr x" "timestamp_datetime T v f = Inl e \<Longrightarrow> \<exists>x. e = ValueErr x"
  "timestamp_add_seconds T v n f = Inl e \<Longrightarrow> \<exists>x. e = ValueErr x" "lease_text m w f = Inl e \<Longrightarrow> \<exists>x. e = ValueErr x"
  "lease_optional_text u f = Inl e \<Longrightarrow> \<exists>x. e = ValueErr x"
proof -
  show txt_err: "\<exists>x. e = ValueErr x" if "lease_text m w f = Inl e" for m w f e
    using that by (auto simp: lease_text_def Let_def split: if_splits)
  show ts: "\<exists>x. e = ValueErr x" if "timestamp T v f = Inl e" for v f e
    using that txt_err by (auto simp: timestamp_def split: time_arg.splits)
  show dt: "\<exists>x. e = ValueErr x" if "timestamp_datetime T v f = Inl e" for v f e
    using that ts by (auto simp: timestamp_datetime_def res_bind_Inl_iff split: option.splits)
  show "timestamp_add_seconds T v n f = Inl e \<Longrightarrow> \<exists>x. e = ValueErr x"
    using ts dt by (auto simp: timestamp_add_seconds_def res_bind_Inl_iff)
  show "lease_optional_text u f = Inl e \<Longrightarrow> \<exists>x. e = ValueErr x"
    using txt_err by (auto simp: lease_optional_text_def res_bind_Inl_iff split: option.splits)
qed

lemma try_acquire_args:
  assumes r: "try_acquire_result T res q c i acq ex db = (x, db')"
  shows "(\<exists>e. x = Inl e \<and> db' = db \<and> e \<noteq> WorkerLeaseErr ''MUTABLE_SCOPE_OVERLAP'')
    \<or> (\<exists>l. acquire_lease q l db = (x, db') \<and> wl_worker_id l = wc_worker_id c
        \<and> lease_owner l = (wq_session_id q, wq_task_id q) \<and> wl_mutable_scope l = wq_mutable_scope q)"
proof -
  from lift_res_then[OF r[unfolded try_acquire_result_def]] show ?thesis
  proof (elim disjE exE conjE)
    fix e
    assume "res_bind (lease_text 128 i ''lease_id'') (\<lambda>lease_id.
       res_bind (timestamp T acq ''acquired_at'') (\<lambda>acquired.
       res_bind (lease_optional_text ex ''expires_at'') (\<lambda>expiry.
       res_bind (case expiry of
           None \<Rightarrow> timestamp_add_seconds T (TimeText acquired) (wq_lease_ttl_seconds q) ''expires_at''
         | Some e \<Rightarrow> res_bind (timestamp_datetime T (TimeText e) ''expires_at'') (\<lambda>_. Inr e)) (\<lambda>expiry.
       res_bind (if wq_mutation_intent q = LM_MUTATION
                 then res_bind (resolve_mutation_hotspot res (wq_worktree q)) (\<lambda>h. Inr (Some h))
                 else Inr None) (\<lambda>hotspot.
       new_lease q c lease_id acquired expiry hotspot))))) = Inl e" and x: "x = Inl e" "db' = db"
    then have "(\<exists>y. e = ValueErr y) \<or> e = WorkerLeaseErr ''HOTSPOT_IDENTITY_FAILED''"
      by (auto simp: res_bind_Inl_iff new_lease_def windows_worktree_key_def resolve_mutation_hotspot_def
          dest: timestamp_Inl split: option.splits if_splits sum.splits)
    then show ?thesis using x by auto
  next
    fix l
    assume "res_bind (lease_text 128 i ''lease_id'') (\<lambda>lease_id.
       res_bind (timestamp T acq ''acquired_at'') (\<lambda>acquired.
       res_bind (lease_optional_text ex ''expires_at'') (\<lambda>expiry.
       res_bind (case expiry of
           None \<Rightarrow> timestamp_add_seconds T (TimeText acquired) (wq_lease_ttl_seconds q) ''expires_at''
         | Some e \<Rightarrow> res_bind (timestamp_datetime T (TimeText e) ''expires_at'') (\<lambda>_. Inr e)) (\<lambda>expiry.
       res_bind (if wq_mutation_intent q = LM_MUTATION
                 then res_bind (resolve_mutation_hotspot res (wq_worktree q)) (\<lambda>h. Inr (Some h))
                 else Inr None) (\<lambda>hotspot.
       new_lease q c lease_id acquired expiry hotspot))))) = Inr l" and a: "acquire_lease q l db = (x, db')"
    then obtain i' acq' ex' hs where "new_lease q c i' acq' ex' hs = Inr l" by (simp only: res_bind_Inr_iff) blast
    from new_lease_fields[OF this] a show ?thesis by blast
  qed
qed

lemma find_active_fetch:
  assumes "store_holds db ls" and "find_active_owner_task a b db = Inr r"
  shows "r = fetchone (\<lambda>l. wl_session_id l = py_strip a \<and> wl_task_id l = py_strip b \<and> lease_active l) ls"
proof -
  have t: "ld_leases db = map lease_row ls" using assms(1) by (simp add: store_holds_def)
  from assms(2) have "(case owner_row (py_strip a) (py_strip b) db of None \<Rightarrow> Inr None
     | Some r \<Rightarrow> res_bind (lease_from_row r) (\<lambda>l. Inr (Some l))) = Inr r"
    unfolding find_active_owner_task_def res_bind_Inr_iff by (auto dest!: lease_text_strip)
  then show ?thesis unfolding table_rows(1)[OF t]
    by (cases "fetchone (\<lambda>l. wl_session_id l = py_strip a \<and> wl_task_id l = py_strip b \<and> lease_active l) ls") simp_all
qed

interpretation lease_db: lease_provider "sqlite_lease_store T res" held_leases worker_fenced lease_store_ok
  for T res
proof unfold_locales
  fix s a b l
  assume "lease_store_ok s" and f: "ls_find (sqlite_lease_store T res) a b s = Inr (Some l)"
  then obtain ls where h: "store_holds s ls" by (auto simp: lease_store_ok_def)
  then show "l \<in> set (held_leases s) \<and> lease_owner l = (py_strip a, py_strip b)"
    using find_active_fetch[OF h, of a b] f unfolding held_leases_holds[OF h]
    by (auto simp: sqlite_lease_store_def lease_owner_def dest!: sym[of "Some l"] fetchone_Some)
next
  fix s a b
  assume "lease_store_ok s" and f: "ls_find (sqlite_lease_store T res) a b s = Inr None"
  then obtain ls where h: "store_holds s ls" by (auto simp: lease_store_ok_def)
  then show "(py_strip a, py_strip b) \<notin> lease_owner ` set (held_leases s)"
    using find_active_fetch[OF h, of a b] f unfolding held_leases_holds[OF h]
    by (auto simp: sqlite_lease_store_def lease_owner_def fetchone_None dest!: sym[of None])
next
  fix s l now k m
  assume "lease_store_ok s" and l: "l \<in> set (held_leases s)"
    and f: "ls_health (sqlite_lease_store T res) (wl_lease_id l) now s = Inr (k, m)"
  then obtain ls where h: "store_holds s ls" by (auto simp: lease_store_ok_def)
  have l': "l \<in> set ls" "py_strip (wl_lease_id l) = wl_lease_id l" and ids: "inj_on wl_lease_id (set ls)"
    using l h unfolding held_leases_holds[OF h] by (auto simp: store_holds_def leases_ok_def distinct_map)
  have "fetchone (\<lambda>m. wl_lease_id m = wl_lease_id l) ls = Some l"
    by (rule fetchone_unique) (use l' ids in \<open>auto simp: inj_on_def\<close>)
  then show "m = l" using f h l'(2)
    by (auto simp: sqlite_lease_store_def inspect_health_def res_bind_Inr_iff table_rows store_holds_def
        dest!: lease_text_strip)
next
  fix s q c i now e s'
  assume "lease_store_ok s" and a: "ls_acquire (sqlite_lease_store T res) q c i now s = (Inl e, s')"
  then obtain ls where h: "store_holds s ls" by (auto simp: lease_store_ok_def)
  show "s' = s" using try_acquire_result_cases[OF h, of T res q c i now None "Inl e" s'] a
    by (auto simp: sqlite_lease_store_def)
next
  fix s q c i now s'
  assume "lease_store_ok s"
    and a: "ls_acquire (sqlite_lease_store T res) q c i now s = (Inl (WorkerLeaseErr ''MUTABLE_SCOPE_OVERLAP''), s')"
  then obtain ls where h: "store_holds s ls" by (auto simp: lease_store_ok_def)
  from try_acquire_args[of T res q c i now None s _ s'] a
  obtain l where l: "acquire_lease q l s = (Inl (WorkerLeaseErr ''MUTABLE_SCOPE_OVERLAP''), s')"
      "wl_mutable_scope l = wq_mutable_scope q" by (auto simp: sqlite_lease_store_def)
  from acquire_lease_refusals(2)[OF h l(1)] l(2)
  show "\<exists>m \<in> set (held_leases s). lease_mutating m \<and> write_sets_overlap (wq_mutable_scope q) (wl_mutable_scope m)" by simp
next
  fix s q c i now u s'
  assume "lease_store_ok s" and a: "ls_acquire (sqlite_lease_store T res) q c i now s = (Inr (None, u), s')"
  then obtain ls where h: "store_holds s ls" by (auto simp: lease_store_ok_def)
  have a': "try_acquire_result T res q c i now None s = (Inr (None, u), s')" using a by (simp add: sqlite_lease_store_def)
  from try_acquire_args[OF a'] obtain l where l: "acquire_lease q l s = (Inr (None, u), s')"
      "wl_worker_id l = wc_worker_id c" "lease_owner l = (wq_session_id q, wq_task_id q)" by blast
  have "s' = s" using try_acquire_result_cases[OF h a'] by blast
  then show "s' = s \<and> (wc_worker_id c \<in> wl_worker_id ` set (held_leases s)
      \<or> worker_fenced s (wc_worker_id c) (wq_session_id q, wq_task_id q))"
    using acquire_lease_refusals(1)[OF h l(1)] l(2,3) by simp
next
  fix s q c i now l s'
  assume "lease_store_ok s" and a: "ls_acquire (sqlite_lease_store T res) q c i now s = (Inr (Some l, False), s')"
  then obtain ls where h: "store_holds s ls" by (auto simp: lease_store_ok_def)
  have a': "try_acquire_result T res q c i now None s = (Inr (Some l, False), s')" using a by (simp add: sqlite_lease_store_def)
  show "s' = s \<and> l \<in> set (held_leases s) \<and> lease_owner l = (wq_session_id q, wq_task_id q)"
    using try_acquire_result_cases[OF h a'] unfolding held_leases_holds[OF h] by auto
next
  fix s q c i now l s'
  assume "lease_store_ok s" and a: "ls_acquire (sqlite_lease_store T res) q c i now s = (Inr (Some l, True), s')"
  then obtain ls where h: "store_holds s ls" by (auto simp: lease_store_ok_def)
  have a': "try_acquire_result T res q c i now None s = (Inr (Some l, True), s')" using a by (simp add: sqlite_lease_store_def)
  from try_acquire_result_cases[OF h a'] have n: "store_holds s' (ls @ [l])" "lease_active l" "wl_worker_id l = wc_worker_id c"
      "lease_owner l = (wq_session_id q, wq_task_id q)" "wl_mutable_scope l = wq_mutable_scope q"
      "wl_mutation_intent l = wq_mutation_intent q" by auto
  then show "lease_store_ok s' \<and> held_leases s' = held_leases s @ [l]
      \<and> wl_worker_id l = wc_worker_id c \<and> lease_owner l = (wq_session_id q, wq_task_id q)
      \<and> wl_mutable_scope l = wq_mutable_scope q \<and> wl_mutation_intent l = wq_mutation_intent q"
    unfolding held_leases_holds[OF h] held_leases_holds[OF n(1)] by (auto simp: lease_store_ok_def)
qed

section \<open>Properties\<close>

lemma candidates_by_worker_Inr:
  assumes "candidates_by_worker cs d = Inr d'" and "\<And>w c. map_of d w = Some c \<Longrightarrow> wc_worker_id c = w"
    and "map_of d' w = Some c"
  shows "wc_worker_id c = w"
  using assms
proof (induction cs arbitrary: d)
  case (Cons x cs)
  then have "candidates_by_worker cs (AList.update (wc_worker_id x) x d) = Inr d'" by (simp split: if_splits)
  then show ?case by (rule Cons.IH) (use Cons.prems in \<open>auto split: if_splits\<close>)
qed simp

lemma request_owner_stripped:
  assumes "WorkerLeaseRequest_post_init q0 = Inr q"
  shows "py_strip (wq_session_id q) = wq_session_id q" "py_strip (wq_task_id q) = wq_task_id q"
  using assms unfolding WorkerLeaseRequest_post_init_def
  by (auto simp: res_bind_Inr_iff dest!: lease_text_strip split: if_splits)

lemma broker_existing_outcome:
  assumes h: "lease_store_ok db" and e: "l \<in> set (held_leases db)"
    and r: "broker_existing (sqlite_lease_store T res) q hs l now db = Inr out"
  shows "oc_lease out = Some l" "oc_rejections out = []" "oc_kind out \<in> {LO_EXISTING, LO_RECOVERY_REQUIRED}"
    "oc_kind out = LO_EXISTING \<Longrightarrow> ls_health (sqlite_lease_store T res) (wl_lease_id l) now db = Inr (LH_ACTIVE, l)"
  using r lease_db.health_same[OF h e]
  by (auto simp: broker_existing_def res_bind_Inr_iff require_matching_request_def split: if_splits)

text \<open>
  C11: what one acquisition through the broker does to a reachable lease store. A call that
  raises changes nothing. LEASED adds exactly one active lease, for the requesting session and
  task, on the first ordered worker that was not passed over, whose candidate passed the
  preflight; every earlier worker has a rejection that is true of the store. EXISTING and
  RECOVERY_REQUIRED return the active lease the owner already holds, the former only when
  it has not expired and is not quarantined. WAIT and the read-only fallback mean that every ordered worker was
  passed over for a true reason. Nothing but LEASED changes the store.
\<close>

theorem broker_acquire_exact:
  assumes "lease_reachable T res db" and "WorkerLeaseRequest_post_init q0 = Inr q"
    and "broker_acquire (sqlite_lease_store T res) ids now q cs db = (r, db')"
  shows "case r of Inl e \<Rightarrow> db' = db
    | Inr out \<Rightarrow> (case oc_kind out of
        LO_LEASED \<Rightarrow> (\<exists>l d c ws'. oc_lease out = Some l \<and> held_leases db' = held_leases db @ [l]
          \<and> lease_owner l = (wq_session_id q, wq_task_id q) \<and> wl_mutable_scope l = wq_mutable_scope q
          \<and> candidates_by_worker cs [] = Inr d \<and> map_of d (wl_worker_id l) = Some c \<and> preflight q c = None
          \<and> wq_ordered_worker_ids q = map fst (oc_rejections out) @ wl_worker_id l # ws'
          \<and> list_all (rejected_because (held_leases db) (worker_fenced db) q (map_of d)) (oc_rejections out))
      | LO_EXISTING \<Rightarrow> db' = db \<and> (\<exists>l. oc_lease out = Some l \<and> l \<in> set (held_leases db)
          \<and> lease_owner l = (wq_session_id q, wq_task_id q) \<and> inspect_health T (wl_lease_id l) now db = Inr (LH_ACTIVE, l))
      | LO_RECOVERY_REQUIRED \<Rightarrow> db' = db \<and> (\<exists>l. oc_lease out = Some l \<and> l \<in> set (held_leases db)
          \<and> lease_owner l = (wq_session_id q, wq_task_id q))
      | _ \<Rightarrow> db' = db \<and> oc_lease out = None \<and> map fst (oc_rejections out) = wq_ordered_worker_ids q
          \<and> (oc_kind out = LO_RDC_READ_ONLY) = (wq_mutation_intent q = LM_READ_ONLY \<and> wq_rdc_fallback_eligible q)
          \<and> (\<exists>d. candidates_by_worker cs [] = Inr d
            \<and> list_all (rejected_because (held_leases db) (worker_fenced db) q (map_of d)) (oc_rejections out)))"
proof -
  let ?S = "sqlite_lease_store T res"
  have ok: "lease_store_ok db" using lease_reachable_holds[OF assms(1)] by (simp add: lease_store_ok_def)
  note strip = request_owner_stripped[OF assms(2)]
  show ?thesis
  proof (cases "broker_hotspot ?S q")
    case (Inl e)
    then show ?thesis using assms(3) by (auto simp: broker_acquire_def)
  next
    case hs: (Inr hs)
    show ?thesis
    proof (cases "ls_find ?S (wq_session_id q) (wq_task_id q) db")
      case (Inl e)
      then show ?thesis using assms(3) hs by (auto simp: broker_acquire_def)
    next
      case found: (Inr lo)
      show ?thesis
      proof (cases lo)
        case (Some l)
        have l: "l \<in> set (held_leases db)" "lease_owner l = (wq_session_id q, wq_task_id q)"
          using lease_db.find_some[OF ok found[unfolded Some]] strip by auto
        have r: "r = broker_existing ?S q hs l now db" "db' = db"
          using assms(3) hs found Some by (auto simp: broker_acquire_def)
        show ?thesis
        proof (cases r)
          case (Inr out)
          note out = broker_existing_outcome[OF ok l(1) r(1)[symmetric, unfolded Inr]]
          show ?thesis using out(1,3,4) l r(2) Inr
            by (cases "oc_kind out") (auto simp: sqlite_lease_store_def)
        qed (simp add: r)
      next
        case None
        then have no: "(wq_session_id q, wq_task_id q) \<notin> lease_owner ` set (held_leases db)"
          using lease_db.find_none[OF ok] found strip by metis
        show ?thesis
        proof (cases "candidates_by_worker cs []")
          case (Inl e)
          then show ?thesis using assms(3) hs found None by (auto simp: broker_acquire_def)
        next
          case (Inr d)
          have ids: "map_of d w = Some c \<Longrightarrow> wc_worker_id c = w" for w c
            using candidates_by_worker_Inr[OF Inr] by simp
          have loop: "broker_loop ?S q (map_of d) ids now 0 (wq_ordered_worker_ids q) [] db = (r, db')"
            using assms(3) hs found None Inr by (simp add: broker_acquire_def)
          from lease_db.broker_loop_outcome[OF ok no ids loop] show ?thesis
            using Inr by (auto simp: exhausted_def)
        qed
      qed
    qed
  qed
qed

text \<open>A concrete run: one read-only request, a missing, a busy and a ready worker.\<close>

definition demo_time :: time_lib where
  "demo_time = \<lparr>tl_render = (\<lambda>n. CHR ''t'' # replicate (nat (n div 1000000)) CHR ''i''),
     tl_parse = (\<lambda>s. Some (int (length s - 1) * 1000000))\<rparr>"

definition demo_candidate :: WorkerLeaseCandidate where
  "demo_candidate = \<lparr>wc_worker_id = ''w2'', wc_state = ''READY'', wc_reserved = False, wc_active_task = False,
     wc_capabilities = [''py''], wc_runtime_id = None, wc_project_id = Some ''p'', wc_worktree = Some ''C:/x'',
     wc_branch = Some ''main'', wc_head = Some ''abcdef0'', wc_health_fresh = True, wc_ownership_known = True,
     wc_dirty_state = ''CLEAN'', wc_mutation_authorized = True, wc_occupied_mutable_scopes = []\<rparr>"

definition demo_request :: WorkerLeaseRequest where
  "demo_request = \<lparr>wq_session_id = ''s'', wq_task_id = ''t'', wq_project_id = ''p'',
     wq_ordered_worker_ids = [''w1'', ''w2''], wq_required_capabilities = [''py''], wq_required_runtime_id = None,
     wq_worktree = ''C:/x'', wq_branch = ''main'', wq_expected_head = ''abcdef0'', wq_mutation_intent = LM_MUTATION,
     wq_allowed_scope = [''src/a''], wq_forbidden_scope = [], wq_mutable_scope = [''src/a''],
     wq_rdc_fallback_eligible = False, wq_lease_ttl_seconds = 5\<rparr>"

abbreviation demo_acquire :: "(LeaseDb, WorkerLeaseOutcome) action" where
  "demo_acquire \<equiv> broker_acquire (sqlite_lease_store demo_time (\<lambda>w. Some w)) (\<lambda>k. ''L'') (Instant 0)
     demo_request [demo_candidate]"

lemma demo_acquire_leased:
  "case demo_acquire empty_leases of (Inr out, db) \<Rightarrow> oc_kind out = LO_LEASED
     \<and> oc_rejections out = [(''w1'', CANDIDATE_MISSING)] \<and> length (ld_leases db) = 1 | _ \<Rightarrow> False"
  by code_simp

theorem broker_acquire_exact_witness:
  "\<exists>out db' l. demo_acquire empty_leases = (Inr out, db') \<and> oc_lease out = Some l \<and> held_leases db' = [l]
     \<and> lease_owner l = (''s'', ''t'')"
proof -
  obtain out db' where r: "demo_acquire empty_leases = (Inr out, db')" and k: "oc_kind out = LO_LEASED"
    using demo_acquire_leased by (auto split: prod.splits sum.splits)
  have q: "WorkerLeaseRequest_post_init demo_request = Inr demo_request" by code_simp
  have ids: "wq_session_id demo_request = ''s''" "wq_task_id demo_request = ''t''" by (simp_all add: demo_request_def)
  have e: "held_leases empty_leases = []" by code_simp
  from broker_acquire_exact[OF reach_init q r] k ids e r show ?thesis by auto
qed

definition demo_db :: LeaseDb where
  "demo_db = snd (try_acquire_result demo_time (\<lambda>w. Some w) demo_request demo_candidate ''L'' (Instant 0) None empty_leases)"

lemma demo_reachable: "lease_reachable demo_time (\<lambda>w. Some w) demo_db"
  unfolding demo_db_def by (rule reach_step[OF reach_init], rule step_try_acquire, rule prod.collapse[symmetric])

text \<open>
  C7: exclusivity in every state the operations of the lease store can reach, in any
  interleaving. Every row reads back as a lease; two active leases differ in their worker and
  in their owner, and two active mutation leases at the same hotspot have disjoint mutable
  scopes; a worker provisioned for an owner is leased to nobody else.
\<close>

theorem lease_exclusive:
  assumes "lease_reachable T res db"
  shows "\<exists>ls. map lease_from_row (ld_leases db) = map Inr ls
    \<and> (\<forall>l \<in> set ls. \<forall>m \<in> set ls. l \<noteq> m \<and> wl_released_at l = None \<and> wl_released_at m = None \<longrightarrow>
        wl_worker_id l \<noteq> wl_worker_id m \<and> (wl_session_id l, wl_task_id l) \<noteq> (wl_session_id m, wl_task_id m)
        \<and> (wl_mutation_intent l = LM_MUTATION \<and> wl_mutation_intent m = LM_MUTATION \<and> wl_hotspot_key l = wl_hotspot_key m
            \<longrightarrow> \<not> write_sets_overlap (wl_mutable_scope l) (wl_mutable_scope m)))
    \<and> (\<forall>r \<in> set (ld_reservations db). \<forall>l \<in> set ls. rr_state r = ''PROVISIONED'' \<and> wl_released_at l = None
        \<and> rr_worker_id r = Some (wl_worker_id l) \<longrightarrow> (wl_session_id l, wl_task_id l) = (rr_session_id r, rr_task_id r))"
proof -
  obtain ls where h: "store_holds db ls" using lease_reachable_holds[OF assms] by blast
  have rows: "map lease_from_row (ld_leases db) = map Inr ls" using h by (simp add: store_holds_def o_def)
  have pair: "wl_worker_id l \<noteq> wl_worker_id m \<and> lease_owner l \<noteq> lease_owner m \<and> same_hotspot_free l m"
    if "l \<in> set ls" "m \<in> set ls" "l \<noteq> m" "lease_active l" "lease_active m" for l m
    using h that unfolding store_holds_def leases_ok_def inj_on_def by blast
  have fence: "fence_ok ls (ld_reservations db)" using h by (simp add: store_holds_def)
  show ?thesis
    by (rule exI[of _ ls], intro conjI rows ballI impI; (elim conjE)?)
      (use pair fence in \<open>auto simp: lease_active_def lease_owner_def same_hotspot_free_def lease_mutating_def fence_ok_def\<close>)
qed

theorem lease_exclusive_witness:
  "lease_reachable demo_time (\<lambda>w. Some w) demo_db
     \<and> (\<exists>l. map lease_from_row (ld_leases demo_db) = [Inr l] \<and> wl_worker_id l = ''w2'')"
proof -
  have n: "length (ld_leases demo_db) = 1 \<and> lr_worker_id (hd (ld_leases demo_db)) = ''w2''" by code_simp
  from lease_exclusive[OF demo_reachable] obtain ls where ls: "map lease_from_row (ld_leases demo_db) = map Inr ls" by blast
  from n obtain row where row: "ld_leases demo_db = [row]" "lr_worker_id row = ''w2''" by (cases "ld_leases demo_db") auto
  obtain l where "lease_from_row row = Inr l" using ls row(1) by auto
  then show ?thesis using row demo_reachable by (auto simp: lease_from_row_def res_bind_Inr_iff)
qed

lemma held_after_touch:
  assumes h: "store_holds db ls" and l: "l \<in> set ls" "lease_active l" and g: "keeps_claim g"
    and h': "store_holds db' (map (touch (wl_lease_id l) g) ls)"
  shows "set (held_leases db') = set (held_leases db) - {l} \<union> (if lease_active (g l) then {g l} else {})"
proof -
  have "inj_on wl_lease_id (set ls)" using h by (simp add: store_holds_def leases_ok_def distinct_map)
  then have only: "touch (wl_lease_id l) g m = (if m = l then g l else m)" if "m \<in> set ls" for m
    using that l unfolding touch_def inj_on_def by metis
  have "map (touch (wl_lease_id l) g) ls = map (\<lambda>m. if m = l then g l else m) ls" using only by simp
  then show ?thesis unfolding held_leases_holds[OF h] held_leases_holds[OF h'] using l by (auto split: if_splits)
qed

lemma reconciliation_reason_None:
  "reconciliation_quarantine_reason l v = None \<longleftrightarrow> wo_worker_id v = wl_worker_id l \<and> wo_ownership_known v
     \<and> windows_worktree_key (wo_worktree v) = Inr (wl_worktree_key l) \<and> wo_branch v = wl_branch l
     \<and> wo_runtime_running v = Some False \<and> wo_dirty_state v = ''CLEAN''
     \<and> (wo_recovery_classification v = COMPLETE_VERIFIED
        \<or> wo_recovery_classification v = NO_MUTATION \<and> map lower_char (wo_head v) = map lower_char (wl_expected_head l))"
  by (cases "wo_recovery_classification v"; cases "wo_runtime_running v")
    (simp_all add: reconciliation_quarantine_reason_def)

text \<open>
  C12: reconciling a lease. A reconciliation that returns found an active lease of the calling
  owner that was not healthy at the time of the observation. It releases the lease exactly
  when the observation proves the worker idle and clean in the leased worktree and branch with
  its work verified or nothing changed; otherwise the lease stays active, now quarantined, so
  the worker stays fenced. No other lease is touched.
\<close>

theorem reconcile_stale_exact:
  assumes "lease_reachable T res db" and "reconcile_stale T i s t v db = (Inr (kind, l', why), db')"
  shows "\<exists>l \<in> set (held_leases db). reconcile_guard T l (py_strip (wo_observed_at v)) = Inr ()
    \<and> (wl_session_id l, wl_task_id l) = (py_strip s, py_strip t) \<and> wl_lease_id l' = wl_lease_id l
    \<and> (if wo_worker_id v = wl_worker_id l \<and> wo_ownership_known v
          \<and> windows_worktree_key (wo_worktree v) = Inr (wl_worktree_key l) \<and> wo_branch v = wl_branch l
          \<and> wo_runtime_running v = Some False \<and> wo_dirty_state v = ''CLEAN''
          \<and> (wo_recovery_classification v = COMPLETE_VERIFIED
             \<or> wo_recovery_classification v = NO_MUTATION \<and> map lower_char (wo_head v) = map lower_char (wl_expected_head l))
       then kind = LEASE_RECONCILED_RELEASED \<and> set (held_leases db') = set (held_leases db) - {l}
       else kind = LEASE_RECONCILED_QUARANTINED \<and> wl_quarantine_code l' = Some why
         \<and> set (held_leases db') = set (held_leases db) - {l} \<union> {l'})"
proof -
  obtain ls where h: "store_holds db ls" using lease_reachable_holds[OF assms(1)] by blast
  from reconcile_stale_cases[OF h assms(2)] obtain u l where l: "l \<in> set ls" "lease_active l"
    and g: "reconcile_guard T l u = Inr ()" "u = py_strip (wo_observed_at v)" and own: "lease_owner l = (py_strip s, py_strip t)"
    and x: "(kind, l', why) = (case reconciliation_quarantine_reason l v of
         None \<Rightarrow> (LEASE_RECONCILED_RELEASED, reconciled None u v l, ''RECONCILED_SAFE_RELEASE'')
       | Some why \<Rightarrow> (LEASE_RECONCILED_QUARANTINED, reconciled (Some why) u v l, why))"
    and h': "store_holds db' (map (touch (wl_lease_id l) (reconciled (reconciliation_quarantine_reason l v) u v)) ls)"
    by auto
  note held = held_after_touch[OF h l updates_keep_claim(3) h']
  have mem: "l \<in> set (held_leases db)" using l held_leases_holds[OF h] by simp
  show ?thesis
  proof (rule bexI[OF _ mem], intro conjI)
    show "reconcile_guard T l (py_strip (wo_observed_at v)) = Inr ()" using g by simp
    show "(wl_session_id l, wl_task_id l) = (py_strip s, py_strip t)" using own by (simp add: lease_owner_def)
    show "wl_lease_id l' = wl_lease_id l"
      using x updates_keep_claim(3) unfolding keeps_claim_def by (auto split: option.splits)
    show "if wo_worker_id v = wl_worker_id l \<and> wo_ownership_known v
          \<and> windows_worktree_key (wo_worktree v) = Inr (wl_worktree_key l) \<and> wo_branch v = wl_branch l
          \<and> wo_runtime_running v = Some False \<and> wo_dirty_state v = ''CLEAN''
          \<and> (wo_recovery_classification v = COMPLETE_VERIFIED
             \<or> wo_recovery_classification v = NO_MUTATION \<and> map lower_char (wo_head v) = map lower_char (wl_expected_head l))
       then kind = LEASE_RECONCILED_RELEASED \<and> set (held_leases db') = set (held_leases db) - {l}
       else kind = LEASE_RECONCILED_QUARANTINED \<and> wl_quarantine_code l' = Some why
         \<and> set (held_leases db') = set (held_leases db) - {l} \<union> {l'}"
      unfolding reconciliation_reason_None[symmetric] using x held l(2)
      by (cases "reconciliation_quarantine_reason l v") (auto simp: reconciled_def lease_active_def)
  qed
qed

lemma timestamp_compare_Inr:
  assumes "timestamp_compare T a b = Inr n"
  shows "\<exists>x y. timestamp_datetime T (TimeText a) ''timestamp'' = Inr x \<and> timestamp_datetime T (TimeText b) ''timestamp'' = Inr y
    \<and> (0 < n \<longleftrightarrow> y < x) \<and> (n < 0 \<longleftrightarrow> x < y)"
  using assms by (auto simp: timestamp_compare_def res_bind_Inr_iff split: if_splits)

text \<open>
  A heartbeat. A heartbeat that returns found an active lease of the calling owner. Either
  it repeats the last beat and changes nothing, or the lease is not quarantined, the beat lies
  strictly after the last beat and before the expiry, and the new expiry is the beat plus the
  time to live: an expired lease is never revived. No other lease is touched.
\<close>

theorem heartbeat_exact:
  assumes "lease_reachable T res db" and "heartbeat T i s t at db = (Inr l', db')"
  shows "\<exists>l \<in> set (held_leases db). (wl_session_id l, wl_task_id l) = (py_strip s, py_strip t)
    \<and> (db' = db \<and> l' = l
       \<or> (\<exists>beat expiry old b0 b1 e0. l' = l\<lparr>wl_heartbeat_at := beat, wl_expires_at := Some expiry\<rparr>
          \<and> wl_quarantine_code l = None \<and> wl_expires_at l = Some old
          \<and> timestamp_datetime T (TimeText (wl_heartbeat_at l)) ''timestamp'' = Inr b0
          \<and> timestamp_datetime T (TimeText beat) ''timestamp'' = Inr b1
          \<and> timestamp_datetime T (TimeText old) ''timestamp'' = Inr e0
          \<and> b0 < b1 \<and> b1 < e0
          \<and> timestamp_add_seconds T (TimeText beat) (wl_lease_ttl_seconds l) ''expires_at'' = Inr expiry
          \<and> set (held_leases db') = set (held_leases db) - {l} \<union> {l'}))"
proof -
  obtain ls where h: "store_holds db ls" using lease_reachable_holds[OF assms(1)] by blast
  from heartbeat_cases[OF h assms(2)] show ?thesis
  proof (elim disjE exE conjE)
    assume "isl (Inr l' :: exn + WorkerLease)"
    then show ?thesis by simp
  next
    assume "db' = db" "\<exists>l \<in> set ls. (Inr l' :: exn + WorkerLease) = Inr l \<and> lease_active l \<and> lease_owner l = (py_strip s, py_strip t)"
    then show ?thesis by (intro bexI[of _ l']) (auto simp: lease_owner_def held_leases_holds[OF h])
  next
    fix i b e l
    assume l: "l \<in> set ls" "wl_lease_id l = i" "lease_active l" "lease_owner l = (py_strip s, py_strip t)"
      and x: "(Inr l' :: exn + WorkerLease) = Inr (beaten b e l)" and e: "heartbeat_expiry T l b = Inr (Some e)"
      and h': "store_holds db' (map (touch i (beaten b e)) ls)"
    from e obtain old o1 o2 where old: "wl_quarantine_code l = None" "wl_expires_at l = Some old"
      and o1: "timestamp_compare T b (wl_heartbeat_at l) = Inr o1" "\<not> o1 < 0" "o1 \<noteq> 0"
      and o2: "timestamp_compare T b old = Inr o2" "\<not> 0 \<le> o2"
      and add: "timestamp_add_seconds T (TimeText b) (wl_lease_ttl_seconds l) ''expires_at'' = Inr e"
      by (auto simp: heartbeat_expiry_def res_bind_Inr_iff split: if_splits option.splits)
    have held: "set (held_leases db') = set (held_leases db) - {l} \<union> {beaten b e l}"
      using held_after_touch[OF h l(1,3) updates_keep_claim(1) h'[folded l(2)]] l(3) by (simp add: beaten_def lease_active_def)
    from timestamp_compare_Inr[OF o1(1)] timestamp_compare_Inr[OF o2(1)] o1 o2
    obtain b0 b1 e0 where "timestamp_datetime T (TimeText (wl_heartbeat_at l)) ''timestamp'' = Inr b0"
       "timestamp_datetime T (TimeText b) ''timestamp'' = Inr b1"
       "timestamp_datetime T (TimeText old) ''timestamp'' = Inr e0" "b0 < b1" "b1 < e0" by auto
    then show ?thesis using l held x old add
      by (intro bexI[of _ l] conjI disjI2 exI[of _ b] exI[of _ e] exI[of _ old] exI[of _ b0] exI[of _ b1] exI[of _ e0])
        (simp_all add: beaten_def lease_owner_def held_leases_holds[OF h])
  qed
qed

text \<open>
  Releasing a lease. A release that reports success ended an active lease of the calling
  owner that is not quarantined and not expired at the time of the release; no other lease is
  touched. Every other return leaves the store as it was.
\<close>

theorem release_exact:
  assumes "lease_reachable T res db" and "release T i s t at db = (r, db')"
  shows "if r = Inr \<lparr>lrr_released = True, lrr_already_released = False\<rparr>
    then \<exists>l \<in> set (held_leases db). \<exists>old u u0 e0. (wl_session_id l, wl_task_id l) = (py_strip s, py_strip t)
      \<and> wl_quarantine_code l = None \<and> wl_expires_at l = Some old
      \<and> timestamp T at ''released_at'' = Inr u \<and> timestamp_datetime T (TimeText u) ''timestamp'' = Inr u0
      \<and> timestamp_datetime T (TimeText old) ''timestamp'' = Inr e0 \<and> u0 < e0
      \<and> set (held_leases db') = set (held_leases db) - {l}
    else db' = db"
proof -
  obtain ls where h: "store_holds db ls" using lease_reachable_holds[OF assms(1)] by blast
  from release_cases[OF h assms(2)] show ?thesis
  proof (elim disjE exE conjE)
    assume "db' = db" "\<forall>rr. r = Inr rr \<longrightarrow> \<not> lrr_released rr"
    then show ?thesis by auto
  next
    fix i u l
    assume l: "l \<in> set ls" "wl_lease_id l = i" "lease_active l" "lease_owner l = (py_strip s, py_strip t)"
      and u: "timestamp T at ''released_at'' = Inr u" and g: "release_guard T l u = Inr ()" and x: "r = Inr \<lparr>lrr_released = True, lrr_already_released = False\<rparr>"
      and h': "store_holds db' (map (touch i (released_lease u)) ls)"
    from g obtain old o2 where old: "wl_quarantine_code l = None" "wl_expires_at l = Some old"
      and o2: "timestamp_compare T u old = Inr o2" "\<not> 0 \<le> o2"
      by (auto simp: release_guard_def res_bind_Inr_iff split: if_splits option.splits)
    from timestamp_compare_Inr[OF o2(1)] o2(2) obtain u1 e0 where e0: "timestamp_datetime T (TimeText u) ''timestamp'' = Inr u1"
        "timestamp_datetime T (TimeText old) ''timestamp'' = Inr e0" "u1 < e0"
      by auto
    have held: "set (held_leases db') = set (held_leases db) - {l}"
      using held_after_touch[OF h l(1,3) updates_keep_claim(2) h'[folded l(2)]] by (simp add: released_lease_def lease_active_def)
    show ?thesis unfolding x using l u old e0 held
      by (auto simp: lease_owner_def held_leases_holds[OF h] intro!: bexI[of _ l])
  qed
qed

text \<open>
  C29: the number of extra workers is bounded. In every reachable store at most 99
  reservations consume capacity, and a reservation that a call makes with the limit
  \<open>max_extra\<close> leaves at most \<open>max_extra\<close> of them; transitions, releases and reconciliations
  never raise the number.
\<close>

theorem provisioning_capacity_bounded:
  assumes "lease_reachable T res db"
    and "acquire_provisioning_reservation T i s t k max_extra now pj wt sc db = (r, db')"
  shows "length (filter (\<lambda>r. rr_state r \<in> set CONSUMING_STATES) (ld_reservations db)) \<le> 99
    \<and> (if db' = db then \<forall>out. r = Inr out \<longrightarrow> pk_kind out \<noteq> PK_ACQUIRED
       else int (length (filter (\<lambda>r. rr_state r \<in> set CONSUMING_STATES) (ld_reservations db'))) \<le> max_extra \<and> max_extra \<le> 99)"
proof -
  obtain ls where h: "store_holds db ls" using lease_reachable_holds[OF assms(1)] by blast
  have b: "consuming_count db \<le> 99" using lease_reachable_capacity[OF assms(1)] by (simp add: capacity_ok_def)
  have same: "db' \<noteq> db" if "r = Inr out" "pk_kind out = PK_ACQUIRED" for out
  proof -
    from assms(2) that show ?thesis
      by (auto simp: acquire_provisioning_reservation_def andthen_def lift_res_def reserve_worker_def existing_reservation_def
          insert_reservation_def Let_def res_bind_Inr_iff split: sum.splits option.splits if_splits prod.splits)
  qed
  from acquire_provisioning_cases[OF h assms(2)] show ?thesis using b same by (auto simp: consuming_count_def)
qed

section \<open>Witnesses\<close>

definition demo_observation :: WorkerLeaseRecoveryObservation where
  "demo_observation = \<lparr>wo_worker_id = ''w2'', wo_worktree = ''C:/x'', wo_branch = ''main'', wo_head = ''abcdef0'',
     wo_dirty_state = ''CLEAN'', wo_ownership_known = True, wo_runtime_running = Some False,
     wo_recovery_classification = NO_MUTATION, wo_evidence_ref = ''e'', wo_observed_at = ''tiiiiii''\<rparr>"

lemma demo_runs:
  "case reconcile_stale demo_time ''L'' ''s'' ''t'' demo_observation demo_db of
     (Inr (kind, _), _) \<Rightarrow> kind = LEASE_RECONCILED_RELEASED | _ \<Rightarrow> False"
  "case heartbeat demo_time ''L'' ''s'' ''t'' (Instant 2000000) demo_db of
     (Inr l, _) \<Rightarrow> wl_expires_at l = Some ''tiiiiiii'' | _ \<Rightarrow> False"
  "fst (release demo_time ''L'' ''s'' ''t'' (Instant 2000000) demo_db) = Inr \<lparr>lrr_released = True, lrr_already_released = False\<rparr>"
  "snd (acquire_provisioning_reservation demo_time ''R'' ''s'' ''t'' ''k'' 1 (Instant 0) None None [] demo_db) \<noteq> demo_db"
  by code_simp+

theorem reconcile_stale_exact_witness:
  "\<exists>l' why db' l. reconcile_stale demo_time ''L'' ''s'' ''t'' demo_observation demo_db
     = (Inr (LEASE_RECONCILED_RELEASED, l', why), db') \<and> l \<in> set (held_leases demo_db) \<and> l \<notin> set (held_leases db')"
proof -
  from demo_runs(1) obtain l' why db'
    where r: "reconcile_stale demo_time ''L'' ''s'' ''t'' demo_observation demo_db
      = (Inr (LEASE_RECONCILED_RELEASED, l', why), db')" by (auto split: prod.splits sum.splits)
  from reconcile_stale_exact[OF demo_reachable r]
  obtain l where "l \<in> set (held_leases demo_db)" "set (held_leases db') = set (held_leases demo_db) - {l}"
    by (auto split: if_splits)
  then show ?thesis using r by auto
qed

theorem heartbeat_exact_witness:
  "\<exists>l' db' l. heartbeat demo_time ''L'' ''s'' ''t'' (Instant 2000000) demo_db = (Inr l', db')
     \<and> l \<in> set (held_leases demo_db) \<and> (db' = demo_db \<or> wl_quarantine_code l = None)"
proof -
  from demo_runs(2) obtain l' db' where r: "heartbeat demo_time ''L'' ''s'' ''t'' (Instant 2000000) demo_db = (Inr l', db')"
    by (auto split: prod.splits sum.splits)
  from heartbeat_exact[OF demo_reachable r] r show ?thesis by auto
qed

theorem release_exact_witness:
  "\<exists>r db' l. release demo_time ''L'' ''s'' ''t'' (Instant 2000000) demo_db = (r, db')
     \<and> l \<in> set (held_leases demo_db) \<and> l \<notin> set (held_leases db')"
proof -
  obtain r db' where r: "release demo_time ''L'' ''s'' ''t'' (Instant 2000000) demo_db = (r, db')" by fastforce
  have ok: "r = Inr \<lparr>lrr_released = True, lrr_already_released = False\<rparr>" using demo_runs(3) r by simp
  from release_exact[OF demo_reachable r] ok obtain l where
    "l \<in> set (held_leases demo_db)" "set (held_leases db') = set (held_leases demo_db) - {l}" by auto
  then show ?thesis using r by auto
qed

theorem provisioning_capacity_bounded_witness:
  "\<exists>r db'. acquire_provisioning_reservation demo_time ''R'' ''s'' ''t'' ''k'' 1 (Instant 0) None None [] demo_db = (r, db')
     \<and> int (length (filter (\<lambda>r. rr_state r \<in> set CONSUMING_STATES) (ld_reservations db'))) \<le> 1"
proof -
  obtain r db' where r: "acquire_provisioning_reservation demo_time ''R'' ''s'' ''t'' ''k'' 1 (Instant 0) None None [] demo_db = (r, db')"
    by fastforce
  have "db' \<noteq> demo_db" using demo_runs(4) r by simp
  then show ?thesis using provisioning_capacity_bounded[OF demo_reachable r] r by auto
qed

end
