(* ===== verification/Execution_Record.thy ===== *)
theory Execution_Record
  imports Core_Domain Json_Text
begin

text \<open>
  The durable execution record and the immutable execution receipt,
  \<^verbatim>\<open>src/src/a_conductor/execution_record.py\<close>: the values with the checks of their constructors,
  and the identity of a receipt. SHA-256 is a parameter, a function from a text to its
  hexadecimal digest; the JSON text it is applied to is modelled.
\<close>

section \<open>Validation\<close>

definition MAX_SUMMARY_CHARS :: nat where "MAX_SUMMARY_CHARS = 256"

definition MAX_TEXT_CHARS :: nat where "MAX_TEXT_CHARS = 1024"

definition record_text :: "nat \<Rightarrow> string \<Rightarrow> string \<Rightarrow> exn + unit" where
  "record_text max_chars v field =
     (if blank v then Inl (ValueErr field)
      else if CHR 0x00 \<in> set v \<or> CHR 0x0D \<in> set v \<or> CHR 0x0A \<in> set v then Inl (ValueErr field)
      else if length v > max_chars then Inl (ValueErr field) else Inr ())"

definition record_optional_text :: "string option \<Rightarrow> string \<Rightarrow> exn + unit" where
  "record_optional_text v field = (case v of None \<Rightarrow> Inr () | Some x \<Rightarrow> record_text MAX_TEXT_CHARS x field)"

definition lower_hex :: "nat \<Rightarrow> string \<Rightarrow> bool" where
  "lower_hex n v = (length v = n \<and> list_all (\<lambda>c. c \<in> set ''0123456789abcdef'') v)"

definition positive_int :: "int \<Rightarrow> string \<Rightarrow> exn + unit" where
  "positive_int v field = (if v < 1 then Inl (ValueErr field) else Inr ())"

definition optional_pid :: "int option \<Rightarrow> exn + unit" where
  "optional_pid v = (case v of None \<Rightarrow> Inr () | Some p \<Rightarrow> positive_int p ''pid'')"

definition optional_author_pair :: "string option \<Rightarrow> int option \<Rightarrow> exn + unit" where
  "optional_author_pair attempt generation = (case (attempt, generation) of
     (None, None) \<Rightarrow> Inr ()
   | (Some a, Some g) \<Rightarrow> (case record_text MAX_TEXT_CHARS a ''author_attempt_id'' of
        Inl e \<Rightarrow> Inl e
      | Inr _ \<Rightarrow> if g = 0 \<or> g = 1 then Inr () else Inl (ValueErr ''author_generation must be exactly 0 or 1''))
   | _ \<Rightarrow> Inl (ValueErr ''author provenance pair must be both present or both None''))"

definition require_sha256 :: "string \<Rightarrow> string \<Rightarrow> exn + unit" where
  "require_sha256 v field = (if lower_hex 64 v then Inr () else Inl (ValueErr field))"

definition require_git_sha :: "string \<Rightarrow> string \<Rightarrow> exn + unit" where
  "require_git_sha v field = (if lower_hex 40 v then Inr () else Inl (ValueErr field))"

section \<open>Execution records\<close>

datatype TransportState = TS_CONNECTED | TS_DEGRADED | TS_LOST | TS_UNAVAILABLE

datatype ExecutionProcessState =
    XS_QUEUED | XS_STARTING | XS_RUNNING | XS_PROCESS_STILL_RUNNING | XS_PROCESS_EXITED_UNKNOWN_RESULT
  | XS_SUCCEEDED | XS_FAILED | XS_PARTIAL | XS_CANCELLED | XS_RECOVERY_REQUIRED | XS_VERIFICATION_REQUIRED

record DurableExecutionRecord =
  xr_execution_id :: string
  xr_job_id :: string
  xr_work_order_ref :: string
  xr_project_id :: string
  xr_worker_id :: string
  xr_backend_id :: string
  xr_agent_ref :: "string option"
  xr_repo_root :: string
  xr_branch :: string
  xr_head_before :: string
  xr_operation_ref :: string
  xr_command_fingerprint :: string
  xr_command_summary :: string
  xr_runtime_profile_ref :: "string option"
  xr_run_dir_ref :: "string option"
  xr_stdout_ref :: "string option"
  xr_stderr_ref :: "string option"
  xr_result_ref :: "string option"
  xr_report_ref :: "string option"
  xr_transport_state :: TransportState
  xr_execution_state :: ExecutionProcessState
  xr_pid :: "int option"
  xr_exit_code :: "int option"
  xr_started_at :: "string option"
  xr_finished_at :: "string option"
  xr_version :: int
  xr_author_attempt_id :: "string option"
  xr_author_generation :: "int option"

definition record_checks :: "DurableExecutionRecord \<Rightarrow> (exn + unit) list" where
  "record_checks r =
    [record_text MAX_TEXT_CHARS (xr_execution_id r) ''execution_id'',
     record_text MAX_TEXT_CHARS (xr_job_id r) ''job_id'',
     record_text MAX_TEXT_CHARS (xr_work_order_ref r) ''work_order_ref'',
     record_text MAX_TEXT_CHARS (xr_project_id r) ''project_id'',
     record_text MAX_TEXT_CHARS (xr_worker_id r) ''worker_id'',
     record_text MAX_TEXT_CHARS (xr_backend_id r) ''backend_id'',
     record_optional_text (xr_agent_ref r) ''agent_ref'',
     record_text MAX_TEXT_CHARS (xr_repo_root r) ''repo_root'',
     record_text MAX_TEXT_CHARS (xr_branch r) ''branch'',
     record_text MAX_TEXT_CHARS (xr_head_before r) ''head_before'',
     record_text MAX_TEXT_CHARS (xr_operation_ref r) ''operation_ref'',
     require_sha256 (xr_command_fingerprint r) ''command_fingerprint'',
     record_text MAX_SUMMARY_CHARS (xr_command_summary r) ''command_summary'',
     record_optional_text (xr_runtime_profile_ref r) ''runtime_profile_ref'',
     record_optional_text (xr_run_dir_ref r) ''run_dir_ref'',
     record_optional_text (xr_stdout_ref r) ''stdout_ref'',
     record_optional_text (xr_stderr_ref r) ''stderr_ref'',
     record_optional_text (xr_result_ref r) ''result_ref'',
     record_optional_text (xr_report_ref r) ''report_ref'',
     optional_pid (xr_pid r),
     record_optional_text (xr_started_at r) ''started_at'',
     record_optional_text (xr_finished_at r) ''finished_at'',
     positive_int (xr_version r) ''version'',
     optional_author_pair (xr_author_attempt_id r) (xr_author_generation r)]"

definition DurableExecutionRecord_post_init :: "DurableExecutionRecord \<Rightarrow> exn + DurableExecutionRecord" where
  "DurableExecutionRecord_post_init r = res_bind (check_all (record_checks r)) (\<lambda>_. Inr r)"

definition new_execution_record :: "DurableExecutionRecord \<Rightarrow> exn + DurableExecutionRecord" where
  "new_execution_record r = DurableExecutionRecord_post_init (r\<lparr>xr_version := 1\<rparr>)"

section \<open>Receipts\<close>

datatype ReceiptDisposition = RD_ACCEPTED | RD_QUARANTINED

definition RECEIPT_IDENTITY_SCHEMA :: string where "RECEIPT_IDENTITY_SCHEMA = ''execution.receipt.v1''"

definition receipt_payload :: "string \<Rightarrow> string \<Rightarrow> string \<Rightarrow> string \<Rightarrow> string" where
  "receipt_payload execution_id attempt_id result_digest binding_digest = json_object
     [(''attempt_id'', json_string_ascii attempt_id), (''binding_digest'', json_string_ascii binding_digest),
      (''execution_id'', json_string_ascii execution_id), (''result_digest'', json_string_ascii result_digest),
      (''schema'', json_string_ascii RECEIPT_IDENTITY_SCHEMA)]"

definition compute_receipt_id ::
  "(string \<Rightarrow> string) \<Rightarrow> string \<Rightarrow> string \<Rightarrow> string \<Rightarrow> string \<Rightarrow> exn + string" where
  "compute_receipt_id sha execution_id attempt_id result_digest binding_digest =
     res_bind (check_all
       [record_text MAX_TEXT_CHARS execution_id ''execution_id'', record_text MAX_TEXT_CHARS attempt_id ''attempt_id'',
        require_sha256 result_digest ''result_digest'', require_sha256 binding_digest ''binding_digest''])
     (\<lambda>_. Inr (sha (receipt_payload execution_id attempt_id result_digest binding_digest)))"

record DurableExecutionReceipt =
  rc_receipt_id :: string
  rc_execution_id :: string
  rc_attempt_id :: string
  rc_result_digest :: string
  rc_binding_digest :: string
  rc_claim_generation :: int
  rc_authority_sha :: string
  rc_execution_sha :: string
  rc_disposition :: ReceiptDisposition
  rc_evidence_ref :: "string option"
  rc_recorded_at :: "string option"

definition DurableExecutionReceipt_post_init ::
  "(string \<Rightarrow> string) \<Rightarrow> DurableExecutionReceipt \<Rightarrow> exn + DurableExecutionReceipt" where
  "DurableExecutionReceipt_post_init sha r =
     res_bind (check_all
       [require_sha256 (rc_receipt_id r) ''receipt_id'',
        record_text MAX_TEXT_CHARS (rc_execution_id r) ''execution_id'',
        record_text MAX_TEXT_CHARS (rc_attempt_id r) ''attempt_id'',
        require_sha256 (rc_result_digest r) ''result_digest'',
        require_sha256 (rc_binding_digest r) ''binding_digest'',
        positive_int (rc_claim_generation r) ''claim_generation'',
        require_git_sha (rc_authority_sha r) ''authority_sha'',
        require_git_sha (rc_execution_sha r) ''execution_sha'',
        record_optional_text (rc_evidence_ref r) ''evidence_ref'',
        record_optional_text (rc_recorded_at r) ''recorded_at'']) (\<lambda>_.
     res_bind (compute_receipt_id sha (rc_execution_id r) (rc_attempt_id r) (rc_result_digest r) (rc_binding_digest r))
     (\<lambda>expected. if rc_receipt_id r = expected then Inr r else Inl (ValueErr ''receipt_id must match the contract identity'')))"

definition new_execution_receipt ::
  "(string \<Rightarrow> string) \<Rightarrow> DurableExecutionReceipt \<Rightarrow> exn + DurableExecutionReceipt" where
  "new_execution_receipt sha r =
     res_bind (compute_receipt_id sha (rc_execution_id r) (rc_attempt_id r) (rc_result_digest r)
       (rc_binding_digest r)) (\<lambda>i.
     DurableExecutionReceipt_post_init sha (r\<lparr>rc_receipt_id := i, rc_recorded_at := None\<rparr>))"

section \<open>Lemmas\<close>

definition valid_record :: "DurableExecutionRecord \<Rightarrow> bool" where
  "valid_record r \<longleftrightarrow> (\<forall>c \<in> set (record_checks r). c = Inr ())"

lemma record_post_init_Inr [simp]: "DurableExecutionRecord_post_init r = Inr x \<longleftrightarrow> valid_record r \<and> x = r"
  by (auto simp: DurableExecutionRecord_post_init_def valid_record_def)

lemma record_post_init_valid: "valid_record r \<Longrightarrow> DurableExecutionRecord_post_init r = Inr r"
  by simp

lemma record_text_nonblank: "record_text n v f = Inr u \<Longrightarrow> \<not> blank v"
  by (auto simp: record_text_def split: if_splits)

lemma valid_record_fields:
  assumes "valid_record r"
  shows "\<not> blank (xr_execution_id r)" "1 \<le> xr_version r" "lower_hex 64 (xr_command_fingerprint r)"
  using assms
  by (auto simp: valid_record_def record_checks_def positive_int_def require_sha256_def
      dest: record_text_nonblank split: if_splits)

lemma receipt_payload_inj:
  "receipt_payload e a r b = receipt_payload e' a' r' b' \<longleftrightarrow> e = e' \<and> a = a' \<and> r = r' \<and> b = b'"
  by (auto simp: receipt_payload_def json_object_def json_string_ascii_inj)

end
