(* ===== verification/Dex_Identity.thy ===== *)
theory Dex_Identity
  imports Core_Domain Json_Text Execution_Record
begin

text \<open>
  The identity a dispatch attempt is bound to, \<^verbatim>\<open>src/src/a_conductor/dex_identity.py\<close>: the
  binding with the checks of its constructor, the JSON text its digest is taken of, and the
  digest of a canonical root. SHA-256 is a parameter. That the texts determine what they are
  written from is proved; the resolution of a physical path is operating-system access and is
  left out.
\<close>

definition DEX_MAX_TEXT :: nat where "DEX_MAX_TEXT = 1024"

definition DEX_MAX_ARGV_ITEMS :: nat where "DEX_MAX_ARGV_ITEMS = 64"

definition DEX_MAX_ARG_CHARS :: nat where "DEX_MAX_ARG_CHARS = 2048"

definition dex_text_ok :: "nat \<Rightarrow> string \<Rightarrow> bool" where
  "dex_text_ok max_chars v = (v \<noteq> [] \<and> length v \<le> max_chars
     \<and> CHR 0x00 \<notin> set v \<and> CHR 0x0D \<notin> set v \<and> CHR 0x0A \<notin> set v)"

definition dex_text :: "nat \<Rightarrow> string \<Rightarrow> string \<Rightarrow> exn + unit" where
  "dex_text max_chars v field = (if dex_text_ok max_chars v then Inr () else Inl (ValueErr (field @ '' is invalid'')))"

definition SRM_PLATFORM_TAGS :: "string list" where "SRM_PLATFORM_TAGS = [''win32'', ''posix'']"

definition canonical_root_digest :: "(string \<Rightarrow> string) \<Rightarrow> string \<Rightarrow> string \<Rightarrow> exn + string" where
  "canonical_root_digest sha canonical_path platform_tag =
     res_bind (dex_text DEX_MAX_TEXT canonical_path ''canonical_path'') (\<lambda>_.
     if platform_tag \<notin> set SRM_PLATFORM_TAGS
     then Inl (ValueErr ''platform_tag'')
     else Inr (sha (platform_tag @ [CHR 0x00] @ canonical_path)))"

record DexBindingIdentity =
  bi_execution_id :: string
  bi_attempt_id :: string
  bi_task_ref :: string
  bi_lane_ref :: string
  bi_claim_ref :: string
  bi_claim_generation :: int
  bi_authority_repo_identity :: string
  bi_execution_repo_identity :: string
  bi_authority_sha :: string
  bi_execution_sha :: string
  bi_host_id :: string
  bi_boot_id :: string
  bi_executable_path :: string
  bi_executable_sha256 :: string
  bi_argv_shape :: "string list"

definition binding_checks :: "DexBindingIdentity \<Rightarrow> (exn + unit) list" where
  "binding_checks b =
    [dex_text DEX_MAX_TEXT (bi_execution_id b) ''execution_id'',
     dex_text DEX_MAX_TEXT (bi_attempt_id b) ''attempt_id'',
     dex_text DEX_MAX_TEXT (bi_task_ref b) ''task_ref'',
     dex_text DEX_MAX_TEXT (bi_lane_ref b) ''lane_ref'',
     dex_text DEX_MAX_TEXT (bi_claim_ref b) ''claim_ref'',
     dex_text DEX_MAX_TEXT (bi_authority_repo_identity b) ''authority_repo_identity'',
     dex_text DEX_MAX_TEXT (bi_execution_repo_identity b) ''execution_repo_identity'',
     dex_text DEX_MAX_TEXT (bi_host_id b) ''host_id'',
     dex_text DEX_MAX_TEXT (bi_boot_id b) ''boot_id'',
     dex_text DEX_MAX_TEXT (bi_executable_path b) ''executable_path'',
     if bi_claim_generation b < 0 then Inl (ValueErr ''claim_generation is invalid'') else Inr (),
     if lower_hex 40 (bi_authority_sha b) then Inr () else Inl (ValueErr ''authority_sha is invalid''),
     if lower_hex 40 (bi_execution_sha b) then Inr () else Inl (ValueErr ''execution_sha is invalid''),
     if lower_hex 64 (bi_executable_sha256 b) then Inr () else Inl (ValueErr ''executable_sha256 is invalid''),
     if bi_argv_shape b = [] \<or> length (bi_argv_shape b) > DEX_MAX_ARGV_ITEMS
     then Inl (ValueErr ''argv_shape is invalid'') else Inr ()]
    @ map (\<lambda>item. dex_text DEX_MAX_ARG_CHARS item ''argv_shape item'') (bi_argv_shape b)"

definition DexBindingIdentity_post_init :: "DexBindingIdentity \<Rightarrow> exn + DexBindingIdentity" where
  "DexBindingIdentity_post_init b = res_bind (check_all (binding_checks b)) (\<lambda>_. Inr b)"

definition binding_payload :: "DexBindingIdentity \<Rightarrow> string" where
  "binding_payload b = json_object
    [(''argv_shape'', json_list (map json_string_ascii (bi_argv_shape b))),
     (''attempt_id'', json_string_ascii (bi_attempt_id b)),
     (''authority_repo_identity'', json_string_ascii (bi_authority_repo_identity b)),
     (''authority_sha'', json_string_ascii (bi_authority_sha b)),
     (''boot_id'', json_string_ascii (bi_boot_id b)),
     (''claim_generation'', json_int (bi_claim_generation b)),
     (''claim_ref'', json_string_ascii (bi_claim_ref b)),
     (''executable_path'', json_string_ascii (bi_executable_path b)),
     (''executable_sha256'', json_string_ascii (bi_executable_sha256 b)),
     (''execution_id'', json_string_ascii (bi_execution_id b)),
     (''execution_repo_identity'', json_string_ascii (bi_execution_repo_identity b)),
     (''execution_sha'', json_string_ascii (bi_execution_sha b)),
     (''host_id'', json_string_ascii (bi_host_id b)),
     (''lane_ref'', json_string_ascii (bi_lane_ref b)),
     (''schema'', json_string_ascii ''dex.binding.v1''),
     (''task_ref'', json_string_ascii (bi_task_ref b))]"

definition binding_digest :: "(string \<Rightarrow> string) \<Rightarrow> DexBindingIdentity \<Rightarrow> string" where
  "binding_digest sha b = sha (binding_payload b)"

section \<open>The texts determine the identities\<close>

lemma comma_not_int: "\<not> int_char CHR '',''"
  by code_simp

lemma binding_payload_inj: "binding_payload b = binding_payload c \<longleftrightarrow> b = c"
proof
  assume "binding_payload b = binding_payload c"
  then show "b = c"
    by (simp add: binding_payload_def json_object_def json_string_ascii_inj ascii_printer.list_inj json_int_inj[OF comma_not_int])
qed simp

lemma root_payload_inj:
  assumes "s \<in> set SRM_PLATFORM_TAGS" "t \<in> set SRM_PLATFORM_TAGS" "s @ [CHR 0x00] @ p = t @ [CHR 0x00] @ q"
  shows "s = t \<and> p = q"
  using assms by (auto simp: SRM_PLATFORM_TAGS_def)

end
