(* ===== verification/Execution_Store.thy ===== *)
theory Execution_Store
  imports Execution_Record Action_Monad
begin

text \<open>
  The SQLite store of durable executions, \<^verbatim>\<open>src/src/a_conductor/execution_store.py\<close>: records with
  their event log, immutable receipts, the admission journal and the dispatch fences. The
  database is the rows of its five tables after \<^verbatim>\<open>initialize\<close>, with their text columns; the
  time columns that nothing reads are left out, \<^verbatim>\<open>created_at\<close> of a record and \<^verbatim>\<open>recorded_at\<close> of a
  receipt are arguments of the call that writes them. A method makes at most one call of the event-id factory; what that
  call returns is an argument, \<^const>\<open>None\<close> when it raises. A method that raises leaves the
  database it started from. Integers are within the 64 bits of SQLite.
\<close>

section \<open>Rows\<close>

fun transport_value :: "TransportState \<Rightarrow> string" where
  "transport_value TS_CONNECTED = ''CONNECTED''"
| "transport_value TS_DEGRADED = ''DEGRADED''"
| "transport_value TS_LOST = ''LOST''"
| "transport_value TS_UNAVAILABLE = ''UNAVAILABLE''"

fun xstate_value :: "ExecutionProcessState \<Rightarrow> string" where
  "xstate_value XS_QUEUED = ''QUEUED''"
| "xstate_value XS_STARTING = ''STARTING''"
| "xstate_value XS_RUNNING = ''RUNNING''"
| "xstate_value XS_PROCESS_STILL_RUNNING = ''PROCESS_STILL_RUNNING''"
| "xstate_value XS_PROCESS_EXITED_UNKNOWN_RESULT = ''PROCESS_EXITED_UNKNOWN_RESULT''"
| "xstate_value XS_SUCCEEDED = ''SUCCEEDED''"
| "xstate_value XS_FAILED = ''FAILED''"
| "xstate_value XS_PARTIAL = ''PARTIAL''"
| "xstate_value XS_CANCELLED = ''CANCELLED''"
| "xstate_value XS_RECOVERY_REQUIRED = ''RECOVERY_REQUIRED''"
| "xstate_value XS_VERIFICATION_REQUIRED = ''VERIFICATION_REQUIRED''"

datatype ExecutionEventType =
    XE_CREATED | XE_TRANSPORT_STATE_CHANGED | XE_EXECUTION_STATE_CHANGED | XE_PROCESS_METADATA_UPDATED
  | XE_RESULT_METADATA_UPDATED | XE_RECEIPT_RECORDED

fun xevent_value :: "ExecutionEventType \<Rightarrow> string" where
  "xevent_value XE_CREATED = ''CREATED''"
| "xevent_value XE_TRANSPORT_STATE_CHANGED = ''TRANSPORT_STATE_CHANGED''"
| "xevent_value XE_EXECUTION_STATE_CHANGED = ''EXECUTION_STATE_CHANGED''"
| "xevent_value XE_PROCESS_METADATA_UPDATED = ''PROCESS_METADATA_UPDATED''"
| "xevent_value XE_RESULT_METADATA_UPDATED = ''RESULT_METADATA_UPDATED''"
| "xevent_value XE_RECEIPT_RECORDED = ''RECEIPT_RECORDED''"

fun disposition_value :: "ReceiptDisposition \<Rightarrow> string" where
  "disposition_value RD_ACCEPTED = ''ACCEPTED''"
| "disposition_value RD_QUARANTINED = ''QUARANTINED''"

text \<open>The member of an enumeration with the given value.\<close>

definition enum_of :: "'a list \<Rightarrow> ('a \<Rightarrow> string) \<Rightarrow> string \<Rightarrow> string \<Rightarrow> exn + 'a" where
  "enum_of members value field v = (case fetchone (\<lambda>x. value x = v) members of
     None \<Rightarrow> Inl (ValueErr field) | Some x \<Rightarrow> Inr x)"

definition transport_of :: "string \<Rightarrow> exn + TransportState" where
  "transport_of = enum_of [TS_CONNECTED, TS_DEGRADED, TS_LOST, TS_UNAVAILABLE] transport_value ''transport_state''"

definition xstate_of :: "string \<Rightarrow> exn + ExecutionProcessState" where
  "xstate_of = enum_of [XS_QUEUED, XS_STARTING, XS_RUNNING, XS_PROCESS_STILL_RUNNING, XS_PROCESS_EXITED_UNKNOWN_RESULT,
     XS_SUCCEEDED, XS_FAILED, XS_PARTIAL, XS_CANCELLED, XS_RECOVERY_REQUIRED, XS_VERIFICATION_REQUIRED]
     xstate_value ''execution_state''"

definition xevent_of :: "string \<Rightarrow> exn + ExecutionEventType" where
  "xevent_of = enum_of [XE_CREATED, XE_TRANSPORT_STATE_CHANGED, XE_EXECUTION_STATE_CHANGED, XE_PROCESS_METADATA_UPDATED,
     XE_RESULT_METADATA_UPDATED, XE_RECEIPT_RECORDED] xevent_value ''event_type''"

definition disposition_of :: "string \<Rightarrow> exn + ReceiptDisposition" where
  "disposition_of = enum_of [RD_ACCEPTED, RD_QUARANTINED] disposition_value ''disposition''"

record ExecutionRow =
  xw_execution_id :: string
  xw_job_id :: string
  xw_work_order_ref :: string
  xw_project_id :: string
  xw_worker_id :: string
  xw_backend_id :: string
  xw_agent_ref :: "string option"
  xw_repo_root :: string
  xw_branch :: string
  xw_head_before :: string
  xw_operation_ref :: string
  xw_command_fingerprint :: string
  xw_command_summary :: string
  xw_runtime_profile_ref :: "string option"
  xw_run_dir_ref :: "string option"
  xw_stdout_ref :: "string option"
  xw_stderr_ref :: "string option"
  xw_result_ref :: "string option"
  xw_report_ref :: "string option"
  xw_transport_state :: string
  xw_execution_state :: string
  xw_pid :: "int option"
  xw_exit_code :: "int option"
  xw_started_at :: "string option"
  xw_finished_at :: "string option"
  xw_version :: int
  xw_author_attempt_id :: "string option"
  xw_author_generation :: "int option"
  xw_created_at :: string

record ExecutionEventRow =
  xv_event_id :: string
  xv_execution_id :: string
  xv_sequence_no :: int
  xv_event_type :: string
  xv_transport_state :: "string option"
  xv_execution_state :: "string option"
  xv_pid :: "int option"
  xv_exit_code :: "int option"
  xv_started_at :: "string option"
  xv_finished_at :: "string option"
  xv_evidence_ref :: "string option"

record ReceiptRow =
  rw_receipt_id :: string
  rw_execution_id :: string
  rw_attempt_id :: string
  rw_result_digest :: string
  rw_binding_digest :: string
  rw_claim_generation :: int
  rw_authority_sha :: string
  rw_execution_sha :: string
  rw_disposition :: string
  rw_evidence_ref :: "string option"
  rw_recorded_at :: string

record AdmissionDecisionRow =
  ad_execution_id :: string
  ad_attempt_id :: string
  ad_binding_digest :: string
  ad_claim_ref :: string
  ad_claim_generation :: int
  ad_admitted :: bool
  ad_code :: "string option"
  ad_detail :: "string option"

record DispatchFenceRow =
  df_execution_id :: string
  df_attempt_id :: string
  df_binding_digest :: string
  df_state :: string
  df_reason :: "string option"

record ExecDb =
  xd_records :: "ExecutionRow list"
  xd_events :: "ExecutionEventRow list"
  xd_receipts :: "ReceiptRow list"
  xd_decisions :: "AdmissionDecisionRow list"
  xd_fences :: "DispatchFenceRow list"

definition empty_executions :: ExecDb where
  "empty_executions = \<lparr>xd_records = [], xd_events = [], xd_receipts = [], xd_decisions = [], xd_fences = []\<rparr>"

definition record_row :: "DurableExecutionRecord \<Rightarrow> string \<Rightarrow> ExecutionRow" where
  "record_row r created =
     \<lparr>xw_execution_id = xr_execution_id r, xw_job_id = xr_job_id r, xw_work_order_ref = xr_work_order_ref r,
      xw_project_id = xr_project_id r, xw_worker_id = xr_worker_id r, xw_backend_id = xr_backend_id r,
      xw_agent_ref = xr_agent_ref r, xw_repo_root = xr_repo_root r, xw_branch = xr_branch r,
      xw_head_before = xr_head_before r, xw_operation_ref = xr_operation_ref r,
      xw_command_fingerprint = xr_command_fingerprint r, xw_command_summary = xr_command_summary r,
      xw_runtime_profile_ref = xr_runtime_profile_ref r, xw_run_dir_ref = xr_run_dir_ref r,
      xw_stdout_ref = xr_stdout_ref r, xw_stderr_ref = xr_stderr_ref r, xw_result_ref = xr_result_ref r,
      xw_report_ref = xr_report_ref r, xw_transport_state = transport_value (xr_transport_state r),
      xw_execution_state = xstate_value (xr_execution_state r), xw_pid = xr_pid r, xw_exit_code = xr_exit_code r,
      xw_started_at = xr_started_at r, xw_finished_at = xr_finished_at r, xw_version = xr_version r,
      xw_author_attempt_id = xr_author_attempt_id r, xw_author_generation = xr_author_generation r,
      xw_created_at = created\<rparr>"

definition row_record :: "ExecutionRow \<Rightarrow> TransportState \<Rightarrow> ExecutionProcessState \<Rightarrow> DurableExecutionRecord" where
  "row_record w t s =
     \<lparr>xr_execution_id = xw_execution_id w, xr_job_id = xw_job_id w, xr_work_order_ref = xw_work_order_ref w,
      xr_project_id = xw_project_id w, xr_worker_id = xw_worker_id w, xr_backend_id = xw_backend_id w,
      xr_agent_ref = xw_agent_ref w, xr_repo_root = xw_repo_root w, xr_branch = xw_branch w,
      xr_head_before = xw_head_before w, xr_operation_ref = xw_operation_ref w,
      xr_command_fingerprint = xw_command_fingerprint w, xr_command_summary = xw_command_summary w,
      xr_runtime_profile_ref = xw_runtime_profile_ref w, xr_run_dir_ref = xw_run_dir_ref w,
      xr_stdout_ref = xw_stdout_ref w, xr_stderr_ref = xw_stderr_ref w, xr_result_ref = xw_result_ref w,
      xr_report_ref = xw_report_ref w, xr_transport_state = t, xr_execution_state = s,
      xr_pid = xw_pid w, xr_exit_code = xw_exit_code w, xr_started_at = xw_started_at w,
      xr_finished_at = xw_finished_at w, xr_version = xw_version w,
      xr_author_attempt_id = xw_author_attempt_id w, xr_author_generation = xw_author_generation w\<rparr>"

definition invalid_as :: "string \<Rightarrow> exn + 'a \<Rightarrow> exn + 'a" where
  "invalid_as code v = (case v of Inl (ValueErr _) \<Rightarrow> Inl (ExecutionStoreErr code) | _ \<Rightarrow> v)"

definition row_to_record :: "ExecutionRow \<Rightarrow> exn + DurableExecutionRecord" where
  "row_to_record w = invalid_as ''EXECUTION_RECORD_INVALID'' (
     res_bind (transport_of (xw_transport_state w)) (\<lambda>t.
     res_bind (xstate_of (xw_execution_state w)) (\<lambda>s.
     DurableExecutionRecord_post_init (row_record w t s))))"

section \<open>Records and events\<close>

definition store_text :: "string \<Rightarrow> string \<Rightarrow> exn + unit" where
  "store_text v field = (if blank v \<or> CHR 0x00 \<in> set v then Inl (ValueErr field) else Inr ())"

definition store_optional_text :: "string option \<Rightarrow> string \<Rightarrow> exn + unit" where
  "store_optional_text v field = (case v of None \<Rightarrow> Inr () | Some x \<Rightarrow> store_text x field)"

text \<open>A transaction: its result and the database it commits, or the exception after a rollback.\<close>

definition transact :: "('d \<Rightarrow> exn + 'a \<times> 'd) \<Rightarrow> ('d, 'a) action" where
  "transact body db = (case body db of Inl e \<Rightarrow> (Inl e, db) | Inr (x, db') \<Rightarrow> (Inr x, db'))"

definition select_record :: "string \<Rightarrow> ExecDb \<Rightarrow> exn + ExecutionRow" where
  "select_record i db = (case fetchone (\<lambda>w. xw_execution_id w = i) (xd_records db) of
     None \<Rightarrow> Inl (ExecutionStoreErr ''EXECUTION_NOT_FOUND'') | Some w \<Rightarrow> Inr w)"

definition execution_next_sequence :: "string \<Rightarrow> ExecDb \<Rightarrow> int" where
  "execution_next_sequence i db =
     (case map xv_sequence_no (filter (\<lambda>e. xv_execution_id e = i) (xd_events db)) of
        [] \<Rightarrow> 1 | s # ss \<Rightarrow> fold max ss s + 1)"

text \<open>\<^verbatim>\<open>trim(x) <> ''\<close> of SQLite, which trims blanks only.\<close>

definition sqlite_trim_empty :: "string \<Rightarrow> bool" where
  "sqlite_trim_empty v = list_all (\<lambda>c. c = CHR '' '') v"

definition insert_execution_event ::
  "string option \<Rightarrow> DurableExecutionRecord \<Rightarrow> ExecutionEventType \<Rightarrow> string option \<Rightarrow> ExecDb \<Rightarrow> exn + ExecDb" where
  "insert_execution_event eid r etype evidence db =
     res_bind (store_optional_text evidence ''evidence_ref'') (\<lambda>_.
     case eid of None \<Rightarrow> Inl BackendErr
     | Some event_id \<Rightarrow>
         if sqlite_trim_empty event_id \<or> event_id \<in> xv_event_id ` set (xd_events db)
         then Inl (ExecutionStoreErr ''EXECUTION_STORE_WRITE_FAILED'')
         else Inr (db\<lparr>xd_events := xd_events db @
           [\<lparr>xv_event_id = event_id, xv_execution_id = xr_execution_id r,
             xv_sequence_no = execution_next_sequence (xr_execution_id r) db,
             xv_event_type = xevent_value etype,
             xv_transport_state = Some (transport_value (xr_transport_state r)),
             xv_execution_state = Some (xstate_value (xr_execution_state r)),
             xv_pid = xr_pid r, xv_exit_code = xr_exit_code r, xv_started_at = xr_started_at r,
             xv_finished_at = xr_finished_at r, xv_evidence_ref = evidence\<rparr>]\<rparr>))"

definition create_execution ::
  "string option \<Rightarrow> string \<Rightarrow> DurableExecutionRecord \<Rightarrow> (ExecDb, DurableExecutionRecord) action" where
  "create_execution eid created r = transact (\<lambda>db.
     if xr_version r \<noteq> 1 then Inl (ValueErr ''new execution record version must be 1'')
     else if fetchone (\<lambda>w. xw_execution_id w = xr_execution_id r) (xd_records db) \<noteq> None
     then Inl (ExecutionStoreErr ''EXECUTION_ALREADY_EXISTS'')
     else res_bind (insert_execution_event eid r XE_CREATED None
            (db\<lparr>xd_records := xd_records db @ [record_row r created]\<rparr>)) (\<lambda>db'. Inr (r, db')))"

definition get_execution :: "string \<Rightarrow> ExecDb \<Rightarrow> exn + DurableExecutionRecord" where
  "get_execution i db = res_bind (store_text i ''execution_id'') (\<lambda>_.
     res_bind (select_record i db) row_to_record)"

fun row_records :: "ExecutionRow list \<Rightarrow> exn + DurableExecutionRecord list" where
  "row_records [] = Inr []"
| "row_records (w # ws) = res_bind (row_to_record w) (\<lambda>r. res_bind (row_records ws) (\<lambda>rs. Inr (r # rs)))"

text \<open>\<^verbatim>\<open>ORDER BY created_at DESC, rowid DESC\<close>.\<close>

definition find_by_fingerprint :: "string \<Rightarrow> ExecDb \<Rightarrow> exn + DurableExecutionRecord list" where
  "find_by_fingerprint fingerprint db =
     (if \<not> lower_hex 64 fingerprint then Inl (ValueErr ''fingerprint must be lowercase SHA-256 hex'')
      else row_records (rev (sort_key xw_created_at
             (filter (\<lambda>w. xw_command_fingerprint w = fingerprint) (xd_records db)))))"

definition update_record_row :: "string \<Rightarrow> int \<Rightarrow> DurableExecutionRecord \<Rightarrow> ExecDb \<Rightarrow> exn + ExecDb" where
  "update_record_row i expected r db =
     (if \<not> list_ex (\<lambda>w. xw_execution_id w = i \<and> xw_version w = expected) (xd_records db)
      then Inl (ExecutionStoreErr ''EXECUTION_VERSION_CONFLICT'')
      else Inr (db\<lparr>xd_records := map (\<lambda>w. if xw_execution_id w = i \<and> xw_version w = expected
        then w\<lparr>xw_transport_state := transport_value (xr_transport_state r),
               xw_execution_state := xstate_value (xr_execution_state r), xw_pid := xr_pid r,
               xw_exit_code := xr_exit_code r, xw_started_at := xr_started_at r,
               xw_finished_at := xr_finished_at r, xw_version := xr_version r\<rparr>
        else w) (xd_records db)\<rparr>))"

definition update_execution ::
  "string option \<Rightarrow> string \<Rightarrow> int \<Rightarrow> ExecutionEventType \<Rightarrow> string option
     \<Rightarrow> (DurableExecutionRecord \<Rightarrow> DurableExecutionRecord) \<Rightarrow> (ExecDb, DurableExecutionRecord) action" where
  "update_execution eid i expected etype evidence transform = transact (\<lambda>db.
     res_bind (store_text i ''execution_id'') (\<lambda>_.
     res_bind (positive_int expected ''expected_version'') (\<lambda>_.
     res_bind (store_optional_text evidence ''evidence_ref'') (\<lambda>_.
     res_bind (select_record i db) (\<lambda>row.
     res_bind (row_to_record row) (\<lambda>current.
     if xr_version current \<noteq> expected then Inl (ExecutionStoreErr ''EXECUTION_VERSION_CONFLICT'') else
     res_bind (DurableExecutionRecord_post_init (transform current)) (\<lambda>next_record.
     if xr_execution_id next_record \<noteq> xr_execution_id current
     then Inl (ExecutionStoreErr ''EXECUTION_IDENTITY_MUTATION_FORBIDDEN'') else
     res_bind (update_record_row i expected next_record db) (\<lambda>db1.
     res_bind (insert_execution_event eid next_record etype evidence db1) (\<lambda>db2.
     Inr (next_record, db2))))))))))"

definition set_transport_state ::
  "string option \<Rightarrow> string \<Rightarrow> TransportState \<Rightarrow> int \<Rightarrow> string option \<Rightarrow> (ExecDb, DurableExecutionRecord) action" where
  "set_transport_state eid i state expected evidence =
     update_execution eid i expected XE_TRANSPORT_STATE_CHANGED evidence
       (\<lambda>r. r\<lparr>xr_transport_state := state, xr_version := xr_version r + 1\<rparr>)"

definition set_execution_state ::
  "string option \<Rightarrow> string \<Rightarrow> ExecutionProcessState \<Rightarrow> int \<Rightarrow> string option \<Rightarrow> (ExecDb, DurableExecutionRecord) action" where
  "set_execution_state eid i state expected evidence =
     update_execution eid i expected XE_EXECUTION_STATE_CHANGED evidence
       (\<lambda>r. r\<lparr>xr_execution_state := state, xr_version := xr_version r + 1\<rparr>)"

definition set_process_metadata ::
  "string option \<Rightarrow> string \<Rightarrow> int \<Rightarrow> string option \<Rightarrow> int \<Rightarrow> string option \<Rightarrow> (ExecDb, DurableExecutionRecord) action" where
  "set_process_metadata eid i pid started_at expected evidence =
     update_execution eid i expected XE_PROCESS_METADATA_UPDATED evidence
       (\<lambda>r. r\<lparr>xr_pid := Some pid, xr_started_at := started_at, xr_version := xr_version r + 1\<rparr>)"

definition set_result_metadata ::
  "string option \<Rightarrow> string \<Rightarrow> int \<Rightarrow> string \<Rightarrow> int \<Rightarrow> string option \<Rightarrow> (ExecDb, DurableExecutionRecord) action" where
  "set_result_metadata eid i exit_code finished_at expected evidence =
     update_execution eid i expected XE_RESULT_METADATA_UPDATED evidence
       (\<lambda>r. r\<lparr>xr_exit_code := Some exit_code, xr_finished_at := Some finished_at, xr_version := xr_version r + 1\<rparr>)"

record ExecutionEvent =
  xe_event_id :: string
  xe_execution_id :: string
  xe_sequence_no :: int
  xe_event_type :: ExecutionEventType
  xe_transport_state :: "TransportState option"
  xe_execution_state :: "ExecutionProcessState option"
  xe_pid :: "int option"
  xe_exit_code :: "int option"
  xe_started_at :: "string option"
  xe_finished_at :: "string option"
  xe_evidence_ref :: "string option"

definition ExecutionEvent_post_init :: "ExecutionEvent \<Rightarrow> exn + ExecutionEvent" where
  "ExecutionEvent_post_init e = res_bind (check_all
     [store_text (xe_event_id e) ''event_id'', store_text (xe_execution_id e) ''execution_id'',
      positive_int (xe_sequence_no e) ''sequence_no'', optional_pid (xe_pid e),
      store_optional_text (xe_started_at e) ''started_at'', store_optional_text (xe_finished_at e) ''finished_at'',
      store_optional_text (xe_evidence_ref e) ''evidence_ref'']) (\<lambda>_. Inr e)"

definition optional_of :: "('a \<Rightarrow> exn + 'b) \<Rightarrow> 'a option \<Rightarrow> exn + 'b option" where
  "optional_of f v = (case v of None \<Rightarrow> Inr None | Some x \<Rightarrow> res_bind (f x) (\<lambda>y. Inr (Some y)))"

definition row_to_event :: "ExecutionEventRow \<Rightarrow> exn + ExecutionEvent" where
  "row_to_event w = invalid_as ''EXECUTION_EVENT_INVALID'' (
     res_bind (xevent_of (xv_event_type w)) (\<lambda>etype.
     res_bind (optional_of transport_of (xv_transport_state w)) (\<lambda>t.
     res_bind (optional_of xstate_of (xv_execution_state w)) (\<lambda>s.
     ExecutionEvent_post_init
       \<lparr>xe_event_id = xv_event_id w, xe_execution_id = xv_execution_id w, xe_sequence_no = xv_sequence_no w,
        xe_event_type = etype, xe_transport_state = t, xe_execution_state = s, xe_pid = xv_pid w,
        xe_exit_code = xv_exit_code w, xe_started_at = xv_started_at w, xe_finished_at = xv_finished_at w,
        xe_evidence_ref = xv_evidence_ref w\<rparr>))))"

fun row_events :: "ExecutionEventRow list \<Rightarrow> exn + ExecutionEvent list" where
  "row_events [] = Inr []"
| "row_events (w # ws) = res_bind (row_to_event w) (\<lambda>e. res_bind (row_events ws) (\<lambda>es. Inr (e # es)))"

definition list_execution_events :: "string \<Rightarrow> ExecDb \<Rightarrow> exn + ExecutionEvent list" where
  "list_execution_events i db =
     res_bind (store_text i ''execution_id'') (\<lambda>_.
     res_bind (select_record i db) (\<lambda>_.
     row_events (sort_key xv_sequence_no (filter (\<lambda>e. xv_execution_id e = i) (xd_events db)))))"

end
