(* ===== verification/Execution_Ledger.thy ===== *)
theory Execution_Ledger
  imports Execution_Store
begin

text \<open>
  Receipts, the admission journal and the dispatch fences of
  \<^verbatim>\<open>src/src/a_conductor/execution_store.py\<close>.
\<close>

section \<open>Receipts\<close>

definition receipt_row :: "DurableExecutionReceipt \<Rightarrow> string \<Rightarrow> ReceiptRow" where
  "receipt_row r recorded =
     \<lparr>rw_receipt_id = rc_receipt_id r, rw_execution_id = rc_execution_id r, rw_attempt_id = rc_attempt_id r,
      rw_result_digest = rc_result_digest r, rw_binding_digest = rc_binding_digest r,
      rw_claim_generation = rc_claim_generation r, rw_authority_sha = rc_authority_sha r,
      rw_execution_sha = rc_execution_sha r, rw_disposition = disposition_value (rc_disposition r),
      rw_evidence_ref = rc_evidence_ref r, rw_recorded_at = recorded\<rparr>"

definition row_to_receipt :: "(string \<Rightarrow> string) \<Rightarrow> ReceiptRow \<Rightarrow> exn + DurableExecutionReceipt" where
  "row_to_receipt sha w = invalid_as ''RECEIPT_RECORD_INVALID'' (
     res_bind (disposition_of (rw_disposition w)) (\<lambda>d.
     DurableExecutionReceipt_post_init sha
       \<lparr>rc_receipt_id = rw_receipt_id w, rc_execution_id = rw_execution_id w, rc_attempt_id = rw_attempt_id w,
        rc_result_digest = rw_result_digest w, rc_binding_digest = rw_binding_digest w,
        rc_claim_generation = rw_claim_generation w, rc_authority_sha = rw_authority_sha w,
        rc_execution_sha = rw_execution_sha w, rc_disposition = d, rc_evidence_ref = rw_evidence_ref w,
        rc_recorded_at = Some (rw_recorded_at w)\<rparr>))"

definition select_receipt_by_id :: "string \<Rightarrow> ExecDb \<Rightarrow> ReceiptRow option" where
  "select_receipt_by_id i db = fetchone (\<lambda>w. rw_receipt_id w = i) (xd_receipts db)"

definition select_receipt_by_identity :: "DurableExecutionReceipt \<Rightarrow> ExecDb \<Rightarrow> ReceiptRow option" where
  "select_receipt_by_identity r db = fetchone (\<lambda>w. rw_execution_id w = rc_execution_id r \<and> rw_attempt_id w = rc_attempt_id r
     \<and> rw_result_digest w = rc_result_digest r \<and> rw_binding_digest w = rc_binding_digest r) (xd_receipts db)"

definition verify_receipt_agreement :: "DurableExecutionReceipt \<Rightarrow> ReceiptRow \<Rightarrow> exn + unit" where
  "verify_receipt_agreement r w =
     (if rw_claim_generation w \<noteq> rc_claim_generation r \<or> rw_authority_sha w \<noteq> rc_authority_sha r
         \<or> rw_execution_sha w \<noteq> rc_execution_sha r \<or> rw_disposition w \<noteq> disposition_value (rc_disposition r)
         \<or> rw_evidence_ref w \<noteq> rc_evidence_ref r
      then Inl (ExecutionStoreErr ''RECEIPT_CONFLICT'') else Inr ())"

text \<open>
  The transaction: the row to return and the database. The insert ignores a used receipt id;
  the uniqueness of the identity columns makes it fail for the same identity under another id.
\<close>

definition write_receipt :: "string option \<Rightarrow> string \<Rightarrow> DurableExecutionReceipt \<Rightarrow> ExecDb \<Rightarrow> exn + ReceiptRow \<times> ExecDb" where
  "write_receipt eid recorded r db =
     res_bind (res_bind (select_record (rc_execution_id r) db) row_to_record) (\<lambda>record.
     case select_receipt_by_id (rc_receipt_id r) db of
       Some existing \<Rightarrow> res_bind (verify_receipt_agreement r existing) (\<lambda>_. Inr (existing, db))
     | None \<Rightarrow>
         if select_receipt_by_identity r db \<noteq> None then Inl (ExecutionStoreErr ''EXECUTION_STORE_WRITE_FAILED'')
         else res_bind (insert_execution_event eid record XE_RECEIPT_RECORDED (Some (rc_receipt_id r))
                (db\<lparr>xd_receipts := xd_receipts db @ [receipt_row r recorded]\<rparr>)) (\<lambda>db'.
              Inr (receipt_row r recorded, db')))"

definition record_receipt ::
  "(string \<Rightarrow> string) \<Rightarrow> string option \<Rightarrow> string \<Rightarrow> DurableExecutionReceipt \<Rightarrow> (ExecDb, DurableExecutionReceipt) action" where
  "record_receipt sha eid recorded r =
     andthen (transact (write_receipt eid recorded r)) (\<lambda>row. lift_res (row_to_receipt sha row))"

definition get_receipt :: "(string \<Rightarrow> string) \<Rightarrow> string \<Rightarrow> ExecDb \<Rightarrow> exn + DurableExecutionReceipt" where
  "get_receipt sha i db =
     (if \<not> lower_hex 64 i then Inl (ValueErr ''receipt_id must be lowercase SHA-256 hex'')
      else case select_receipt_by_id i db of
        None \<Rightarrow> Inl (ExecutionStoreErr ''RECEIPT_NOT_FOUND'')
      | Some w \<Rightarrow> row_to_receipt sha w)"

section \<open>The admission journal\<close>

definition select_decision :: "string \<Rightarrow> string \<Rightarrow> ExecDb \<Rightarrow> AdmissionDecisionRow option" where
  "select_decision e a db = fetchone (\<lambda>w. ad_execution_id w = e \<and> ad_attempt_id w = a) (xd_decisions db)"

definition row_to_admission_decision :: "AdmissionDecisionRow \<Rightarrow> exn + AdmissionDecisionRow" where
  "row_to_admission_decision w =
     (if blank (ad_execution_id w) \<or> blank (ad_attempt_id w) \<or> blank (ad_claim_ref w)
         \<or> \<not> lower_hex 64 (ad_binding_digest w) \<or> ad_claim_generation w < 0
         \<or> (ad_admitted w \<and> ad_code w \<noteq> None) \<or> (\<not> ad_admitted w \<and> (ad_code w = None \<or> ad_code w = Some []))
      then Inl (ExecutionStoreErr ''ADMISSION_JOURNAL_CORRUPT'') else Inr w)"

definition load_admission_decision :: "string \<Rightarrow> string \<Rightarrow> ExecDb \<Rightarrow> exn + AdmissionDecisionRow option" where
  "load_admission_decision e a db =
     res_bind (store_text e ''execution_id'') (\<lambda>_.
     res_bind (store_text a ''attempt_id'') (\<lambda>_.
     optional_of row_to_admission_decision (select_decision e a db)))"

definition validate_admission_decision :: "AdmissionDecisionRow \<Rightarrow> exn + unit" where
  "validate_admission_decision d =
     res_bind (store_text (ad_execution_id d) ''execution_id'') (\<lambda>_.
     res_bind (store_text (ad_attempt_id d) ''attempt_id'') (\<lambda>_.
     res_bind (store_text (ad_claim_ref d) ''claim_ref'') (\<lambda>_.
     if \<not> lower_hex 64 (ad_binding_digest d) then Inl (ValueErr ''binding_digest must be lowercase SHA-256 hex'')
     else if ad_claim_generation d < 0 then Inl (ValueErr ''claim_generation must be a non-negative int'')
     else if (case ad_code d of None \<Rightarrow> False | Some c \<Rightarrow> blank c)
     then Inl (ValueErr ''code must be a non-empty string or None'')
     else if (ad_admitted d \<and> ad_code d \<noteq> None) \<or> (\<not> ad_admitted d \<and> ad_code d = None)
     then Inl (ValueErr ''admitted rows carry no code; denied rows require one'') else Inr ())))"

definition record_admission_decision :: "AdmissionDecisionRow \<Rightarrow> (ExecDb, unit) action" where
  "record_admission_decision d = transact (\<lambda>db.
     res_bind (validate_admission_decision d) (\<lambda>_.
     case select_decision (ad_execution_id d) (ad_attempt_id d) db of
       Some existing \<Rightarrow> res_bind (row_to_admission_decision existing) (\<lambda>current.
         if current = d then Inr ((), db) else Inl (ExecutionStoreErr ''ADMISSION_DECISION_CONFLICT''))
     | None \<Rightarrow> Inr ((), db\<lparr>xd_decisions := xd_decisions db @ [d]\<rparr>)))"

section \<open>Dispatch fences\<close>

definition FENCE_STATES :: "string list" where
  "FENCE_STATES = [''RESERVED'', ''DISPATCHED'', ''FENCED'', ''RETIRED'']"

definition FENCE_TRANSITIONS :: "string \<Rightarrow> string list" where
  "FENCE_TRANSITIONS s =
     (if s = ''RESERVED'' then [''DISPATCHED'', ''FENCED'', ''RETIRED'']
      else if s = ''DISPATCHED'' then [''FENCED'', ''RETIRED''] else [])"

definition select_fence :: "string \<Rightarrow> string \<Rightarrow> ExecDb \<Rightarrow> DispatchFenceRow option" where
  "select_fence e a db = fetchone (\<lambda>w. df_execution_id w = e \<and> df_attempt_id w = a) (xd_fences db)"

definition reserve_dispatch_fence :: "string \<Rightarrow> string \<Rightarrow> string \<Rightarrow> (ExecDb, string \<times> bool) action" where
  "reserve_dispatch_fence e a digest = transact (\<lambda>db.
     res_bind (store_text e ''execution_id'') (\<lambda>_.
     res_bind (store_text a ''attempt_id'') (\<lambda>_.
     if \<not> lower_hex 64 digest then Inl (ValueErr ''binding_digest must be lowercase SHA-256 hex'') else
     case select_fence e a db of
       Some existing \<Rightarrow>
         if df_binding_digest existing \<noteq> digest then Inl (ExecutionStoreErr ''FENCE_BINDING_CONFLICT'')
         else if df_state existing \<notin> set FENCE_STATES then Inl (ExecutionStoreErr ''DISPATCH_FENCE_CORRUPT'')
         else Inr ((df_state existing, False), db)
     | None \<Rightarrow> Inr ((''RESERVED'', True), db\<lparr>xd_fences := xd_fences db @
         [\<lparr>df_execution_id = e, df_attempt_id = a, df_binding_digest = digest, df_state = ''RESERVED'', df_reason = None\<rparr>]\<rparr>))))"

definition transition_dispatch_fence :: "string \<Rightarrow> string \<Rightarrow> string \<Rightarrow> string option \<Rightarrow> (ExecDb, unit) action" where
  "transition_dispatch_fence e a new_state reason = transact (\<lambda>db.
     res_bind (store_text e ''execution_id'') (\<lambda>_.
     res_bind (store_text a ''attempt_id'') (\<lambda>_.
     if new_state \<notin> set FENCE_STATES then Inl (ExecutionStoreErr ''FENCE_STATE_CONFLICT'') else
     case select_fence e a db of
       None \<Rightarrow> Inl (ExecutionStoreErr ''DISPATCH_FENCE_NOT_FOUND'')
     | Some existing \<Rightarrow>
         if df_state existing \<notin> set FENCE_STATES then Inl (ExecutionStoreErr ''DISPATCH_FENCE_CORRUPT'')
         else if new_state \<notin> set (FENCE_TRANSITIONS (df_state existing)) then Inl (ExecutionStoreErr ''FENCE_STATE_CONFLICT'')
         else Inr ((), db\<lparr>xd_fences := map (\<lambda>w. if df_execution_id w = e \<and> df_attempt_id w = a
                then w\<lparr>df_state := new_state, df_reason := reason\<rparr> else w) (xd_fences db)\<rparr>))))"

definition load_dispatch_fence :: "string \<Rightarrow> string \<Rightarrow> ExecDb \<Rightarrow> exn + DispatchFenceRow option" where
  "load_dispatch_fence e a db =
     res_bind (store_text e ''execution_id'') (\<lambda>_.
     res_bind (store_text a ''attempt_id'') (\<lambda>_.
     case select_fence e a db of None \<Rightarrow> Inr None
     | Some w \<Rightarrow> if df_state w \<notin> set FENCE_STATES \<or> \<not> lower_hex 64 (df_binding_digest w)
                 then Inl (ExecutionStoreErr ''DISPATCH_FENCE_CORRUPT'') else Inr (Some w)))"

section \<open>Steps of the store\<close>

inductive exec_step :: "(string \<Rightarrow> string) \<Rightarrow> ExecDb \<Rightarrow> ExecDb \<Rightarrow> bool" for sha where
  x_create: "valid_record r \<Longrightarrow> create_execution eid created r db = (x, db') \<Longrightarrow> exec_step sha db db'"
| x_transport: "set_transport_state eid i st v ev db = (x, db') \<Longrightarrow> exec_step sha db db'"
| x_state: "set_execution_state eid i xs v ev db = (x, db') \<Longrightarrow> exec_step sha db db'"
| x_process: "set_process_metadata eid i pid sa v ev db = (x, db') \<Longrightarrow> exec_step sha db db'"
| x_result: "set_result_metadata eid i ec fa v ev db = (x, db') \<Longrightarrow> exec_step sha db db'"
| x_receipt: "DurableExecutionReceipt_post_init sha rc = Inr rc \<Longrightarrow> record_receipt sha eid now rc db = (y, db') \<Longrightarrow>
    exec_step sha db db'"
| x_decision: "record_admission_decision d db = (u, db') \<Longrightarrow> exec_step sha db db'"
| x_reserve: "reserve_dispatch_fence e a dg db = (w, db') \<Longrightarrow> exec_step sha db db'"
| x_fence: "transition_dispatch_fence e a ns rs db = (u, db') \<Longrightarrow> exec_step sha db db'"

definition exec_steps :: "(string \<Rightarrow> string) \<Rightarrow> ExecDb \<Rightarrow> ExecDb \<Rightarrow> bool" where
  "exec_steps sha = (exec_step sha)\<^sup>*\<^sup>*"

abbreviation exec_reachable :: "(string \<Rightarrow> string) \<Rightarrow> ExecDb \<Rightarrow> bool" where
  "exec_reachable sha \<equiv> exec_steps sha empty_executions"

end
