(* ===== verification/Execution_Invariant.thy ===== *)
theory Execution_Invariant
  imports Execution_Ledger
begin

text \<open>
  What the operations of the execution store keep: the event log of a record is its gap-free
  history, receipts and admission decisions are append-only, and a dispatch fence is never
  removed or reopened.
\<close>

section \<open>Reading back\<close>

lemma enum_values [simp]:
  "transport_of (transport_value t) = Inr t" "xstate_of (xstate_value s) = Inr s" "xevent_of (xevent_value e) = Inr e"
  "disposition_of (disposition_value d) = Inr d"
  by (cases t, simp_all add: transport_of_def enum_of_def fetchone_def)
    (cases s, simp_all add: xstate_of_def enum_of_def fetchone_def,
     cases e, simp_all add: xevent_of_def enum_of_def fetchone_def,
     cases d, simp_all add: disposition_of_def enum_of_def fetchone_def)

lemma record_row_sel [simp]:
  "xw_execution_id (record_row r c) = xr_execution_id r" "xw_version (record_row r c) = xr_version r"
  "xw_created_at (record_row r c) = c" "xw_command_fingerprint (record_row r c) = xr_command_fingerprint r"
  by (simp_all add: record_row_def)

lemma row_record_row [simp]: "row_record (record_row r c) (xr_transport_state r) (xr_execution_state r) = r"
  by (simp add: row_record_def record_row_def)

lemma row_to_record_row [simp]: "valid_record r \<Longrightarrow> row_to_record (record_row r c) = Inr r"
proof -
  assume v: "valid_record r"
  have "xw_transport_state (record_row r c) = transport_value (xr_transport_state r)"
    "xw_execution_state (record_row r c) = xstate_value (xr_execution_state r)" by (simp_all add: record_row_def)
  then show ?thesis using v by (simp add: row_to_record_def invalid_as_def record_post_init_valid)
qed

definition event_row ::
  "string \<Rightarrow> int \<Rightarrow> DurableExecutionRecord \<Rightarrow> ExecutionEventType \<Rightarrow> string option \<Rightarrow> ExecutionEventRow" where
  "event_row eid n r etype ev =
     \<lparr>xv_event_id = eid, xv_execution_id = xr_execution_id r, xv_sequence_no = n, xv_event_type = xevent_value etype,
      xv_transport_state = Some (transport_value (xr_transport_state r)),
      xv_execution_state = Some (xstate_value (xr_execution_state r)),
      xv_pid = xr_pid r, xv_exit_code = xr_exit_code r, xv_started_at = xr_started_at r,
      xv_finished_at = xr_finished_at r, xv_evidence_ref = ev\<rparr>"

lemma event_row_sel [simp]:
  "xv_execution_id (event_row x n r t ev) = xr_execution_id r" "xv_sequence_no (event_row x n r t ev) = n"
  "xv_event_type (event_row x n r t ev) = xevent_value t" "xv_evidence_ref (event_row x n r t ev) = ev"
  "xv_event_id (event_row x n r t ev) = x"
  by (simp_all add: event_row_def)

lemma insert_execution_event_Inr:
  assumes "insert_execution_event eid r etype ev db = Inr db'"
  shows "\<exists>x. eid = Some x \<and> store_optional_text ev ''evidence_ref'' = Inr ()
    \<and> db' = db\<lparr>xd_events := xd_events db @ [event_row x (execution_next_sequence (xr_execution_id r) db) r etype ev]\<rparr>"
  using assms by (auto simp: insert_execution_event_def event_row_def split: option.splits if_splits)

lemma transact_cases:
  assumes "transact body db = (x, db')"
  shows "(\<exists>e. body db = Inl e \<and> x = Inl e \<and> db' = db) \<or> (\<exists>y. body db = Inr (y, db') \<and> x = Inr y)"
  using assms by (auto simp: transact_def split: sum.splits)

section \<open>The event log\<close>

definition exec_log :: "string \<Rightarrow> ExecDb \<Rightarrow> ExecutionEventRow list" where
  "exec_log i db = filter (\<lambda>e. xv_execution_id e = i) (xd_events db)"

definition counted :: "ExecutionEventRow \<Rightarrow> bool" where
  "counted e \<longleftrightarrow> xv_event_type e \<noteq> ''RECEIPT_RECORDED''"

definition event_shows :: "DurableExecutionRecord \<Rightarrow> ExecutionEventRow \<Rightarrow> bool" where
  "event_shows r e \<longleftrightarrow> xv_transport_state e = Some (transport_value (xr_transport_state r))
     \<and> xv_execution_state e = Some (xstate_value (xr_execution_state r)) \<and> xv_pid e = xr_pid r
     \<and> xv_exit_code e = xr_exit_code r \<and> xv_started_at e = xr_started_at r \<and> xv_finished_at e = xr_finished_at r"

definition event_sound :: "ExecutionEventRow \<Rightarrow> bool" where
  "event_sound e \<longleftrightarrow> (\<exists>x n r t ev. e = event_row x n r t ev \<and> valid_record r \<and> 1 \<le> n
     \<and> store_optional_text ev ''evidence_ref'' = Inr ())"

definition log_ok :: "DurableExecutionRecord \<Rightarrow> ExecutionEventRow list \<Rightarrow> bool" where
  "log_ok r es \<longleftrightarrow> es \<noteq> [] \<and> map xv_sequence_no es = [1..int (length es)] \<and> xv_event_type (hd es) = ''CREATED''
     \<and> xr_version r = int (length (filter counted es)) \<and> event_shows r (last es) \<and> list_all event_sound es"

definition records_ok :: "ExecDb \<Rightarrow> bool" where
  "records_ok db \<longleftrightarrow> distinct (map xw_execution_id (xd_records db))
     \<and> (\<forall>w \<in> set (xd_records db). \<exists>r. valid_record r \<and> w = record_row r (xw_created_at w)
          \<and> log_ok r (exec_log (xr_execution_id r) db))
     \<and> (\<forall>e \<in> set (xd_events db). xv_execution_id e \<in> xw_execution_id ` set (xd_records db))"

lemma event_shows_row [simp]: "event_shows r (event_row x n r t ev)"
  by (simp add: event_shows_def event_row_def)

lemma next_sequence_log:
  assumes "map xv_sequence_no (exec_log i db) = [1..int (length (exec_log i db))]"
  shows "execution_next_sequence i db = int (length (exec_log i db)) + 1"
proof (cases "exec_log i db")
  case Nil
  then show ?thesis by (simp add: execution_next_sequence_def exec_log_def)
next
  case (Cons e es)
  define n where "n = int (length (exec_log i db))"
  have n: "1 \<le> n" using Cons by (simp add: n_def)
  have m: "map xv_sequence_no (exec_log i db) = [1..n]" using assms by (simp add: n_def)
  from Cons m have "[1..n] = xv_sequence_no e # map xv_sequence_no es" by simp
  from fold_max_upto[OF n this]
  show ?thesis using Cons by (simp add: execution_next_sequence_def exec_log_def n_def)
qed

lemma counted_row [simp]: "counted (event_row x n r t ev) \<longleftrightarrow> t \<noteq> XE_RECEIPT_RECORDED"
  by (cases t) (simp_all add: counted_def)

lemma log_ok_append:
  assumes l: "log_ok r es" and v: "valid_record r'" and n: "n = int (length es) + 1"
    and ver: "xr_version r' = xr_version r + (if t = XE_RECEIPT_RECORDED then 0 else 1)"
    and ev: "store_optional_text ev ''evidence_ref'' = Inr ()"
  shows "log_ok r' (es @ [event_row x n r' t ev])"
proof -
  have "[1..int (length es) + 1] = [1..int (length es)] @ [int (length es) + 1]"
    using upto_rec2[of 1 "int (length es) + 1"] by simp
  moreover have "event_sound (event_row x n r' t ev)"
    unfolding event_sound_def using v ev n by (intro exI conjI) auto
  ultimately show ?thesis using l ver n by (simp add: log_ok_def add.commute)
qed

lemma log_ok_create:
  assumes "valid_record r" and "xr_version r = 1"
  shows "log_ok r [event_row x 1 r XE_CREATED None]"
proof -
  have "event_sound (event_row x 1 r XE_CREATED None)"
    unfolding event_sound_def using assms by (intro exI conjI) (auto simp: store_optional_text_def)
  then show ?thesis using assms by (simp add: log_ok_def)
qed

lemma records_okD:
  assumes "records_ok db" and "select_record i db = Inr w"
  shows "\<exists>r. valid_record r \<and> w = record_row r (xw_created_at w) \<and> w \<in> set (xd_records db)
    \<and> xr_execution_id r = i \<and> log_ok r (exec_log i db) \<and> row_to_record w = Inr r"
proof -
  from assms(2) have w: "w \<in> set (xd_records db)" "xw_execution_id w = i"
    by (auto simp: select_record_def dest!: fetchone_Some split: option.splits)
  with assms(1) obtain r where r: "valid_record r" "w = record_row r (xw_created_at w)"
    "log_ok r (exec_log (xr_execution_id r) db)" unfolding records_ok_def by blast
  have "xr_execution_id r = i" using r(2) w(2) record_row_sel(1) by metis
  moreover have "row_to_record w = Inr r" using r(1,2) row_to_record_row by metis
  ultimately show ?thesis using r w by blast
qed

lemma exec_log_append:
  "exec_log i (db\<lparr>xd_events := xd_events db @ [e]\<rparr>) = (if xv_execution_id e = i then exec_log i db @ [e] else exec_log i db)"
  by (simp add: exec_log_def)

lemma create_records_ok:
  assumes ok: "records_ok db" and v: "valid_record r" and c: "create_execution eid created r db = (x, db')"
  shows "records_ok db'"
proof -
  from transact_cases[OF c[unfolded create_execution_def]] show ?thesis
  proof (elim disjE exE conjE)
    fix y
    assume b: "(if xr_version r \<noteq> 1 then Inl (ValueErr ''new execution record version must be 1'')
     else if fetchone (\<lambda>w. xw_execution_id w = xr_execution_id r) (xd_records db) \<noteq> None
     then Inl (ExecutionStoreErr ''EXECUTION_ALREADY_EXISTS'')
     else res_bind (insert_execution_event eid r XE_CREATED None
            (db\<lparr>xd_records := xd_records db @ [record_row r created]\<rparr>)) (\<lambda>db'. Inr (r, db'))) = Inr (y, db')"
    let ?i = "xr_execution_id r"
    let ?db1 = "db\<lparr>xd_records := xd_records db @ [record_row r created]\<rparr>"
    from b have ver: "xr_version r = 1" and new: "?i \<notin> xw_execution_id ` set (xd_records db)"
      and ins: "insert_execution_event eid r XE_CREATED None ?db1 = Inr db'"
      by (auto simp: fetchone_None split: if_splits)
    have "\<forall>e \<in> set (xd_events db). xv_execution_id e \<in> xw_execution_id ` set (xd_records db)"
      using ok unfolding records_ok_def by blast
    then have empty: "exec_log ?i ?db1 = []"
      using new by (simp add: exec_log_def filter_empty_conv) metis
    then have "execution_next_sequence ?i ?db1 = 1" using next_sequence_log[of ?i ?db1] by simp
    with insert_execution_event_Inr[OF ins] obtain z where
      db': "db' = ?db1\<lparr>xd_events := xd_events ?db1 @ [event_row z 1 r XE_CREATED None]\<rparr>" by auto
    have log: "exec_log j db' = (if j = ?i then [event_row z 1 r XE_CREATED None] else exec_log j db)" for j
    proof -
      have "exec_log j ?db1 = exec_log j db" by (simp add: exec_log_def)
      then show ?thesis unfolding db' exec_log_append using empty by auto
    qed
    have recs: "xd_records db' = xd_records db @ [record_row r created]"
      and evs: "xd_events db' = xd_events db @ [event_row z 1 r XE_CREATED None]" by (simp_all add: db')
    have old: "\<exists>r'. valid_record r' \<and> w = record_row r' (xw_created_at w) \<and> log_ok r' (exec_log (xr_execution_id r') db')"
      if w: "w \<in> set (xd_records db)" for w
    proof -
      from ok w obtain r' where r': "valid_record r'" "w = record_row r' (xw_created_at w)"
        "log_ok r' (exec_log (xr_execution_id r') db)" unfolding records_ok_def by blast
      have "xr_execution_id r' = xw_execution_id w" using r'(2) record_row_sel(1) by metis
      then have "xr_execution_id r' \<noteq> ?i" using new w by force
      then show ?thesis using r' log by metis
    qed
    have "\<exists>r'. valid_record r' \<and> record_row r created = record_row r' created \<and> log_ok r' (exec_log (xr_execution_id r') db')"
      using v log[of ?i] log_ok_create[OF v ver] by auto
    then show ?thesis unfolding records_ok_def recs evs using ok new old by (auto simp: records_ok_def)
  qed (simp add: ok)
qed

text \<open>The columns an update writes, and the updates of the public methods.\<close>

definition write_columns :: "DurableExecutionRecord \<Rightarrow> ExecutionRow \<Rightarrow> ExecutionRow" where
  "write_columns r w = w\<lparr>xw_transport_state := transport_value (xr_transport_state r),
     xw_execution_state := xstate_value (xr_execution_state r), xw_pid := xr_pid r,
     xw_exit_code := xr_exit_code r, xw_started_at := xr_started_at r,
     xw_finished_at := xr_finished_at r, xw_version := xr_version r\<rparr>"

definition keeps_identity :: "(DurableExecutionRecord \<Rightarrow> DurableExecutionRecord) \<Rightarrow> bool" where
  "keeps_identity f \<longleftrightarrow> (\<forall>r c. write_columns (f r) (record_row r c) = record_row (f r) c
     \<and> xr_version (f r) = xr_version r + 1 \<and> xr_execution_id (f r) = xr_execution_id r)"

lemma setters_keep_identity:
  "keeps_identity (\<lambda>r. r\<lparr>xr_transport_state := st, xr_version := xr_version r + 1\<rparr>)"
  "keeps_identity (\<lambda>r. r\<lparr>xr_execution_state := xs, xr_version := xr_version r + 1\<rparr>)"
  "keeps_identity (\<lambda>r. r\<lparr>xr_pid := p, xr_started_at := sa, xr_version := xr_version r + 1\<rparr>)"
  "keeps_identity (\<lambda>r. r\<lparr>xr_exit_code := ec, xr_finished_at := fa, xr_version := xr_version r + 1\<rparr>)"
  by (simp_all add: keeps_identity_def write_columns_def record_row_def)

lemma update_execution_cases:
  assumes ok: "records_ok db" and f: "keeps_identity f"
    and u: "update_execution eid i v t ev f db = (x, db')"
  shows "(\<exists>e. x = Inl e \<and> db' = db)
    \<or> (\<exists>w r z. x = Inr (f r) \<and> w \<in> set (xd_records db) \<and> w = record_row r (xw_created_at w) \<and> valid_record r
        \<and> valid_record (f r) \<and> xr_execution_id r = i \<and> xr_version r = v \<and> store_optional_text ev ''evidence_ref'' = Inr ()
        \<and> eid = Some z \<and> log_ok r (exec_log i db)
        \<and> db' = db\<lparr>xd_records := map (\<lambda>w. if xw_execution_id w = i then write_columns (f r) w else w) (xd_records db),
                   xd_events := xd_events db @ [event_row z (int (length (exec_log i db)) + 1) (f r) t ev]\<rparr>)"
proof -
  from transact_cases[OF u[unfolded update_execution_def]] show ?thesis
  proof (elim disjE exE conjE)
    fix y
    assume b: "res_bind (store_text i ''execution_id'') (\<lambda>_.
     res_bind (positive_int v ''expected_version'') (\<lambda>_.
     res_bind (store_optional_text ev ''evidence_ref'') (\<lambda>_.
     res_bind (select_record i db) (\<lambda>row.
     res_bind (row_to_record row) (\<lambda>current.
     if xr_version current \<noteq> v then Inl (ExecutionStoreErr ''EXECUTION_VERSION_CONFLICT'') else
     res_bind (DurableExecutionRecord_post_init (f current)) (\<lambda>next_record.
     if xr_execution_id next_record \<noteq> xr_execution_id current
     then Inl (ExecutionStoreErr ''EXECUTION_IDENTITY_MUTATION_FORBIDDEN'') else
     res_bind (update_record_row i v next_record db) (\<lambda>db1.
     res_bind (insert_execution_event eid next_record t ev db1) (\<lambda>db2.
     Inr (next_record, db2))))))))) = Inr (y, db')" and x: "x = Inr y"
    from b obtain w r db1 where w: "select_record i db = Inr w" and r: "row_to_record w = Inr r"
      and ver: "xr_version r = v" and nx: "valid_record (f r)" and y: "y = f r"
      and up: "update_record_row i v (f r) db = Inr db1" and ins: "insert_execution_event eid (f r) t ev db1 = Inr db'"
      by (auto split: if_splits)
    from records_okD[OF ok w] obtain r0 where "valid_record r0" "w = record_row r0 (xw_created_at w)" "w \<in> set (xd_records db)"
      "xr_execution_id r0 = i" "log_ok r0 (exec_log i db)" "row_to_record w = Inr r0" by blast
    then have r': "valid_record r" "w = record_row r (xw_created_at w)" "w \<in> set (xd_records db)" "xr_execution_id r = i"
      "log_ok r (exec_log i db)" using r by simp_all
    have fid: "xr_execution_id (f r) = i" using f r'(4) by (simp add: keeps_identity_def)
    have inj: "inj_on xw_execution_id (set (xd_records db))" using ok by (simp add: records_ok_def distinct_map)
    have wv: "xw_execution_id w = i" "xw_version w = v" using r'(2,4) ver record_row_sel(1,2) by metis+
    have only: "xw_version w' = v" if "w' \<in> set (xd_records db)" "xw_execution_id w' = i" for w'
      using inj that r'(3) wv unfolding inj_on_def by metis
    have db1: "db1 = db\<lparr>xd_records := map (\<lambda>w. if xw_execution_id w = i then write_columns (f r) w else w) (xd_records db)\<rparr>"
      using up only by (auto simp: update_record_row_def write_columns_def split: if_splits intro!: map_cong)
    have log1: "exec_log i db1 = exec_log i db" by (simp add: db1 exec_log_def)
    have seq: "execution_next_sequence i db1 = int (length (exec_log i db)) + 1"
      using next_sequence_log[of i db1] r'(5) unfolding log1 log_ok_def by blast
    from insert_execution_event_Inr[OF ins] obtain z where z: "eid = Some z" "store_optional_text ev ''evidence_ref'' = Inr ()"
      "db' = db1\<lparr>xd_events := xd_events db1 @ [event_row z (execution_next_sequence i db1) (f r) t ev]\<rparr>"
      unfolding fid by blast
    have db': "db' = db\<lparr>xd_records := map (\<lambda>w. if xw_execution_id w = i then write_columns (f r) w else w) (xd_records db),
        xd_events := xd_events db @ [event_row z (int (length (exec_log i db)) + 1) (f r) t ev]\<rparr>"
      unfolding z(3) seq by (simp add: db1)
    show ?thesis
      by (rule disjI2, rule exI[of _ w], rule exI[of _ r], rule exI[of _ z])
        (intro conjI r' nx ver z(1,2) db', use x y in simp)
  qed auto
qed

text \<open>A new event of one record, whose row may change with it, leaves the other records alone.\<close>

lemma records_ok_event:
  assumes ok: "records_ok db" and w: "w \<in> set (xd_records db)" "w = record_row r (xw_created_at w)" "xr_execution_id r = i"
    and v': "valid_record r'" "xr_execution_id r' = i" "log_ok r' (exec_log i db @ [e])" "xv_execution_id e = i"
    and recs: "xd_records db' = map (\<lambda>w. if xw_execution_id w = i then g w else w) (xd_records db)"
    and g: "\<And>c. g (record_row r c) = record_row r' c" and evs: "xd_events db' = xd_events db @ [e]"
  shows "records_ok db'"
proof -
  have inj: "inj_on xw_execution_id (set (xd_records db))" and dist: "distinct (map xw_execution_id (xd_records db))"
    using ok by (auto simp: records_ok_def distinct_map)
  have wi: "xw_execution_id w = i" using w(2,3) record_row_sel(1) by metis
  have gw: "g w = record_row r' (xw_created_at w)" using g w(2) by metis
  have only: "w' = w" if "w' \<in> set (xd_records db)" "xw_execution_id w' = i" for w'
    using inj that w(1) wi unfolding inj_on_def by metis
  have log: "exec_log j db' = (if j = i then exec_log i db @ [e] else exec_log j db)" for j
    using evs v'(4) by (simp add: exec_log_def)
  have ids: "map xw_execution_id (xd_records db') = map xw_execution_id (xd_records db)"
    unfolding recs map_map
  proof (rule map_cong[OF refl])
    fix w'
    assume m: "w' \<in> set (xd_records db)"
    show "(xw_execution_id \<circ> (\<lambda>w. if xw_execution_id w = i then g w else w)) w' = xw_execution_id w'"
      using only[OF m] gw v'(2) wi by auto
  qed
  have "\<exists>r. valid_record r \<and> w' = record_row r (xw_created_at w') \<and> log_ok r (exec_log (xr_execution_id r) db')"
    if m: "w' \<in> set (xd_records db')" for w'
  proof -
    from m obtain u where u: "u \<in> set (xd_records db)" "w' = (if xw_execution_id u = i then g u else u)" unfolding recs by auto
    show ?thesis
    proof (cases "xw_execution_id u = i")
      case True
      then have "w' = record_row r' (xw_created_at w)" using only[OF u(1)] u(2) gw by simp
      then show ?thesis using v' log by (intro exI[of _ r']) simp
    next
      case False
      from ok u(1) obtain r0 where r0: "valid_record r0" "u = record_row r0 (xw_created_at u)"
        "log_ok r0 (exec_log (xr_execution_id r0) db)" unfolding records_ok_def by blast
      have "xr_execution_id r0 \<noteq> i" using r0(2) False record_row_sel(1) by metis
      then show ?thesis using r0 u(2) False log by (intro exI[of _ r0]) simp
    qed
  qed
  moreover have "\<forall>x \<in> set (xd_events db'). xv_execution_id x \<in> xw_execution_id ` set (xd_records db')"
  proof
    fix x
    assume "x \<in> set (xd_events db')"
    then have "xv_execution_id x \<in> xw_execution_id ` set (xd_records db)"
      using evs ok w(1) wi v'(4) by (auto simp: records_ok_def)
    then show "xv_execution_id x \<in> xw_execution_id ` set (xd_records db')" using ids by (metis list.set_map)
  qed
  ultimately show ?thesis unfolding records_ok_def using ids dist by auto
qed

lemma update_records_ok:
  assumes ok: "records_ok db" and f: "keeps_identity f" and u: "update_execution eid i v t ev f db = (x, db')"
    and t: "t \<noteq> XE_RECEIPT_RECORDED"
  shows "records_ok db'"
proof -
  from update_execution_cases[OF ok f u] show ?thesis
  proof (elim disjE exE conjE)
    fix w r z
    assume w: "w \<in> set (xd_records db)" "w = record_row r (xw_created_at w)" "xr_execution_id r = i"
      and v: "valid_record (f r)" "store_optional_text ev ''evidence_ref'' = Inr ()" "log_ok r (exec_log i db)"
      and db': "db' = db\<lparr>xd_records := map (\<lambda>w. if xw_execution_id w = i then write_columns (f r) w else w) (xd_records db),
        xd_events := xd_events db @ [event_row z (int (length (exec_log i db)) + 1) (f r) t ev]\<rparr>"
    have id: "xr_execution_id (f r) = i" and ver: "xr_version (f r) = xr_version r + 1"
      and cols: "\<And>c. write_columns (f r) (record_row r c) = record_row (f r) c"
      using f w(3) by (simp_all add: keeps_identity_def)
    show ?thesis
      by (rule records_ok_event[where g = "write_columns (f r)" and r' = "f r"
            and e = "event_row z (int (length (exec_log i db)) + 1) (f r) t ev", OF ok w v(1) id _ _ _ cols])
        (use id db' log_ok_append[OF v(3,1) refl _ v(2)] ver t in simp_all)
  qed (simp add: ok)
qed

lemma record_receipt_cases:
  assumes "record_receipt sha eid now rc db = (x, db')"
  shows "db' = db \<and> (\<forall>y. x = Inr y \<longrightarrow> (\<exists>w. select_receipt_by_id (rc_receipt_id rc) db = Some w
        \<and> verify_receipt_agreement rc w = Inr () \<and> row_to_receipt sha w = Inr y))
    \<or> (\<exists>w r z. select_record (rc_execution_id rc) db = Inr w \<and> row_to_record w = Inr r
        \<and> store_optional_text (Some (rc_receipt_id rc)) ''evidence_ref'' = Inr ()
        \<and> select_receipt_by_id (rc_receipt_id rc) db = None \<and> eid = Some z
        \<and> x = row_to_receipt sha (receipt_row rc now)
        \<and> db' = db\<lparr>xd_receipts := xd_receipts db @ [receipt_row rc now],
            xd_events := xd_events db @ [event_row z (execution_next_sequence (xr_execution_id r) db) r XE_RECEIPT_RECORDED
              (Some (rc_receipt_id rc))]\<rparr>)"
proof -
  obtain y db1 where t: "transact (write_receipt eid now rc) db = (y, db1)" by fastforce
  from transact_cases[OF t] show ?thesis
  proof (elim disjE exE conjE)
    fix e
    assume "y = Inl e" "db1 = db"
    then show ?thesis using assms t by (auto simp: record_receipt_def andthen_def)
  next
    fix row
    assume b: "write_receipt eid now rc db = Inr (row, db1)" and y: "y = Inr row"
    have x: "x = row_to_receipt sha row" "db' = db1" using assms t y by (auto simp: record_receipt_def andthen_def lift_res_def)
    from b obtain w r where w: "select_record (rc_execution_id rc) db = Inr w" "row_to_record w = Inr r"
      by (auto simp: write_receipt_def)
    show ?thesis
    proof (cases "select_receipt_by_id (rc_receipt_id rc) db")
      case (Some existing)
      then show ?thesis using b w x by (auto simp: write_receipt_def)
    next
      case None
      then have ins: "insert_execution_event eid r XE_RECEIPT_RECORDED (Some (rc_receipt_id rc))
          (db\<lparr>xd_receipts := xd_receipts db @ [receipt_row rc now]\<rparr>) = Inr db1" and row: "row = receipt_row rc now"
        using b w by (auto simp: write_receipt_def split: if_splits)
      have seq: "execution_next_sequence i (db\<lparr>xd_receipts := q\<rparr>) = execution_next_sequence i db" for i q
        by (simp add: execution_next_sequence_def)
      from insert_execution_event_Inr[OF ins] show ?thesis
        using w None x row by (intro disjI2 exI[of _ w] exI[of _ r]) (auto simp: seq)
    qed
  qed
qed

lemma receipt_records_ok:
  assumes ok: "records_ok db" and r: "record_receipt sha eid now rc db = (x, db')"
  shows "records_ok db'"
proof -
  from record_receipt_cases[OF r] show ?thesis
  proof (elim disjE exE conjE)
    fix w r z
    assume w: "select_record (rc_execution_id rc) db = Inr w" and r: "row_to_record w = Inr r"
      and ev: "store_optional_text (Some (rc_receipt_id rc)) ''evidence_ref'' = Inr ()"
      and db': "db' = db\<lparr>xd_receipts := xd_receipts db @ [receipt_row rc now],
            xd_events := xd_events db @ [event_row z (execution_next_sequence (xr_execution_id r) db) r XE_RECEIPT_RECORDED
              (Some (rc_receipt_id rc))]\<rparr>"
    let ?i = "rc_execution_id rc"
    from records_okD[OF ok w] r have r': "valid_record r" "w = record_row r (xw_created_at w)" "w \<in> set (xd_records db)"
      "xr_execution_id r = ?i" "log_ok r (exec_log ?i db)" by auto
    have seq: "execution_next_sequence ?i db = int (length (exec_log ?i db)) + 1"
      using next_sequence_log[of ?i db] r'(5) unfolding log_ok_def by blast
    show ?thesis
      by (rule records_ok_event[where g = "\<lambda>w. w" and r' = r
            and e = "event_row z (int (length (exec_log ?i db)) + 1) r XE_RECEIPT_RECORDED (Some (rc_receipt_id rc))",
            OF ok r'(3,2,4,1,4)])
        (use db' seq r'(4) log_ok_append[OF r'(5,1) refl _ ev] in simp_all)
  qed (simp add: ok)
qed

end
