(* ===== verification/Execution_Properties.thy ===== *)
theory Execution_Properties
  imports Execution_Invariant
begin

text \<open>
  The properties of the execution store over every history of its operations: the event log is
  the gap-free history of its record, receipts and admission decisions are append-only, and a
  dispatch fence only moves forward.
\<close>

section \<open>Every step keeps the log\<close>

lemma exec_step_records:
  assumes "exec_step sha db db'" and "records_ok db"
  shows "records_ok db'"
  using assms
proof (induction rule: exec_step.induct)
  case (x_create r eid created db x db')
  then show ?case using create_records_ok by blast
next
  case (x_transport eid i st v ev db x db')
  then show ?case using update_records_ok[OF _ setters_keep_identity(1)] unfolding set_transport_state_def by blast
next
  case (x_state eid i xs v ev db x db')
  then show ?case using update_records_ok[OF _ setters_keep_identity(2)] unfolding set_execution_state_def by blast
next
  case (x_process eid i pid sa v ev db x db')
  then show ?case using update_records_ok[OF _ setters_keep_identity(3)] unfolding set_process_metadata_def by blast
next
  case (x_result eid i ec fa v ev db x db')
  then show ?case using update_records_ok[OF _ setters_keep_identity(4)] unfolding set_result_metadata_def by blast
next
  case (x_receipt rc eid now db y db')
  then show ?case using receipt_records_ok by blast
next
  case (x_decision d db u db')
  then have "xd_records db' = xd_records db" "xd_events db' = xd_events db"
    by (auto simp: record_admission_decision_def transact_def split: sum.splits option.splits if_splits)
  then show ?case using x_decision.prems by (simp add: records_ok_def exec_log_def)
next
  case (x_reserve e a dg db w db')
  then have "xd_records db' = xd_records db" "xd_events db' = xd_events db"
    by (auto simp: reserve_dispatch_fence_def transact_def split: sum.splits option.splits if_splits)
  then show ?case using x_reserve.prems by (simp add: records_ok_def exec_log_def)
next
  case (x_fence e a ns rs db u db')
  then have "xd_records db' = xd_records db" "xd_events db' = xd_events db"
    by (auto simp: transition_dispatch_fence_def transact_def split: sum.splits option.splits if_splits)
  then show ?case using x_fence.prems by (simp add: records_ok_def exec_log_def)
qed

lemma exec_steps_records: "exec_steps sha db db' \<Longrightarrow> records_ok db \<Longrightarrow> records_ok db'"
  unfolding exec_steps_def by (induction rule: rtranclp_induct) (auto dest: exec_step_records)

lemma records_ok_empty: "records_ok empty_executions"
  by (simp add: records_ok_def empty_executions_def)

lemma reachable_records_ok: "exec_reachable sha db \<Longrightarrow> records_ok db"
  using exec_steps_records records_ok_empty by blast

section \<open>The ledgers only grow\<close>

definition fence_path :: "string \<Rightarrow> string \<Rightarrow> bool" where
  "fence_path = (\<lambda>s s'. s' \<in> set (FENCE_TRANSITIONS s))\<^sup>*\<^sup>*"

definition fence_kept :: "ExecDb \<Rightarrow> ExecDb \<Rightarrow> bool" where
  "fence_kept db db' \<longleftrightarrow> (\<forall>e a w. select_fence e a db = Some w \<longrightarrow>
     (\<exists>w'. select_fence e a db' = Some w' \<and> df_binding_digest w' = df_binding_digest w
        \<and> fence_path (df_state w) (df_state w')))"

definition ledger_grows :: "ExecDb \<Rightarrow> ExecDb \<Rightarrow> bool" where
  "ledger_grows db db' \<longleftrightarrow> (\<exists>n. xd_receipts db' = xd_receipts db @ n) \<and> (\<exists>n. xd_decisions db' = xd_decisions db @ n)
     \<and> fence_kept db db'"

lemma fence_kept_refl: "xd_fences db' = xd_fences db \<Longrightarrow> fence_kept db db'"
  by (simp add: fence_kept_def select_fence_def fence_path_def)

lemma fence_kept_trans: "fence_kept a b \<Longrightarrow> fence_kept b c \<Longrightarrow> fence_kept a c"
  unfolding fence_kept_def fence_path_def by (fastforce intro: rtranclp_trans)

lemma fence_kept_append: "xd_fences db' = xd_fences db @ n \<Longrightarrow> fence_kept db db'"
  by (simp add: fence_kept_def select_fence_def fence_path_def fetchone_append)

lemma ledger_grows_refl:
  "xd_receipts db' = xd_receipts db \<Longrightarrow> xd_decisions db' = xd_decisions db \<Longrightarrow> xd_fences db' = xd_fences db \<Longrightarrow> ledger_grows db db'"
  by (simp add: ledger_grows_def fence_kept_refl)

lemma ledger_grows_trans: "ledger_grows a b \<Longrightarrow> ledger_grows b c \<Longrightarrow> ledger_grows a c"
  unfolding ledger_grows_def using fence_kept_trans by fastforce

lemma update_execution_ledger:
  assumes "update_execution eid i v t ev f db = (x, db')"
  shows "ledger_grows db db'"
proof -
  have "xd_receipts db' = xd_receipts db \<and> xd_decisions db' = xd_decisions db \<and> xd_fences db' = xd_fences db"
    using assms
    by (auto simp: update_execution_def transact_def update_record_row_def dest!: insert_execution_event_Inr
        split: sum.splits if_splits)
  then show ?thesis using ledger_grows_refl by blast
qed

lemma transition_fence_cases:
  assumes "transition_dispatch_fence e a ns rs db = (u, db')"
  shows "(\<exists>x. u = Inl x \<and> db' = db)
    \<or> (\<exists>w. u = Inr () \<and> select_fence e a db = Some w \<and> ns \<in> set (FENCE_TRANSITIONS (df_state w))
         \<and> db' = db\<lparr>xd_fences := map (\<lambda>w. if df_execution_id w = e \<and> df_attempt_id w = a
                then w\<lparr>df_state := ns, df_reason := rs\<rparr> else w) (xd_fences db)\<rparr>)"
  using assms by (auto simp: transition_dispatch_fence_def transact_def split: sum.splits option.splits if_splits)

lemma select_fence_transition:
  assumes "db' = db\<lparr>xd_fences := map (\<lambda>w. if df_execution_id w = e \<and> df_attempt_id w = a
                then w\<lparr>df_state := ns, df_reason := rs\<rparr> else w) (xd_fences db)\<rparr>"
  shows "select_fence e' a' db' = map_option (\<lambda>w. if df_execution_id w = e \<and> df_attempt_id w = a
                then w\<lparr>df_state := ns, df_reason := rs\<rparr> else w) (select_fence e' a' db)"
  unfolding select_fence_def assms by (simp add: fetchone_map_same)

lemma select_fence_key: "select_fence e a db = Some w \<Longrightarrow> df_execution_id w = e \<and> df_attempt_id w = a"
  by (auto simp: select_fence_def dest!: fetchone_Some)

lemma transition_fence_kept:
  assumes "transition_dispatch_fence e a ns rs db = (u, db')"
  shows "fence_kept db db'"
  using transition_fence_cases[OF assms]
proof (elim disjE exE conjE)
  fix w
  assume w: "select_fence e a db = Some w" "ns \<in> set (FENCE_TRANSITIONS (df_state w))"
    and db': "db' = db\<lparr>xd_fences := map (\<lambda>w. if df_execution_id w = e \<and> df_attempt_id w = a
                then w\<lparr>df_state := ns, df_reason := rs\<rparr> else w) (xd_fences db)\<rparr>"
  show ?thesis unfolding fence_kept_def
  proof (intro allI impI)
    fix e' a' v
    assume v: "select_fence e' a' db = Some v"
    have "fence_path (df_state v) ns" if "df_execution_id v = e" "df_attempt_id v = a"
      using that v w select_fence_key[OF v] by (auto simp: fence_path_def)
    moreover have "fence_path s s" for s by (simp add: fence_path_def)
    ultimately show "\<exists>w'. select_fence e' a' db' = Some w' \<and> df_binding_digest w' = df_binding_digest v
        \<and> fence_path (df_state v) (df_state w')"
      by (simp add: select_fence_transition[OF db'] v)
  qed
qed (simp add: fence_kept_refl)

lemma reserve_fence_cases:
  assumes "reserve_dispatch_fence e a dg db = (u, db')"
  shows "(\<exists>x. u = Inl x \<and> db' = db)
    \<or> (\<exists>w. u = Inr (df_state w, False) \<and> select_fence e a db = Some w \<and> df_binding_digest w = dg \<and> db' = db)
    \<or> (u = Inr (''RESERVED'', True) \<and> select_fence e a db = None
         \<and> db' = db\<lparr>xd_fences := xd_fences db @
           [\<lparr>df_execution_id = e, df_attempt_id = a, df_binding_digest = dg, df_state = ''RESERVED'', df_reason = None\<rparr>]\<rparr>)"
  using assms by (auto simp: reserve_dispatch_fence_def transact_def split: sum.splits option.splits if_splits)

lemma record_decision_cases:
  assumes "record_admission_decision d db = (u, db')"
  shows "(\<exists>x. u = Inl x \<and> db' = db)
    \<or> (u = Inr () \<and> select_decision (ad_execution_id d) (ad_attempt_id d) db = Some d \<and> db' = db)
    \<or> (u = Inr () \<and> select_decision (ad_execution_id d) (ad_attempt_id d) db = None
         \<and> validate_admission_decision d = Inr () \<and> db' = db\<lparr>xd_decisions := xd_decisions db @ [d]\<rparr>)"
  using assms
  by (auto simp: record_admission_decision_def transact_def row_to_admission_decision_def split: sum.splits option.splits if_splits)

lemma exec_step_ledger:
  assumes "exec_step sha db db'"
  shows "ledger_grows db db'"
  using assms
proof cases
  case (x_create r eid created x)
  then have "xd_receipts db' = xd_receipts db \<and> xd_decisions db' = xd_decisions db \<and> xd_fences db' = xd_fences db"
    by (auto simp: create_execution_def transact_def dest!: insert_execution_event_Inr split: sum.splits if_splits)
  then show ?thesis using ledger_grows_refl by blast
next
  case (x_receipt rc eid now y)
  from record_receipt_cases[OF x_receipt(2)] show ?thesis by (auto simp: ledger_grows_def fence_kept_refl)
next
  case (x_decision d u)
  from record_decision_cases[OF x_decision] show ?thesis by (auto simp: ledger_grows_def fence_kept_refl)
next
  case (x_reserve e a dg w)
  from reserve_fence_cases[OF x_reserve] show ?thesis
    by (auto simp: ledger_grows_def fence_kept_refl intro: fence_kept_append)
next
  case (x_fence e a ns rs u)
  have "xd_receipts db' = xd_receipts db \<and> xd_decisions db' = xd_decisions db"
    using transition_fence_cases[OF x_fence] by auto
  then show ?thesis using transition_fence_kept[OF x_fence] by (simp add: ledger_grows_def)
qed (auto simp: set_transport_state_def set_execution_state_def set_process_metadata_def set_result_metadata_def
    intro: update_execution_ledger)

lemma exec_steps_ledger: "exec_steps sha db db' \<Longrightarrow> ledger_grows db db'"
  unfolding exec_steps_def
  by (induction rule: rtranclp_induct) (auto intro: ledger_grows_refl ledger_grows_trans exec_step_ledger)

lemma receipt_kept: "ledger_grows db db' \<Longrightarrow> select_receipt_by_id i db = Some w \<Longrightarrow> select_receipt_by_id i db' = Some w"
  by (auto simp: ledger_grows_def select_receipt_by_id_def fetchone_append)

lemma decision_kept: "ledger_grows db db' \<Longrightarrow> select_decision e a db = Some d \<Longrightarrow> select_decision e a db' = Some d"
  by (auto simp: ledger_grows_def select_decision_def fetchone_append)

section \<open>The properties\<close>

lemma record_text_store: "record_text n v f = Inr () \<Longrightarrow> store_text v g = Inr ()"
  by (auto simp: record_text_def store_text_def split: if_splits)

lemma record_optional_text_store: "record_optional_text v f = Inr () \<Longrightarrow> store_optional_text v g = Inr ()"
  by (auto simp: record_optional_text_def store_optional_text_def dest: record_text_store split: option.splits)

definition text_event_ids :: "ExecDb \<Rightarrow> bool" where
  "text_event_ids db = list_all (\<lambda>e. \<not> blank (xv_event_id e) \<and> CHR 0x00 \<notin> set (xv_event_id e)) (xd_events db)"

lemma row_to_event_row:
  assumes v: "valid_record r" and n: "1 \<le> n" and ev: "store_optional_text ev ''evidence_ref'' = Inr ()"
    and x: "\<not> blank x" "CHR 0x00 \<notin> set x"
  shows "row_to_event (event_row x n r t ev) = Inr
    \<lparr>xe_event_id = x, xe_execution_id = xr_execution_id r, xe_sequence_no = n, xe_event_type = t,
     xe_transport_state = Some (xr_transport_state r), xe_execution_state = Some (xr_execution_state r),
     xe_pid = xr_pid r, xe_exit_code = xr_exit_code r, xe_started_at = xr_started_at r,
     xe_finished_at = xr_finished_at r, xe_evidence_ref = ev\<rparr>"
proof -
  have c: "record_text MAX_TEXT_CHARS (xr_execution_id r) ''execution_id'' = Inr ()" "optional_pid (xr_pid r) = Inr ()"
    "record_optional_text (xr_started_at r) ''started_at'' = Inr ()" "record_optional_text (xr_finished_at r) ''finished_at'' = Inr ()"
    using v by (simp_all add: valid_record_def record_checks_def)
  have "store_text x ''event_id'' = Inr ()" using x by (simp add: store_text_def)
  then show ?thesis
    using c record_text_store[OF c(1)] c(2) record_optional_text_store[OF c(3)] record_optional_text_store[OF c(4)] n ev
    by (simp add: row_to_event_def event_row_def ExecutionEvent_post_init_def invalid_as_def optional_of_def positive_int_def)
qed

definition reads_as :: "ExecutionEventRow \<Rightarrow> ExecutionEvent \<Rightarrow> bool" where
  "reads_as w e \<longleftrightarrow> row_to_event w = Inr e \<and> xe_sequence_no e = xv_sequence_no w
     \<and> xevent_value (xe_event_type e) = xv_event_type w
     \<and> map_option transport_value (xe_transport_state e) = xv_transport_state w
     \<and> map_option xstate_value (xe_execution_state e) = xv_execution_state w \<and> xe_pid e = xv_pid w
     \<and> xe_exit_code e = xv_exit_code w \<and> xe_started_at e = xv_started_at w \<and> xe_finished_at e = xv_finished_at w"

lemma event_sound_reads:
  assumes "event_sound w" and "\<not> blank (xv_event_id w)" and "CHR 0x00 \<notin> set (xv_event_id w)"
  shows "\<exists>e. reads_as w e"
proof -
  from assms(1) obtain x n r t ev where w: "w = event_row x n r t ev" and c: "valid_record r" "1 \<le> n"
    "store_optional_text ev ''evidence_ref'' = Inr ()" unfolding event_sound_def by blast
  show ?thesis unfolding reads_as_def w using row_to_event_row[OF c] assms(2,3) by (simp add: w event_row_def)
qed

lemma row_events_reads: "list_all2 reads_as ws es \<Longrightarrow> row_events ws = Inr es"
  by (induction ws es rule: list_all2_induct) (auto simp: reads_as_def)

lemma list_reads:
  assumes "\<forall>w \<in> set ws. \<exists>e. reads_as w e"
  shows "\<exists>es. list_all2 reads_as ws es"
  using assms by (induction ws) auto

lemma counted_reads: "reads_as w e \<Longrightarrow> counted w \<longleftrightarrow> xe_event_type e \<noteq> XE_RECEIPT_RECORDED"
  by (cases "xe_event_type e") (auto simp: reads_as_def counted_def)

lemma created_reads: "reads_as w e \<Longrightarrow> xv_event_type w = ''CREATED'' \<Longrightarrow> xe_event_type e = XE_CREATED"
  by (cases "xe_event_type e") (auto simp: reads_as_def)

lemma reads_sequence: "list_all2 reads_as ws es \<Longrightarrow> map xe_sequence_no es = map xv_sequence_no ws"
  by (induction ws es rule: list_all2_induct) (auto simp: reads_as_def)

lemma reads_counted:
  "list_all2 reads_as ws es \<Longrightarrow> length (filter (\<lambda>e. xe_event_type e \<noteq> XE_RECEIPT_RECORDED) es) = length (filter counted ws)"
  by (induction ws es rule: list_all2_induct) (auto simp: counted_reads)

lemma transport_value_inj [simp]: "transport_value s = transport_value t \<longleftrightarrow> s = t"
  using enum_values(1) by (metis sum.inject(2))

lemma xstate_value_inj [simp]: "xstate_value s = xstate_value t \<longleftrightarrow> s = t"
  using enum_values(2) by (metis sum.inject(2))

definition shows_record :: "DurableExecutionRecord \<Rightarrow> ExecutionEvent \<Rightarrow> bool" where
  "shows_record r e \<longleftrightarrow> xe_transport_state e = Some (xr_transport_state r) \<and> xe_execution_state e = Some (xr_execution_state r)
     \<and> xe_pid e = xr_pid r \<and> xe_exit_code e = xr_exit_code r \<and> xe_started_at e = xr_started_at r
     \<and> xe_finished_at e = xr_finished_at r"

lemma shows_reads: "reads_as w e \<Longrightarrow> event_shows r w \<Longrightarrow> shows_record r e"
  by (auto simp: reads_as_def event_shows_def shows_record_def)

lemma get_execution_Inr:
  assumes "get_execution i db = Inr r"
  shows "store_text i ''execution_id'' = Inr () \<and> (\<exists>w. select_record i db = Inr w \<and> row_to_record w = Inr r)"
  using assms by (auto simp: get_execution_def)

text \<open>
  C13: In every database the operations of the execution store can produce, the events of a
  record list without error, numbered 1, 2, 3, ..., beginning with its creation; the version
  of the record counts its events other than recorded receipts; and the last event shows the
  states, process and result the record has now. Event ids are assumed to be texts, as the
  ids of the factory are.
\<close>

theorem execution_log_faithful:
  assumes "exec_reachable sha db" and "text_event_ids db" and "get_execution i db = Inr r"
  shows "\<exists>es. list_execution_events i db = Inr es \<and> es \<noteq> [] \<and> map xe_sequence_no es = [1..int (length es)]
    \<and> xe_event_type (hd es) = XE_CREATED
    \<and> xr_version r = int (length (filter (\<lambda>e. xe_event_type e \<noteq> XE_RECEIPT_RECORDED) es))
    \<and> shows_record r (last es)"
proof -
  from get_execution_Inr[OF assms(3)] obtain w where st: "store_text i ''execution_id'' = Inr ()"
    and w: "select_record i db = Inr w" "row_to_record w = Inr r" by blast
  from records_okD[OF reachable_records_ok[OF assms(1)] w(1)] w(2) have l: "log_ok r (exec_log i db)" by auto
  let ?ws = "exec_log i db"
  have "\<forall>v \<in> set ?ws. \<exists>e. reads_as v e"
    using l assms(2) by (auto simp: log_ok_def text_event_ids_def exec_log_def list_all_iff intro!: event_sound_reads)
  then obtain es where es: "list_all2 reads_as ?ws es" using list_reads by blast
  have len: "length es = length ?ws" using es by (simp add: list_all2_lengthD)
  have ne: "?ws \<noteq> []" and seq: "map xv_sequence_no ?ws = [1..int (length ?ws)]"
    and hd: "xv_event_type (hd ?ws) = ''CREATED''" and ver: "xr_version r = int (length (filter counted ?ws))"
    and la: "event_shows r (last ?ws)" using l by (simp_all add: log_ok_def)
  have "sort_key xv_sequence_no ?ws = ?ws" using seq by (simp add: sort_key_id_if_sorted)
  then have lst: "list_execution_events i db = Inr es"
    using st w(1) row_events_reads[OF es] by (simp add: list_execution_events_def exec_log_def)
  have ne': "es \<noteq> []" using ne len by auto
  have "reads_as (hd ?ws) (hd es)" "reads_as (last ?ws) (last es)"
    using es ne ne' list_all2_nthD[OF es] len by (simp_all add: hd_conv_nth last_conv_nth)
  then show ?thesis
    using lst ne' reads_sequence[OF es] seq len created_reads[OF _ hd] reads_counted[OF es] ver shows_reads[OF _ la] by auto
qed

lemma select_record_update:
  assumes "\<And>w. xw_execution_id (g w) = xw_execution_id w"
    and "xd_records db' = map (\<lambda>w. if xw_execution_id w = i then g w else w) (xd_records db)"
  shows "select_record j db' = (case select_record j db of Inl e \<Rightarrow> Inl e | Inr w \<Rightarrow> Inr (if j = i then g w else w))"
proof -
  have "fetchone (\<lambda>w. xw_execution_id w = j) (xd_records db')
      = map_option (\<lambda>w. if xw_execution_id w = i then g w else w) (fetchone (\<lambda>w. xw_execution_id w = j) (xd_records db))"
    unfolding assms(2) by (rule fetchone_map_same) (simp add: assms(1))
  then show ?thesis
    by (auto simp: select_record_def dest!: fetchone_Some split: option.splits)
qed

text \<open>One update: refused with the database unchanged, or the new record in place of the old.\<close>

lemma update_execution_exact:
  assumes ok: "records_ok db" and r: "get_execution i db = Inr r" and f: "keeps_identity f" and v: "valid_record (f r)"
    and ev: "store_optional_text ev ''evidence_ref'' = Inr ()" and z: "\<not> sqlite_trim_empty z" "z \<notin> xv_event_id ` set (xd_events db)"
  shows "\<exists>db'. update_execution (Some z) i (xr_version r) t ev f db = (Inr (f r), db')
    \<and> (\<forall>j. get_execution j db' = (if j = i then Inr (f r) else get_execution j db))
    \<and> map xw_execution_id (xd_records db') = map xw_execution_id (xd_records db)"
proof -
  from get_execution_Inr[OF r] obtain w where st: "store_text i ''execution_id'' = Inr ()"
    and w: "select_record i db = Inr w" "row_to_record w = Inr r" by blast
  from records_okD[OF ok w(1)] w(2) have r': "valid_record r" "w = record_row r (xw_created_at w)" "w \<in> set (xd_records db)"
    "xr_execution_id r = i" by auto
  have wi: "xw_execution_id w = i" "xw_version w = xr_version r" using r'(2,4) record_row_sel(1,2) by metis+
  have ver: "1 \<le> xr_version r" using r'(1) by (rule valid_record_fields(2))
  have fid: "xr_execution_id (f r) = i" using f r'(4) by (simp add: keeps_identity_def)
  have ex: "list_ex (\<lambda>w. xw_execution_id w = i \<and> xw_version w = xr_version r) (xd_records db)"
    unfolding list_ex_iff using r'(3) wi by blast
  obtain y db' where u: "update_execution (Some z) i (xr_version r) t ev f db = (y, db')" by fastforce
  have y: "y = Inr (f r)"
    using u st ver ev w record_post_init_valid[OF v] fid r'(4) ex z
    by (auto simp: update_execution_def transact_def update_record_row_def insert_execution_event_def positive_int_def)
  from update_execution_cases[OF ok f u] y obtain r0 where "f r0 = f r" and r0: "xr_execution_id r0 = i"
    and db': "xd_records db' = map (\<lambda>w. if xw_execution_id w = i then write_columns (f r0) w else w) (xd_records db)" by auto
  then have recs: "xd_records db' = map (\<lambda>w. if xw_execution_id w = i then write_columns (f r) w else w) (xd_records db)" by simp
  have keep: "xw_execution_id (write_columns (f r) w) = xw_execution_id w" for w by (simp add: write_columns_def)
  have "row_to_record (write_columns (f r) w) = Inr (f r)"
  proof -
    have "write_columns (f r) w = record_row (f r) (xw_created_at w)" using r'(2) f unfolding keeps_identity_def by metis
    then show ?thesis using v row_to_record_row by simp
  qed
  then have "\<forall>j. get_execution j db' = (if j = i then Inr (f r) else get_execution j db)"
    using w st by (auto simp: get_execution_def select_record_update[OF keep recs] split: sum.splits)
  moreover have "map xw_execution_id (xd_records db') = map xw_execution_id (xd_records db)"
    unfolding recs by (simp add: keep)
  ultimately show ?thesis using u y by blast
qed

lemma invalid_as_Inr [simp]: "invalid_as c v = Inr x \<longleftrightarrow> v = Inr x"
  by (auto simp: invalid_as_def split: sum.splits exn.splits)

lemma receipt_post_init_same: "DurableExecutionReceipt_post_init sha r = Inr x \<Longrightarrow> x = r"
  unfolding DurableExecutionReceipt_post_init_def by (auto simp del: check_all_Inr check_all.simps split: if_splits)

lemma row_to_receipt_Inr:
  assumes "row_to_receipt sha w = Inr rc"
  shows "rw_claim_generation w = rc_claim_generation rc \<and> rw_authority_sha w = rc_authority_sha rc
    \<and> rw_execution_sha w = rc_execution_sha rc \<and> disposition_of (rw_disposition w) = Inr (rc_disposition rc)
    \<and> rw_evidence_ref w = rc_evidence_ref rc"
proof -
  from assms obtain d where "disposition_of (rw_disposition w) = Inr d"
    and "DurableExecutionReceipt_post_init sha
       \<lparr>rc_receipt_id = rw_receipt_id w, rc_execution_id = rw_execution_id w, rc_attempt_id = rw_attempt_id w,
        rc_result_digest = rw_result_digest w, rc_binding_digest = rw_binding_digest w,
        rc_claim_generation = rw_claim_generation w, rc_authority_sha = rw_authority_sha w,
        rc_execution_sha = rw_execution_sha w, rc_disposition = d, rc_evidence_ref = rw_evidence_ref w,
        rc_recorded_at = Some (rw_recorded_at w)\<rparr> = Inr rc"
    by (auto simp: row_to_receipt_def)
  then show ?thesis by (auto dest: receipt_post_init_same)
qed

lemma agreement_Inr:
  assumes "verify_receipt_agreement rc w = Inr ()"
  shows "rw_claim_generation w = rc_claim_generation rc \<and> rw_authority_sha w = rc_authority_sha rc
    \<and> rw_execution_sha w = rc_execution_sha rc \<and> disposition_of (rw_disposition w) = Inr (rc_disposition rc)
    \<and> rw_evidence_ref w = rc_evidence_ref rc"
  using assms unfolding verify_receipt_agreement_def by (metis enum_values(4) Inl_Inr_False)

lemma update_execution_conflict:
  assumes r: "get_execution i db = Inr r" and ev: "store_optional_text ev ''evidence_ref'' = Inr ()" and v: "1 \<le> v" "v \<noteq> xr_version r"
  shows "update_execution eid i v t ev f db = (Inl (ExecutionStoreErr ''EXECUTION_VERSION_CONFLICT''), db)"
  using get_execution_Inr[OF r] ev v by (auto simp: update_execution_def transact_def positive_int_def)

lemma valid_record_state: "valid_record r \<Longrightarrow> valid_record (r\<lparr>xr_execution_state := s, xr_version := xr_version r + 1\<rparr>)"
  by (auto simp: valid_record_def record_checks_def positive_int_def split: if_splits)

text \<open>
  A state change of an execution is compare-and-swap: with a version that is not the
  current one it is refused and the database is unchanged; with the current version and a
  fresh event id it succeeds, the record read afterwards is the old one with the new state and
  the next version, and every other execution reads as before.
\<close>

theorem execution_update_exact:
  assumes "exec_reachable sha db" and "get_execution i db = Inr r" and "store_optional_text ev ''evidence_ref'' = Inr ()"
    and "\<not> sqlite_trim_empty z" and "z \<notin> xv_event_id ` set (xd_events db)"
  shows "(\<forall>v \<ge> 1. v \<noteq> xr_version r \<longrightarrow>
      set_execution_state (Some z) i s v ev db = (Inl (ExecutionStoreErr ''EXECUTION_VERSION_CONFLICT''), db))
    \<and> (\<exists>db'. set_execution_state (Some z) i s (xr_version r) ev db
          = (Inr (r\<lparr>xr_execution_state := s, xr_version := xr_version r + 1\<rparr>), db')
        \<and> (\<forall>j. get_execution j db'
              = (if j = i then Inr (r\<lparr>xr_execution_state := s, xr_version := xr_version r + 1\<rparr>) else get_execution j db)))"
proof -
  have ok: "records_ok db" using assms(1) by (rule reachable_records_ok)
  have "valid_record r" using get_execution_Inr[OF assms(2)] records_okD[OF ok] by fastforce
  from valid_record_state[OF this] update_execution_exact[OF ok assms(2) setters_keep_identity(2) _ assms(3-5)]
  show ?thesis using update_execution_conflict[OF assms(2,3)] unfolding set_execution_state_def by blast
qed

text \<open>
  C15: A receipt is immutable: once it reads, it reads the same after every later history of
  the store; recording the same receipt again returns it and changes nothing, and recording
  other contents under its identity is refused and changes nothing.
\<close>

theorem receipt_immutable:
  assumes "exec_steps sha db db'" and "get_receipt sha i db = Inr rc"
  shows "get_receipt sha i db' = Inr rc
    \<and> (\<forall>eid now rc'. rc_receipt_id rc' = i \<longrightarrow> (\<exists>y. record_receipt sha eid now rc' db' = (y, db') \<and> (\<forall>z. y = Inr z \<longrightarrow> z = rc
          \<and> rc_claim_generation rc' = rc_claim_generation rc \<and> rc_authority_sha rc' = rc_authority_sha rc
          \<and> rc_execution_sha rc' = rc_execution_sha rc \<and> rc_disposition rc' = rc_disposition rc
          \<and> rc_evidence_ref rc' = rc_evidence_ref rc)))"
proof -
  from assms(2) obtain w where hex: "lower_hex 64 i" and w: "select_receipt_by_id i db = Some w" and r: "row_to_receipt sha w = Inr rc"
    by (auto simp: get_receipt_def split: option.splits if_splits)
  have w': "select_receipt_by_id i db' = Some w" using receipt_kept[OF exec_steps_ledger[OF assms(1)] w] .
  have rc: "rw_claim_generation w = rc_claim_generation rc" "rw_authority_sha w = rc_authority_sha rc"
    "rw_execution_sha w = rc_execution_sha rc" "disposition_of (rw_disposition w) = Inr (rc_disposition rc)"
    "rw_evidence_ref w = rc_evidence_ref rc"
    using row_to_receipt_Inr[OF r] by auto
  have "\<exists>y. record_receipt sha eid now rc' db' = (y, db') \<and> (\<forall>z. y = Inr z \<longrightarrow> z = rc
          \<and> rc_claim_generation rc' = rc_claim_generation rc \<and> rc_authority_sha rc' = rc_authority_sha rc
          \<and> rc_execution_sha rc' = rc_execution_sha rc \<and> rc_disposition rc' = rc_disposition rc
          \<and> rc_evidence_ref rc' = rc_evidence_ref rc)" if i: "rc_receipt_id rc' = i" for eid now rc'
  proof -
    obtain y db2 where y: "record_receipt sha eid now rc' db' = (y, db2)" by fastforce
    from record_receipt_cases[OF y] have db2: "db2 = db'"
      and agree: "\<And>z. y = Inr z \<Longrightarrow> verify_receipt_agreement rc' w = Inr () \<and> z = rc"
      using w' i r by auto
    have "z = rc \<and> rc_claim_generation rc' = rc_claim_generation rc \<and> rc_authority_sha rc' = rc_authority_sha rc
        \<and> rc_execution_sha rc' = rc_execution_sha rc \<and> rc_disposition rc' = rc_disposition rc
        \<and> rc_evidence_ref rc' = rc_evidence_ref rc" if "y = Inr z" for z
      using agree[OF that] agreement_Inr[of rc' w] rc by simp
    then show ?thesis using y db2 by blast
  qed
  then show ?thesis using hex w' r by (simp add: get_receipt_def)
qed

section \<open>Witnesses\<close>

definition example_sha :: "string \<Rightarrow> string" where
  "example_sha v = replicate 64 CHR ''a''"

definition example_execution :: DurableExecutionRecord where
  "example_execution =
     \<lparr>xr_execution_id = ''x1'', xr_job_id = ''j1'', xr_work_order_ref = ''w'', xr_project_id = ''p'', xr_worker_id = ''k'',
      xr_backend_id = ''b'', xr_agent_ref = None, xr_repo_root = ''r'', xr_branch = ''main'', xr_head_before = ''h'',
      xr_operation_ref = ''o'', xr_command_fingerprint = replicate 64 CHR ''a'', xr_command_summary = ''s'',
      xr_runtime_profile_ref = None, xr_run_dir_ref = None, xr_stdout_ref = None, xr_stderr_ref = None,
      xr_result_ref = None, xr_report_ref = None, xr_transport_state = TS_CONNECTED, xr_execution_state = XS_QUEUED,
      xr_pid = None, xr_exit_code = None, xr_started_at = None, xr_finished_at = None, xr_version = 1,
      xr_author_attempt_id = None, xr_author_generation = None\<rparr>"

definition example_executions :: ExecDb where
  "example_executions = snd (create_execution (Some ''e1'') ''t1'' example_execution empty_executions)"

definition example_receipt :: DurableExecutionReceipt where
  "example_receipt =
     \<lparr>rc_receipt_id = replicate 64 CHR ''a'', rc_execution_id = ''x1'', rc_attempt_id = ''a1'',
      rc_result_digest = replicate 64 CHR ''b'', rc_binding_digest = replicate 64 CHR ''c'', rc_claim_generation = 1,
      rc_authority_sha = replicate 40 CHR ''d'', rc_execution_sha = replicate 40 CHR ''e'',
      rc_disposition = RD_ACCEPTED, rc_evidence_ref = None, rc_recorded_at = None\<rparr>"

definition example_receipts :: ExecDb where
  "example_receipts = snd (record_receipt example_sha (Some ''e2'') ''t2'' example_receipt example_executions)"

lemma example_valid: "DurableExecutionRecord_post_init example_execution = Inr example_execution"
  by code_simp

lemma example_step: "exec_step sha empty_executions example_executions"
  using x_create[of example_execution "Some ''e1''" "''t1''" empty_executions] example_valid
  unfolding example_executions_def by (metis prod.collapse record_post_init_Inr)

lemma example_reachable: "exec_reachable sha example_executions"
  using example_step unfolding exec_steps_def by blast

lemma example_get: "get_execution ''x1'' example_executions = Inr example_execution"
  by code_simp

theorem execution_log_faithful_witness:
  "\<exists>es. list_execution_events ''x1'' example_executions = Inr es \<and> es \<noteq> [] \<and> map xe_sequence_no es = [1..int (length es)]
    \<and> xe_event_type (hd es) = XE_CREATED
    \<and> xr_version example_execution = int (length (filter (\<lambda>e. xe_event_type e \<noteq> XE_RECEIPT_RECORDED) es))
    \<and> shows_record example_execution (last es)"
proof -
  have "text_event_ids example_executions" by code_simp
  then show ?thesis by (rule execution_log_faithful[OF example_reachable _ example_get])
qed

theorem execution_update_exact_witness:
  "\<exists>db'. set_execution_state (Some ''e2'') ''x1'' XS_RUNNING 1 None example_executions
      = (Inr (example_execution\<lparr>xr_execution_state := XS_RUNNING, xr_version := 2\<rparr>), db')"
proof -
  have "\<not> sqlite_trim_empty ''e2''" "''e2'' \<notin> xv_event_id ` set (xd_events example_executions)"
    "store_optional_text None ''evidence_ref'' = Inr ()" by code_simp+
  from execution_update_exact[OF example_reachable example_get this(3,1,2), of XS_RUNNING]
  show ?thesis by (auto simp: example_execution_def)
qed

theorem receipt_immutable_witness:
  "get_receipt example_sha (replicate 64 CHR ''a'') example_receipts = Inr (example_receipt\<lparr>rc_recorded_at := Some ''t2''\<rparr>)"
proof -
  have "get_receipt example_sha (replicate 64 CHR ''a'') example_receipts = Inr (example_receipt\<lparr>rc_recorded_at := Some ''t2''\<rparr>)"
    by code_simp
  moreover have "exec_steps example_sha example_receipts example_receipts" by (simp add: exec_steps_def)
  ultimately show ?thesis using receipt_immutable by blast
qed

end
