(* ===== verification/Dex_Admission.thy ===== *)
theory Dex_Admission
  imports Dex_Identity Execution_Properties
begin

text \<open>
  The admission issuer, \<^verbatim>\<open>src/src/a_conductor/dex_admission.py\<close>: decisions cached in the
  process and journaled in the execution store. A call to the store may be struck by a fault of
  the environment: it raises, or the process dies before or after the commit. The faults to
  come are a part of the state, one per call. The process loses its memory when it dies; the
  database stays.
\<close>

section \<open>The process and its store\<close>

datatype StoreFault = Fault_none | Fault_raises exn | Fault_dies_before | Fault_dies_after

record AdmissionRecord =
  ar_execution_id :: string
  ar_attempt_id :: string
  ar_binding_digest :: string
  ar_claim_ref :: string
  ar_claim_generation :: int
  ar_admitted :: bool
  ar_code :: "string option"
  ar_detail :: "string option"

type_synonym identity = "string \<times> string"

text \<open>
  The memory of the issuer (\<^verbatim>\<open>_records\<close>) and of the wire (\<^verbatim>\<open>_fenced\<close>), the database, the faults
  to come, and the identities the transport was asked to dispatch, latest first.
\<close>

record DexState =
  dx_records :: "identity \<rightharpoonup> AdmissionRecord"
  dx_fenced :: "identity set"
  dx_db :: ExecDb
  dx_faults :: "StoreFault list"
  dx_sent :: "identity list"

definition next_fault :: "DexState \<Rightarrow> StoreFault" where
  "next_fault s = (case dx_faults s of [] \<Rightarrow> Fault_none | f # _ \<Rightarrow> f)"

definition store_call :: "(ExecDb, 'a) action \<Rightarrow> (DexState, 'a) action" where
  "store_call m s =
     (let s' = s\<lparr>dx_faults := tl (dx_faults s)\<rparr>; (r, db') = m (dx_db s) in
      case next_fault s of
        Fault_none \<Rightarrow> (r, s'\<lparr>dx_db := db'\<rparr>)
      | Fault_raises e \<Rightarrow> (Inl e, s')
      | Fault_dies_before \<Rightarrow> (Inl ProcessDeath, s')
      | Fault_dies_after \<Rightarrow> (Inl ProcessDeath, s'\<lparr>dx_db := db'\<rparr>))"

definition read_of :: "('d \<Rightarrow> exn + 'a) \<Rightarrow> ('d, 'a) action" where
  "read_of f db = (f db, db)"

text \<open>\<^verbatim>\<open>except Exception\<close>: it does not stop the death of the process.\<close>

definition except_exception :: "('s, 'a) action \<Rightarrow> (exn \<Rightarrow> ('s, 'a) action) \<Rightarrow> ('s, 'a) action" where
  "except_exception m h = catch m (\<lambda>e. if e = ProcessDeath then throw e else h e)"

section \<open>Claims, records and the journal\<close>

record ClaimView =
  cv_claim_ref :: string
  cv_claim_generation :: int
  cv_live :: bool

definition ClaimView_post_init :: "ClaimView \<Rightarrow> exn + ClaimView" where
  "ClaimView_post_init c =
     (if blank (cv_claim_ref c) then Inl (ValueErr ''claim_ref must be a non-empty string'')
      else if cv_claim_generation c < 0 then Inl (ValueErr ''claim_generation must be a non-negative int'')
      else Inr c)"

definition AdmissionRecord_post_init :: "AdmissionRecord \<Rightarrow> exn + AdmissionRecord" where
  "AdmissionRecord_post_init r =
     (if blank (ar_execution_id r) then Inl (ValueErr ''execution_id must be a non-empty string'')
      else if blank (ar_attempt_id r) then Inl (ValueErr ''attempt_id must be a non-empty string'')
      else if blank (ar_binding_digest r) then Inl (ValueErr ''binding_digest must be a non-empty string'')
      else if blank (ar_claim_ref r) then Inl (ValueErr ''claim_ref must be a non-empty string'')
      else if ar_claim_generation r < 0 then Inl (ValueErr ''claim_generation must be a non-negative int'')
      else if (case ar_code r of None \<Rightarrow> False | Some c \<Rightarrow> blank c)
      then Inl (ValueErr ''code must be a non-empty string or None'') else Inr r)"

definition decision_record :: "AdmissionDecisionRow \<Rightarrow> AdmissionRecord" where
  "decision_record d =
     \<lparr>ar_execution_id = ad_execution_id d, ar_attempt_id = ad_attempt_id d, ar_binding_digest = ad_binding_digest d,
      ar_claim_ref = ad_claim_ref d, ar_claim_generation = ad_claim_generation d, ar_admitted = ad_admitted d,
      ar_code = ad_code d, ar_detail = ad_detail d\<rparr>"

definition record_decision :: "AdmissionRecord \<Rightarrow> AdmissionDecisionRow" where
  "record_decision r =
     \<lparr>ad_execution_id = ar_execution_id r, ad_attempt_id = ar_attempt_id r, ad_binding_digest = ar_binding_digest r,
      ad_claim_ref = ar_claim_ref r, ad_claim_generation = ar_claim_generation r, ad_admitted = ar_admitted r,
      ad_code = ar_code r, ad_detail = ar_detail r\<rparr>"

definition journal_load_admission :: "string \<Rightarrow> string \<Rightarrow> (DexState, AdmissionRecord option) action" where
  "journal_load_admission e a = andthen (store_call (read_of (load_admission_decision e a)))
     (\<lambda>row. case row of None \<Rightarrow> ret None
        | Some d \<Rightarrow> andthen (lift_res (AdmissionRecord_post_init (decision_record d))) (\<lambda>r. ret (Some r)))"

definition journal_record_admission :: "AdmissionRecord \<Rightarrow> (DexState, unit) action" where
  "journal_record_admission r = store_call (record_admission_decision (record_decision r))"

section \<open>Decisions\<close>

definition DENIED_STALE_CLAIM :: string where "DENIED_STALE_CLAIM = ''ADMISSION_CLAIM_GENERATION_STALE''"

definition DENIED_IDENTITY_MISMATCH :: string where "DENIED_IDENTITY_MISMATCH = ''ADMISSION_IDENTITY_MISMATCH''"

definition DENIED_NOT_LIVE :: string where "DENIED_NOT_LIVE = ''ADMISSION_CLAIM_NOT_LIVE''"

definition admission_denial ::
  "DexBindingIdentity \<Rightarrow> ClaimView \<Rightarrow> string \<Rightarrow> string \<Rightarrow> string \<Rightarrow> exn + AdmissionRecord" where
  "admission_denial b cv digest code detail = AdmissionRecord_post_init
     \<lparr>ar_execution_id = bi_execution_id b, ar_attempt_id = bi_attempt_id b, ar_binding_digest = digest,
      ar_claim_ref = bi_claim_ref b, ar_claim_generation = cv_claim_generation cv, ar_admitted = False,
      ar_code = Some code, ar_detail = Some detail\<rparr>"

definition decide_fresh :: "DexBindingIdentity \<Rightarrow> ClaimView \<Rightarrow> string \<Rightarrow> exn + AdmissionRecord" where
  "decide_fresh b cv digest =
     (if \<not> cv_live cv
      then admission_denial b cv digest DENIED_NOT_LIVE (''claim '' @ cv_claim_ref cv @ '' is not live'')
      else if cv_claim_ref cv \<noteq> bi_claim_ref b
      then admission_denial b cv digest DENIED_IDENTITY_MISMATCH ''claim view does not match the binding claim_ref''
      else if cv_claim_generation cv \<noteq> bi_claim_generation b
      then admission_denial b cv digest DENIED_STALE_CLAIM
             (''binding generation '' @ json_int (bi_claim_generation b) @ '' != live generation ''
                @ json_int (cv_claim_generation cv))
      else AdmissionRecord_post_init
        \<lparr>ar_execution_id = bi_execution_id b, ar_attempt_id = bi_attempt_id b, ar_binding_digest = digest,
         ar_claim_ref = bi_claim_ref b, ar_claim_generation = cv_claim_generation cv, ar_admitted = True,
         ar_code = None, ar_detail = None\<rparr>)"

definition text_or :: "string option \<Rightarrow> string \<Rightarrow> string" where
  "text_or v d = (case v of None \<Rightarrow> d | Some x \<Rightarrow> if x = [] then d else x)"

definition denial_of :: "AdmissionRecord \<Rightarrow> string \<Rightarrow> exn" where
  "denial_of r d = AdmissionDeniedErr (text_or (ar_code r) DENIED_IDENTITY_MISMATCH @ '': '' @ text_or (ar_detail r) d)"

definition replay :: "AdmissionRecord \<Rightarrow> DexBindingIdentity \<Rightarrow> ClaimView \<Rightarrow> string \<Rightarrow> exn + AdmissionRecord" where
  "replay existing b cv digest =
     (if ar_binding_digest existing \<noteq> digest \<or> ar_claim_ref existing \<noteq> bi_claim_ref b
      then Inl (AdmissionDeniedErr (DENIED_IDENTITY_MISMATCH @ '': admission replay binding does not match the frozen decision''))
      else if ar_claim_generation existing \<noteq> cv_claim_generation cv
      then Inl (AdmissionDeniedErr (DENIED_IDENTITY_MISMATCH @ '': admission replay claim generation differs from the frozen decision''))
      else if \<not> ar_admitted existing then Inl (denial_of existing ''identity was previously denied'')
      else Inr existing)"

definition cache_record :: "identity \<Rightarrow> AdmissionRecord \<Rightarrow> (DexState, unit) action" where
  "cache_record key r s = (Inr (), s\<lparr>dx_records := (dx_records s)(key \<mapsto> r)\<rparr>)"

definition find_decision :: "bool \<Rightarrow> identity \<Rightarrow> (DexState, AdmissionRecord option) action" where
  "find_decision journal key s = (case dx_records s key of
     Some r \<Rightarrow> (Inr (Some r), s)
   | None \<Rightarrow> if \<not> journal then (Inr None, s)
       else andthen (journal_load_admission (fst key) (snd key)) (\<lambda>r. case r of
              None \<Rightarrow> ret None
            | Some x \<Rightarrow> andthen (cache_record key x) (\<lambda>_. ret (Some x))) s)"

definition decide ::
  "(string \<Rightarrow> string) \<Rightarrow> bool \<Rightarrow> DexBindingIdentity \<Rightarrow> ClaimView \<Rightarrow> (DexState, AdmissionRecord) action" where
  "decide sha journal b cv =
     (let digest = binding_digest sha b; key = (bi_execution_id b, bi_attempt_id b) in
      andthen (find_decision journal key) (\<lambda>existing. case existing of
        Some r \<Rightarrow> lift_res (replay r b cv digest)
      | None \<Rightarrow>
          andthen (lift_res (decide_fresh b cv digest)) (\<lambda>r.
          andthen (if journal then journal_record_admission r else ret ()) (\<lambda>_.
          andthen (cache_record key r) (\<lambda>_.
          if \<not> ar_admitted r then throw (denial_of r []) else ret r)))))"

definition lookup_decision :: "string \<Rightarrow> string \<Rightarrow> DexState \<Rightarrow> AdmissionRecord option" where
  "lookup_decision e a s = dx_records s (e, a)"

end
