(* ===== verification/Dex_Evidence.thy ===== *)
theory Dex_Evidence
  imports Dex_Identity
begin

text \<open>
  The strict decoder of collected evidence, \<^verbatim>\<open>src/src/a_conductor/dex_evidence.py\<close>. The JSON
  reader with its duplicate-key hook is the parameter \<^verbatim>\<open>loads\<close>, a function from the bytes to
  what they denote; SHA-256 is a parameter too. The checks and the canonical text that the
  digest of the evidence is taken of are modelled.
\<close>

section \<open>JSON values\<close>

datatype json = JNull | JBool bool | JInt int | JFloat string | JStr string | JArr "json list" | JObj "(string \<times> json) list"

datatype Loaded = Loaded json | Duplicate_key | Invalid_json

text \<open>\<^verbatim>\<open>json.dumps(value, sort_keys=True, separators=(",",":"), ensure_ascii=True)\<close>.\<close>

fun canonical :: "json \<Rightarrow> string" where
  "canonical JNull = ''null''"
| "canonical (JBool x) = json_bool x"
| "canonical (JInt i) = json_int i"
| "canonical (JFloat t) = t"
| "canonical (JStr t) = json_string_ascii t"
| "canonical (JArr vs) = json_list (map canonical vs)"
| "canonical (JObj kvs) = ''{'' @ py_join '','' (map (\<lambda>kv. json_string_ascii (fst kv) @ '':'' @ snd kv)
     (sort_key fst (map (\<lambda>kv. (fst kv, canonical (snd kv))) kvs))) @ ''}''"

section \<open>Checks\<close>

definition EVIDENCE_SCHEMA :: string where "EVIDENCE_SCHEMA = ''dex.srm.collection.v1''"

definition EVIDENCE_MAX_BYTES :: nat where "EVIDENCE_MAX_BYTES = 262144"

definition EVIDENCE_TOP :: "string list" where
  "EVIDENCE_TOP = [''schema'', ''execution_id'', ''attempt_id'', ''binding_digest'', ''claim_generation'', ''sha_set'', ''process'',
     ''artifacts'', ''result'', ''collected_under_drift'', ''evidence_sha256'']"

definition evidence_text :: "json \<Rightarrow> string \<Rightarrow> nat \<Rightarrow> exn + string" where
  "evidence_text v code maximum = (case v of
     JStr t \<Rightarrow> if dex_text_ok maximum t then Inr t else Inl (DexEvidenceErr code)
   | _ \<Rightarrow> Inl (DexEvidenceErr code))"

text \<open>The pattern for 64 digits has one 0 in its text, the one for 40 digits two.\<close>

definition evidence_hex :: "json \<Rightarrow> nat \<Rightarrow> string \<Rightarrow> exn + string" where
  "evidence_hex v n code = res_bind (evidence_text v code ((if n = 40 then 2 else 1) + 128)) (\<lambda>t.
     if lower_hex n t then Inr t else Inl (DexEvidenceErr code))"

definition evidence_uint :: "json \<Rightarrow> string \<Rightarrow> exn + int" where
  "evidence_uint v code = (case v of
     JInt i \<Rightarrow> if i < 0 then Inl (DexEvidenceErr code) else Inr i
   | _ \<Rightarrow> Inl (DexEvidenceErr code))"

definition evidence_int :: "json \<Rightarrow> string \<Rightarrow> exn + int" where
  "evidence_int v code = (case v of JInt i \<Rightarrow> Inr i | _ \<Rightarrow> Inl (DexEvidenceErr code))"

definition evidence_bool :: "json \<Rightarrow> string \<Rightarrow> exn + bool" where
  "evidence_bool v code = (case v of JBool x \<Rightarrow> Inr x | _ \<Rightarrow> Inl (DexEvidenceErr code))"

definition evidence_object :: "json \<Rightarrow> string list \<Rightarrow> string \<Rightarrow> exn + (string \<Rightarrow> json)" where
  "evidence_object v keys code = (case v of
     JObj kvs \<Rightarrow> if set (map fst kvs) = set keys
       then Inr (\<lambda>k. case map_of kvs k of Some x \<Rightarrow> x | None \<Rightarrow> JNull) else Inl (DexEvidenceErr code)
   | _ \<Rightarrow> Inl (DexEvidenceErr code))"

record DexArtifactDigest =
  da_ref :: string
  da_sha256 :: string
  da_size_bytes :: int

record DexCollectedEvidence =
  ce_execution_id :: string
  ce_attempt_id :: string
  ce_binding_digest :: string
  ce_claim_generation :: int
  ce_authority_sha :: string
  ce_execution_sha :: string
  ce_host_id :: string
  ce_boot_id :: string
  ce_pid :: int
  ce_creation_id :: string
  ce_exit_code :: int
  ce_artifacts :: "DexArtifactDigest list"
  ce_result_ref :: string
  ce_result_sha256 :: string
  ce_collected_under_drift :: bool
  ce_evidence_sha256 :: string

fun decode_artifacts :: "json list \<Rightarrow> DexArtifactDigest list \<Rightarrow> exn + DexArtifactDigest list" where
  "decode_artifacts [] acc = Inr acc"
| "decode_artifacts (item # items) acc =
     (let code = ''DEX_EVIDENCE_ARTIFACTS_INVALID'' in
      res_bind (evidence_object item [''ref'', ''sha256'', ''size_bytes''] code) (\<lambda>f.
      res_bind (evidence_text (f ''ref'') code 1024) (\<lambda>ref.
      if ref \<in> set (map da_ref acc) then Inl (DexEvidenceErr code) else
      res_bind (evidence_hex (f ''sha256'') 64 code) (\<lambda>digest.
      res_bind (evidence_uint (f ''size_bytes'') code) (\<lambda>size.
      decode_artifacts items (acc @ [\<lparr>da_ref = ref, da_sha256 = digest, da_size_bytes = size\<rparr>]))))))"

definition artifact_digest :: "DexArtifactDigest list \<Rightarrow> string \<Rightarrow> string option" where
  "artifact_digest arts = map_of (rev (map (\<lambda>x. (da_ref x, da_sha256 x)) arts))"

definition without_key :: "string \<Rightarrow> json \<Rightarrow> json" where
  "without_key k v = (case v of JObj kvs \<Rightarrow> JObj (filter (\<lambda>kv. fst kv \<noteq> k) kvs) | _ \<Rightarrow> v)"

record EvidenceExpected =
  ee_execution_id :: string
  ee_attempt_id :: string
  ee_binding_digest :: string
  ee_authority_sha :: string
  ee_execution_sha :: string

text \<open>The fields in the order the decoder checks them, then the agreement with what was expected.\<close>

definition evidence_root :: "json \<Rightarrow> exn + (string \<Rightarrow> json)" where
  "evidence_root payload = (case payload of
     JObj _ \<Rightarrow> res_bind (evidence_object payload EVIDENCE_TOP ''DEX_EVIDENCE_KEYS_INVALID'') (\<lambda>f.
       if f ''schema'' \<noteq> JStr EVIDENCE_SCHEMA then Inl (DexEvidenceErr ''DEX_EVIDENCE_SCHEMA_MISMATCH'') else Inr f)
   | _ \<Rightarrow> Inl (DexEvidenceErr ''DEX_EVIDENCE_ROOT_INVALID''))"

definition evidence_artifacts :: "json \<Rightarrow> exn + DexArtifactDigest list" where
  "evidence_artifacts v = (case v of
     JArr items \<Rightarrow> if items = [] \<or> length items > 16 then Inl (DexEvidenceErr ''DEX_EVIDENCE_ARTIFACTS_INVALID'')
       else decode_artifacts items []
   | _ \<Rightarrow> Inl (DexEvidenceErr ''DEX_EVIDENCE_ARTIFACTS_INVALID''))"

definition evidence_fields :: "(string \<Rightarrow> json) \<Rightarrow> exn + DexCollectedEvidence" where
  "evidence_fields f =
     res_bind (evidence_text (f ''execution_id'') ''DEX_EVIDENCE_EXECUTION_INVALID'' 1024) (\<lambda>execution_id.
     res_bind (evidence_text (f ''attempt_id'') ''DEX_EVIDENCE_ATTEMPT_INVALID'' 1024) (\<lambda>attempt_id.
     res_bind (evidence_hex (f ''binding_digest'') 64 ''DEX_EVIDENCE_BINDING_INVALID'') (\<lambda>binding.
     res_bind (evidence_uint (f ''claim_generation'') ''DEX_EVIDENCE_GENERATION_INVALID'') (\<lambda>generation.
     res_bind (evidence_object (f ''sha_set'') [''authority'', ''execution''] ''DEX_EVIDENCE_SHA_SET_INVALID'') (\<lambda>sha_set.
     res_bind (evidence_hex (sha_set ''authority'') 40 ''DEX_EVIDENCE_SHA_SET_INVALID'') (\<lambda>authority_sha.
     res_bind (evidence_hex (sha_set ''execution'') 40 ''DEX_EVIDENCE_SHA_SET_INVALID'') (\<lambda>execution_sha.
     let code = ''DEX_EVIDENCE_PROCESS_INVALID'' in
     res_bind (evidence_object (f ''process'') [''host_id'', ''boot_id'', ''pid'', ''creation_id'', ''exit_code''] code) (\<lambda>process.
     res_bind (evidence_text (process ''host_id'') code 1024) (\<lambda>host_id.
     res_bind (evidence_text (process ''boot_id'') code 1024) (\<lambda>boot_id.
     res_bind (evidence_uint (process ''pid'') code) (\<lambda>pid.
     res_bind (evidence_text (process ''creation_id'') code 1024) (\<lambda>creation_id.
     if pid < 1 then Inl (DexEvidenceErr code) else
     res_bind (evidence_int (process ''exit_code'') code) (\<lambda>exit_code.
     res_bind (evidence_artifacts (f ''artifacts'')) (\<lambda>artifacts.
     res_bind (evidence_object (f ''result'') [''ref'', ''sha256''] ''DEX_EVIDENCE_RESULT_INVALID'') (\<lambda>result.
     res_bind (evidence_text (result ''ref'') ''DEX_EVIDENCE_RESULT_INVALID'' 1024) (\<lambda>result_ref.
     res_bind (evidence_hex (result ''sha256'') 64 ''DEX_EVIDENCE_RESULT_INVALID'') (\<lambda>result_sha.
     if artifact_digest artifacts result_ref \<noteq> Some result_sha then Inl (DexEvidenceErr ''DEX_EVIDENCE_RESULT_DIGEST_MISMATCH'') else
     res_bind (evidence_hex (f ''evidence_sha256'') 64 ''DEX_EVIDENCE_DIGEST_INVALID'') (\<lambda>evidence_sha.
     res_bind (evidence_bool (f ''collected_under_drift'') ''DEX_EVIDENCE_DRIFT_INVALID'') (\<lambda>drift.
     Inr \<lparr>ce_execution_id = execution_id, ce_attempt_id = attempt_id, ce_binding_digest = binding,
          ce_claim_generation = generation, ce_authority_sha = authority_sha, ce_execution_sha = execution_sha,
          ce_host_id = host_id, ce_boot_id = boot_id, ce_pid = pid, ce_creation_id = creation_id,
          ce_exit_code = exit_code, ce_artifacts = artifacts, ce_result_ref = result_ref,
          ce_result_sha256 = result_sha, ce_collected_under_drift = drift, ce_evidence_sha256 = evidence_sha\<rparr>)))))))))))))))))))"

definition evidence_agrees ::
  "(string \<Rightarrow> string) \<Rightarrow> EvidenceExpected \<Rightarrow> json \<Rightarrow> DexCollectedEvidence \<Rightarrow> exn + DexCollectedEvidence" where
  "evidence_agrees sha ee payload ev =
     (if ce_execution_id ev \<noteq> ee_execution_id ee \<or> ce_attempt_id ev \<noteq> ee_attempt_id ee
      then Inl (DexEvidenceErr ''DEX_EVIDENCE_IDENTITY_MISMATCH'')
      else if ce_binding_digest ev \<noteq> ee_binding_digest ee then Inl (DexEvidenceErr ''DEX_EVIDENCE_BINDING_MISMATCH'')
      else if ce_authority_sha ev \<noteq> ee_authority_sha ee \<or> ce_execution_sha ev \<noteq> ee_execution_sha ee
      then Inl (DexEvidenceErr ''DEX_EVIDENCE_SHA_SET_MISMATCH'')
      else if sha (canonical (without_key ''evidence_sha256'' payload)) \<noteq> ce_evidence_sha256 ev
      then Inl (DexEvidenceErr ''DEX_EVIDENCE_DIGEST_MISMATCH'') else Inr ev)"

definition decode_collected_evidence ::
  "(string \<Rightarrow> string) \<Rightarrow> (string \<Rightarrow> Loaded) \<Rightarrow> EvidenceExpected \<Rightarrow> string \<Rightarrow> exn + DexCollectedEvidence" where
  "decode_collected_evidence sha loads ee raw =
     (if raw = [] \<or> length raw > EVIDENCE_MAX_BYTES then Inl (DexEvidenceErr ''DEX_EVIDENCE_BYTES_INVALID'')
      else case loads raw of
        Duplicate_key \<Rightarrow> Inl (DexEvidenceErr ''DEX_EVIDENCE_DUPLICATE_KEY'')
      | Invalid_json \<Rightarrow> Inl (DexEvidenceErr ''DEX_EVIDENCE_JSON_INVALID'')
      | Loaded payload \<Rightarrow> res_bind (evidence_root payload) (\<lambda>f.
          res_bind (evidence_fields f) (\<lambda>ev. evidence_agrees sha ee payload ev)))"

section \<open>What an accepted document shows\<close>

lemma evidence_text_Inr [simp]: "evidence_text v c n = Inr t \<longleftrightarrow> v = JStr t \<and> dex_text_ok n t"
  by (cases v) (auto simp: evidence_text_def)

lemma evidence_hex_Inr: "evidence_hex v n c = Inr t \<Longrightarrow> v = JStr t \<and> lower_hex n t"
  by (auto simp: evidence_hex_def split: if_splits)

lemma evidence_uint_Inr: "evidence_uint v c = Inr i \<Longrightarrow> v = JInt i \<and> 0 \<le> i"
  by (cases v) (auto simp: evidence_uint_def split: if_splits)

lemma decode_artifacts_Inr:
  assumes "decode_artifacts items acc = Inr arts" and "distinct (map da_ref acc)"
    and "list_all (\<lambda>x. lower_hex 64 (da_sha256 x) \<and> 0 \<le> da_size_bytes x) acc"
  shows "distinct (map da_ref arts) \<and> length arts = length acc + length items
    \<and> list_all (\<lambda>x. lower_hex 64 (da_sha256 x) \<and> 0 \<le> da_size_bytes x) arts"
  using assms
proof (induction items acc rule: decode_artifacts.induct)
  case (2 item items acc)
  from 2(2) obtain f ref digest size where f: "evidence_object item [''ref'', ''sha256'', ''size_bytes''] ''DEX_EVIDENCE_ARTIFACTS_INVALID'' = Inr f"
    and ref: "evidence_text (f ''ref'') ''DEX_EVIDENCE_ARTIFACTS_INVALID'' 1024 = Inr ref" "ref \<notin> set (map da_ref acc)"
    and d: "evidence_hex (f ''sha256'') 64 ''DEX_EVIDENCE_ARTIFACTS_INVALID'' = Inr digest"
    and s: "evidence_uint (f ''size_bytes'') ''DEX_EVIDENCE_ARTIFACTS_INVALID'' = Inr size"
    and rest: "decode_artifacts items (acc @ [\<lparr>da_ref = ref, da_sha256 = digest, da_size_bytes = size\<rparr>]) = Inr arts"
    by (auto simp: Let_def simp del: evidence_text_Inr split: if_splits)
  from 2(1)[OF refl ref(2) rest] 2(3,4) ref(2) evidence_hex_Inr[OF d] evidence_uint_Inr[OF s]
  show ?case by simp
qed simp

definition evidence_wf :: "DexCollectedEvidence \<Rightarrow> bool" where
  "evidence_wf ev \<longleftrightarrow> dex_text_ok 1024 (ce_execution_id ev) \<and> dex_text_ok 1024 (ce_attempt_id ev)
     \<and> lower_hex 64 (ce_binding_digest ev) \<and> 0 \<le> ce_claim_generation ev
     \<and> lower_hex 40 (ce_authority_sha ev) \<and> lower_hex 40 (ce_execution_sha ev) \<and> 1 \<le> ce_pid ev
     \<and> distinct (map da_ref (ce_artifacts ev)) \<and> ce_artifacts ev \<noteq> [] \<and> length (ce_artifacts ev) \<le> 16
     \<and> (\<exists>x \<in> set (ce_artifacts ev). da_ref x = ce_result_ref ev \<and> da_sha256 x = ce_result_sha256 ev)
     \<and> lower_hex 64 (ce_result_sha256 ev) \<and> lower_hex 64 (ce_evidence_sha256 ev)"

lemma evidence_artifacts_Inr:
  assumes "evidence_artifacts v = Inr arts"
  shows "distinct (map da_ref arts) \<and> arts \<noteq> [] \<and> length arts \<le> 16"
proof -
  from assms obtain items where i: "items \<noteq> []" "length items \<le> 16" "decode_artifacts items [] = Inr arts"
    by (cases v) (auto simp: evidence_artifacts_def split: if_splits)
  show ?thesis using decode_artifacts_Inr[OF i(3)] i(1,2) by auto
qed

lemma artifact_digest_Some: "artifact_digest arts r = Some d \<Longrightarrow> \<exists>x \<in> set arts. da_ref x = r \<and> da_sha256 x = d"
  by (auto simp: artifact_digest_def dest!: map_of_SomeD)

lemma evidence_fields_wf:
  assumes "evidence_fields f = Inr ev"
  shows "evidence_wf ev"
  using assms unfolding evidence_fields_def Let_def evidence_wf_def
  by (auto split: if_splits dest!: evidence_hex_Inr evidence_uint_Inr evidence_artifacts_Inr artifact_digest_Some)

lemma decode_Inr:
  assumes "decode_collected_evidence sha loads ee raw = Inr ev"
  shows "\<exists>payload. loads raw = Loaded payload \<and> evidence_wf ev \<and> ce_execution_id ev = ee_execution_id ee
    \<and> ce_attempt_id ev = ee_attempt_id ee \<and> ce_binding_digest ev = ee_binding_digest ee
    \<and> ce_authority_sha ev = ee_authority_sha ee \<and> ce_execution_sha ev = ee_execution_sha ee
    \<and> sha (canonical (without_key ''evidence_sha256'' payload)) = ce_evidence_sha256 ev"
proof -
  from assms obtain payload f where l: "loads raw = Loaded payload" and f: "evidence_fields f = Inr ev"
    and a: "evidence_agrees sha ee payload ev = Inr ev"
    by (auto simp: decode_collected_evidence_def evidence_agrees_def split: if_splits Loaded.splits)
  show ?thesis using l evidence_fields_wf[OF f] a by (auto simp: evidence_agrees_def split: if_splits)
qed

end
