(* ===== verification/Dex_Wire.thy ===== *)
theory Dex_Wire
  imports Dex_Admission Dex_Evidence
begin

text \<open>
  The wire from admission to receipt, \<^verbatim>\<open>src/src/a_conductor/dex_wire.py\<close>. The transport is a
  parameter: what its two calls answer is an argument of the run, an exception or the death of
  the process included; every call of \<^verbatim>\<open>dispatch\<close> is logged in the state, whatever its answer. The
  lock of an identity makes the runs of one process on that identity sequential, which is
  how they are composed here. The text of an exception is the code it carries.
\<close>

section \<open>Codes and outcomes\<close>

definition WIRE_LAUNCH_AMBIGUOUS :: string where "WIRE_LAUNCH_AMBIGUOUS = ''WIRE_LAUNCH_AMBIGUOUS''"

definition WIRE_COLLECT_UNAVAILABLE :: string where "WIRE_COLLECT_UNAVAILABLE = ''WIRE_COLLECT_UNAVAILABLE''"

definition WIRE_EVIDENCE_REJECTED :: string where "WIRE_EVIDENCE_REJECTED = ''WIRE_EVIDENCE_REJECTED''"

definition WIRE_EXECUTION_RECORD_MISSING :: string where "WIRE_EXECUTION_RECORD_MISSING = ''WIRE_EXECUTION_RECORD_MISSING''"

definition WIRE_STATE_UNAVAILABLE :: string where "WIRE_STATE_UNAVAILABLE = ''WIRE_STATE_UNAVAILABLE''"

definition WIRE_RECEIPT_CONFLICT :: string where "WIRE_RECEIPT_CONFLICT = ''WIRE_RECEIPT_CONFLICT''"

definition WIRE_GENERATION_MISMATCH :: string where "WIRE_GENERATION_MISMATCH = ''WIRE_GENERATION_MISMATCH''"

definition WIRE_FENCE_CONFLICT :: string where "WIRE_FENCE_CONFLICT = ''WIRE_FENCE_CONFLICT''"

record WireOutcome =
  wo_execution_id :: string
  wo_attempt_id :: string
  wo_receipt_id :: "string option"
  wo_status :: string
  wo_detail :: string

text \<open>The answer of \<^verbatim>\<open>dispatch\<close>: its status, when there is one that is a text, with its \<^verbatim>\<open>repr\<close>.\<close>

datatype DispatchReply = DispatchRaises exn | DispatchReturns "string option" string

datatype CollectReply = CollectRaises exn | CollectReturns string

text \<open>One run: the answers of the transport, the event id and the time of its receipt.\<close>

record WireCall =
  wc_dispatch :: DispatchReply
  wc_collect :: CollectReply
  wc_event_id :: "string option"
  wc_now :: string

fun str_exn :: "exn \<Rightarrow> string" where
  "str_exn (ValueErr t) = t"
| "str_exn (ExecutionStoreErr t) = t"
| "str_exn (AdmissionDeniedErr t) = t"
| "str_exn (DexEvidenceErr t) = t"
| "str_exn (WireErr t) = t"
| "str_exn _ = []"

definition text_in :: "string \<Rightarrow> string \<Rightarrow> bool" where
  "text_in sub v = list_ex (\<lambda>i. take (length sub) (drop i v) = sub) [0..<Suc (length v)]"

definition bi_identity :: "DexBindingIdentity \<Rightarrow> identity" where
  "bi_identity b = (bi_execution_id b, bi_attempt_id b)"

definition wire_outcome :: "DexBindingIdentity \<Rightarrow> string option \<Rightarrow> string \<Rightarrow> string \<Rightarrow> WireOutcome" where
  "wire_outcome b receipt status detail = \<lparr>wo_execution_id = bi_execution_id b, wo_attempt_id = bi_attempt_id b,
     wo_receipt_id = receipt, wo_status = status, wo_detail = detail\<rparr>"

definition wire_denied :: "DexBindingIdentity \<Rightarrow> string \<Rightarrow> WireOutcome" where
  "wire_denied b denial = wire_outcome b None ''DENIED'' denial"

definition wire_ambiguous :: "DexBindingIdentity \<Rightarrow> string \<Rightarrow> WireOutcome" where
  "wire_ambiguous b detail = wire_outcome b None ''AMBIGUOUS''
     (WIRE_LAUNCH_AMBIGUOUS @ '': '' @ detail @ '' (no auto-retry; explicit reconciliation required)'')"

section \<open>Calls\<close>

definition fence_identity :: "DexBindingIdentity \<Rightarrow> (DexState, unit) action" where
  "fence_identity b s = (Inr (), s\<lparr>dx_fenced := insert (bi_identity b) (dx_fenced s)\<rparr>)"

definition transport_dispatch :: "DexBindingIdentity \<Rightarrow> DispatchReply \<Rightarrow> (DexState, string option \<times> string) action" where
  "transport_dispatch b reply s = (case reply of DispatchRaises e \<Rightarrow> Inl e | DispatchReturns status rep \<Rightarrow> Inr (status, rep),
     s\<lparr>dx_sent := bi_identity b # dx_sent s\<rparr>)"

definition transport_collect :: "CollectReply \<Rightarrow> (DexState, string) action" where
  "transport_collect reply = lift_res (case reply of CollectRaises e \<Rightarrow> Inl e | CollectReturns raw \<Rightarrow> Inr raw)"

definition probe_execution_record :: "DexBindingIdentity \<Rightarrow> (DexState, unit) action" where
  "probe_execution_record b = except_exception
     (andthen (store_call (read_of (list_execution_events (bi_execution_id b)))) (\<lambda>_. ret ()))
     (\<lambda>e. case e of
        ExecutionStoreErr t \<Rightarrow> if text_in ''EXECUTION_NOT_FOUND'' t then throw (WireErr WIRE_EXECUTION_RECORD_MISSING)
          else throw (WireErr WIRE_STATE_UNAVAILABLE)
      | _ \<Rightarrow> throw (WireErr WIRE_STATE_UNAVAILABLE))"

definition receipt_event :: "ExecutionEvent \<Rightarrow> bool" where
  "receipt_event e = (xe_event_type e = XE_RECEIPT_RECORDED \<and> xe_evidence_ref e \<noteq> None \<and> xe_evidence_ref e \<noteq> Some [])"

definition find_receipt_contained :: "DexBindingIdentity \<Rightarrow> (DexState, string option) action" where
  "find_receipt_contained b =
     andthen (except_exception (store_call (read_of (list_execution_events (bi_execution_id b))))
       (\<lambda>e. throw (WireErr WIRE_STATE_UNAVAILABLE)))
     (\<lambda>events. ret (case fetchone receipt_event events of None \<Rightarrow> None | Some e \<Rightarrow> xe_evidence_ref e))"

definition reserve_durable_fence :: "DexBindingIdentity \<Rightarrow> AdmissionRecord \<Rightarrow> (DexState, bool) action" where
  "reserve_durable_fence b admission = except_exception
     (andthen (store_call (reserve_dispatch_fence (bi_execution_id b) (bi_attempt_id b) (ar_binding_digest admission)))
        (\<lambda>r. ret (snd r)))
     (\<lambda>e. case e of
        ExecutionStoreErr t \<Rightarrow> if text_in ''FENCE_BINDING_CONFLICT'' t \<or> text_in ''FENCE_STATE_CONFLICT'' t
          then throw (WireErr WIRE_FENCE_CONFLICT) else throw (WireErr WIRE_STATE_UNAVAILABLE)
      | _ \<Rightarrow> throw (WireErr WIRE_STATE_UNAVAILABLE))"

definition fence_mark :: "DexBindingIdentity \<Rightarrow> string \<Rightarrow> string \<Rightarrow> (DexState, unit) action" where
  "fence_mark b state reason = except_exception
     (store_call (transition_dispatch_fence (bi_execution_id b) (bi_attempt_id b) state (Some reason)))
     (\<lambda>e. case e of
        ExecutionStoreErr t \<Rightarrow> if text_in ''FENCE_STATE_CONFLICT'' t \<or> text_in ''FENCE_BINDING_CONFLICT'' t
            \<or> text_in ''DISPATCH_FENCE_NOT_FOUND'' t \<or> text_in ''DISPATCH_FENCE_CORRUPT'' t
          then throw (WireErr WIRE_FENCE_CONFLICT) else throw (WireErr WIRE_STATE_UNAVAILABLE)
      | _ \<Rightarrow> throw (WireErr WIRE_STATE_UNAVAILABLE))"

definition except_wire :: "(DexState, 'a) action \<Rightarrow> (exn \<Rightarrow> (DexState, 'a) action) \<Rightarrow> (DexState, 'a) action" where
  "except_wire m h = catch m (\<lambda>e. case e of WireErr _ \<Rightarrow> h e | _ \<Rightarrow> throw e)"

definition fence_retire_best_effort :: "DexBindingIdentity \<Rightarrow> string \<Rightarrow> (DexState, unit) action" where
  "fence_retire_best_effort b reason = except_wire (fence_mark b ''RETIRED'' reason) (\<lambda>_. ret ())"

text \<open>The identity is fenced in the process, then durably.\<close>

definition fence_both :: "DexBindingIdentity \<Rightarrow> string \<Rightarrow> (DexState, unit) action" where
  "fence_both b reason = andthen (fence_identity b) (\<lambda>_. fence_mark b ''FENCED'' reason)"

section \<open>Dispatch and collection\<close>

text \<open>Some outcome when the attempt ends here, None when the substrate accepted the dispatch.\<close>

definition dispatch_once :: "DexBindingIdentity \<Rightarrow> DispatchReply \<Rightarrow> (DexState, WireOutcome option) action" where
  "dispatch_once b reply = catch
     (andthen (except_exception
        (andthen (transport_dispatch b reply) (\<lambda>r. ret (Inr r)))
        (\<lambda>e. andthen (fence_both b (''dispatch threw: '' @ str_exn e)) (\<lambda>_.
             ret (Inl (wire_ambiguous b (''dispatch threw: '' @ str_exn e))))))
     (\<lambda>r. case r of
        Inl outcome \<Rightarrow> ret (Some outcome)
      | Inr (status, rep) \<Rightarrow>
          if status \<noteq> Some ''DISPATCHED''
          then andthen (fence_both b (''dispatch status was not DISPATCHED: '' @ rep)) (\<lambda>_.
               ret (Some (wire_ambiguous b (''dispatch status was not DISPATCHED: '' @ rep))))
          else andthen (except_wire (fence_mark b ''DISPATCHED'' ''substrate accepted dispatch'')
                 (\<lambda>e. andthen (fence_identity b) (\<lambda>_. throw e))) (\<lambda>_. ret None)))
     (\<lambda>e. case e of
        WireErr _ \<Rightarrow> throw e
      | ProcessDeath \<Rightarrow> throw e
      | _ \<Rightarrow> andthen (fence_both b (''dispatch failed unexpectedly: '' @ str_exn e)) (\<lambda>_.
             ret (Some (wire_ambiguous b (''dispatch failed unexpectedly: '' @ str_exn e)))))"

definition collect_attempt :: "DexBindingIdentity \<Rightarrow> CollectReply \<Rightarrow> (DexState, string) action" where
  "collect_attempt b reply = except_exception (transport_collect reply)
     (\<lambda>e. andthen (fence_both b (''collect failed after dispatch: '' @ str_exn e)) (\<lambda>_.
          throw (WireErr WIRE_COLLECT_UNAVAILABLE)))"

definition wire_expected :: "DexBindingIdentity \<Rightarrow> AdmissionRecord \<Rightarrow> EvidenceExpected" where
  "wire_expected b admission = \<lparr>ee_execution_id = bi_execution_id b, ee_attempt_id = bi_attempt_id b,
     ee_binding_digest = ar_binding_digest admission, ee_authority_sha = bi_authority_sha b,
     ee_execution_sha = bi_execution_sha b\<rparr>"

definition evidence_receipt :: "(string \<Rightarrow> string) \<Rightarrow> DexCollectedEvidence \<Rightarrow> exn + DurableExecutionReceipt" where
  "evidence_receipt sha ev = new_execution_receipt sha
     \<lparr>rc_receipt_id = [], rc_execution_id = ce_execution_id ev, rc_attempt_id = ce_attempt_id ev,
      rc_result_digest = ce_result_sha256 ev, rc_binding_digest = ce_binding_digest ev,
      rc_claim_generation = ce_claim_generation ev, rc_authority_sha = ce_authority_sha ev,
      rc_execution_sha = ce_execution_sha ev,
      rc_disposition = (if ce_collected_under_drift ev then RD_QUARANTINED else RD_ACCEPTED),
      rc_evidence_ref = Some (ce_evidence_sha256 ev), rc_recorded_at = None\<rparr>"

definition same_receipt :: "DurableExecutionReceipt \<Rightarrow> DurableExecutionReceipt \<Rightarrow> bool" where
  "same_receipt stored r =
     (rc_execution_id stored = rc_execution_id r \<and> rc_attempt_id stored = rc_attempt_id r
      \<and> rc_result_digest stored = rc_result_digest r \<and> rc_binding_digest stored = rc_binding_digest r
      \<and> rc_claim_generation stored = rc_claim_generation r \<and> rc_authority_sha stored = rc_authority_sha r
      \<and> rc_execution_sha stored = rc_execution_sha r \<and> rc_disposition stored = rc_disposition r
      \<and> rc_evidence_ref stored = rc_evidence_ref r)"

definition find_identical_receipt :: "(string \<Rightarrow> string) \<Rightarrow> DurableExecutionReceipt \<Rightarrow> (DexState, string option) action" where
  "find_identical_receipt sha r =
     andthen (lift_res (compute_receipt_id sha (rc_execution_id r) (rc_attempt_id r) (rc_result_digest r) (rc_binding_digest r)))
     (\<lambda>i. except_exception
        (andthen (store_call (read_of (get_receipt sha i))) (\<lambda>stored.
           ret (if same_receipt stored r then Some (rc_receipt_id stored) else None)))
        (\<lambda>_. ret None))"

definition store_receipt ::
  "(string \<Rightarrow> string) \<Rightarrow> DexBindingIdentity \<Rightarrow> WireCall \<Rightarrow> DurableExecutionReceipt \<Rightarrow> (DexState, WireOutcome) action" where
  "store_receipt sha b call receipt =
     andthen (catch
       (andthen (store_call (record_receipt sha (wc_event_id call) (wc_now call) receipt)) (\<lambda>stored. ret (Inr stored)))
       (\<lambda>e. case e of
          ProcessDeath \<Rightarrow> throw e
        | ExecutionStoreErr t \<Rightarrow> andthen (find_identical_receipt sha receipt) (\<lambda>identical. case identical of
            Some i \<Rightarrow> andthen (fence_retire_best_effort b ''receipt verifiably stored by a racing writer'') (\<lambda>_.
              ret (Inl (wire_outcome b (Some i) ''DUPLICATE_ALREADY_COMPLETED'' (''receipt raced an identical stored receipt: '' @ t))))
          | None \<Rightarrow> andthen (fence_both b (''receipt rejected: '' @ t)) (\<lambda>_. throw (WireErr WIRE_RECEIPT_CONFLICT)))
        | _ \<Rightarrow> andthen (fence_both b (''receipt persistence failed: '' @ str_exn e)) (\<lambda>_.
                throw (WireErr WIRE_STATE_UNAVAILABLE))))
     (\<lambda>r. case r of
        Inl outcome \<Rightarrow> ret outcome
      | Inr stored \<Rightarrow> andthen (fence_retire_best_effort b ''receipt recorded'') (\<lambda>_.
          ret \<lparr>wo_execution_id = rc_execution_id stored, wo_attempt_id = rc_attempt_id stored,
               wo_receipt_id = Some (rc_receipt_id stored), wo_status = ''COMPLETED'', wo_detail = ''receipt recorded''\<rparr>))"

definition attempt_collect ::
  "(string \<Rightarrow> string) \<Rightarrow> (string \<Rightarrow> Loaded) \<Rightarrow> DexBindingIdentity \<Rightarrow> AdmissionRecord \<Rightarrow> WireCall \<Rightarrow> (DexState, WireOutcome) action" where
  "attempt_collect sha loads b admission call =
     andthen (collect_attempt b (wc_collect call)) (\<lambda>raw.
     case decode_collected_evidence sha loads (wire_expected b admission) raw of
       Inl e \<Rightarrow> andthen (fence_both b (''evidence rejected: '' @ str_exn e)) (\<lambda>_.
         ret (wire_outcome b None ''EVIDENCE_REJECTED'' (WIRE_EVIDENCE_REJECTED @ '': '' @ str_exn e @ '' (identity fenced)'')))
     | Inr ev \<Rightarrow>
         if ce_claim_generation ev \<noteq> ar_claim_generation admission
         then andthen (fence_both b (''generation mismatch: '' @ json_int (ce_claim_generation ev))) (\<lambda>_.
           ret (wire_outcome b None ''EVIDENCE_REJECTED''
             (WIRE_GENERATION_MISMATCH @ '': evidence generation '' @ json_int (ce_claim_generation ev)
                @ '' != admitted generation '' @ json_int (ar_claim_generation admission) @ '' (identity fenced)'')))
         else andthen (lift_res (evidence_receipt sha ev)) (store_receipt sha b call))"

definition attempt_dispatch ::
  "(string \<Rightarrow> string) \<Rightarrow> (string \<Rightarrow> Loaded) \<Rightarrow> DexBindingIdentity \<Rightarrow> AdmissionRecord \<Rightarrow> WireCall \<Rightarrow> (DexState, WireOutcome) action" where
  "attempt_dispatch sha loads b admission call =
     andthen (dispatch_once b (wc_dispatch call)) (\<lambda>r. case r of
       Some outcome \<Rightarrow> ret outcome
     | None \<Rightarrow> attempt_collect sha loads b admission call)"

definition attempt_locked ::
  "(string \<Rightarrow> string) \<Rightarrow> (string \<Rightarrow> Loaded) \<Rightarrow> DexBindingIdentity \<Rightarrow> AdmissionRecord \<Rightarrow> WireCall \<Rightarrow> (DexState, WireOutcome) action" where
  "attempt_locked sha loads b admission call s =
     (if bi_identity b \<in> dx_fenced s
      then (Inr (wire_ambiguous b ''identity is fenced as ambiguous pending reconciliation''), s)
      else andthen (probe_execution_record b) (\<lambda>_.
           andthen (find_receipt_contained b) (\<lambda>existing. case existing of
             Some i \<Rightarrow> ret (wire_outcome b (Some i) ''DUPLICATE_ALREADY_COMPLETED'' ''receipt already recorded for this identity'')
           | None \<Rightarrow>
               andthen (reserve_durable_fence b admission) (\<lambda>created.
               if \<not> created
               then andthen (fence_identity b) (\<lambda>_.
                    ret (wire_ambiguous b ''durable dispatch fence already holds this identity (observed on reserve)''))
               else attempt_dispatch sha loads b admission call))) s)"

definition run_attempt ::
  "(string \<Rightarrow> string) \<Rightarrow> (string \<Rightarrow> Loaded) \<Rightarrow> bool \<Rightarrow> DexBindingIdentity \<Rightarrow> ClaimView \<Rightarrow> WireCall \<Rightarrow> (DexState, WireOutcome) action" where
  "run_attempt sha loads journal b cv call =
     andthen (catch (andthen (decide sha journal b cv) (\<lambda>r. ret (Inr r)))
       (\<lambda>e. case e of
          ProcessDeath \<Rightarrow> throw e
        | AdmissionDeniedErr t \<Rightarrow> ret (Inl (wire_denied b t))
        | _ \<Rightarrow> throw (WireErr WIRE_STATE_UNAVAILABLE)))
     (\<lambda>r. case r of
        Inl outcome \<Rightarrow> ret outcome
      | Inr admission \<Rightarrow> attempt_locked sha loads b admission call)"

section \<open>Histories\<close>

text \<open>
  Runs of the wire, the restart of the process, which loses its memory, the work of other
  processes on the same database, and the faults the environment chooses.
\<close>

inductive dex_step :: "(string \<Rightarrow> string) \<Rightarrow> (string \<Rightarrow> Loaded) \<Rightarrow> bool \<Rightarrow> DexState \<Rightarrow> DexState \<Rightarrow> bool" for sha loads journal where
  d_run: "run_attempt sha loads journal b cv call s = (r, s') \<Longrightarrow> dex_step sha loads journal s s'"
| d_restart: "dex_step sha loads journal s (s\<lparr>dx_records := Map.empty, dx_fenced := {}\<rparr>)"
| d_other: "exec_step sha (dx_db s) db' \<Longrightarrow> dex_step sha loads journal s (s\<lparr>dx_db := db'\<rparr>)"
| d_faults: "dex_step sha loads journal s (s\<lparr>dx_faults := fs\<rparr>)"

definition dex_steps :: "(string \<Rightarrow> string) \<Rightarrow> (string \<Rightarrow> Loaded) \<Rightarrow> bool \<Rightarrow> DexState \<Rightarrow> DexState \<Rightarrow> bool" where
  "dex_steps sha loads journal = (dex_step sha loads journal)\<^sup>*\<^sup>*"

definition dex_initial :: DexState where
  "dex_initial = \<lparr>dx_records = Map.empty, dx_fenced = {}, dx_db = empty_executions, dx_faults = [], dx_sent = []\<rparr>"

abbreviation dex_reachable :: "(string \<Rightarrow> string) \<Rightarrow> (string \<Rightarrow> Loaded) \<Rightarrow> bool \<Rightarrow> DexState \<Rightarrow> bool" where
  "dex_reachable sha loads journal \<equiv> dex_steps sha loads journal dex_initial"

end
