(* ===== verification/Dex_Properties.thy ===== *)
theory Dex_Properties
  imports Dex_Wire
begin

text \<open>
  What the wire guarantees over every history: at most one dispatch per identity across
  restarts, crashes and other processes; frozen admission decisions; a completed attempt has
  its receipt.
\<close>

section \<open>What a call keeps\<close>

definition keeps :: "('s \<Rightarrow> bool) \<Rightarrow> ('s, 'a) action \<Rightarrow> bool" where
  "keeps P m \<longleftrightarrow> triple P m (\<lambda>_. P) (\<lambda>_. P)"

named_theorems keeps_rules "operations that keep a predicate of the state"

lemma dex_keepsD: "keeps P m \<Longrightarrow> P s \<Longrightarrow> m s = (r, s') \<Longrightarrow> P s'"
  unfolding keeps_def by (cases r) (auto dest: tripleD)

lemma keeps_basic [keeps_rules]:
  "keeps P (ret x)" "keeps P (throw e)" "keeps P (lift_res v)"
  by (auto simp: keeps_def intro!: triple_rules)

lemma keeps_andthen [keeps_rules]: "keeps P m \<Longrightarrow> (\<And>x. keeps P (k x)) \<Longrightarrow> keeps P (andthen m k)"
  unfolding keeps_def by (rule triple_andthen)

lemma keeps_catch [keeps_rules]: "keeps P m \<Longrightarrow> (\<And>e. keeps P (h e)) \<Longrightarrow> keeps P (catch m h)"
  unfolding keeps_def by (rule triple_catch)

lemma keeps_if [keeps_rules]: "(b \<Longrightarrow> keeps P m) \<Longrightarrow> (\<not> b \<Longrightarrow> keeps P n) \<Longrightarrow> keeps P (if b then m else n)"
  by simp

lemma keeps_option [keeps_rules]:
  "keeps P m \<Longrightarrow> (\<And>x. keeps P (k x)) \<Longrightarrow> keeps P (case v of None \<Rightarrow> m | Some x \<Rightarrow> k x)"
  by (cases v) auto

lemma keeps_sum [keeps_rules]:
  "(\<And>x. keeps P (h x)) \<Longrightarrow> (\<And>x. keeps P (k x)) \<Longrightarrow> keeps P (case v of Inl x \<Rightarrow> h x | Inr x \<Rightarrow> k x)"
  by (cases v) auto

lemma keeps_prod [keeps_rules]: "(\<And>x y. keeps P (k x y)) \<Longrightarrow> keeps P (case v of (x, y) \<Rightarrow> k x y)"
  by (cases v) auto

lemma keeps_except_exception [keeps_rules]:
  "keeps P m \<Longrightarrow> (\<And>e. keeps P (h e)) \<Longrightarrow> keeps P (except_exception m h)"
  unfolding except_exception_def by (intro keeps_rules)

lemma keeps_except_wire [keeps_rules]: "keeps P m \<Longrightarrow> (\<And>e. keeps P (h e)) \<Longrightarrow> keeps P (except_wire m h)"
  unfolding except_wire_def by (rule keeps_catch) (auto split: exn.split intro: keeps_rules)

text \<open>The progress of a run: what was sent, the memory of the issuer, and a database that other
  operations of the store lead to.\<close>

definition progress :: "(string \<Rightarrow> string) \<Rightarrow> DexState \<Rightarrow> identity list \<Rightarrow> DexState \<Rightarrow> bool" where
  "progress sha s0 t s \<longleftrightarrow> dx_sent s = t \<and> dx_records s = dx_records s0 \<and> exec_steps sha (dx_db s0) (dx_db s)"

lemma progress_refl: "progress sha s (dx_sent s) s"
  by (simp add: progress_def exec_steps_def)

lemma progress_trans: "progress sha s0 t0 s1 \<Longrightarrow> progress sha s1 t s \<Longrightarrow> progress sha s0 t s"
  unfolding progress_def exec_steps_def by auto

definition store_op :: "(string \<Rightarrow> string) \<Rightarrow> (ExecDb, 'a) action \<Rightarrow> bool" where
  "store_op sha m \<longleftrightarrow> (\<forall>db r db'. m db = (r, db') \<longrightarrow> exec_steps sha db db')"

lemma store_call_cases:
  assumes "store_call m s = (r, s')"
  shows "\<exists>db'. dx_db s' = db' \<and> dx_sent s' = dx_sent s \<and> dx_records s' = dx_records s \<and> dx_fenced s' = dx_fenced s
    \<and> (db' = dx_db s \<or> db' = snd (m (dx_db s))) \<and> (\<forall>x. r = Inr x \<longrightarrow> m (dx_db s) = (Inr x, db'))"
  using assms by (auto simp: store_call_def Let_def split: StoreFault.splits prod.splits)

lemma keeps_store_call:
  assumes "store_op sha m"
  shows "keeps (progress sha s0 t) (store_call m)"
proof -
  have "progress sha s0 t s'" if p: "progress sha s0 t s" and c: "store_call m s = (r, s')" for s r s'
  proof -
    have "exec_steps sha (dx_db s) (snd (m (dx_db s)))" using assms unfolding store_op_def by (metis prod.collapse)
    moreover have "exec_steps sha (dx_db s) (dx_db s)" by (simp add: exec_steps_def)
    ultimately have "exec_steps sha (dx_db s) (dx_db s')" using store_call_cases[OF c] by auto
    then show ?thesis using p store_call_cases[OF c] unfolding progress_def exec_steps_def by auto
  qed
  then show ?thesis unfolding keeps_def triple_def by (auto split: sum.split)
qed

lemma store_ops:
  "store_op sha (read_of f)" "store_op sha (record_admission_decision d)" "store_op sha (reserve_dispatch_fence e a dg)"
  "store_op sha (transition_dispatch_fence e a ns rs)"
  unfolding store_op_def exec_steps_def by (auto simp: read_of_def intro: exec_step.intros)

lemma store_op_receipt: "DurableExecutionReceipt_post_init sha rc = Inr rc \<Longrightarrow> store_op sha (record_receipt sha eid now rc)"
  unfolding store_op_def exec_steps_def by (auto intro: x_receipt)

lemma keeps_fence_identity [keeps_rules]: "keeps (progress sha s0 t) (fence_identity b)"
  by (auto simp: keeps_def triple_def fence_identity_def progress_def)

lemma keeps_read [keeps_rules]: "keeps (progress sha s0 t) (store_call (read_of f))"
  by (rule keeps_store_call) (rule store_ops)

lemma keeps_probe [keeps_rules]: "keeps (progress sha s0 t) (probe_execution_record b)"
  unfolding probe_execution_record_def by (intro keeps_rules) (auto split: exn.split intro: keeps_rules)

lemma keeps_find_receipt [keeps_rules]: "keeps (progress sha s0 t) (find_receipt_contained b)"
  unfolding find_receipt_contained_def by (intro keeps_rules)

lemma keeps_fence_mark [keeps_rules]: "keeps (progress sha s0 t) (fence_mark b st reason)"
  unfolding fence_mark_def
  by (intro keeps_rules keeps_store_call store_ops) (auto split: exn.split intro: keeps_rules)

lemma keeps_retire [keeps_rules]: "keeps (progress sha s0 t) (fence_retire_best_effort b reason)"
  unfolding fence_retire_best_effort_def by (intro keeps_rules)

lemma keeps_fence_both [keeps_rules]: "keeps (progress sha s0 t) (fence_both b reason)"
  unfolding fence_both_def by (intro keeps_rules)

lemma keeps_collect [keeps_rules]: "keeps (progress sha s0 t) (collect_attempt b reply)"
  unfolding collect_attempt_def transport_collect_def by (intro keeps_rules)

lemma keeps_find_identical [keeps_rules]: "keeps (progress sha s0 t) (find_identical_receipt sha r)"
  unfolding find_identical_receipt_def by (intro keeps_rules)

lemma keeps_store_receipt:
  "DurableExecutionReceipt_post_init sha rc = Inr rc \<Longrightarrow> keeps (progress sha s0 t) (store_receipt sha b call rc)"
  unfolding store_receipt_def
  by (intro keeps_rules keeps_store_call store_op_receipt) (auto split: exn.split intro: keeps_rules)

lemma new_receipt_post_init:
  assumes "new_execution_receipt sha r = Inr rc"
  shows "DurableExecutionReceipt_post_init sha rc = Inr rc"
proof -
  from assms obtain i where "DurableExecutionReceipt_post_init sha (r\<lparr>rc_receipt_id := i, rc_recorded_at := None\<rparr>) = Inr rc"
    by (auto simp: new_execution_receipt_def)
  then show ?thesis using receipt_post_init_same by metis
qed

lemma keeps_attempt_collect: "keeps (progress sha s0 t) (attempt_collect sha loads b adm call)"
proof -
  define last_part where "last_part ev = andthen (lift_res (evidence_receipt sha ev)) (store_receipt sha b call)" for ev
  have [keeps_rules]: "keeps (progress sha s0 t) (last_part ev)" for ev
  proof (cases "evidence_receipt sha ev")
    case (Inl e)
    then show ?thesis by (simp add: last_part_def keeps_def triple_def andthen_def lift_res_def)
  next
    case (Inr rc)
    have "andthen (lift_res (Inr rc)) k = k rc" for k :: "_ \<Rightarrow> (DexState, 'z) action"
      by (rule ext) (simp add: andthen_def lift_res_def)
    then have "last_part ev = store_receipt sha b call rc" using Inr by (simp add: last_part_def)
    then show ?thesis using Inr keeps_store_receipt new_receipt_post_init unfolding evidence_receipt_def by metis
  qed
  show ?thesis unfolding attempt_collect_def last_part_def[symmetric] by (intro keeps_rules)
qed

section \<open>At most one dispatch\<close>

lemma andthen_Inr:
  assumes "andthen m k s = (Inr x, s')"
  shows "\<exists>y s1. m s = (Inr y, s1) \<and> k y s1 = (Inr x, s')"
  using assms by (auto simp: andthen_def split: prod.splits sum.splits)

lemma triple_keeps: "keeps Q m \<Longrightarrow> (\<And>s. P s \<Longrightarrow> Q s) \<Longrightarrow> triple P m (\<lambda>_. Q) (\<lambda>_. Q)"
  unfolding keeps_def by (rule triple_conseq)

lemma dispatch_once_sends:
  "triple (progress sha s0 t) (dispatch_once b reply) (\<lambda>_. progress sha s0 (bi_identity b # t)) (\<lambda>_. progress sha s0 (bi_identity b # t))"
proof -
  let ?P = "progress sha s0 (bi_identity b # t)"
  have send: "triple (progress sha s0 t) (transport_dispatch b reply) (\<lambda>_. ?P) (\<lambda>_. ?P)"
    by (auto simp: triple_def transport_dispatch_def progress_def split: sum.split)
  have first: "triple (progress sha s0 t) (except_exception (andthen (transport_dispatch b reply) (\<lambda>r. ret (Inr r))) h) (\<lambda>_. ?P) (\<lambda>_. ?P)"
    if "\<And>e. keeps ?P (h e)" for h :: "exn \<Rightarrow> (DexState, WireOutcome + string option \<times> string) action"
    unfolding except_exception_def
    by (rule triple_catch[OF triple_andthen[OF send]]) (use that in \<open>auto simp: keeps_def intro!: triple_rules\<close>)
  show ?thesis unfolding dispatch_once_def
  proof (rule triple_catch[where R = "\<lambda>_. ?P"], rule triple_andthen[where R = "\<lambda>_. ?P"], rule first, goal_cases)
    case (1 e)
    show ?case by (intro keeps_rules)
  next
    case (2 x)
    show ?case unfolding keeps_def[symmetric] by (intro keeps_rules)
  next
    case (3 e)
    show ?case unfolding keeps_def[symmetric] by (cases e) (auto intro: keeps_rules)
  qed
qed

lemma attempt_dispatch_sends:
  "triple (progress sha s0 t) (attempt_dispatch sha loads b adm call)
     (\<lambda>_. progress sha s0 (bi_identity b # t)) (\<lambda>_. progress sha s0 (bi_identity b # t))"
  unfolding attempt_dispatch_def
  by (rule triple_andthen[OF dispatch_once_sends], unfold keeps_def[symmetric], intro keeps_rules keeps_attempt_collect)

lemma reserve_True:
  assumes "reserve_durable_fence b adm s = (Inr c, s')" and "c"
  shows "select_fence (bi_execution_id b) (bi_attempt_id b) (dx_db s) = None
    \<and> select_fence (bi_execution_id b) (bi_attempt_id b) (dx_db s') \<noteq> None"
proof -
  let ?m = "store_call (reserve_dispatch_fence (bi_execution_id b) (bi_attempt_id b) (ar_binding_digest adm))"
  from assms(1) obtain x where m: "?m s = (Inr x, s')" and x: "snd x = c"
    unfolding reserve_durable_fence_def except_exception_def catch_def andthen_def throw_def ret_def
    by (auto split: prod.splits sum.splits if_splits exn.splits)
  from store_call_cases[OF m] have
    r: "reserve_dispatch_fence (bi_execution_id b) (bi_attempt_id b) (ar_binding_digest adm) (dx_db s) = (Inr x, dx_db s')" by auto
  from reserve_fence_cases[OF r] x assms(2) show ?thesis
    by (auto simp: select_fence_def fetchone_None simp del: not_None_eq)
qed

lemma keeps_reserve [keeps_rules]: "keeps (progress sha s0 t) (reserve_durable_fence b adm)"
  unfolding reserve_durable_fence_def
  by (intro keeps_rules keeps_store_call store_ops) (auto split: exn.split intro: keeps_rules)

definition fence_taken :: "identity \<Rightarrow> ExecDb \<Rightarrow> bool" where
  "fence_taken k db = (select_fence (fst k) (snd k) db \<noteq> None)"

lemma fence_taken_kept: "exec_steps sha db db' \<Longrightarrow> fence_taken k db \<Longrightarrow> fence_taken k db'"
  using exec_steps_ledger[of sha db db'] unfolding fence_taken_def ledger_grows_def fence_kept_def
  by (metis not_None_eq option.distinct(1))

definition sends_at_most :: "identity \<Rightarrow> DexState \<Rightarrow> DexState \<Rightarrow> bool" where
  "sends_at_most k s s' \<longleftrightarrow> dx_sent s' = dx_sent s
     \<or> dx_sent s' = k # dx_sent s \<and> \<not> fence_taken k (dx_db s) \<and> fence_taken k (dx_db s')"

lemma progress_quiet: "progress sha s (dx_sent s) s' \<Longrightarrow> progress sha s (dx_sent s') s' \<and> sends_at_most k s s'"
  by (simp add: progress_def sends_at_most_def)

lemma bi_identity_sel [simp]: "fst (bi_identity b) = bi_execution_id b" "snd (bi_identity b) = bi_attempt_id b"
  by (simp_all add: bi_identity_def)

definition locked_post :: "(string \<Rightarrow> string) \<Rightarrow> identity \<Rightarrow> DexState \<Rightarrow> DexState \<Rightarrow> bool" where
  "locked_post sha k s0 s \<longleftrightarrow> progress sha s0 (dx_sent s) s \<and> sends_at_most k s0 s"

lemma locked_quiet: "progress sha s0 (dx_sent s0) s \<Longrightarrow> locked_post sha k s0 s"
  using progress_quiet unfolding locked_post_def .

lemma quiet_triple:
  assumes "keeps (progress sha s0 (dx_sent s0)) m"
  shows "triple (progress sha s0 (dx_sent s0)) m (\<lambda>_. progress sha s0 (dx_sent s0)) (\<lambda>_. locked_post sha k s0)"
    and "triple (progress sha s0 (dx_sent s0)) m (\<lambda>_. locked_post sha k s0) (\<lambda>_. locked_post sha k s0)"
  using assms unfolding keeps_def by (auto elim!: triple_conseq intro: locked_quiet)

lemma reserve_triple:
  "triple (progress sha s0 (dx_sent s0)) (reserve_durable_fence b adm)
     (\<lambda>c s. progress sha s0 (dx_sent s0) s \<and> (c \<longrightarrow> \<not> fence_taken (bi_identity b) (dx_db s0) \<and> fence_taken (bi_identity b) (dx_db s)))
     (\<lambda>_. locked_post sha (bi_identity b) s0)"
proof (rule tripleI)
  fix s e s'
  assume "progress sha s0 (dx_sent s0) s" "reserve_durable_fence b adm s = (Inl e, s')"
  then show "locked_post sha (bi_identity b) s0 s'" using dex_keepsD[OF keeps_reserve] locked_quiet by blast
next
  fix s c s'
  assume p: "progress sha s0 (dx_sent s0) s" and r: "reserve_durable_fence b adm s = (Inr c, s')"
  have "\<not> fence_taken (bi_identity b) (dx_db s0) \<and> fence_taken (bi_identity b) (dx_db s')" if "c"
  proof -
    have "\<not> fence_taken (bi_identity b) (dx_db s)" "fence_taken (bi_identity b) (dx_db s')"
      using reserve_True[OF r that] by (simp_all add: fence_taken_def)
    then show ?thesis using p fence_taken_kept unfolding progress_def by blast
  qed
  then show "progress sha s0 (dx_sent s0) s'
      \<and> (c \<longrightarrow> \<not> fence_taken (bi_identity b) (dx_db s0) \<and> fence_taken (bi_identity b) (dx_db s'))"
    using dex_keepsD[OF keeps_reserve p r] by blast
qed

lemma attempt_dispatch_triple:
  "triple (\<lambda>s. progress sha s0 (dx_sent s0) s \<and> \<not> fence_taken (bi_identity b) (dx_db s0) \<and> fence_taken (bi_identity b) (dx_db s))
     (attempt_dispatch sha loads b adm call) (\<lambda>_. locked_post sha (bi_identity b) s0) (\<lambda>_. locked_post sha (bi_identity b) s0)"
proof -
  have "locked_post sha (bi_identity b) s0 s'"
    if p: "progress sha s0 (dx_sent s0) s" and n: "\<not> fence_taken (bi_identity b) (dx_db s0)" and t: "fence_taken (bi_identity b) (dx_db s)"
      and a: "attempt_dispatch sha loads b adm call s = (r, s')" for s r s'
  proof -
    have p': "progress sha s (bi_identity b # dx_sent s) s'"
      using tripleD[OF attempt_dispatch_sends progress_refl a] by (auto split: sum.splits)
    have "fence_taken (bi_identity b) (dx_db s')" using fence_taken_kept t p' unfolding progress_def by blast
    then show ?thesis using progress_trans[OF p p'] p p' n by (auto simp: locked_post_def progress_def sends_at_most_def)
  qed
  then show ?thesis unfolding triple_def by (auto split: sum.split)
qed

lemma attempt_locked_post: "attempt_locked sha loads b adm call s = (r, s') \<Longrightarrow> locked_post sha (bi_identity b) s s'"
proof -
  let ?P = "progress sha s (dx_sent s)" and ?Q = "locked_post sha (bi_identity b) s"
  define held where "held = (andthen (fence_identity b) (\<lambda>_.
      ret (wire_ambiguous b ''durable dispatch fence already holds this identity (observed on reserve)'')))"
  define after where "after c = (if \<not> c then held else attempt_dispatch sha loads b adm call)" for c
  have "keeps ?P held" unfolding held_def by (intro keeps_rules)
  then have held: "triple ?P held (\<lambda>_. ?Q) (\<lambda>_. ?Q)" by (rule quiet_triple(2))
  have after: "triple (\<lambda>s1. ?P s1 \<and> (c \<longrightarrow> \<not> fence_taken (bi_identity b) (dx_db s) \<and> fence_taken (bi_identity b) (dx_db s1)))
      (after c) (\<lambda>_. ?Q) (\<lambda>_. ?Q)" for c
    using held attempt_dispatch_triple by (cases c) (simp_all add: after_def)
  define rest where "rest ex = (case ex of
      Some i \<Rightarrow> ret (wire_outcome b (Some i) ''DUPLICATE_ALREADY_COMPLETED'' ''receipt already recorded for this identity'')
    | None \<Rightarrow> andthen (reserve_durable_fence b adm) after)" for ex
  have rest: "triple ?P (rest ex) (\<lambda>_. ?Q) (\<lambda>_. ?Q)" for ex
  proof (cases ex)
    case None
    then show ?thesis using triple_andthen[OF reserve_triple after] by (simp add: rest_def)
  next
    case (Some i)
    then show ?thesis using quiet_triple(2)[OF keeps_basic(1)] by (simp add: rest_def)
  qed
  have all: "triple ?P (andthen (probe_execution_record b) (\<lambda>_. andthen (find_receipt_contained b) rest)) (\<lambda>_. ?Q) (\<lambda>_. ?Q)"
    by (rule triple_andthen[OF quiet_triple(1)[OF keeps_probe] triple_andthen[OF quiet_triple(1)[OF keeps_find_receipt] rest]])
  assume a: "attempt_locked sha loads b adm call s = (r, s')"
  show "?Q s'"
  proof (cases "bi_identity b \<in> dx_fenced s")
    case True
    then show ?thesis using a locked_quiet[OF progress_refl] by (simp add: attempt_locked_def)
  next
    case False
    then have "andthen (probe_execution_record b) (\<lambda>_. andthen (find_receipt_contained b) rest) s = (r, s')"
      using a unfolding attempt_locked_def rest_def after_def held_def by (simp only: if_False)
    from tripleD[OF all progress_refl this] show ?thesis by (cases r) simp_all
  qed
qed

section \<open>Decisions are frozen\<close>

definition cache_ok :: "bool \<Rightarrow> DexState \<Rightarrow> bool" where
  "cache_ok journal s \<longleftrightarrow> (journal \<longrightarrow> (\<forall>k r. dx_records s k = Some r \<longrightarrow>
     select_decision (fst k) (snd k) (dx_db s) = Some (record_decision r)))"

definition deciding :: "(string \<Rightarrow> string) \<Rightarrow> bool \<Rightarrow> DexState \<Rightarrow> DexState \<Rightarrow> bool" where
  "deciding sha journal s0 s \<longleftrightarrow> dx_sent s = dx_sent s0 \<and> exec_steps sha (dx_db s0) (dx_db s) \<and> cache_ok journal s"

definition decided :: "bool \<Rightarrow> identity \<Rightarrow> AdmissionRecord \<Rightarrow> DexState \<Rightarrow> bool" where
  "decided journal k r s \<longleftrightarrow> (journal \<longrightarrow> select_decision (fst k) (snd k) (dx_db s) = Some (record_decision r))"

lemma record_decision_inverse [simp]: "record_decision (decision_record d) = d" "decision_record (record_decision r) = r"
  by (simp_all add: record_decision_def decision_record_def)

lemma cache_ok_steps:
  assumes "cache_ok journal s" and "exec_steps sha (dx_db s) (dx_db s')" and "dx_records s' = dx_records s"
  shows "cache_ok journal s'"
  using assms decision_kept[OF exec_steps_ledger[OF assms(2)]] by (auto simp: cache_ok_def)

lemma keeps_deciding_call:
  assumes "store_op sha m"
  shows "keeps (deciding sha journal s0) (store_call m)"
proof -
  have "deciding sha journal s0 s'" if p: "deciding sha journal s0 s" and c: "store_call m s = (r, s')" for s r s'
  proof -
    have "progress sha s (dx_sent s) s'" using dex_keepsD[OF keeps_store_call[OF assms] progress_refl c] .
    then show ?thesis using p cache_ok_steps[of journal s sha s'] unfolding deciding_def progress_def exec_steps_def by auto
  qed
  then show ?thesis unfolding keeps_def triple_def by (auto split: sum.split)
qed

lemma AdmissionRecord_post_init_Inr: "AdmissionRecord_post_init r = Inr x \<Longrightarrow> x = r"
  by (auto simp: AdmissionRecord_post_init_def split: if_splits)

lemma load_decision_Inr: "load_admission_decision e a db = Inr (Some d) \<Longrightarrow> select_decision e a db = Some d"
  by (auto simp: load_admission_decision_def optional_of_def row_to_admission_decision_def split: option.splits if_splits)

lemma journal_load_triple:
  "triple (deciding sha journal s0) (journal_load_admission e a)
     (\<lambda>x s. deciding sha journal s0 s \<and> (\<forall>r. x = Some r \<longrightarrow> select_decision e a (dx_db s) = Some (record_decision r)))
     (\<lambda>_. deciding sha journal s0)"
proof -
  have load: "triple (deciding sha journal s0) (store_call (read_of (load_admission_decision e a)))
     (\<lambda>x s. deciding sha journal s0 s \<and> (\<forall>d. x = Some d \<longrightarrow> select_decision e a (dx_db s) = Some d)) (\<lambda>_. deciding sha journal s0)"
  proof (rule tripleI)
    fix s x s'
    assume p: "deciding sha journal s0 s" and c: "store_call (read_of (load_admission_decision e a)) s = (Inr x, s')"
    have "read_of (load_admission_decision e a) (dx_db s) = (Inr x, dx_db s')" using store_call_cases[OF c] by auto
    then have "x = Some d \<Longrightarrow> select_decision e a (dx_db s') = Some d" for d
      using load_decision_Inr by (auto simp: read_of_def)
    then show "deciding sha journal s0 s' \<and> (\<forall>d. x = Some d \<longrightarrow> select_decision e a (dx_db s') = Some d)"
      using dex_keepsD[OF keeps_deciding_call[OF store_ops(1)] p c] by blast
  qed (use dex_keepsD[OF keeps_deciding_call[OF store_ops(1)]] in blast)
  show ?thesis unfolding journal_load_admission_def
  proof (rule triple_andthen[OF load])
    fix x :: "AdmissionDecisionRow option"
    show "triple (\<lambda>s. deciding sha journal s0 s \<and> (\<forall>d. x = Some d \<longrightarrow> select_decision e a (dx_db s) = Some d))
        (case x of None \<Rightarrow> ret None
         | Some d \<Rightarrow> andthen (lift_res (AdmissionRecord_post_init (decision_record d))) (\<lambda>r. ret (Some r)))
        (\<lambda>x s. deciding sha journal s0 s \<and> (\<forall>r. x = Some r \<longrightarrow> select_decision e a (dx_db s) = Some (record_decision r)))
        (\<lambda>_. deciding sha journal s0)"
      by (cases x) (auto simp: triple_def ret_def andthen_def lift_res_def dest: AdmissionRecord_post_init_Inr split: sum.split)
  qed
qed

lemma cache_record_triple:
  "triple (\<lambda>s. deciding sha journal s0 s \<and> decided journal k r s) (cache_record k r)
     (\<lambda>_ s. deciding sha journal s0 s \<and> decided journal k r s) E"
  by (auto simp: triple_def cache_record_def deciding_def decided_def cache_ok_def)

lemma triple_at: "triple P m Q E \<Longrightarrow> P s \<Longrightarrow> n s = m s \<Longrightarrow> triple (\<lambda>s'. s' = s) n Q E"
  by (simp add: triple_def)

lemma find_decision_triple:
  "triple (deciding sha journal s0) (find_decision journal k)
     (\<lambda>x s. deciding sha journal s0 s \<and> (\<forall>r. x = Some r \<longrightarrow> decided journal k r s)) (\<lambda>_. deciding sha journal s0)"
proof (rule triple_pre)
  fix s
  assume p: "deciding sha journal s0 s"
  show "triple (\<lambda>s'. s' = s) (find_decision journal k)
     (\<lambda>x s. deciding sha journal s0 s \<and> (\<forall>r. x = Some r \<longrightarrow> decided journal k r s)) (\<lambda>_. deciding sha journal s0)"
  proof (cases "dx_records s k")
    case (Some r)
    then show ?thesis using p by (auto simp: triple_def find_decision_def decided_def deciding_def cache_ok_def)
  next
    case None
    define step where "step x = (case x of None \<Rightarrow> ret None | Some y \<Rightarrow> andthen (cache_record k y) (\<lambda>_. ret (Some y)))" for x
    have step: "triple (\<lambda>s. deciding sha journal s0 s
          \<and> (\<forall>r. x = Some r \<longrightarrow> select_decision (fst k) (snd k) (dx_db s) = Some (record_decision r))) (step x)
        (\<lambda>x s. deciding sha journal s0 s \<and> (\<forall>r. x = Some r \<longrightarrow> decided journal k r s)) (\<lambda>_. deciding sha journal s0)" for x
    proof (cases x)
      case None
      then show ?thesis by (auto simp: step_def triple_def ret_def)
    next
      case (Some y)
      have "triple (\<lambda>s. deciding sha journal s0 s \<and> decided journal k y s) (andthen (cache_record k y) (\<lambda>_. ret (Some y)))
          (\<lambda>x s. deciding sha journal s0 s \<and> (\<forall>r. x = Some r \<longrightarrow> decided journal k r s)) (\<lambda>_. deciding sha journal s0)"
        by (rule triple_andthen[OF cache_record_triple]) (auto intro: triple_rules)
      then show ?thesis unfolding Some step_def option.case
        by (rule triple_conseq) (auto simp: decided_def)
    qed
    have "triple (deciding sha journal s0) (andthen (journal_load_admission (fst k) (snd k)) step)
        (\<lambda>x s. deciding sha journal s0 s \<and> (\<forall>r. x = Some r \<longrightarrow> decided journal k r s)) (\<lambda>_. deciding sha journal s0)"
      by (rule triple_andthen[OF journal_load_triple step])
    moreover have "find_decision journal k s = (if \<not> journal then (Inr None, s) else andthen (journal_load_admission (fst k) (snd k)) step s)"
      using None by (simp add: find_decision_def step_def[abs_def])
    ultimately show ?thesis using p triple_at by (cases journal) (auto simp: triple_def)
  qed
qed

section \<open>Deciding an attempt\<close>

lemma decide_fresh_Inr:
  assumes "decide_fresh b cv digest = Inr r"
  shows "ar_execution_id r = bi_execution_id b \<and> ar_attempt_id r = bi_attempt_id b \<and> ar_binding_digest r = digest
    \<and> ar_claim_ref r = bi_claim_ref b \<and> ar_claim_generation r = cv_claim_generation cv
    \<and> (ar_admitted r \<longrightarrow> cv_live cv \<and> cv_claim_ref cv = bi_claim_ref b \<and> cv_claim_generation cv = bi_claim_generation b)"
  using assms
  by (auto simp: decide_fresh_def admission_denial_def dest!: AdmissionRecord_post_init_Inr split: if_splits)

lemma journal_record_triple:
  assumes "ar_execution_id r = fst k" and "ar_attempt_id r = snd k"
  shows "triple (deciding sha journal s0) (if journal then journal_record_admission r else ret ())
     (\<lambda>_ s. deciding sha journal s0 s \<and> decided journal k r s) (\<lambda>_. deciding sha journal s0)"
proof (cases journal)
  case True
  have key: "ad_execution_id (record_decision r) = fst k" "ad_attempt_id (record_decision r) = snd k"
    using assms by (simp_all add: record_decision_def)
  have new: "select_decision (fst k) (snd k) (db\<lparr>xd_decisions := xd_decisions db @ [record_decision r]\<rparr>) = Some (record_decision r)"
    if "select_decision (fst k) (snd k) db = None" for db
    using that by (simp add: select_decision_def fetchone_append_None) (simp add: fetchone_def key)
  have "triple (deciding sha journal s0) (store_call (record_admission_decision (record_decision r)))
     (\<lambda>_ s. deciding sha journal s0 s \<and> decided journal k r s) (\<lambda>_. deciding sha journal s0)"
  proof (rule tripleI)
    fix s u s'
    assume p: "deciding sha journal s0 s" and c: "store_call (record_admission_decision (record_decision r)) s = (Inr u, s')"
    have m: "record_admission_decision (record_decision r) (dx_db s) = (Inr u, dx_db s')" using store_call_cases[OF c] by auto
    have "select_decision (fst k) (snd k) (dx_db s') = Some (record_decision r)"
      using record_decision_cases[OF m] new unfolding key by auto
    then show "deciding sha journal s0 s' \<and> decided journal k r s'"
      using dex_keepsD[OF keeps_deciding_call[OF store_ops(2)] p c] by (simp add: decided_def)
  qed (use dex_keepsD[OF keeps_deciding_call[OF store_ops(2)]] in blast)
  then show ?thesis using True by (simp add: journal_record_admission_def)
next
  case False
  then show ?thesis by (auto simp: triple_def ret_def decided_def)
qed

definition admitted_for :: "(string \<Rightarrow> string) \<Rightarrow> DexBindingIdentity \<Rightarrow> ClaimView \<Rightarrow> AdmissionRecord \<Rightarrow> bool" where
  "admitted_for sha b cv r \<longleftrightarrow> ar_admitted r \<and> ar_binding_digest r = binding_digest sha b
     \<and> ar_claim_ref r = bi_claim_ref b \<and> ar_claim_generation r = cv_claim_generation cv"

lemma decide_triple:
  "triple (deciding sha journal s0) (decide sha journal b cv)
     (\<lambda>r s. deciding sha journal s0 s \<and> decided journal (bi_identity b) r s \<and> admitted_for sha b cv r)
     (\<lambda>_. deciding sha journal s0)"
proof -
  let ?k = "bi_identity b" and ?d = "binding_digest sha b"
  let ?Q = "\<lambda>r s. deciding sha journal s0 s \<and> decided journal ?k r s \<and> admitted_for sha b cv r"
  let ?E = "\<lambda>_. deciding sha journal s0"
  define finish :: "AdmissionRecord \<Rightarrow> (DexState, AdmissionRecord) action"
    where "finish r = (if \<not> ar_admitted r then throw (denial_of r []) else ret r)" for r
  define settle where "settle r = andthen (if journal then journal_record_admission r else ret ()) (\<lambda>_. andthen (cache_record ?k r) (\<lambda>_. finish r))" for r
  have settle: "triple (deciding sha journal s0) (settle r) ?Q ?E" if r: "decide_fresh b cv ?d = Inr r" for r
  proof -
    have ids: "ar_execution_id r = fst ?k" "ar_attempt_id r = snd ?k" using decide_fresh_Inr[OF r] by simp_all
    have "triple (\<lambda>s. deciding sha journal s0 s \<and> decided journal ?k r s) (finish r) ?Q ?E"
      unfolding finish_def using decide_fresh_Inr[OF r] by (auto simp: admitted_for_def intro!: triple_rules)
    then show ?thesis unfolding settle_def
      by (intro triple_andthen[OF journal_record_triple[OF ids]] triple_andthen[OF cache_record_triple])
  qed
  define rest where "rest x = (case x of Some r \<Rightarrow> lift_res (replay r b cv ?d)
      | None \<Rightarrow> andthen (lift_res (decide_fresh b cv ?d)) settle)" for x
  have rest: "triple (\<lambda>s. deciding sha journal s0 s \<and> (\<forall>r. x = Some r \<longrightarrow> decided journal ?k r s)) (rest x) ?Q ?E" for x
  proof (cases x)
    case None
    have "triple (deciding sha journal s0) (andthen (lift_res (decide_fresh b cv ?d)) settle) ?Q ?E"
    proof (cases "decide_fresh b cv ?d")
      case (Inr r)
      then show ?thesis using settle[OF Inr] by (simp add: triple_def andthen_def lift_res_def)
    qed (simp add: triple_def andthen_def lift_res_def)
    then show ?thesis using None by (simp add: rest_def)
  next
    case (Some r)
    have "replay r b cv ?d = Inr x \<Longrightarrow> x = r \<and> admitted_for sha b cv r" for x
      by (auto simp: replay_def admitted_for_def split: if_splits)
    then show ?thesis using Some by (auto simp: rest_def triple_def lift_res_def split: sum.split)
  qed
  have "decide sha journal b cv = andthen (find_decision journal ?k) rest"
    unfolding decide_def Let_def rest_def[abs_def] settle_def[abs_def] finish_def bi_identity_def ..
  then show ?thesis using triple_andthen[OF find_decision_triple rest] by metis
qed

section \<open>Histories\<close>

lemma run_attempt_cases:
  assumes "run_attempt sha loads journal b cv call s = (r, s')"
  shows "(\<exists>e. decide sha journal b cv s = (Inl e, s')
        \<and> r = (case e of ProcessDeath \<Rightarrow> Inl e | AdmissionDeniedErr t \<Rightarrow> Inr (wire_denied b t) | _ \<Rightarrow> Inl (WireErr WIRE_STATE_UNAVAILABLE)))
    \<or> (\<exists>adm s1. decide sha journal b cv s = (Inr adm, s1) \<and> attempt_locked sha loads b adm call s1 = (r, s'))"
proof -
  obtain x s1 where d: "decide sha journal b cv s = (x, s1)" by fastforce
  show ?thesis
  proof (cases x)
    case (Inl e)
    then show ?thesis using assms d
      by (cases e) (auto simp: run_attempt_def andthen_def catch_def throw_def ret_def)
  next
    case (Inr adm)
    then show ?thesis using assms d by (auto simp: run_attempt_def andthen_def catch_def ret_def)
  qed
qed

lemma run_attempt_post:
  assumes c: "cache_ok journal s" and r: "run_attempt sha loads journal b cv call s = (r, s')"
  shows "cache_ok journal s' \<and> exec_steps sha (dx_db s) (dx_db s') \<and> sends_at_most (bi_identity b) s s'
    \<and> (dx_sent s' \<noteq> dx_sent s \<longrightarrow> (\<exists>adm. decided journal (bi_identity b) adm s' \<and> admitted_for sha b cv adm))"
proof -
  have pre: "deciding sha journal s s" using c by (simp add: deciding_def exec_steps_def)
  from run_attempt_cases[OF r] show ?thesis
  proof (elim disjE exE conjE)
    fix e
    assume "decide sha journal b cv s = (Inl e, s')"
    from tripleD[OF decide_triple pre this] show ?thesis by (simp add: deciding_def sends_at_most_def)
  next
    fix adm s1
    assume d: "decide sha journal b cv s = (Inr adm, s1)" and a: "attempt_locked sha loads b adm call s1 = (r, s')"
    from tripleD[OF decide_triple pre d] have d1: "dx_sent s1 = dx_sent s" "exec_steps sha (dx_db s) (dx_db s1)" "cache_ok journal s1"
      "decided journal (bi_identity b) adm s1" "admitted_for sha b cv adm" by (simp_all add: deciding_def)
    from attempt_locked_post[OF a] have p: "exec_steps sha (dx_db s1) (dx_db s')" "dx_records s' = dx_records s1"
      "sends_at_most (bi_identity b) s1 s'" by (simp_all add: locked_post_def progress_def)
    have "cache_ok journal s'" by (rule cache_ok_steps[OF d1(3) p(1,2)])
    moreover have "exec_steps sha (dx_db s) (dx_db s')" using d1(2) p(1) unfolding exec_steps_def by auto
    moreover have "sends_at_most (bi_identity b) s s'"
      using p(3) d1(1) fence_taken_kept[OF d1(2)] unfolding sends_at_most_def by metis
    moreover have "decided journal (bi_identity b) adm s'"
      using d1(4) decision_kept[OF exec_steps_ledger[OF p(1)]] by (auto simp: decided_def)
    ultimately show ?thesis using d1(5) by blast
  qed
qed

definition dex_ok :: "(string \<Rightarrow> string) \<Rightarrow> bool \<Rightarrow> DexState \<Rightarrow> bool" where
  "dex_ok sha journal s \<longleftrightarrow> distinct (dx_sent s) \<and> (\<forall>k \<in> set (dx_sent s). fence_taken k (dx_db s)) \<and> cache_ok journal s
     \<and> (journal \<longrightarrow> (\<forall>k \<in> set (dx_sent s). \<exists>d. select_decision (fst k) (snd k) (dx_db s) = Some d \<and> ad_admitted d))"

lemma dex_ok_steps:
  assumes "dex_ok sha journal s" and "exec_steps sha (dx_db s) (dx_db s')" and "dx_sent s' = dx_sent s" and "cache_ok journal s'"
  shows "dex_ok sha journal s'"
  using assms fence_taken_kept[OF assms(2)] decision_kept[OF exec_steps_ledger[OF assms(2)]]
  unfolding dex_ok_def by metis

lemma dex_ok_sent:
  assumes ok: "dex_ok sha journal s" and st: "exec_steps sha (dx_db s) (dx_db s')" and c: "cache_ok journal s'"
    and sent: "dx_sent s' = k # dx_sent s" "\<not> fence_taken k (dx_db s)" "fence_taken k (dx_db s')"
    and adm: "decided journal k adm s'" "ar_admitted adm"
  shows "dex_ok sha journal s'"
proof -
  have "k \<notin> set (dx_sent s)" using ok sent(2) unfolding dex_ok_def by blast
  moreover have "\<forall>k' \<in> set (dx_sent s). fence_taken k' (dx_db s')" using ok fence_taken_kept[OF st] unfolding dex_ok_def by blast
  moreover have "journal \<Longrightarrow> \<forall>k' \<in> set (dx_sent s). \<exists>d. select_decision (fst k') (snd k') (dx_db s') = Some d \<and> ad_admitted d"
    using ok decision_kept[OF exec_steps_ledger[OF st]] unfolding dex_ok_def by blast
  moreover have "journal \<Longrightarrow> \<exists>d. select_decision (fst k) (snd k) (dx_db s') = Some d \<and> ad_admitted d"
    using adm by (simp add: decided_def record_decision_def)
  ultimately show ?thesis using ok sent c by (simp add: dex_ok_def)
qed

lemma dex_step_ok:
  assumes "dex_step sha loads journal s s'" and ok: "dex_ok sha journal s"
  shows "dex_ok sha journal s' \<and> exec_steps sha (dx_db s) (dx_db s')"
  using assms(1)
proof cases
  case (d_run b cv call r)
  have "cache_ok journal s" using ok by (simp add: dex_ok_def)
  note post = run_attempt_post[OF this d_run]
  show ?thesis
  proof (cases "dx_sent s' = dx_sent s")
    case True
    then show ?thesis using post dex_ok_steps[OF ok] by blast
  next
    case False
    then show ?thesis using post dex_ok_sent[OF ok] unfolding sends_at_most_def admitted_for_def by metis
  qed
next
  case d_restart
  then show ?thesis using ok by (simp add: dex_ok_def cache_ok_def exec_steps_def)
next
  case (d_other db')
  then have st: "exec_steps sha (dx_db s) (dx_db s')" unfolding exec_steps_def by auto
  have "cache_ok journal s'" using ok st d_other(1) by (auto simp: dex_ok_def intro: cache_ok_steps)
  then show ?thesis using dex_ok_steps[OF ok st] st d_other(1) by simp
next
  case (d_faults fs)
  then show ?thesis using ok by (simp add: dex_ok_def cache_ok_def exec_steps_def)
qed

lemma dex_steps_ok:
  assumes "dex_steps sha loads journal s s'" and "dex_ok sha journal s"
  shows "dex_ok sha journal s' \<and> exec_steps sha (dx_db s) (dx_db s')"
  using assms unfolding dex_steps_def
proof (induction rule: rtranclp_induct)
  case base
  then show ?case by (simp add: exec_steps_def)
next
  case (step y z)
  then show ?case using dex_step_ok[of sha loads journal y z] unfolding exec_steps_def by auto
qed

lemma dex_initial_ok: "dex_ok sha journal dex_initial"
  by (simp add: dex_ok_def dex_initial_def cache_ok_def)

lemma dex_reachable_ok: "dex_reachable sha loads journal s \<Longrightarrow> dex_ok sha journal s"
  using dex_steps_ok dex_initial_ok by blast

end
