(* ===== verification/Dex_Guarantees.thy ===== *)
theory Dex_Guarantees
  imports Dex_Properties
begin

text \<open>
  The guarantees of the dispatch wire, with witnesses: at most one dispatch, frozen decisions,
  receipts of completed attempts, the evidence that is accepted, and the attempts of claim
  generation 0.
\<close>

section \<open>Completed attempts\<close>

lemma triple_True: "triple P m (\<lambda>_ _. True) (\<lambda>_ _. True)"
  by (simp add: triple_def split: sum.split)

lemma status_outcome [simp]:
  "wo_status (wire_outcome b i st d) = st" "wo_status (wire_ambiguous b d) = ''AMBIGUOUS''" "wo_status (wire_denied b d) = ''DENIED''"
  by (simp_all add: wire_outcome_def wire_ambiguous_def wire_denied_def)

definition not_completed :: "WireOutcome \<Rightarrow> bool" where
  "not_completed out \<longleftrightarrow> wo_status out \<noteq> ''COMPLETED''"

lemma dispatch_once_outcome:
  "triple P (dispatch_once b reply) (\<lambda>x _. \<forall>out. x = Some out \<longrightarrow> not_completed out) (\<lambda>_ _. True)"
proof -
  let ?Q = "\<lambda>x _. \<forall>out. x = Some out \<longrightarrow> not_completed out"
  let ?R = "\<lambda>x _. \<forall>out. x = Inl out \<longrightarrow> not_completed out"
  have amb: "triple P' (andthen (fence_both b u) (\<lambda>_. ret (Some (wire_ambiguous b v)))) ?Q (\<lambda>_ _. True)" for P' u v
    by (rule triple_andthen[OF triple_True]) (auto simp: not_completed_def intro: triple_rules)
  have first: "triple P (except_exception (andthen (transport_dispatch b reply) (\<lambda>r. ret (Inr r)))
      (\<lambda>e. andthen (fence_both b (u e)) (\<lambda>_. ret (Inl (wire_ambiguous b (v e)))))) ?R (\<lambda>_ _. True)" for u v
    unfolding except_exception_def
  proof (rule triple_catch[where R = "\<lambda>_ _. True"], goal_cases)
    case 1
    show ?case by (rule triple_andthen[OF triple_True]) (auto intro: triple_rules)
  next
    case (2 e)
    show ?case by (auto simp: not_completed_def intro!: triple_rules triple_andthen[OF triple_True])
  qed
  show ?thesis unfolding dispatch_once_def
  proof (rule triple_catch[where R = "\<lambda>_ _. True"], rule triple_andthen[where R = ?R], rule first, goal_cases)
    case (1 x)
    show ?case
    proof (cases x)
      case (Inl out)
      then show ?thesis by (auto intro: triple_rules)
    next
      case (Inr y)
      have "triple P' (andthen m (\<lambda>_. ret None)) ?Q (\<lambda>_ _. True)" for P' and m :: "(DexState, unit) action"
        by (rule triple_andthen[OF triple_True]) (auto intro: triple_rules)
      then show ?thesis using Inr by (auto intro!: triple_rules amb split: prod.split)
    qed
  next
    case (2 e)
    show ?case using amb by (cases e) (auto intro: triple_rules)
  qed
qed

text \<open>The receipt that \<^verbatim>\<open>record_receipt\<close> returns reads under the id it was recorded with.\<close>

lemma row_to_receipt_id: "row_to_receipt sha w = Inr rc \<Longrightarrow> rc_receipt_id rc = rw_receipt_id w \<and> lower_hex 64 (rw_receipt_id w)"
proof -
  assume a: "row_to_receipt sha w = Inr rc"
  from a obtain r where r: "DurableExecutionReceipt_post_init sha r = Inr rc" "rc_receipt_id r = rw_receipt_id w"
    by (auto simp: row_to_receipt_def)
  have "lower_hex 64 (rc_receipt_id r)"
    using r(1) unfolding DurableExecutionReceipt_post_init_def by (auto simp: require_sha256_def split: if_splits)
  then show ?thesis using r receipt_post_init_same by metis
qed

lemma select_receipt_id: "select_receipt_by_id i db = Some w \<Longrightarrow> rw_receipt_id w = i"
  by (auto simp: select_receipt_by_id_def dest!: fetchone_Some)

lemma record_receipt_reads:
  assumes "record_receipt sha eid now rc db = (Inr stored, db')"
  shows "get_receipt sha (rc_receipt_id rc) db' = Inr stored \<and> rc_receipt_id stored = rc_receipt_id rc
    \<and> rc_claim_generation stored = rc_claim_generation rc \<and> rc_authority_sha stored = rc_authority_sha rc
    \<and> rc_execution_sha stored = rc_execution_sha rc"
proof -
  have "\<exists>w. select_receipt_by_id (rc_receipt_id rc) db' = Some w \<and> row_to_receipt sha w = Inr stored
      \<and> rw_claim_generation w = rc_claim_generation rc \<and> rw_authority_sha w = rc_authority_sha rc
      \<and> rw_execution_sha w = rc_execution_sha rc"
    using record_receipt_cases[OF assms]
  proof (elim disjE exE conjE)
    assume "db' = db" and a: "\<forall>y. Inr stored = Inr y \<longrightarrow> (\<exists>w. select_receipt_by_id (rc_receipt_id rc) db = Some w
        \<and> verify_receipt_agreement rc w = Inr () \<and> row_to_receipt sha w = Inr y)"
    then obtain w where w: "select_receipt_by_id (rc_receipt_id rc) db = Some w" "verify_receipt_agreement rc w = Inr ()"
      "row_to_receipt sha w = Inr stored" by auto
    show ?thesis using w agreement_Inr[OF w(2)] \<open>db' = db\<close> by (intro exI[of _ w]) simp
  next
    fix z r
    assume n: "select_receipt_by_id (rc_receipt_id rc) db = None" and i: "Inr stored = row_to_receipt sha (receipt_row rc now)"
      and db': "db' = db\<lparr>xd_receipts := xd_receipts db @ [receipt_row rc now],
            xd_events := xd_events db @ [event_row z (execution_next_sequence (xr_execution_id r) db) r XE_RECEIPT_RECORDED
              (Some (rc_receipt_id rc))]\<rparr>"
    have "select_receipt_by_id (rc_receipt_id rc) db' = Some (receipt_row rc now)"
      using n by (simp add: db' select_receipt_by_id_def fetchone_append_None) (simp add: fetchone_def receipt_row_def)
    then show ?thesis using i by (intro exI[of _ "receipt_row rc now"]) (simp add: receipt_row_def)
  qed
  then obtain w where w: "select_receipt_by_id (rc_receipt_id rc) db' = Some w" "row_to_receipt sha w = Inr stored"
    "rw_claim_generation w = rc_claim_generation rc" "rw_authority_sha w = rc_authority_sha rc"
    "rw_execution_sha w = rc_execution_sha rc" by blast
  show ?thesis using w row_to_receipt_id[OF w(2)] select_receipt_id[OF w(1)] row_to_receipt_Inr[OF w(2)]
    by (simp add: get_receipt_def)
qed

lemma get_receipt_kept:
  assumes "exec_steps sha db db'" and "get_receipt sha i db = Inr rc"
  shows "get_receipt sha i db' = Inr rc"
proof -
  from assms(2) obtain w where "lower_hex 64 i" "select_receipt_by_id i db = Some w" "row_to_receipt sha w = Inr rc"
    by (auto simp: get_receipt_def split: option.splits if_splits)
  then show ?thesis using receipt_kept[OF exec_steps_ledger[OF assms(1)]] by (simp add: get_receipt_def)
qed

definition receipt_handler ::
  "(string \<Rightarrow> string) \<Rightarrow> DexBindingIdentity \<Rightarrow> DurableExecutionReceipt \<Rightarrow> exn
     \<Rightarrow> (DexState, WireOutcome + DurableExecutionReceipt) action" where
  "receipt_handler sha b receipt e = (case e of
      ProcessDeath \<Rightarrow> throw e
    | ExecutionStoreErr t \<Rightarrow> andthen (find_identical_receipt sha receipt) (\<lambda>identical. case identical of
        Some i \<Rightarrow> andthen (fence_retire_best_effort b ''receipt verifiably stored by a racing writer'') (\<lambda>_.
          ret (Inl (wire_outcome b (Some i) ''DUPLICATE_ALREADY_COMPLETED'' (''receipt raced an identical stored receipt: '' @ t))))
      | None \<Rightarrow> andthen (fence_both b (''receipt rejected: '' @ t)) (\<lambda>_. throw (WireErr WIRE_RECEIPT_CONFLICT)))
    | _ \<Rightarrow> andthen (fence_both b (''receipt persistence failed: '' @ str_exn e)) (\<lambda>_. throw (WireErr WIRE_STATE_UNAVAILABLE)))"

lemma receipt_handler_outcome:
  "triple P (receipt_handler sha b rc e) (\<lambda>x _. \<exists>out. x = Inl out \<and> not_completed out) (\<lambda>_ _. True)"
proof -
  let ?Q = "\<lambda>x _. \<exists>out. x = Inl out \<and> not_completed out"
  have fail: "triple P' (andthen (fence_both b u) (\<lambda>_. throw v)) ?Q (\<lambda>_ _. True)" for P' u v
    by (rule triple_andthen[OF triple_True]) (auto intro: triple_rules)
  have dup: "triple P' (andthen (fence_retire_best_effort b u)
      (\<lambda>_. ret (Inl (wire_outcome b i ''DUPLICATE_ALREADY_COMPLETED'' v)))) ?Q (\<lambda>_ _. True)" for P' u i v
    by (rule triple_andthen[OF triple_True]) (auto simp: not_completed_def intro: triple_rules)
  have "triple P' (case x of Some i \<Rightarrow> andthen (fence_retire_best_effort b u)
      (\<lambda>_. ret (Inl (wire_outcome b (Some i) ''DUPLICATE_ALREADY_COMPLETED'' v)))
     | None \<Rightarrow> andthen (fence_both b w) (\<lambda>_. throw z)) ?Q (\<lambda>_ _. True)" for P' x u v w z
    using fail dup by (cases x) auto
  from triple_andthen[OF triple_True this] show ?thesis
    unfolding receipt_handler_def using fail by (cases e) (auto intro: triple_rules)
qed

lemma store_receipt_completed:
  assumes s: "store_receipt sha b call rc s = (Inr out, s')" and c: "wo_status out = ''COMPLETED''"
  shows "\<exists>stored. wo_receipt_id out = Some (rc_receipt_id stored) \<and> get_receipt sha (rc_receipt_id rc) (dx_db s') = Inr stored
    \<and> rc_receipt_id stored = rc_receipt_id rc \<and> rc_claim_generation stored = rc_claim_generation rc
    \<and> rc_authority_sha stored = rc_authority_sha rc \<and> rc_execution_sha stored = rc_execution_sha rc"
proof -
  define put where "put = store_call (record_receipt sha (wc_event_id call) (wc_now call) rc)"
  note def = store_receipt_def[of sha b call rc, folded receipt_handler_def put_def]
  obtain x s1 where x: "put s = (x, s1)" by fastforce
  show ?thesis
  proof (cases x)
    case (Inr stored)
    have m: "record_receipt sha (wc_event_id call) (wc_now call) rc (dx_db s) = (Inr stored, dx_db s1)"
      using store_call_cases x Inr unfolding put_def by blast
    obtain y s2 where y: "fence_retire_best_effort b ''receipt recorded'' s1 = (y, s2)" by fastforce
    have "exec_steps sha (dx_db s1) (dx_db s2)"
      using dex_keepsD[OF keeps_retire progress_refl y] by (simp add: progress_def)
    moreover have "s' = s2 \<and> wo_receipt_id out = Some (rc_receipt_id stored)"
      using s x y Inr unfolding def by (cases y) (auto simp: andthen_def catch_def ret_def)
    ultimately show ?thesis using record_receipt_reads[OF m] get_receipt_kept by blast
  next
    case (Inl e)
    obtain z s2 where z: "receipt_handler sha b rc e s1 = (z, s2)" by fastforce
    from tripleD[OF receipt_handler_outcome[where P = "\<lambda>_. True"] TrueI z] s x z Inl c show ?thesis
      unfolding def by (cases z) (auto simp: andthen_def catch_def ret_def not_completed_def)
  qed
qed

lemma evidence_receipt_Inr:
  assumes "evidence_receipt sha ev = Inr rc"
  shows "rc_receipt_id rc = sha (receipt_payload (ce_execution_id ev) (ce_attempt_id ev) (ce_result_sha256 ev) (ce_binding_digest ev))
    \<and> rc_claim_generation rc = ce_claim_generation ev \<and> rc_authority_sha rc = ce_authority_sha ev
    \<and> rc_execution_sha rc = ce_execution_sha ev \<and> 1 \<le> ce_claim_generation ev"
proof -
  from assms obtain r i where c: "compute_receipt_id sha (ce_execution_id ev) (ce_attempt_id ev) (ce_result_sha256 ev)
      (ce_binding_digest ev) = Inr i" and p: "DurableExecutionReceipt_post_init sha r = Inr rc"
    and r: "rc_receipt_id r = i" "rc_claim_generation r = ce_claim_generation ev" "rc_authority_sha r = ce_authority_sha ev"
      "rc_execution_sha r = ce_execution_sha ev"
    by (auto simp: evidence_receipt_def new_execution_receipt_def)
  have "1 \<le> rc_claim_generation r"
    using p unfolding DurableExecutionReceipt_post_init_def by (auto simp: positive_int_def simp del: check_all.simps split: if_splits)
  moreover have "i = sha (receipt_payload (ce_execution_id ev) (ce_attempt_id ev) (ce_result_sha256 ev) (ce_binding_digest ev))"
    using c by (auto simp: compute_receipt_id_def)
  ultimately show ?thesis using r receipt_post_init_same[OF p] by simp
qed

lemma attempt_collect_completed:
  assumes a: "attempt_collect sha loads b adm call s = (Inr out, s')" and c: "wo_status out = ''COMPLETED''"
  shows "\<exists>rc result. wo_receipt_id out = Some (rc_receipt_id rc) \<and> get_receipt sha (rc_receipt_id rc) (dx_db s') = Inr rc
    \<and> rc_receipt_id rc = sha (receipt_payload (bi_execution_id b) (bi_attempt_id b) result (ar_binding_digest adm))
    \<and> rc_claim_generation rc = ar_claim_generation adm \<and> rc_authority_sha rc = bi_authority_sha b
    \<and> rc_execution_sha rc = bi_execution_sha b \<and> 1 \<le> ar_claim_generation adm"
proof -
  have out: "P" if "andthen (fence_both b u) (\<lambda>_. ret (wire_outcome b None ''EVIDENCE_REJECTED'' v)) s1 = (Inr out, s')" for u v s1 P
    using andthen_Inr[OF that] c by (auto simp: ret_def)
  from andthen_Inr[OF a[unfolded attempt_collect_def]] obtain raw s1 where
    k: "(case decode_collected_evidence sha loads (wire_expected b adm) raw of
       Inl e \<Rightarrow> andthen (fence_both b (''evidence rejected: '' @ str_exn e)) (\<lambda>_.
         ret (wire_outcome b None ''EVIDENCE_REJECTED'' (WIRE_EVIDENCE_REJECTED @ '': '' @ str_exn e @ '' (identity fenced)'')))
     | Inr ev \<Rightarrow>
         if ce_claim_generation ev \<noteq> ar_claim_generation adm
         then andthen (fence_both b (''generation mismatch: '' @ json_int (ce_claim_generation ev))) (\<lambda>_.
           ret (wire_outcome b None ''EVIDENCE_REJECTED''
             (WIRE_GENERATION_MISMATCH @ '': evidence generation '' @ json_int (ce_claim_generation ev)
                @ '' != admitted generation '' @ json_int (ar_claim_generation adm) @ '' (identity fenced)'')))
         else andthen (lift_res (evidence_receipt sha ev)) (store_receipt sha b call)) s1 = (Inr out, s')" by blast
  obtain ev where ev: "decode_collected_evidence sha loads (wire_expected b adm) raw = Inr ev"
    using k out by (cases "decode_collected_evidence sha loads (wire_expected b adm) raw") auto
  have gen: "ce_claim_generation ev = ar_claim_generation adm" using k ev out by (auto split: if_splits)
  then have "andthen (lift_res (evidence_receipt sha ev)) (store_receipt sha b call) s1 = (Inr out, s')" using k ev by simp
  from andthen_Inr[OF this] obtain rc s2 where rc: "evidence_receipt sha ev = Inr rc" and st: "store_receipt sha b call rc s2 = (Inr out, s')"
    by (auto simp: lift_res_def)
  from store_receipt_completed[OF st c] obtain stored where s: "wo_receipt_id out = Some (rc_receipt_id stored)"
    "get_receipt sha (rc_receipt_id rc) (dx_db s') = Inr stored" "rc_receipt_id stored = rc_receipt_id rc"
    "rc_claim_generation stored = rc_claim_generation rc" "rc_authority_sha stored = rc_authority_sha rc"
    "rc_execution_sha stored = rc_execution_sha rc" by blast
  show ?thesis
    by (rule exI[of _ stored], rule exI[of _ "ce_result_sha256 ev"])
      (use s evidence_receipt_Inr[OF rc] decode_Inr[OF ev] gen in \<open>auto simp: wire_expected_def\<close>)
qed

lemma attempt_locked_completed:
  assumes a: "attempt_locked sha loads b adm call s = (Inr out, s')" and c: "wo_status out = ''COMPLETED''"
  shows "\<exists>s1 s2 s3. reserve_durable_fence b adm s1 = (Inr True, s2) \<and> dispatch_once b (wc_dispatch call) s2 = (Inr None, s3)
    \<and> attempt_collect sha loads b adm call s3 = (Inr out, s') \<and> dx_sent s2 = dx_sent s"
proof (cases "bi_identity b \<in> dx_fenced s")
  case True
  then show ?thesis using a c by (auto simp: attempt_locked_def)
next
  case False
  note a' = a[unfolded attempt_locked_def if_not_P[OF False]]
  from andthen_Inr[OF a'] obtain u s0 where m0: "probe_execution_record b s = (Inr u, s0)" and "andthen (find_receipt_contained b) (\<lambda>existing. case existing of
             Some i \<Rightarrow> ret (wire_outcome b (Some i) ''DUPLICATE_ALREADY_COMPLETED'' ''receipt already recorded for this identity'')
           | None \<Rightarrow> andthen (reserve_durable_fence b adm) (\<lambda>created. if \<not> created
               then andthen (fence_identity b) (\<lambda>_.
                    ret (wire_ambiguous b ''durable dispatch fence already holds this identity (observed on reserve)''))
               else attempt_dispatch sha loads b adm call)) s0 = (Inr out, s')" by blast
  from andthen_Inr[OF this(2)] obtain ex s1 where m1: "find_receipt_contained b s0 = (Inr ex, s1)" and "(case ex of
             Some i \<Rightarrow> ret (wire_outcome b (Some i) ''DUPLICATE_ALREADY_COMPLETED'' ''receipt already recorded for this identity'')
           | None \<Rightarrow> andthen (reserve_durable_fence b adm) (\<lambda>created. if \<not> created
               then andthen (fence_identity b) (\<lambda>_.
                    ret (wire_ambiguous b ''durable dispatch fence already holds this identity (observed on reserve)''))
               else attempt_dispatch sha loads b adm call)) s1 = (Inr out, s')" by blast
  then have "andthen (reserve_durable_fence b adm) (\<lambda>created. if \<not> created
               then andthen (fence_identity b) (\<lambda>_.
                    ret (wire_ambiguous b ''durable dispatch fence already holds this identity (observed on reserve)''))
               else attempt_dispatch sha loads b adm call) s1 = (Inr out, s')"
    using c by (cases ex) (auto simp: ret_def)
  from andthen_Inr[OF this] obtain cr s2 where r: "reserve_durable_fence b adm s1 = (Inr cr, s2)"
    and k: "(if \<not> cr then andthen (fence_identity b) (\<lambda>_.
                    ret (wire_ambiguous b ''durable dispatch fence already holds this identity (observed on reserve)''))
               else attempt_dispatch sha loads b adm call) s2 = (Inr out, s')" by blast
  have cr: "cr" using k c by (cases cr) (auto simp: andthen_def fence_identity_def ret_def)
  with k have "attempt_dispatch sha loads b adm call s2 = (Inr out, s')" by simp
  from andthen_Inr[OF this[unfolded attempt_dispatch_def]] obtain x s3 where d: "dispatch_once b (wc_dispatch call) s2 = (Inr x, s3)"
    and k3: "(case x of Some outcome \<Rightarrow> ret outcome | None \<Rightarrow> attempt_collect sha loads b adm call) s3 = (Inr out, s')" by blast
  have "x = None"
    using tripleD[OF dispatch_once_outcome[where P = "\<lambda>_. True"] TrueI d] k3 c by (cases x) (auto simp: ret_def not_completed_def)
  moreover have "progress sha s (dx_sent s) s2"
    using dex_keepsD[OF keeps_reserve dex_keepsD[OF keeps_find_receipt dex_keepsD[OF keeps_probe progress_refl m0] m1] r] .
  ultimately show ?thesis using r d k3 cr by (auto simp: progress_def)
qed

lemma run_attempt_completed:
  assumes "run_attempt sha loads journal b cv call s = (Inr out, s')" and "wo_status out = ''COMPLETED''"
  shows "\<exists>adm s1. decide sha journal b cv s = (Inr adm, s1) \<and> attempt_locked sha loads b adm call s1 = (Inr out, s')"
  using run_attempt_cases[OF assms(1)]
proof (elim disjE exE conjE)
  fix e
  assume "Inr out = (case e of ProcessDeath \<Rightarrow> Inl e | AdmissionDeniedErr t \<Rightarrow> Inr (wire_denied b t)
      | _ \<Rightarrow> Inl (WireErr WIRE_STATE_UNAVAILABLE))"
  then show ?thesis using assms(2) by (cases e) auto
qed blast

section \<open>The guarantees\<close>

text \<open>
  C3: At most one dispatch per identity: over every history of attempts, process deaths at
  any store or transport call, restarts that lose the memory of the process, failing store
  calls and other processes on the database, no identity is handed to the transport twice, and
  every identity that was handed over has a durable fence.
\<close>

theorem dispatch_at_most_once:
  assumes "dex_reachable sha loads journal s"
  shows "count_list (dx_sent s) k \<le> 1 \<and> (k \<in> set (dx_sent s) \<longrightarrow> (\<exists>w. select_fence (fst k) (snd k) (dx_db s) = Some w))"
proof -
  from dex_reachable_ok[OF assms] have d: "distinct (dx_sent s)" and f: "\<forall>k \<in> set (dx_sent s). fence_taken k (dx_db s)"
    by (simp_all add: dex_ok_def)
  have "count_list xs k \<le> 1" if "distinct xs" for xs
    using that by (induction xs) auto
  then show ?thesis using d f by (auto simp: fence_taken_def)
qed

text \<open>
  C4: With a journal, an admission decision is frozen across restarts: after every later
  history a decision for the same identity returns the recorded one or raises; a recorded
  denial never becomes an admission, and an admission is only returned for the same binding,
  claim reference and generation. Every identity that was dispatched has a recorded admission.
\<close>

theorem admission_frozen:
  assumes "dex_reachable sha loads True s" and "select_decision e a (dx_db s) = Some d" and "dex_steps sha loads True s s'"
  shows "select_decision e a (dx_db s') = Some d
    \<and> (\<forall>b cv r s2. bi_identity b = (e, a) \<longrightarrow> decide sha True b cv s' = (Inr r, s2) \<longrightarrow> r = decision_record d \<and> ad_admitted d
          \<and> ad_binding_digest d = binding_digest sha b \<and> ad_claim_ref d = bi_claim_ref b \<and> ad_claim_generation d = cv_claim_generation cv)
    \<and> ((e, a) \<in> set (dx_sent s') \<longrightarrow> ad_admitted d)"
proof -
  from dex_steps_ok[OF assms(3) dex_reachable_ok[OF assms(1)]] have ok: "dex_ok sha True s'" and st: "exec_steps sha (dx_db s) (dx_db s')"
    by simp_all
  have d: "select_decision e a (dx_db s') = Some d" by (rule decision_kept[OF exec_steps_ledger[OF st] assms(2)])
  have "r = decision_record d \<and> ad_admitted d \<and> ad_binding_digest d = binding_digest sha b \<and> ad_claim_ref d = bi_claim_ref b
      \<and> ad_claim_generation d = cv_claim_generation cv"
    if k: "bi_identity b = (e, a)" and r: "decide sha True b cv s' = (Inr r, s2)" for b cv r s2
  proof -
    have "deciding sha True s' s'" using ok by (simp add: deciding_def exec_steps_def dex_ok_def)
    from tripleD[OF decide_triple this r] have st2: "exec_steps sha (dx_db s') (dx_db s2)"
      and dec: "select_decision e a (dx_db s2) = Some (record_decision r)" and adm: "admitted_for sha b cv r"
      by (simp_all add: deciding_def decided_def k)
    have "d = record_decision r" using decision_kept[OF exec_steps_ledger[OF st2] d] dec by simp
    then show ?thesis using adm by (simp add: admitted_for_def) (simp add: record_decision_def)
  qed
  moreover have "(e, a) \<in> set (dx_sent s') \<longrightarrow> ad_admitted d" using ok d unfolding dex_ok_def by fastforce
  ultimately show ?thesis using d by blast
qed

text \<open>
  C16: An attempt that returns COMPLETED dispatched in this run and its receipt can be read
  back: the receipt id is the digest of the execution, the attempt, a result and the binding,
  and the receipt carries the claim generation and the commits that were admitted.
\<close>

theorem completed_has_receipt:
  assumes "dex_reachable sha loads journal s" and "run_attempt sha loads journal b cv call s = (Inr out, s')"
    and "wo_status out = ''COMPLETED''"
  shows "dx_sent s' = bi_identity b # dx_sent s
    \<and> (\<exists>rc result. wo_receipt_id out = Some (rc_receipt_id rc) \<and> get_receipt sha (rc_receipt_id rc) (dx_db s') = Inr rc
        \<and> rc_receipt_id rc = sha (receipt_payload (bi_execution_id b) (bi_attempt_id b) result (binding_digest sha b))
        \<and> rc_claim_generation rc = cv_claim_generation cv \<and> rc_authority_sha rc = bi_authority_sha b
        \<and> rc_execution_sha rc = bi_execution_sha b)"
proof -
  have pre: "deciding sha journal s s" using dex_reachable_ok[OF assms(1)] by (simp add: deciding_def exec_steps_def dex_ok_def)
  from run_attempt_completed[OF assms(2,3)] obtain adm s1 where d: "decide sha journal b cv s = (Inr adm, s1)"
    and a: "attempt_locked sha loads b adm call s1 = (Inr out, s')" by blast
  from tripleD[OF decide_triple pre d] have sent: "dx_sent s1 = dx_sent s" and adm: "admitted_for sha b cv adm"
    by (simp_all add: deciding_def)
  from attempt_locked_completed[OF a assms(3)] obtain t2 t3 where once: "dispatch_once b (wc_dispatch call) t2 = (Inr None, t3)"
    and col: "attempt_collect sha loads b adm call t3 = (Inr out, s')" and t2: "dx_sent t2 = dx_sent s1" by blast
  have "progress sha t2 (bi_identity b # dx_sent t2) t3" using tripleD[OF dispatch_once_sends progress_refl once] by simp
  moreover have "dx_sent s' = dx_sent t3" using dex_keepsD[OF keeps_attempt_collect progress_refl col] by (simp add: progress_def)
  ultimately have "dx_sent s' = bi_identity b # dx_sent s" using sent t2 by (simp add: progress_def)
  then show ?thesis using attempt_collect_completed[OF col assms(3)] adm by (auto simp: admitted_for_def)
qed

text \<open>
  C22: Evidence is accepted only when it is about the expected attempt: the execution, the
  attempt, the binding digest and both commits agree, its artifacts have distinct references
  and are at most sixteen, its result is one of them with the same digest, and the digest of
  the evidence is that of the canonical text of the rest of the document.
\<close>

theorem accepted_evidence_bound:
  assumes "decode_collected_evidence sha loads ee raw = Inr ev"
  shows "raw \<noteq> [] \<and> length raw \<le> EVIDENCE_MAX_BYTES
    \<and> ce_execution_id ev = ee_execution_id ee \<and> ce_attempt_id ev = ee_attempt_id ee \<and> ce_binding_digest ev = ee_binding_digest ee
    \<and> ce_authority_sha ev = ee_authority_sha ee \<and> ce_execution_sha ev = ee_execution_sha ee
    \<and> 1 \<le> ce_pid ev \<and> distinct (map da_ref (ce_artifacts ev)) \<and> length (ce_artifacts ev) \<le> 16
    \<and> (\<exists>x \<in> set (ce_artifacts ev). da_ref x = ce_result_ref ev \<and> da_sha256 x = ce_result_sha256 ev)
    \<and> (\<exists>payload. loads raw = Loaded payload \<and> sha (canonical (without_key ''evidence_sha256'' payload)) = ce_evidence_sha256 ev)"
proof -
  have "raw \<noteq> [] \<and> length raw \<le> EVIDENCE_MAX_BYTES"
    using assms by (auto simp: decode_collected_evidence_def split: if_splits)
  then show ?thesis using decode_Inr[OF assms] unfolding evidence_wf_def by blast
qed

lemma check_all_ValueErr:
  assumes "list_all (\<lambda>c. c = Inr () \<or> (\<exists>f. c = Inl (ValueErr f))) cs"
  shows "check_all cs = Inr () \<or> (\<exists>f. check_all cs = Inl (ValueErr f))"
  using assms by (induction cs) auto

lemma check_shapes:
  "record_text n v f = Inr () \<or> (\<exists>f'. record_text n v f = Inl (ValueErr f'))"
  "require_sha256 v f = Inr () \<or> (\<exists>f'. require_sha256 v f = Inl (ValueErr f'))"
  "require_git_sha v f = Inr () \<or> (\<exists>f'. require_git_sha v f = Inl (ValueErr f'))"
  "positive_int i f = Inr () \<or> (\<exists>f'. positive_int i f = Inl (ValueErr f'))"
  "record_optional_text w f = Inr () \<or> (\<exists>f'. record_optional_text w f = Inl (ValueErr f'))"
  by (auto simp: record_text_def require_sha256_def require_git_sha_def positive_int_def record_optional_text_def split: option.split)

lemma compute_receipt_id_error: "compute_receipt_id sha e a r d = Inl x \<Longrightarrow> \<exists>f. x = ValueErr f"
  using check_all_ValueErr[of "[record_text MAX_TEXT_CHARS e ''execution_id'', record_text MAX_TEXT_CHARS a ''attempt_id'',
        require_sha256 r ''result_digest'', require_sha256 d ''binding_digest'']"] check_shapes
  by (auto simp: compute_receipt_id_def simp del: check_all.simps check_all_Inr)

lemma receipt_post_init_error:
  assumes "DurableExecutionReceipt_post_init sha r = Inl x"
  shows "\<exists>f. x = ValueErr f"
proof -
  let ?cs = "[require_sha256 (rc_receipt_id r) ''receipt_id'', record_text MAX_TEXT_CHARS (rc_execution_id r) ''execution_id'',
        record_text MAX_TEXT_CHARS (rc_attempt_id r) ''attempt_id'', require_sha256 (rc_result_digest r) ''result_digest'',
        require_sha256 (rc_binding_digest r) ''binding_digest'', positive_int (rc_claim_generation r) ''claim_generation'',
        require_git_sha (rc_authority_sha r) ''authority_sha'', require_git_sha (rc_execution_sha r) ''execution_sha'',
        record_optional_text (rc_evidence_ref r) ''evidence_ref'', record_optional_text (rc_recorded_at r) ''recorded_at'']"
  have "check_all ?cs = Inr () \<or> (\<exists>f. check_all ?cs = Inl (ValueErr f))"
    by (rule check_all_ValueErr) (use check_shapes in simp)
  then show ?thesis
    using assms compute_receipt_id_error[of sha "rc_execution_id r" "rc_attempt_id r" "rc_result_digest r" "rc_binding_digest r"]
    unfolding DurableExecutionReceipt_post_init_def
    by (cases "compute_receipt_id sha (rc_execution_id r) (rc_attempt_id r) (rc_result_digest r) (rc_binding_digest r)")
      (auto simp del: check_all.simps check_all_Inr split: if_splits)
qed

lemma evidence_receipt_error: "evidence_receipt sha ev = Inl x \<Longrightarrow> \<exists>f. x = ValueErr f"
  unfolding evidence_receipt_def new_execution_receipt_def
  by (cases "compute_receipt_id sha (ce_execution_id ev) (ce_attempt_id ev) (ce_result_sha256 ev) (ce_binding_digest ev)")
    (auto dest: compute_receipt_id_error receipt_post_init_error)

text \<open>
  C38: Claim generation 0 is admitted, but a receipt needs a generation of at least 1: when the
  evidence of a dispatched attempt of generation 0 is accepted, a plain ValueError leaves the
  attempt, no fence is marked and no outcome is returned.
\<close>

theorem generation_zero_escapes:
  assumes "wc_collect call = CollectReturns raw" and "decode_collected_evidence sha loads (wire_expected b adm) raw = Inr ev"
    and "ce_claim_generation ev = 0" and "ar_claim_generation adm = 0"
  shows "\<exists>f. attempt_collect sha loads b adm call s = (Inl (ValueErr f), s)"
proof -
  obtain x where x: "evidence_receipt sha ev = Inl x"
    using evidence_receipt_Inr assms(3) by (cases "evidence_receipt sha ev") fastforce+
  then obtain f where "x = ValueErr f" using evidence_receipt_error by blast
  then show ?thesis using x assms
    by (simp add: attempt_collect_def collect_attempt_def transport_collect_def except_exception_def catch_def andthen_def lift_res_def)
qed

section \<open>Witnesses\<close>

definition example_binding :: "int \<Rightarrow> DexBindingIdentity" where
  "example_binding g =
     \<lparr>bi_execution_id = ''x1'', bi_attempt_id = ''a1'', bi_task_ref = ''t'', bi_lane_ref = ''l'', bi_claim_ref = ''c'',
      bi_claim_generation = g, bi_authority_repo_identity = ''r1'', bi_execution_repo_identity = ''r2'',
      bi_authority_sha = replicate 40 CHR ''d'', bi_execution_sha = replicate 40 CHR ''e'', bi_host_id = ''h'', bi_boot_id = ''b'',
      bi_executable_path = ''p'', bi_executable_sha256 = replicate 64 CHR ''f'', bi_argv_shape = [''run'']\<rparr>"

definition example_document :: "int \<Rightarrow> json" where
  "example_document g = JObj
     [(''schema'', JStr ''dex.srm.collection.v1''), (''execution_id'', JStr ''x1''), (''attempt_id'', JStr ''a1''),
      (''binding_digest'', JStr (replicate 64 CHR ''a'')), (''claim_generation'', JInt g),
      (''sha_set'', JObj [(''authority'', JStr (replicate 40 CHR ''d'')), (''execution'', JStr (replicate 40 CHR ''e''))]),
      (''process'', JObj [(''host_id'', JStr ''h''), (''boot_id'', JStr ''b''), (''pid'', JInt 7), (''creation_id'', JStr ''c''), (''exit_code'', JInt 0)]),
      (''artifacts'', JArr [JObj [(''ref'', JStr ''out''), (''sha256'', JStr (replicate 64 CHR ''b'')), (''size_bytes'', JInt 3)]]),
      (''result'', JObj [(''ref'', JStr ''out''), (''sha256'', JStr (replicate 64 CHR ''b''))]),
      (''collected_under_drift'', JBool False), (''evidence_sha256'', JStr (replicate 64 CHR ''a''))]"

definition example_claim :: "int \<Rightarrow> ClaimView" where
  "example_claim g = \<lparr>cv_claim_ref = ''c'', cv_claim_generation = g, cv_live = True\<rparr>"

definition example_call :: WireCall where
  "example_call = \<lparr>wc_dispatch = DispatchReturns (Some ''DISPATCHED'') [], wc_collect = CollectReturns ''doc'',
     wc_event_id = Some ''e2'', wc_now = ''t2''\<rparr>"

definition example_dex :: DexState where
  "example_dex = dex_initial\<lparr>dx_db := example_executions\<rparr>"

text \<open>The evidence the example document carries, and the receipt of its generation 1.\<close>

definition example_evidence :: "int \<Rightarrow> DexCollectedEvidence" where
  "example_evidence g =
     \<lparr>ce_execution_id = ''x1'', ce_attempt_id = ''a1'', ce_binding_digest = replicate 64 CHR ''a'', ce_claim_generation = g,
      ce_authority_sha = replicate 40 CHR ''d'', ce_execution_sha = replicate 40 CHR ''e'', ce_host_id = ''h'', ce_boot_id = ''b'',
      ce_pid = 7, ce_creation_id = ''c'', ce_exit_code = 0,
      ce_artifacts = [\<lparr>da_ref = ''out'', da_sha256 = replicate 64 CHR ''b'', da_size_bytes = 3\<rparr>], ce_result_ref = ''out'',
      ce_result_sha256 = replicate 64 CHR ''b'', ce_collected_under_drift = False, ce_evidence_sha256 = replicate 64 CHR ''a''\<rparr>"

definition example_admission :: "int \<Rightarrow> AdmissionRecord" where
  "example_admission g =
     \<lparr>ar_execution_id = ''x1'', ar_attempt_id = ''a1'', ar_binding_digest = replicate 64 CHR ''a'', ar_claim_ref = ''c'',
      ar_claim_generation = g, ar_admitted = True, ar_code = None, ar_detail = None\<rparr>"

lemma example_fields:
  "res_bind (evidence_root (example_document 1)) evidence_fields = Inr (example_evidence 1)"
  "res_bind (evidence_root (example_document 0)) evidence_fields = Inr (example_evidence 0)"
  by code_simp+

lemma example_decode_gen:
  assumes "res_bind (evidence_root (example_document g)) evidence_fields = Inr (example_evidence g)"
  shows "decode_collected_evidence example_sha (\<lambda>_. Loaded (example_document g))
      (wire_expected (example_binding g) (example_admission g)) ''doc'' = Inr (example_evidence g)"
proof -
  from assms obtain f where "evidence_root (example_document g) = Inr f" "evidence_fields f = Inr (example_evidence g)" by auto
  then show ?thesis
    by (simp add: decode_collected_evidence_def EVIDENCE_MAX_BYTES_def evidence_agrees_def example_evidence_def
        wire_expected_def example_binding_def example_admission_def example_sha_def)
qed

lemmas example_decode = example_decode_gen[OF example_fields(1)] example_decode_gen[OF example_fields(2)]

lemma store_call_plain:
  assumes "dx_faults s = []" and "m (dx_db s) = (r, db')"
  shows "store_call m s = (r, s\<lparr>dx_db := db'\<rparr>)"
  using assms by (simp add: store_call_def next_fault_def Let_def)

lemma andthen_eq: "m s = (Inr x, s') \<Longrightarrow> andthen m k s = k x s'"
  by (simp add: andthen_def)

lemma except_exception_eq: "m s = (Inr x, s') \<Longrightarrow> except_exception m h s = (Inr x, s')"
  by (simp add: except_exception_def catch_def)

lemma example_digest: "binding_digest example_sha b = replicate 64 CHR ''a''"
  by (simp add: binding_digest_def example_sha_def)

definition example_db1 :: ExecDb where
  "example_db1 = snd (record_admission_decision (record_decision (example_admission 1)) example_executions)"

definition example_db2 :: ExecDb where
  "example_db2 = snd (reserve_dispatch_fence ''x1'' ''a1'' (replicate 64 CHR ''a'') example_db1)"

definition example_db3 :: ExecDb where
  "example_db3 = snd (transition_dispatch_fence ''x1'' ''a1'' ''DISPATCHED'' (Some ''substrate accepted dispatch'') example_db2)"

definition example_receipt_dex :: DurableExecutionReceipt where
  "example_receipt_dex =
     \<lparr>rc_receipt_id = replicate 64 CHR ''a'', rc_execution_id = ''x1'', rc_attempt_id = ''a1'',
      rc_result_digest = replicate 64 CHR ''b'', rc_binding_digest = replicate 64 CHR ''a'', rc_claim_generation = 1,
      rc_authority_sha = replicate 40 CHR ''d'', rc_execution_sha = replicate 40 CHR ''e'', rc_disposition = RD_ACCEPTED,
      rc_evidence_ref = Some (replicate 64 CHR ''a''), rc_recorded_at = None\<rparr>"

definition example_db4 :: ExecDb where
  "example_db4 = snd (record_receipt example_sha (Some ''e2'') ''t2'' example_receipt_dex example_db3)"

definition example_db5 :: ExecDb where
  "example_db5 = snd (transition_dispatch_fence ''x1'' ''a1'' ''RETIRED'' (Some ''receipt recorded'') example_db4)"

lemma example_store_facts:
  "load_admission_decision ''x1'' ''a1'' example_executions = Inr None"
  "fst (record_admission_decision (record_decision (example_admission 1)) example_executions) = Inr ()"
  "fst (reserve_dispatch_fence ''x1'' ''a1'' (replicate 64 CHR ''a'') example_db1) = Inr (''RESERVED'', True)"
  "fst (transition_dispatch_fence ''x1'' ''a1'' ''DISPATCHED'' (Some ''substrate accepted dispatch'') example_db2) = Inr ()"
  by code_simp+

lemma example_store_facts2:
  "evidence_receipt example_sha (example_evidence 1) = Inr example_receipt_dex"
  "fst (record_receipt example_sha (Some ''e2'') ''t2'' example_receipt_dex example_db3) = Inr (example_receipt_dex\<lparr>rc_recorded_at := Some ''t2''\<rparr>)"
  "fst (transition_dispatch_fence ''x1'' ''a1'' ''RETIRED'' (Some ''receipt recorded'') example_db4) = Inr ()"
  by code_simp+

lemma example_events: "res_bind (list_execution_events ''x1'' example_db1) (\<lambda>es. Inr (fetchone receipt_event es)) = Inr None"
  by code_simp

definition example_dex1 :: DexState where
  "example_dex1 = example_dex\<lparr>dx_db := example_db1, dx_records := [(''x1'', ''a1'') \<mapsto> example_admission 1]\<rparr>"

lemma example_dex_sel [simp]:
  "dx_faults example_dex = []" "dx_db example_dex = example_executions" "dx_records example_dex = Map.empty"
  "dx_fenced example_dex = {}" "dx_sent example_dex = []"
  "dx_faults example_dex1 = []" "dx_db example_dex1 = example_db1" "dx_fenced example_dex1 = {}" "dx_sent example_dex1 = []"
  by (simp_all add: example_dex1_def example_dex_def dex_initial_def)

lemma example_binding_sel [simp]: "bi_execution_id (example_binding g) = ''x1''" "bi_attempt_id (example_binding g) = ''a1''"
  by (simp_all add: example_binding_def)

lemma example_fresh: "decide_fresh (example_binding 1) (example_claim 1) (replicate 64 CHR ''a'') = Inr (example_admission 1)"
  by code_simp

lemma example_decide: "decide example_sha True (example_binding 1) (example_claim 1) example_dex = (Inr (example_admission 1), example_dex1)"
proof -
  have load: "store_call (read_of (load_admission_decision ''x1'' ''a1'')) example_dex = (Inr None, example_dex)"
    by (subst store_call_plain[where r = "Inr None" and db' = example_executions])
      (simp_all add: read_of_def example_store_facts(1) example_dex_def dex_initial_def)
  have find: "find_decision True (''x1'', ''a1'') example_dex = (Inr None, example_dex)"
    by (simp add: find_decision_def journal_load_admission_def load andthen_def ret_def)
  have rec: "journal_record_admission (example_admission 1) example_dex = (Inr (), example_dex\<lparr>dx_db := example_db1\<rparr>)"
    unfolding journal_record_admission_def
    by (rule store_call_plain) (simp_all add: example_db1_def prod_eq_iff example_store_facts(2))
  have "ar_admitted (example_admission 1)" by (simp add: example_admission_def)
  then show ?thesis
    by (simp add: decide_def Let_def example_digest find example_fresh andthen_def lift_res_def rec cache_record_def ret_def
        example_dex1_def)
qed

lemma example_read:
  assumes "dx_faults s = []"
  shows "store_call (read_of f) s = (f (dx_db s), s)"
  using assms by (cases "s") (simp add: store_call_plain[where r = "f (dx_db s)" and db' = "dx_db s"] read_of_def)

definition example_dex3 :: DexState where
  "example_dex3 = example_dex1\<lparr>dx_db := example_db3, dx_sent := [(''x1'', ''a1'')]\<rparr>"

definition example_dex5 :: DexState where
  "example_dex5 = example_dex3\<lparr>dx_db := example_db5\<rparr>"

definition example_outcome :: WireOutcome where
  "example_outcome = \<lparr>wo_execution_id = ''x1'', wo_attempt_id = ''a1'', wo_receipt_id = Some (replicate 64 CHR ''a''),
     wo_status = ''COMPLETED'', wo_detail = ''receipt recorded''\<rparr>"

lemma example_mark:
  assumes "dx_faults s = []" and "fst (transition_dispatch_fence ''x1'' ''a1'' st (Some reason) (dx_db s)) = Inr ()"
  shows "fence_mark (example_binding g) st reason s
    = (Inr (), s\<lparr>dx_db := snd (transition_dispatch_fence ''x1'' ''a1'' st (Some reason) (dx_db s))\<rparr>)"
  unfolding fence_mark_def
  by (rule except_exception_eq, simp, rule store_call_plain) (simp_all add: assms prod_eq_iff)

lemma example_dispatch:
  "dispatch_once (example_binding 1) (DispatchReturns (Some ''DISPATCHED'') []) (example_dex1\<lparr>dx_db := example_db2\<rparr>) = (Inr None, example_dex3)"
proof -
  let ?s = "example_dex1\<lparr>dx_db := example_db2, dx_sent := [(''x1'', ''a1'')]\<rparr>"
  have "fence_mark (example_binding 1) ''DISPATCHED'' ''substrate accepted dispatch'' ?s = (Inr (), example_dex3)"
    by (subst example_mark) (simp_all add: example_store_facts(4) example_dex3_def example_db3_def)
  then show ?thesis
    by (simp add: dispatch_once_def catch_def andthen_def except_exception_def transport_dispatch_def ret_def bi_identity_def
        except_wire_def)
qed

lemma example_collect:
  "attempt_collect example_sha (\<lambda>_. Loaded (example_document 1)) (example_binding 1) (example_admission 1) example_call example_dex3
     = (Inr example_outcome, example_dex5)"
proof -
  have put: "store_call (record_receipt example_sha (Some ''e2'') ''t2'' example_receipt_dex) example_dex3
      = (Inr (example_receipt_dex\<lparr>rc_recorded_at := Some ''t2''\<rparr>), example_dex3\<lparr>dx_db := example_db4\<rparr>)"
    by (rule store_call_plain) (simp_all add: example_dex3_def example_db4_def prod_eq_iff example_store_facts2(2))
  have mark: "fence_mark (example_binding 1) ''RETIRED'' ''receipt recorded'' (example_dex3\<lparr>dx_db := example_db4\<rparr>) = (Inr (), example_dex5)"
    by (subst example_mark) (simp_all add: example_store_facts2(3) example_dex3_def example_dex5_def example_db5_def)
  have ids: "rc_execution_id example_receipt_dex = ''x1''" "rc_attempt_id example_receipt_dex = ''a1''"
    "rc_receipt_id example_receipt_dex = replicate 64 CHR ''a''" by (simp_all add: example_receipt_dex_def)
  have "ce_claim_generation (example_evidence 1) = ar_claim_generation (example_admission 1)"
    by (simp add: example_evidence_def example_admission_def)
  then show ?thesis
    by (simp add: attempt_collect_def collect_attempt_def transport_collect_def example_call_def except_exception_def catch_def andthen_def
        lift_res_def example_decode(1) example_store_facts2(1) store_receipt_def put fence_retire_best_effort_def except_wire_def mark ret_def
        example_outcome_def ids)
qed

lemma example_run:
  "run_attempt example_sha (\<lambda>_. Loaded (example_document 1)) True (example_binding 1) (example_claim 1) example_call example_dex
     = (Inr example_outcome, example_dex5)"
proof -
  from example_events obtain es where es: "list_execution_events ''x1'' example_db1 = Inr es" "fetchone receipt_event es = None" by auto
  have probe: "probe_execution_record (example_binding 1) example_dex1 = (Inr (), example_dex1)"
    by (simp add: probe_execution_record_def except_exception_def catch_def andthen_def example_read es ret_def)
  have find: "find_receipt_contained (example_binding 1) example_dex1 = (Inr None, example_dex1)"
    by (simp add: find_receipt_contained_def except_exception_def catch_def andthen_def example_read es ret_def)
  have "store_call (reserve_dispatch_fence ''x1'' ''a1'' (replicate 64 CHR ''a'')) example_dex1
      = (Inr (''RESERVED'', True), example_dex1\<lparr>dx_db := example_db2\<rparr>)"
    by (rule store_call_plain) (simp_all add: example_db2_def prod_eq_iff example_store_facts(3))
  then have res: "reserve_durable_fence (example_binding 1) (example_admission 1) example_dex1 = (Inr True, example_dex1\<lparr>dx_db := example_db2\<rparr>)"
    by (simp add: reserve_durable_fence_def except_exception_def catch_def andthen_def ret_def example_admission_def)
  have "attempt_dispatch example_sha (\<lambda>_. Loaded (example_document 1)) (example_binding 1) (example_admission 1) example_call
      (example_dex1\<lparr>dx_db := example_db2\<rparr>) = (Inr example_outcome, example_dex5)"
    using example_dispatch example_collect by (simp add: attempt_dispatch_def andthen_def example_call_def)
  then have "attempt_locked example_sha (\<lambda>_. Loaded (example_document 1)) (example_binding 1) (example_admission 1) example_call example_dex1
      = (Inr example_outcome, example_dex5)"
    by (simp add: attempt_locked_def andthen_def probe find res bi_identity_def)
  then show ?thesis by (simp add: run_attempt_def andthen_def catch_def example_decide ret_def)
qed

lemma example_dex_reachable:
  "dex_reachable example_sha (\<lambda>_. Loaded (example_document 1)) True example_dex"
  "dex_reachable example_sha (\<lambda>_. Loaded (example_document 1)) True example_dex5"
proof -
  have "dx_db dex_initial = empty_executions" by (simp add: dex_initial_def)
  then have "dex_step example_sha (\<lambda>_. Loaded (example_document 1)) True dex_initial example_dex"
    unfolding example_dex_def using example_step by (intro d_other) simp
  then show *: "dex_reachable example_sha (\<lambda>_. Loaded (example_document 1)) True example_dex"
    unfolding dex_steps_def by blast
  have "dex_step example_sha (\<lambda>_. Loaded (example_document 1)) True example_dex example_dex5"
    by (rule d_run[OF example_run])
  then show "dex_reachable example_sha (\<lambda>_. Loaded (example_document 1)) True example_dex5"
    using * unfolding dex_steps_def by auto
qed

lemma example_sent: "dx_sent example_dex5 = [(''x1'', ''a1'')]" "dx_db example_dex5 = example_db5"
  by (simp_all add: example_dex5_def example_dex3_def)

theorem dispatch_at_most_once_witness:
  "(''x1'', ''a1'') \<in> set (dx_sent example_dex5) \<and> count_list (dx_sent example_dex5) (''x1'', ''a1'') \<le> 1
    \<and> (\<exists>w. select_fence ''x1'' ''a1'' (dx_db example_dex5) = Some w)"
  using dispatch_at_most_once[OF example_dex_reachable(2), of "(''x1'', ''a1'')"] by (simp add: example_sent)

theorem admission_frozen_witness:
  "select_decision ''x1'' ''a1'' (dx_db (example_dex5\<lparr>dx_records := Map.empty, dx_fenced := {}\<rparr>)) = Some (record_decision (example_admission 1))"
proof -
  have "select_decision ''x1'' ''a1'' example_db5 = Some (record_decision (example_admission 1))" by code_simp
  moreover have "dex_steps example_sha (\<lambda>_. Loaded (example_document 1)) True example_dex5
      (example_dex5\<lparr>dx_records := Map.empty, dx_fenced := {}\<rparr>)"
    unfolding dex_steps_def using d_restart by blast
  ultimately show ?thesis using admission_frozen[OF example_dex_reachable(2)] by (metis example_sent(2))
qed

theorem completed_has_receipt_witness:
  "dx_sent example_dex5 = [(''x1'', ''a1'')] \<and> (\<exists>rc. get_receipt example_sha (rc_receipt_id rc) (dx_db example_dex5) = Inr rc)"
proof -
  have "wo_status example_outcome = ''COMPLETED''" by (simp add: example_outcome_def)
  from completed_has_receipt[OF example_dex_reachable(1) example_run this] show ?thesis by (auto simp: bi_identity_def)
qed

theorem accepted_evidence_bound_witness: "distinct (map da_ref (ce_artifacts (example_evidence 1))) \<and> length (ce_artifacts (example_evidence 1)) \<le> 16"
  using accepted_evidence_bound[OF example_decode(1)] by blast

theorem generation_zero_escapes_witness:
  "\<exists>f. attempt_collect example_sha (\<lambda>_. Loaded (example_document 0)) (example_binding 0) (example_admission 0) example_call example_dex3
     = (Inl (ValueErr f), example_dex3)"
  by (rule generation_zero_escapes[OF _ example_decode(2)]) (simp_all add: example_call_def example_evidence_def example_admission_def)

end
