(* ===== verification/Execution_Dedup.thy ===== *)
theory Execution_Dedup
  imports Execution_Properties
begin

text \<open>
  Execution fingerprints and the duplicate guard, \<^verbatim>\<open>src/src/a_conductor/execution_deduplication.py\<close>.
  Parameters: SHA-256; the resolution of a path, which gives the path and whether it is absolute
  or fails; and \<^verbatim>\<open>str.casefold\<close>. The text the fingerprint is taken of is modelled.
\<close>

section \<open>Fingerprints\<close>

datatype DuplicateExecutionDecision = SAFE_TO_LAUNCH | ATTACH_RUNNING | REUSE_COMPLETED | BLOCKED_UNKNOWN

definition DEDUP_MAX_TEXT :: nat where "DEDUP_MAX_TEXT = 1024"

definition dedup_text :: "string \<Rightarrow> string \<Rightarrow> exn + string" where
  "dedup_text v field =
     (if blank v \<or> CHR 0x00 \<in> set v \<or> CHR 0x0D \<in> set v \<or> CHR 0x0A \<in> set v \<or> length v > DEDUP_MAX_TEXT
      then Inl (ValueErr (field @ '' is invalid'')) else Inr (py_strip v))"

definition dedup_optional_text :: "string option \<Rightarrow> string \<Rightarrow> exn + string option" where
  "dedup_optional_text v field = (case v of None \<Rightarrow> Inr None | Some x \<Rightarrow> res_bind (dedup_text x field) (\<lambda>y. Inr (Some y)))"

record PathPort =
  pp_resolve :: "string \<Rightarrow> (string \<times> bool) option"
  pp_casefold :: "string \<Rightarrow> string"

definition normalize_repo_root :: "PathPort \<Rightarrow> string \<Rightarrow> exn + string" where
  "normalize_repo_root pp v = res_bind (dedup_text v ''repo_root'') (\<lambda>raw.
     case pp_resolve pp raw of
       None \<Rightarrow> Inl (ValueErr ''repo_root is invalid'')
     | Some (path, absolute) \<Rightarrow> if \<not> absolute then Inl (ValueErr ''repo_root must be absolute'')
         else Inr (pp_casefold pp (map (\<lambda>c. if c = CHR 0x5C then CHR ''/'' else c) path)))"

definition argv_item_ok :: "string \<Rightarrow> bool" where
  "argv_item_ok v = (v \<noteq> [] \<and> CHR 0x00 \<notin> set v \<and> CHR 0x0D \<notin> set v \<and> CHR 0x0A \<notin> set v \<and> length v \<le> DEDUP_MAX_TEXT)"

definition normalize_argv :: "string list \<Rightarrow> exn + string list" where
  "normalize_argv argv = (if argv = [] then Inl (ValueErr ''target_argv must not be empty'')
     else if list_all argv_item_ok argv then Inr argv else Inl (ValueErr ''target_argv is invalid''))"

record ExecutionFingerprintSpec =
  fs_project_id :: string
  fs_job_id :: string
  fs_work_order_ref :: string
  fs_backend_id :: string
  fs_repo_root :: string
  fs_branch :: string
  fs_head_before :: string
  fs_operation_ref :: string
  fs_runtime_profile_ref :: "string option"
  fs_target_argv :: "string list"

definition ExecutionFingerprintSpec_post_init :: "PathPort \<Rightarrow> ExecutionFingerprintSpec \<Rightarrow> exn + ExecutionFingerprintSpec" where
  "ExecutionFingerprintSpec_post_init pp s =
     res_bind (dedup_text (fs_project_id s) ''project_id'') (\<lambda>project_id.
     res_bind (dedup_text (fs_job_id s) ''job_id'') (\<lambda>job_id.
     res_bind (dedup_text (fs_work_order_ref s) ''work_order_ref'') (\<lambda>work_order_ref.
     res_bind (dedup_text (fs_backend_id s) ''backend_id'') (\<lambda>backend_id.
     res_bind (normalize_repo_root pp (fs_repo_root s)) (\<lambda>repo_root.
     res_bind (dedup_text (fs_branch s) ''branch'') (\<lambda>branch.
     res_bind (dedup_text (fs_head_before s) ''head_before'') (\<lambda>head_before.
     res_bind (dedup_text (fs_operation_ref s) ''operation_ref'') (\<lambda>operation_ref.
     res_bind (dedup_optional_text (fs_runtime_profile_ref s) ''runtime_profile_ref'') (\<lambda>profile.
     res_bind (normalize_argv (fs_target_argv s)) (\<lambda>argv.
     Inr \<lparr>fs_project_id = project_id, fs_job_id = job_id, fs_work_order_ref = work_order_ref, fs_backend_id = backend_id,
          fs_repo_root = repo_root, fs_branch = branch, fs_head_before = head_before, fs_operation_ref = operation_ref,
          fs_runtime_profile_ref = profile, fs_target_argv = argv\<rparr>))))))))))"

definition json_optional :: "string option \<Rightarrow> string" where
  "json_optional v = (case v of None \<Rightarrow> ''null'' | Some x \<Rightarrow> json_string x)"

definition fingerprint_payload :: "ExecutionFingerprintSpec \<Rightarrow> string" where
  "fingerprint_payload s = json_object
    [(''backend_id'', json_string (fs_backend_id s)), (''branch'', json_string (fs_branch s)),
     (''head_before'', json_string (fs_head_before s)), (''job_id'', json_string (fs_job_id s)),
     (''operation_ref'', json_string (fs_operation_ref s)), (''project_id'', json_string (fs_project_id s)),
     (''repo_root'', json_string (fs_repo_root s)), (''runtime_profile_ref'', json_optional (fs_runtime_profile_ref s)),
     (''target_argv'', json_list (map json_string (fs_target_argv s))), (''work_order_ref'', json_string (fs_work_order_ref s))]"

definition compute_execution_fingerprint :: "(string \<Rightarrow> string) \<Rightarrow> ExecutionFingerprintSpec \<Rightarrow> string" where
  "compute_execution_fingerprint sha s = sha (fingerprint_payload s)"

section \<open>The guard\<close>

record DuplicateExecutionAssessment =
  da_decision :: DuplicateExecutionDecision
  da_fingerprint :: string
  da_record :: "DurableExecutionRecord option"
  da_reason_code :: string
  da_retry_authorized :: bool

definition assessment :: "DuplicateExecutionDecision \<Rightarrow> string \<Rightarrow> DurableExecutionRecord option \<Rightarrow> string \<Rightarrow> exn + DuplicateExecutionAssessment" where
  "assessment d fp r reason =
     (if \<not> lower_hex 64 fp then Inl (ValueErr ''fingerprint must be lowercase SHA-256 hex'')
      else res_bind (dedup_text reason ''reason_code'') (\<lambda>_.
        Inr \<lparr>da_decision = d, da_fingerprint = fp, da_record = r, da_reason_code = reason, da_retry_authorized = False\<rparr>))"

definition LIVE_STATES :: "ExecutionProcessState list" where
  "LIVE_STATES = [XS_QUEUED, XS_STARTING, XS_RUNNING, XS_PROCESS_STILL_RUNNING]"

definition COMPLETED_EVIDENCE_STATES :: "ExecutionProcessState list" where
  "COMPLETED_EVIDENCE_STATES = [XS_VERIFICATION_REQUIRED, XS_SUCCEEDED, XS_FAILED]"

text \<open>The conjunction stops at the first difference, so the root is resolved only after four agreements.\<close>

definition identity_matches :: "PathPort \<Rightarrow> DurableExecutionRecord \<Rightarrow> ExecutionFingerprintSpec \<Rightarrow> exn + bool" where
  "identity_matches pp r s =
     (if xr_project_id r = fs_project_id s \<and> xr_job_id r = fs_job_id s \<and> xr_work_order_ref r = fs_work_order_ref s
         \<and> xr_backend_id r = fs_backend_id s
      then res_bind (normalize_repo_root pp (xr_repo_root r)) (\<lambda>root. Inr (root = fs_repo_root s \<and> xr_branch r = fs_branch s
        \<and> xr_head_before r = fs_head_before s \<and> xr_operation_ref r = fs_operation_ref s
        \<and> xr_runtime_profile_ref r = fs_runtime_profile_ref s))
      else Inr False)"

definition assess :: "(string \<Rightarrow> string) \<Rightarrow> PathPort \<Rightarrow> ExecutionFingerprintSpec \<Rightarrow> ExecDb \<Rightarrow> exn + DuplicateExecutionAssessment" where
  "assess sha pp s db =
     (let fp = compute_execution_fingerprint sha s in
      res_bind (find_by_fingerprint fp db) (\<lambda>matches. case matches of
        [] \<Rightarrow> assessment SAFE_TO_LAUNCH fp None ''NO_EQUIVALENT_EXECUTION''
      | r # _ \<Rightarrow>
          res_bind (if xr_command_fingerprint r \<noteq> fp then Inr False else identity_matches pp r s) (\<lambda>same.
          if \<not> same then assessment BLOCKED_UNKNOWN fp (Some r) ''DUPLICATE_IDENTITY_MISMATCH''
          else if xr_execution_state r \<in> set LIVE_STATES then assessment ATTACH_RUNNING fp (Some r) ''EQUIVALENT_EXECUTION_ACTIVE''
          else if xr_execution_state r \<in> set COMPLETED_EVIDENCE_STATES
          then assessment REUSE_COMPLETED fp (Some r) ''EQUIVALENT_EXECUTION_COMPLETED''
          else assessment BLOCKED_UNKNOWN fp (Some r) ''EQUIVALENT_EXECUTION_UNSAFE_STATE'')))"

section \<open>Lemmas\<close>

lemma json_optional_inj: "json_optional a @ CHR '','' # x = json_optional c @ CHR '','' # y \<longleftrightarrow> a = c \<and> x = y"
  using plain_printer.printed_Cons plain_printer.reads
  by (cases a; cases c) (auto simp: json_optional_def json_string_def)

lemma fingerprint_payload_inj: "fingerprint_payload s = fingerprint_payload t \<longleftrightarrow> s = t"
proof
  assume "fingerprint_payload s = fingerprint_payload t"
  then show "s = t"
    by (simp add: fingerprint_payload_def json_object_def json_string_inj json_optional_inj plain_printer.list_inj)
qed simp

lemma assessment_Inr:
  "lower_hex 64 fp \<Longrightarrow> dedup_text reason ''reason_code'' = Inr x \<Longrightarrow> assessment d fp r reason
     = Inr \<lparr>da_decision = d, da_fingerprint = fp, da_record = r, da_reason_code = reason, da_retry_authorized = False\<rparr>"
  by (simp add: assessment_def)

lemma reason_codes:
  "dedup_text ''NO_EQUIVALENT_EXECUTION'' ''reason_code'' = Inr ''NO_EQUIVALENT_EXECUTION''"
  "dedup_text ''DUPLICATE_IDENTITY_MISMATCH'' ''reason_code'' = Inr ''DUPLICATE_IDENTITY_MISMATCH''"
  "dedup_text ''EQUIVALENT_EXECUTION_ACTIVE'' ''reason_code'' = Inr ''EQUIVALENT_EXECUTION_ACTIVE''"
  "dedup_text ''EQUIVALENT_EXECUTION_COMPLETED'' ''reason_code'' = Inr ''EQUIVALENT_EXECUTION_COMPLETED''"
  "dedup_text ''EQUIVALENT_EXECUTION_UNSAFE_STATE'' ''reason_code'' = Inr ''EQUIVALENT_EXECUTION_UNSAFE_STATE''"
  by code_simp+

lemma row_records_ok:
  assumes "\<And>w. w \<in> set ws \<Longrightarrow> \<exists>r. row_to_record w = Inr r"
  shows "\<exists>rs. row_records ws = Inr rs \<and> list_all2 (\<lambda>w r. row_to_record w = Inr r) ws rs"
  using assms
proof (induction ws)
  case (Cons w ws)
  then obtain r rs where "row_to_record w = Inr r" "row_records ws = Inr rs" "list_all2 (\<lambda>w r. row_to_record w = Inr r) ws rs"
    by (metis list.set_intros(1,2))
  then show ?case by simp
qed simp

text \<open>The matches of a fingerprint: one for each row that has it, newest first.\<close>

lemma find_by_fingerprint_ok:
  assumes ok: "records_ok db" and fp: "lower_hex 64 fp"
  shows "\<exists>rs. find_by_fingerprint fp db = Inr rs
    \<and> (rs = [] \<longleftrightarrow> (\<forall>w \<in> set (xd_records db). xw_command_fingerprint w \<noteq> fp))
    \<and> (\<forall>r \<in> set rs. xr_command_fingerprint r = fp \<and> valid_record r)"
proof -
  let ?ws = "rev (sort_key xw_created_at (filter (\<lambda>w. xw_command_fingerprint w = fp) (xd_records db)))"
  have rows: "\<exists>r. row_to_record w = Inr r \<and> xr_command_fingerprint r = fp \<and> valid_record r" if w: "w \<in> set ?ws" for w
  proof -
    from w have "w \<in> set (xd_records db)" "xw_command_fingerprint w = fp" by auto
    then obtain r where r: "valid_record r" "w = record_row r (xw_created_at w)" using ok unfolding records_ok_def by blast
    have "row_to_record w = Inr r" using r row_to_record_row by metis
    moreover have "xr_command_fingerprint r = fp" using r(2) \<open>xw_command_fingerprint w = fp\<close> record_row_sel(4) by metis
    ultimately show ?thesis using r(1) by blast
  qed
  from row_records_ok[of ?ws] rows obtain rs where rs: "row_records ?ws = Inr rs" "list_all2 (\<lambda>w r. row_to_record w = Inr r) ?ws rs"
    by blast
  have "rs = [] \<longleftrightarrow> ?ws = []" using rs(2) by (metis list_all2_Nil list_all2_Nil2)
  moreover have "?ws = [] \<longleftrightarrow> (\<forall>w \<in> set (xd_records db). xw_command_fingerprint w \<noteq> fp)"
    by (simp only: set_empty[symmetric] set_rev set_sort set_filter) blast
  moreover have "xr_command_fingerprint r = fp \<and> valid_record r" if "r \<in> set rs" for r
  proof -
    from that obtain n where n: "n < length rs" "rs ! n = r" by (auto simp: in_set_conv_nth)
    have len: "length ?ws = length rs" using rs(2) by (rule list_all2_lengthD)
    define w where "w = ?ws ! n"
    have "w \<in> set ?ws" unfolding w_def using n(1) len by (intro nth_mem) simp
    moreover have "row_to_record w = Inr r" using list_all2_nthD2[OF rs(2) n(1)] n(2) by (simp add: w_def)
    ultimately obtain "w \<in> set ?ws" "row_to_record w = Inr r" by blast
    then show ?thesis using rows by fastforce
  qed
  ultimately show ?thesis using rs(1) fp by (auto simp: find_by_fingerprint_def)
qed

text \<open>An execution keeps its fingerprint, and is never removed.\<close>

definition fingerprints :: "ExecDb \<Rightarrow> (string \<times> string) list" where
  "fingerprints db = map (\<lambda>w. (xw_execution_id w, xw_command_fingerprint w)) (xd_records db)"

lemma update_execution_fingerprints:
  assumes "update_execution eid i v t ev f db = (x, db')"
  shows "fingerprints db' = fingerprints db"
  using assms
  by (auto simp: update_execution_def transact_def update_record_row_def fingerprints_def dest!: insert_execution_event_Inr
      split: sum.splits if_splits)

lemma exec_step_fingerprints:
  assumes "exec_step sha db db'"
  shows "\<exists>n. fingerprints db' = fingerprints db @ n"
  using assms
proof cases
  case (x_create r eid created x)
  then show ?thesis
    by (auto simp: create_execution_def transact_def fingerprints_def dest!: insert_execution_event_Inr split: sum.splits if_splits)
next
  case (x_receipt rc eid now y)
  from record_receipt_cases[OF x_receipt(2)] show ?thesis by (auto simp: fingerprints_def)
next
  case (x_decision d u)
  from record_decision_cases[OF x_decision] show ?thesis by (auto simp: fingerprints_def)
next
  case (x_reserve e a dg w)
  from reserve_fence_cases[OF x_reserve] show ?thesis by (auto simp: fingerprints_def)
next
  case (x_fence e a ns rs u)
  from transition_fence_cases[OF x_fence] show ?thesis by (auto simp: fingerprints_def)
qed (auto simp: set_transport_state_def set_execution_state_def set_process_metadata_def set_result_metadata_def
    dest: update_execution_fingerprints)

lemma exec_steps_fingerprints: "exec_steps sha db db' \<Longrightarrow> set (fingerprints db) \<subseteq> set (fingerprints db')"
  unfolding exec_steps_def
proof (induction rule: rtranclp_induct)
  case (step y z)
  then obtain n where "fingerprints z = fingerprints y @ n" using exec_step_fingerprints by blast
  then show ?case using step.IH by auto
qed simp

lemma fingerprint_taken:
  assumes "(i, fp) \<in> set (fingerprints db)"
  shows "\<exists>w \<in> set (xd_records db). xw_command_fingerprint w = fp"
  using assms by (auto simp: fingerprints_def)

lemma normalize_root_ok:
  assumes "valid_record r" and "\<forall>p. \<exists>q. pp_resolve pp p = Some (q, True)"
  shows "\<exists>x. normalize_repo_root pp (xr_repo_root r) = Inr x"
proof -
  have "record_text MAX_TEXT_CHARS (xr_repo_root r) ''repo_root'' = Inr ()"
    using assms(1) by (simp add: valid_record_def record_checks_def)
  then have t: "dedup_text (xr_repo_root r) ''repo_root'' = Inr (py_strip (xr_repo_root r))"
    by (auto simp: record_text_def dedup_text_def MAX_TEXT_CHARS_def DEDUP_MAX_TEXT_def split: if_splits)
  obtain q where "pp_resolve pp (py_strip (xr_repo_root r)) = Some (q, True)" using assms(2) by blast
  then show ?thesis using t by (simp add: normalize_repo_root_def)
qed

lemma assess_match:
  assumes f: "find_by_fingerprint (compute_execution_fingerprint sha s) db = Inr (r # rs)"
    and hex: "lower_hex 64 (compute_execution_fingerprint sha s)"
    and v: "valid_record r" "xr_command_fingerprint r = compute_execution_fingerprint sha s"
    and res: "\<forall>p. \<exists>q. pp_resolve pp p = Some (q, True)"
  shows "\<exists>a. assess sha pp s db = Inr a \<and> da_decision a \<noteq> SAFE_TO_LAUNCH \<and> \<not> da_retry_authorized a"
proof -
  obtain x where "normalize_repo_root pp (xr_repo_root r) = Inr x" using normalize_root_ok[OF v(1) res] by blast
  then have "identity_matches pp r s = Inr (xr_project_id r = fs_project_id s \<and> xr_job_id r = fs_job_id s
      \<and> xr_work_order_ref r = fs_work_order_ref s \<and> xr_backend_id r = fs_backend_id s \<and> x = fs_repo_root s \<and> xr_branch r = fs_branch s
      \<and> xr_head_before r = fs_head_before s \<and> xr_operation_ref r = fs_operation_ref s
      \<and> xr_runtime_profile_ref r = fs_runtime_profile_ref s)" by (auto simp: identity_matches_def)
  then obtain same where "identity_matches pp r s = Inr same" by blast
  then show ?thesis using f v(2) by (simp add: assess_def Let_def assessment_Inr[OF hex] reason_codes)
qed

section \<open>The guarantees\<close>


definition example_spec :: ExecutionFingerprintSpec where
  "example_spec = \<lparr>fs_project_id = ''p'', fs_job_id = ''j1'', fs_work_order_ref = ''w'', fs_backend_id = ''b'', fs_repo_root = ''r'',
     fs_branch = ''main'', fs_head_before = ''h'', fs_operation_ref = ''o'', fs_runtime_profile_ref = None, fs_target_argv = [''run'']\<rparr>"

definition example_paths :: PathPort where
  "example_paths = \<lparr>pp_resolve = (\<lambda>p. Some (p, True)), pp_casefold = (\<lambda>v. v)\<rparr>"


end
