(* ===== verification/Transport_Recovery.thy ===== *)
theory Transport_Recovery
  imports Execution_Properties Job_Store
begin

text \<open>
  The transport service, \<^verbatim>\<open>src/src/a_conductor/transport_recovery.py\<close>, over the execution store
  and the job store: the transport state of an execution changes only for the worker that
  holds its durable job.
\<close>

record TransportStores =
  tx_executions :: ExecDb
  tx_jobs :: JobDb

definition on_executions :: "(ExecDb, 'a) action \<Rightarrow> (TransportStores, 'a) action" where
  "on_executions m s = (case m (tx_executions s) of (r, db) \<Rightarrow> (r, s\<lparr>tx_executions := db\<rparr>))"

definition on_jobs :: "(JobDb, 'a) action \<Rightarrow> (TransportStores, 'a) action" where
  "on_jobs m s = (case m (tx_jobs s) of (r, db) \<Rightarrow> (r, s\<lparr>tx_jobs := db\<rparr>))"

record TransportMutationOutcome =
  tm_record :: DurableExecutionRecord
  tm_job :: JobRuntimeState
  tm_changed :: bool

definition evidence_head :: "char \<Rightarrow> bool" where
  "evidence_head c = (c \<in> set ''ABCDEFGHIJKLMNOPQRSTUVWXYZabcdefghijklmnopqrstuvwxyz0123456789'')"

definition evidence_ok :: "string \<Rightarrow> bool" where
  "evidence_ok v = (case v of [] \<Rightarrow> False
     | c # cs \<Rightarrow> evidence_head c \<and> length cs \<le> 255 \<and> list_all (\<lambda>c. evidence_head c \<or> c \<in> set ''._:/-'') cs)"

definition validate_evidence :: "string option \<Rightarrow> bool \<Rightarrow> exn + string option" where
  "validate_evidence v required = (case v of
     None \<Rightarrow> if required then Inl (TransportRecoveryErr ''TRANSPORT_EVIDENCE_REQUIRED'') else Inr None
   | Some x \<Rightarrow> if evidence_ok x then Inr (Some x) else Inl (TransportRecoveryErr ''TRANSPORT_EVIDENCE_INVALID''))"

definition recode :: "exn \<Rightarrow> exn \<Rightarrow> exn \<Rightarrow> exn" where
  "recode old new e = (if e = old then new else e)"

definition load_owned :: "string \<Rightarrow> (TransportStores, DurableExecutionRecord \<times> JobRuntimeState) action" where
  "load_owned i =
     andthen (catch (on_executions (\<lambda>db. (get_execution i db, db)))
        (\<lambda>e. throw (recode (ExecutionStoreErr ''EXECUTION_NOT_FOUND'') (TransportRecoveryErr ''TRANSPORT_EXECUTION_NOT_FOUND'') e)))
     (\<lambda>record.
     andthen (catch (on_jobs (get_job (xr_job_id record)))
        (\<lambda>e. throw (recode (JobStoreErr ''JOB_NOT_FOUND'') (TransportRecoveryErr ''TRANSPORT_JOB_NOT_FOUND'') e)))
     (\<lambda>job.
     if js_project_id job \<noteq> xr_project_id record then throw (TransportRecoveryErr ''TRANSPORT_PROJECT_IDENTITY_MISMATCH'')
     else if js_worker_id job = None then throw (TransportRecoveryErr ''TRANSPORT_OWNERSHIP_MISSING'')
     else if js_worker_id job \<noteq> Some (xr_worker_id record) then throw (TransportRecoveryErr ''TRANSPORT_OWNERSHIP_MISMATCH'')
     else ret (record, job)))"

definition mark_transport ::
  "string option \<Rightarrow> string \<Rightarrow> TransportState \<Rightarrow> int \<Rightarrow> string option \<Rightarrow> bool \<Rightarrow> (TransportStores, TransportMutationOutcome) action" where
  "mark_transport eid i target expected evidence_ref required =
     andthen (lift_res (positive_int expected ''expected_version'')) (\<lambda>_.
     andthen (lift_res (validate_evidence evidence_ref required)) (\<lambda>evidence.
     andthen (load_owned i) (\<lambda>(record, job).
     if xr_version record \<noteq> expected then throw (TransportRecoveryErr ''TRANSPORT_VERSION_CONFLICT'')
     else if xr_transport_state record = target then ret \<lparr>tm_record = record, tm_job = job, tm_changed = False\<rparr>
     else andthen (catch (on_executions (set_transport_state eid i target expected evidence))
            (\<lambda>e. throw (recode (ExecutionStoreErr ''EXECUTION_VERSION_CONFLICT'') (TransportRecoveryErr ''TRANSPORT_VERSION_CONFLICT'') e)))
          (\<lambda>updated. ret \<lparr>tm_record = updated, tm_job = job, tm_changed = True\<rparr>))))"

definition mark_connected ::
  "string option \<Rightarrow> string \<Rightarrow> int \<Rightarrow> string option \<Rightarrow> (TransportStores, TransportMutationOutcome) action" where
  "mark_connected eid i expected ev = mark_transport eid i TS_CONNECTED expected ev False"

definition mark_degraded ::
  "string option \<Rightarrow> string \<Rightarrow> int \<Rightarrow> string option \<Rightarrow> (TransportStores, TransportMutationOutcome) action" where
  "mark_degraded eid i expected ev = mark_transport eid i TS_DEGRADED expected ev True"

definition mark_lost ::
  "string option \<Rightarrow> string \<Rightarrow> int \<Rightarrow> string option \<Rightarrow> (TransportStores, TransportMutationOutcome) action" where
  "mark_lost eid i expected ev = mark_transport eid i TS_LOST expected ev True"

definition mark_unavailable ::
  "string option \<Rightarrow> string \<Rightarrow> int \<Rightarrow> string option \<Rightarrow> (TransportStores, TransportMutationOutcome) action" where
  "mark_unavailable eid i expected ev = mark_transport eid i TS_UNAVAILABLE expected ev True"

section \<open>Lemmas\<close>

lemma update_execution_reads:
  assumes ok: "records_ok db" and f: "keeps_identity f" and u: "update_execution eid i v t ev f db = (Inr x, db')"
  shows "\<exists>r. get_execution i db = Inr r \<and> xr_version r = v \<and> x = f r
    \<and> (\<forall>j. get_execution j db' = (if j = i then Inr (f r) else get_execution j db))"
proof -
  have st: "store_text i ''execution_id'' = Inr ()"
    using u by (auto simp: update_execution_def transact_def split: sum.splits)
  from update_execution_cases[OF ok f u] obtain w r where x: "x = f r" and w: "w \<in> set (xd_records db)"
    "w = record_row r (xw_created_at w)" and v: "valid_record r" "valid_record (f r)" "xr_execution_id r = i" "xr_version r = v"
    and recs: "xd_records db' = map (\<lambda>w. if xw_execution_id w = i then write_columns (f r) w else w) (xd_records db)"
    by auto
  have wi: "xw_execution_id w = i" using w(2) v(3) record_row_sel(1) by metis
  have "inj_on xw_execution_id (set (xd_records db))" using ok by (simp add: records_ok_def distinct_map)
  then have "fetchone (\<lambda>w. xw_execution_id w = i) (xd_records db) = Some w"
    using w(1) wi by (intro fetchone_unique) (auto dest: inj_onD)
  then have sel: "select_record i db = Inr w" by (simp add: select_record_def)
  have r: "row_to_record w = Inr r" using w(2) v(1) row_to_record_row by metis
  have keep: "xw_execution_id (write_columns (f r) w) = xw_execution_id w" for w by (simp add: write_columns_def)
  have "write_columns (f r) w = record_row (f r) (xw_created_at w)" using w(2) f unfolding keeps_identity_def by metis
  then have r': "row_to_record (write_columns (f r) w) = Inr (f r)" using v(2) row_to_record_row by simp
  have "get_execution j db' = (if j = i then Inr (f r) else get_execution j db)" for j
    using sel st r' by (auto simp: get_execution_def select_record_update[OF keep recs] split: sum.splits)
  moreover have "get_execution i db = Inr r" using st sel r by (simp add: get_execution_def)
  ultimately show ?thesis using x v(4) by blast
qed

lemma load_owned_cases:
  assumes "load_owned i s = (r, s')"
  shows "tx_executions s' = tx_executions s \<and> same_content (tx_jobs s) (tx_jobs s')
    \<and> (\<forall>rec job. r = Inr (rec, job) \<longrightarrow> get_execution i (tx_executions s) = Inr rec
         \<and> fst (get_job (xr_job_id rec) (tx_jobs s)) = Inr job \<and> js_project_id job = xr_project_id rec
         \<and> js_worker_id job = Some (xr_worker_id rec))"
proof (cases "get_execution i (tx_executions s)")
  case (Inl e)
  then show ?thesis using assms
    by (auto simp: load_owned_def andthen_def catch_def on_executions_def throw_def same_content_def)
next
  case (Inr rec)
  obtain x db where g: "get_job (xr_job_id rec) (tx_jobs s) = (x, db)" by fastforce
  have c: "same_content (tx_jobs s) db" using get_job_same[of "tx_jobs s" "xr_job_id rec"] g by simp
  show ?thesis
    using assms Inr g c
    by (cases x) (auto simp: load_owned_def andthen_def catch_def on_executions_def on_jobs_def throw_def ret_def split: if_splits)
qed

definition owned_post :: "TransportStores \<Rightarrow> string \<Rightarrow> TransportState \<Rightarrow> int \<Rightarrow> TransportMutationOutcome \<Rightarrow> TransportStores \<Rightarrow> bool" where
  "owned_post s i target v out s' \<longleftrightarrow> (\<exists>rec. get_execution i (tx_executions s) = Inr rec \<and> xr_version rec = v
     \<and> fst (get_job (xr_job_id rec) (tx_jobs s)) = Inr (tm_job out) \<and> js_worker_id (tm_job out) = Some (xr_worker_id rec)
     \<and> js_project_id (tm_job out) = xr_project_id rec
     \<and> tm_record out = (if xr_transport_state rec = target then rec else rec\<lparr>xr_transport_state := target, xr_version := v + 1\<rparr>)
     \<and> (\<forall>j. get_execution j (tx_executions s') = (if j = i then Inr (tm_record out) else get_execution j (tx_executions s))))"

lemma mark_owned:
  assumes ok: "records_ok (tx_executions s)" and l: "load_owned i s = (Inr (rec, job), s1)"
    and k: "(if xr_version rec \<noteq> v then throw (TransportRecoveryErr ''TRANSPORT_VERSION_CONFLICT'')
     else if xr_transport_state rec = target then ret \<lparr>tm_record = rec, tm_job = job, tm_changed = False\<rparr>
     else andthen (catch (on_executions (set_transport_state eid i target v evidence)) (\<lambda>e. throw (h e)))
          (\<lambda>updated. ret \<lparr>tm_record = updated, tm_job = job, tm_changed = True\<rparr>)) s1 = (r, s')"
  shows "tx_jobs s' = tx_jobs s1 \<and> (case r of Inl e \<Rightarrow> tx_executions s' = tx_executions s | Inr out \<Rightarrow> owned_post s i target v out s')"
proof -
  note lo = load_owned_cases[OF l]
  have get: "get_execution i (tx_executions s) = Inr rec" and ex: "tx_executions s1 = tx_executions s" using lo by simp_all
  consider "xr_version rec \<noteq> v" | "xr_version rec = v" "xr_transport_state rec = target"
    | "xr_version rec = v" "xr_transport_state rec \<noteq> target" by blast
  then show ?thesis
  proof cases
    case 1
    then show ?thesis using k ex by (auto simp: throw_def)
  next
    case 2
    then have "r = Inr \<lparr>tm_record = rec, tm_job = job, tm_changed = False\<rparr>" "s' = s1" using k by (simp_all add: ret_def)
    then show ?thesis using 2 lo get ex by (auto simp: owned_post_def)
  next
    case 3
    obtain y db where y: "set_transport_state eid i target v evidence (tx_executions s) = (y, db)" by fastforce
    show ?thesis
    proof (cases y)
      case (Inl e)
      have "db = tx_executions s"
        using update_execution_cases[OF ok setters_keep_identity(1) y[unfolded set_transport_state_def]] Inl by auto
      then show ?thesis using k 3 y Inl ex by (auto simp: andthen_def catch_def on_executions_def throw_def)
    next
      case (Inr x)
      from update_execution_reads[OF ok setters_keep_identity(1)] y Inr get
      have x: "x = rec\<lparr>xr_transport_state := target, xr_version := xr_version rec + 1\<rparr>"
        "\<forall>j. get_execution j db = (if j = i then Inr x else get_execution j (tx_executions s))"
        unfolding set_transport_state_def by fastforce+
      have "r = Inr \<lparr>tm_record = x, tm_job = job, tm_changed = True\<rparr>" "tx_executions s' = db" "tx_jobs s' = tx_jobs s1"
        using k 3 y Inr ex by (auto simp: andthen_def catch_def on_executions_def ret_def)
      then show ?thesis using 3 x lo get by (auto simp: owned_post_def)
    qed
  qed
qed

section \<open>The guarantee\<close>

text \<open>
  C17: The transport state of an execution changes only under the claim of its worker: a call
  that raises leaves the executions as they were; a call that returns has read the execution
  at the expected version and a durable job of the same project held by the worker of the
  execution, and afterwards the execution reads with the new transport state and the next
  version (or unchanged when it had that state), every other execution reads as before, and
  the jobs have not changed. A state other than CONNECTED is never recorded without evidence.
\<close>

theorem transport_owner_only:
  assumes "exec_reachable sha (tx_executions s)" and "mark_transport eid i target v ev (target \<noteq> TS_CONNECTED) s = (r, s')"
  shows "same_content (tx_jobs s) (tx_jobs s')
    \<and> (case r of
         Inl e \<Rightarrow> tx_executions s' = tx_executions s
       | Inr out \<Rightarrow> \<exists>rec. get_execution i (tx_executions s) = Inr rec \<and> xr_version rec = v
           \<and> fst (get_job (xr_job_id rec) (tx_jobs s)) = Inr (tm_job out) \<and> js_worker_id (tm_job out) = Some (xr_worker_id rec)
           \<and> js_project_id (tm_job out) = xr_project_id rec \<and> (target \<noteq> TS_CONNECTED \<longrightarrow> ev \<noteq> None)
           \<and> tm_record out = (if xr_transport_state rec = target then rec else rec\<lparr>xr_transport_state := target, xr_version := v + 1\<rparr>)
           \<and> (\<forall>j. get_execution j (tx_executions s') = (if j = i then Inr (tm_record out) else get_execution j (tx_executions s))))"
proof -
  have ok: "records_ok (tx_executions s)" using reachable_records_ok[OF assms(1)] .
  have refl: "same_content (tx_jobs s) (tx_jobs s)" by (simp add: same_content_def)
  obtain x s1 where l: "load_owned i s = (x, s1)" by fastforce
  note lo = load_owned_cases[OF l]
  show ?thesis
  proof (cases "1 \<le> v \<and> (\<exists>e. validate_evidence ev (target \<noteq> TS_CONNECTED) = Inr e)")
    case False
    then have "\<exists>e. r = Inl e" "s' = s"
      using assms(2) by (auto simp: mark_transport_def andthen_def lift_res_def positive_int_def split: sum.splits if_splits)
    then show ?thesis using refl by auto
  next
    case True
    then obtain e where e: "validate_evidence ev (target \<noteq> TS_CONNECTED) = Inr e" and v: "1 \<le> v" by blast
    have ev: "target \<noteq> TS_CONNECTED \<longrightarrow> ev \<noteq> None" using e by (auto simp: validate_evidence_def split: option.splits if_splits)
    show ?thesis
    proof (cases x)
      case (Inl err)
      then show ?thesis
        using assms(2) l lo e v by (auto simp: mark_transport_def andthen_def lift_res_def positive_int_def)
    next
      case (Inr y)
      then obtain rec job where x: "x = Inr (rec, job)" by (cases y) auto
      have "(if xr_version rec \<noteq> v then throw (TransportRecoveryErr ''TRANSPORT_VERSION_CONFLICT'')
         else if xr_transport_state rec = target then ret \<lparr>tm_record = rec, tm_job = job, tm_changed = False\<rparr>
         else andthen (catch (on_executions (set_transport_state eid i target v e))
                (\<lambda>e. throw (recode (ExecutionStoreErr ''EXECUTION_VERSION_CONFLICT'') (TransportRecoveryErr ''TRANSPORT_VERSION_CONFLICT'') e)))
              (\<lambda>updated. ret \<lparr>tm_record = updated, tm_job = job, tm_changed = True\<rparr>)) s1 = (r, s')"
        using assms(2) l x e v unfolding mark_transport_def by (simp add: andthen_def[of "load_owned i"] andthen_def[of "lift_res _"] lift_res_def positive_int_def)
      from mark_owned[OF ok l[unfolded x] this] show ?thesis
        using lo ev by (cases r) (auto simp: owned_post_def)
    qed
  qed
qed

definition example_transport :: TransportStores where
  "example_transport = \<lparr>tx_executions = snd (create_execution (Some ''e1'') ''t1''
      (example_execution\<lparr>xr_job_id := ''j'', xr_worker_id := ''w''\<rparr>) empty_executions), tx_jobs = sample_db3\<rparr>"

theorem transport_owner_only_witness:
  "\<exists>out s'. mark_transport (Some ''e2'') ''x1'' TS_LOST 1 (Some ''probe/7'') True example_transport = (Inr out, s')
    \<and> js_worker_id (tm_job out) = Some ''w'' \<and> get_execution ''x1'' (tx_executions s') = Inr (tm_record out)"
proof -
  let ?r = "example_execution\<lparr>xr_job_id := ''j'', xr_worker_id := ''w''\<rparr>"
  have "DurableExecutionRecord_post_init ?r = Inr ?r" by code_simp
  then have "valid_record ?r" by simp
  then have "exec_step sha empty_executions (tx_executions example_transport)" for sha
    using x_create[of ?r "Some ''e1''" "''t1''" empty_executions] by (simp add: example_transport_def) (metis prod.collapse)
  then have reach: "exec_reachable example_sha (tx_executions example_transport)" unfolding exec_steps_def by blast
  have "case fst (mark_transport (Some ''e2'') ''x1'' TS_LOST 1 (Some ''probe/7'') True example_transport) of
      Inl e \<Rightarrow> False | Inr out \<Rightarrow> js_worker_id (tm_job out) = Some ''w''" by code_simp
  then obtain out s' where o: "mark_transport (Some ''e2'') ''x1'' TS_LOST 1 (Some ''probe/7'') (TS_LOST \<noteq> TS_CONNECTED) example_transport = (Inr out, s')"
    "js_worker_id (tm_job out) = Some ''w''"
    by (cases "mark_transport (Some ''e2'') ''x1'' TS_LOST 1 (Some ''probe/7'') True example_transport") (auto split: sum.splits)
  from transport_owner_only[OF reach o(1)] o show ?thesis by auto
qed

end
