(* ===== verification/Elastic_Wip.thy ===== *)
theory Elastic_Wip
  imports Core_Domain
begin

text \<open>
  The elastic work-in-progress policy, \<^verbatim>\<open>src/src/a_conductor/elastic_wip_policy.py\<close>: how many
  borrowed lanes to park, to resume and to open, from the occupancy of the base lanes. Shown:
  the classifier answers every occupancy within the limits, and its own assertions and its
  contraction error are unreachable.
\<close>

section \<open>Facts\<close>

definition ACTIVE_MUTATION_LIMIT :: int where "ACTIVE_MUTATION_LIMIT = 3"

definition BORROWED_LANE_LIMIT :: int where "BORROWED_LANE_LIMIT = 2"

definition MUTABLE_CLAIM_LIMIT :: int where "MUTABLE_CLAIM_LIMIT = ACTIVE_MUTATION_LIMIT + BORROWED_LANE_LIMIT"

definition REVIEW_LANE_LIMIT :: int where "REVIEW_LANE_LIMIT = 1"

datatype GateState = GATE_READY | GATE_BLOCKED | GATE_UNKNOWN

fun gate_value :: "GateState \<Rightarrow> string" where
  "gate_value GATE_READY = ''READY''"
| "gate_value GATE_BLOCKED = ''BLOCKED''"
| "gate_value GATE_UNKNOWN = ''UNKNOWN''"

record ElasticWipFacts =
  ew_base_active :: int
  ew_base_waiting_ci :: int
  ew_base_waiting_approval :: int
  ew_base_waiting_glm :: int
  ew_base_waiting_jev :: int
  ew_base_waiting_external :: int
  ew_base_cooldown :: int
  ew_glm_wait_active_mutation_children :: int
  ew_glm_wait_unknown_mutation_children :: int
  ew_base_returning_ready :: int
  ew_base_blocked :: int
  ew_base_human_required :: int
  ew_borrowed_active :: int
  ew_borrowed_parked :: int
  ew_review_claimed :: int
  ew_ready_independent_candidates :: int
  ew_scope_gate :: GateState
  ew_claim_gate :: GateState
  ew_runtime_gate :: GateState

definition elastic_counts :: "ElasticWipFacts \<Rightarrow> (string \<times> int) list" where
  "elastic_counts f =
    [(''base_active'', ew_base_active f), (''base_waiting_ci'', ew_base_waiting_ci f),
     (''base_waiting_approval'', ew_base_waiting_approval f), (''base_waiting_glm'', ew_base_waiting_glm f),
     (''base_waiting_jev'', ew_base_waiting_jev f), (''base_waiting_external'', ew_base_waiting_external f),
     (''base_cooldown'', ew_base_cooldown f),
     (''glm_wait_active_mutation_children'', ew_glm_wait_active_mutation_children f),
     (''glm_wait_unknown_mutation_children'', ew_glm_wait_unknown_mutation_children f),
     (''base_returning_ready'', ew_base_returning_ready f), (''base_blocked'', ew_base_blocked f),
     (''base_human_required'', ew_base_human_required f), (''borrowed_active'', ew_borrowed_active f),
     (''borrowed_parked'', ew_borrowed_parked f), (''review_claimed'', ew_review_claimed f),
     (''ready_independent_candidates'', ew_ready_independent_candidates f)]"

fun check_counts :: "(string \<times> int) list \<Rightarrow> exn + unit" where
  "check_counts [] = Inr ()"
| "check_counts ((name, v) # rest) =
     (if v < 0 then Inl (ValueErr (''ELASTIC_WIP_FACTS_INVALID: '' @ name @ '' must be >= 0'')) else check_counts rest)"

definition ElasticWipFacts_post_init :: "ElasticWipFacts \<Rightarrow> exn + ElasticWipFacts" where
  "ElasticWipFacts_post_init f = res_bind (check_counts (elastic_counts f)) (\<lambda>_.
     if ew_glm_wait_active_mutation_children f + ew_glm_wait_unknown_mutation_children f > ew_base_waiting_glm f
     then Inl (ValueErr ''ELASTIC_WIP_FACTS_INVALID: GLM child evidence exceeds WAITING_GLM lanes'') else Inr f)"

definition base_claimed :: "ElasticWipFacts \<Rightarrow> int" where
  "base_claimed f = ew_base_active f + ew_base_waiting_ci f + ew_base_waiting_approval f + ew_base_waiting_glm f
     + ew_base_waiting_jev f + ew_base_waiting_external f + ew_base_cooldown f + ew_base_returning_ready f
     + ew_base_blocked f + ew_base_human_required f"

definition borrowed_claimed :: "ElasticWipFacts \<Rightarrow> int" where
  "borrowed_claimed f = ew_borrowed_active f + ew_borrowed_parked f"

definition borrowable_waits :: "ElasticWipFacts \<Rightarrow> int" where
  "borrowable_waits f =
     (let passive_glm_waits = ew_base_waiting_glm f - ew_glm_wait_active_mutation_children f - ew_glm_wait_unknown_mutation_children f
      in ew_base_waiting_ci f + ew_base_waiting_approval f + passive_glm_waits + ew_base_waiting_jev f
         + ew_base_waiting_external f + ew_base_cooldown f)"

definition active_base_mutations :: "ElasticWipFacts \<Rightarrow> int" where
  "active_base_mutations f = ew_base_active f + ew_glm_wait_active_mutation_children f + ew_glm_wait_unknown_mutation_children f"

section \<open>The classifier\<close>

record ElasticWipVerdict =
  ev_base_claimed :: int
  ev_borrowed_claimed :: int
  ev_review_claimed :: int
  ev_borrowable_waits :: int
  ev_active_mutation_total :: int
  ev_claimed_mutable_total :: int
  ev_borrowed_to_park :: int
  ev_borrowed_resume_target :: int
  ev_new_borrow_target :: int
  ev_active_mutation_after_contraction :: int
  ev_active_mutation_after_refill :: int
  ev_claimed_mutable_after_refill :: int
  ev_contraction_required :: bool
  ev_blockers :: "string list"

definition gate_blocker :: "string \<Rightarrow> GateState \<Rightarrow> string list" where
  "gate_blocker name g = (if g \<noteq> GATE_READY then [name @ ''_'' @ gate_value g] else [])"

definition wip_gate_blockers :: "ElasticWipFacts \<Rightarrow> string list" where
  "wip_gate_blockers f = gate_blocker ''SCOPE_GATE'' (ew_scope_gate f) @ gate_blocker ''CLAIM_GATE'' (ew_claim_gate f)
     @ gate_blocker ''RUNTIME_GATE'' (ew_runtime_gate f)"

definition validate_occupancy :: "ElasticWipFacts \<Rightarrow> exn + unit" where
  "validate_occupancy f =
     (if base_claimed f > ACTIVE_MUTATION_LIMIT then Inl (ValueErr ''WIP_OVERCOMMIT_BASE: base claims exceed 3'')
      else if borrowed_claimed f > BORROWED_LANE_LIMIT then Inl (ValueErr ''WIP_OVERCOMMIT_BORROWED: borrowed claims exceed 2'')
      else if base_claimed f + borrowed_claimed f > MUTABLE_CLAIM_LIMIT
      then Inl (ValueErr ''WIP_OVERCOMMIT_MUTABLE_CLAIMS: claims exceed 5'')
      else if ew_review_claimed f > REVIEW_LANE_LIMIT then Inl (ValueErr ''WIP_OVERCOMMIT_REVIEW: review claims exceed 1'')
      else if active_base_mutations f + ew_borrowed_active f > ACTIVE_MUTATION_LIMIT
      then Inl (ValueErr ''WIP_OVERCOMMIT_ACTIVE: active mutation exceeds 3'') else Inr ())"

definition lanes_to_park :: "ElasticWipFacts \<Rightarrow> int" where
  "lanes_to_park f = max (max 0 (active_base_mutations f + ew_base_returning_ready f + ew_borrowed_active f - ACTIVE_MUTATION_LIMIT))
     (ew_borrowed_active f - borrowable_waits f)"

text \<open>The refill of a headroom: lanes to resume, lanes to open and the blockers it adds.\<close>

definition refill :: "ElasticWipFacts \<Rightarrow> string list \<Rightarrow> int \<Rightarrow> int \<times> int \<times> string list" where
  "refill f gates admitted =
     (if gates = [] \<and> admitted > 0 then
        let resume_target = min (ew_borrowed_parked f) admitted;
            remaining = admitted - resume_target;
            free_borrow_claims = BORROWED_LANE_LIMIT - borrowed_claimed f;
            new_target = min (min remaining free_borrow_claims) (ew_ready_independent_candidates f)
        in (resume_target, new_target,
            if remaining > 0 \<and> free_borrow_claims > 0 \<and> ew_ready_independent_candidates f = 0
            then [''NO_INDEPENDENT_READY_WORK''] else [])
      else (0, 0, if admitted > 0 \<and> ew_ready_independent_candidates f = 0 then [''NO_INDEPENDENT_READY_WORK''] else []))"

definition classify_elastic_wip :: "ElasticWipFacts \<Rightarrow> exn + ElasticWipVerdict" where
  "classify_elastic_wip f =
     res_bind (validate_occupancy f) (\<lambda>_.
     let gates = wip_gate_blockers f; park = lanes_to_park f in
     if park > ew_borrowed_active f
     then Inl (ValueErr ''WIP_CONTRACTION_IMPOSSIBLE: insufficient borrowed active lanes'') else
     let after_park = ew_borrowed_active f - park;
         after_contraction = active_base_mutations f + ew_base_returning_ready f + after_park;
         headroom = ACTIVE_MUTATION_LIMIT - after_contraction;
         wait_headroom = max 0 (borrowable_waits f - after_park);
         admitted = min headroom wait_headroom;
         unknown = (if ew_glm_wait_unknown_mutation_children f \<noteq> 0 then [''WAITING_GLM_CHILD_STATUS_UNKNOWN''] else []);
         (resume_target, new_target, more) = refill f gates admitted;
         after_refill = after_contraction + resume_target + new_target;
         claimed_after = base_claimed f + borrowed_claimed f + new_target
     in if after_refill > ACTIVE_MUTATION_LIMIT
        then Inl (AssertionErr ''elastic WIP classifier exceeded active mutation limit'')
        else if claimed_after > MUTABLE_CLAIM_LIMIT
        then Inl (AssertionErr ''elastic WIP classifier exceeded mutable claim limit'')
        else Inr \<lparr>ev_base_claimed = base_claimed f, ev_borrowed_claimed = borrowed_claimed f,
               ev_review_claimed = ew_review_claimed f, ev_borrowable_waits = borrowable_waits f,
               ev_active_mutation_total = active_base_mutations f + ew_borrowed_active f,
               ev_claimed_mutable_total = base_claimed f + borrowed_claimed f,
               ev_borrowed_to_park = park, ev_borrowed_resume_target = resume_target, ev_new_borrow_target = new_target,
               ev_active_mutation_after_contraction = after_contraction, ev_active_mutation_after_refill = after_refill,
               ev_claimed_mutable_after_refill = claimed_after, ev_contraction_required = (park > 0),
               ev_blockers = gates @ unknown @ more\<rparr>)"

section \<open>Lemmas\<close>

lemmas wip_limits = ACTIVE_MUTATION_LIMIT_def BORROWED_LANE_LIMIT_def MUTABLE_CLAIM_LIMIT_def REVIEW_LANE_LIMIT_def

definition wip_facts_ok :: "ElasticWipFacts \<Rightarrow> bool" where
  "wip_facts_ok f \<longleftrightarrow> ElasticWipFacts_post_init f = Inr f"

lemma check_counts_Inr [simp]: "check_counts xs = Inr u \<longleftrightarrow> list_all (\<lambda>x. 0 \<le> snd x) xs"
  by (induction xs rule: check_counts.induct) auto

lemma wip_facts_okD:
  assumes "wip_facts_ok f"
  shows "0 \<le> ew_borrowed_active f" "0 \<le> ew_borrowed_parked f" "0 \<le> ew_ready_independent_candidates f"
    "0 \<le> borrowable_waits f" "0 \<le> active_base_mutations f" "0 \<le> ew_base_returning_ready f"
    "active_base_mutations f + ew_base_returning_ready f + borrowable_waits f \<le> base_claimed f"
    "0 \<le> ew_glm_wait_unknown_mutation_children f"
  using assms unfolding wip_facts_ok_def ElasticWipFacts_post_init_def
  by (auto simp: elastic_counts_def borrowable_waits_def active_base_mutations_def base_claimed_def split: if_splits)

lemma occupancy_Inr:
  assumes "validate_occupancy f = Inr u"
  shows "base_claimed f \<le> 3" "borrowed_claimed f \<le> 2" "ew_review_claimed f \<le> 1" "active_base_mutations f + ew_borrowed_active f \<le> 3"
  using assms by (auto simp: validate_occupancy_def wip_limits split: if_splits)

lemma lanes_to_park_bound:
  assumes "wip_facts_ok f" and "validate_occupancy f = Inr u"
  shows "0 \<le> lanes_to_park f" "lanes_to_park f \<le> ew_borrowed_active f"
  using wip_facts_okD[OF assms(1)] occupancy_Inr[OF assms(2)] by (auto simp: lanes_to_park_def wip_limits)

definition refill_of :: "ElasticWipFacts \<Rightarrow> int \<times> int \<times> string list" where
  "refill_of f = refill f (wip_gate_blockers f)
     (min (ACTIVE_MUTATION_LIMIT - (active_base_mutations f + ew_base_returning_ready f + (ew_borrowed_active f - lanes_to_park f)))
          (max 0 (borrowable_waits f - (ew_borrowed_active f - lanes_to_park f))))"

lemma refill_bounds:
  assumes "wip_facts_ok f" and "validate_occupancy f = Inr u" and "refill_of f = (r, n, bs)"
  shows "0 \<le> r \<and> 0 \<le> n \<and> r \<le> ew_borrowed_parked f \<and> borrowed_claimed f + n \<le> 2 \<and> n \<le> ew_ready_independent_candidates f
    \<and> active_base_mutations f + ew_base_returning_ready f + (ew_borrowed_active f - lanes_to_park f) + r + n \<le> 3
    \<and> (ew_borrowed_active f - lanes_to_park f) + r + n \<le> borrowable_waits f
    \<and> (wip_gate_blockers f \<noteq> [] \<longrightarrow> r = 0 \<and> n = 0)"
proof -
  note F = wip_facts_okD[OF assms(1)] and B = occupancy_Inr[OF assms(2)] and K = lanes_to_park_bound[OF assms(1,2)]
  have park: "ew_borrowed_active f - lanes_to_park f \<le> borrowable_waits f"
    "active_base_mutations f + ew_base_returning_ready f + (ew_borrowed_active f - lanes_to_park f) \<le> 3"
    by (auto simp: lanes_to_park_def wip_limits)
  have "0 \<le> borrowed_claimed f" using F by (simp add: borrowed_claimed_def)
  then show ?thesis
    using assms(3) F B K park by (auto simp: refill_of_def refill_def Let_def wip_limits split: if_splits)
qed

lemma classify_eq:
  assumes ok: "wip_facts_ok f" and v: "validate_occupancy f = Inr u" and r: "refill_of f = (r, n, bs)"
  shows "classify_elastic_wip f = Inr
    \<lparr>ev_base_claimed = base_claimed f, ev_borrowed_claimed = borrowed_claimed f, ev_review_claimed = ew_review_claimed f,
     ev_borrowable_waits = borrowable_waits f, ev_active_mutation_total = active_base_mutations f + ew_borrowed_active f,
     ev_claimed_mutable_total = base_claimed f + borrowed_claimed f, ev_borrowed_to_park = lanes_to_park f,
     ev_borrowed_resume_target = r, ev_new_borrow_target = n,
     ev_active_mutation_after_contraction = active_base_mutations f + ew_base_returning_ready f + (ew_borrowed_active f - lanes_to_park f),
     ev_active_mutation_after_refill = active_base_mutations f + ew_base_returning_ready f + (ew_borrowed_active f - lanes_to_park f) + r + n,
     ev_claimed_mutable_after_refill = base_claimed f + borrowed_claimed f + n, ev_contraction_required = (lanes_to_park f > 0),
     ev_blockers = wip_gate_blockers f
       @ (if ew_glm_wait_unknown_mutation_children f \<noteq> 0 then [''WAITING_GLM_CHILD_STATUS_UNKNOWN''] else []) @ bs\<rparr>"
proof -
  note b = refill_bounds[OF ok v r] and o' = occupancy_Inr[OF v] and p = lanes_to_park_bound[OF ok v]
  have c: "base_claimed f + borrowed_claimed f + n \<le> 5" using b o' by linarith
  show ?thesis
    unfolding classify_elastic_wip_def Let_def using v p(2) r[unfolded refill_of_def] b c by (auto simp: wip_limits)
qed

section \<open>The guarantee\<close>

text \<open>
  C21: The elastic policy answers every valid occupancy: it raises exactly when the occupancy
  exceeds a limit, and neither its assertions nor its contraction error are reachable. Its
  verdict keeps active mutations within 3 and mutable claims within 5, parks only active
  borrowed lanes, resumes only parked ones, lets borrowed lanes use only passive waits, opens
  at most one lane per candidate, and opens or resumes nothing while a gate is not ready.
\<close>

theorem elastic_wip_bounded:
  assumes "ElasticWipFacts_post_init f = Inr f"
  shows "case classify_elastic_wip f of
      Inl e \<Rightarrow> validate_occupancy f = Inl e
    | Inr v \<Rightarrow> validate_occupancy f = Inr () \<and> ev_active_mutation_after_refill v \<le> 3 \<and> ev_claimed_mutable_after_refill v \<le> 5
        \<and> 0 \<le> ev_borrowed_to_park v \<and> ev_borrowed_to_park v \<le> ew_borrowed_active f
        \<and> 0 \<le> ev_borrowed_resume_target v \<and> ev_borrowed_resume_target v \<le> ew_borrowed_parked f
        \<and> 0 \<le> ev_new_borrow_target v \<and> ev_new_borrow_target v \<le> ew_ready_independent_candidates f
        \<and> ew_borrowed_active f - ev_borrowed_to_park v + ev_borrowed_resume_target v + ev_new_borrow_target v \<le> borrowable_waits f
        \<and> (\<not> (ew_scope_gate f = GATE_READY \<and> ew_claim_gate f = GATE_READY \<and> ew_runtime_gate f = GATE_READY)
             \<longrightarrow> ev_borrowed_resume_target v = 0 \<and> ev_new_borrow_target v = 0)"
proof (cases "validate_occupancy f")
  case (Inl e)
  then show ?thesis by (simp add: classify_elastic_wip_def)
next
  case (Inr u)
  have ok: "wip_facts_ok f" using assms by (simp add: wip_facts_ok_def)
  obtain r n bs where r: "refill_of f = (r, n, bs)" by (cases "refill_of f") auto
  have gates: "wip_gate_blockers f = [] \<longleftrightarrow> ew_scope_gate f = GATE_READY \<and> ew_claim_gate f = GATE_READY \<and> ew_runtime_gate f = GATE_READY"
    by (auto simp: wip_gate_blockers_def gate_blocker_def)
  show ?thesis
    unfolding classify_eq[OF ok Inr r]
    using refill_bounds[OF ok Inr r] occupancy_Inr[OF Inr] lanes_to_park_bound[OF ok Inr] gates Inr by auto
qed

definition example_facts :: ElasticWipFacts where
  "example_facts = \<lparr>ew_base_active = 1, ew_base_waiting_ci = 1, ew_base_waiting_approval = 1, ew_base_waiting_glm = 0,
     ew_base_waiting_jev = 0, ew_base_waiting_external = 0, ew_base_cooldown = 0, ew_glm_wait_active_mutation_children = 0,
     ew_glm_wait_unknown_mutation_children = 0, ew_base_returning_ready = 0, ew_base_blocked = 0, ew_base_human_required = 0,
     ew_borrowed_active = 0, ew_borrowed_parked = 1, ew_review_claimed = 0, ew_ready_independent_candidates = 4,
     ew_scope_gate = GATE_READY, ew_claim_gate = GATE_READY, ew_runtime_gate = GATE_READY\<rparr>"

theorem elastic_wip_bounded_witness:
  "\<exists>v. classify_elastic_wip example_facts = Inr v \<and> ev_borrowed_resume_target v = 1 \<and> ev_new_borrow_target v = 1
    \<and> ev_active_mutation_after_refill v \<le> 3"
proof -
  have "ElasticWipFacts_post_init example_facts = Inr example_facts" by code_simp
  note b = elastic_wip_bounded[OF this]
  have "case classify_elastic_wip example_facts of Inl e \<Rightarrow> False
      | Inr v \<Rightarrow> ev_borrowed_resume_target v = 1 \<and> ev_new_borrow_target v = 1" by code_simp
  with b show ?thesis by (cases "classify_elastic_wip example_facts") auto
qed

end
