(* ===== verification/Stm_Values.thy ===== *)
theory Stm_Values
  imports Json_Text Core_Domain
begin

text \<open>
  The values the hook short-term memory of \<^verbatim>\<open>src/src/a_conductor/hook_stm.py\<close> handles: the plain
  data of a projection record, its canonical JSON text with the bytes accounted for it, and the
  budgeted shape check of an injected observation. A dictionary has string keys, as the
  annotations say; \<open>SOther\<close> is any object that is not plain data, a float is the text
  \<^verbatim>\<open>json.dumps\<close> writes for it. The limit on nesting that makes \<^verbatim>\<open>json\<close> raise is not modelled.
\<close>

section \<open>Values and their text\<close>

datatype stm_value = SNone | SBool bool | SInt int | SFloat string | SStr string
  | SList "stm_value list" | SDict "(string \<times> stm_value) list" | SOther

text \<open>The length of the UTF-8 encoding, for the code points below 256.\<close>

definition utf8_len :: "string \<Rightarrow> int" where
  "utf8_len s = (\<Sum>c\<leftarrow>s. if (of_char c :: nat) < 128 then 1 else 2)"

definition nonfinite :: "string \<Rightarrow> bool" where
  "nonfinite t \<longleftrightarrow> t \<in> {''NaN'', ''Infinity'', ''-Infinity''}"

text \<open>What \<^verbatim>\<open>json.dumps\<close> does not refuse: no foreign object, no float that is not finite, no integer
  beyond the digits the interpreter converts.\<close>

definition MAX_STR_DIGITS :: nat where "MAX_STR_DIGITS = 4300"

fun dumps_ok :: "stm_value \<Rightarrow> bool" where
  "dumps_ok (SInt i) \<longleftrightarrow> length (decimal (nat \<bar>i\<bar>)) \<le> MAX_STR_DIGITS"
| "dumps_ok (SFloat t) \<longleftrightarrow> \<not> nonfinite t"
| "dumps_ok (SList vs) \<longleftrightarrow> list_all dumps_ok vs"
| "dumps_ok (SDict kvs) \<longleftrightarrow> list_all (\<lambda>kv. dumps_ok (snd kv)) kvs"
| "dumps_ok SOther \<longleftrightarrow> False"
| "dumps_ok _ \<longleftrightarrow> True"

fun stm_json :: "stm_value \<Rightarrow> string" where
  "stm_json SNone = ''null''"
| "stm_json (SBool b) = json_bool b"
| "stm_json (SInt i) = json_int i"
| "stm_json (SFloat t) = t"
| "stm_json (SStr s) = json_string s"
| "stm_json (SList vs) = json_list (map stm_json vs)"
| "stm_json (SDict kvs) = json_object (sort_key fst (map (\<lambda>kv. (fst kv, stm_json (snd kv))) kvs))"
| "stm_json SOther = []"

definition canonical_json :: "stm_value \<Rightarrow> exn + string" where
  "canonical_json v = (if dumps_ok v then Inr (stm_json v) else Inl (ValueErr ''canonical_json''))"

text \<open>\<^verbatim>\<open>json.loads\<close> of the canonical text: the value with the keys of its dictionaries in sorted order.\<close>

fun reloaded :: "stm_value \<Rightarrow> stm_value" where
  "reloaded (SList vs) = SList (map reloaded vs)"
| "reloaded (SDict kvs) = SDict (sort_key fst (map (\<lambda>kv. (fst kv, reloaded (snd kv))) kvs))"
| "reloaded v = v"

definition UNIT_ALLOWANCE_BYTES :: int where "UNIT_ALLOWANCE_BYTES = 128"

definition CAPACITY_EXCEEDED :: exn where "CAPACITY_EXCEEDED = StmErr ''STM_CAPACITY_EXCEEDED''"

definition REBUILD_INPUT_LIMIT :: exn where "REBUILD_INPUT_LIMIT = StmErr ''STM_REBUILD_INPUT_LIMIT''"

definition owned_unit :: "stm_value \<Rightarrow> exn + stm_value \<times> int" where
  "owned_unit v = (case canonical_json v of Inl _ \<Rightarrow> Inl CAPACITY_EXCEEDED
     | Inr serialized \<Rightarrow> Inr (reloaded v, utf8_len serialized + UNIT_ALLOWANCE_BYTES))"

section \<open>The shape check of an observation\<close>

definition REBUILD_ITEM_MAX :: int where "REBUILD_ITEM_MAX = 4096"

definition REBUILD_BYTE_MAX :: int where "REBUILD_BYTE_MAX = 8 * 1024 * 1024"

definition AUTHORITY_MAX_DEPTH :: int where "AUTHORITY_MAX_DEPTH = 12"

definition count_item :: "int \<Rightarrow> int \<times> int \<Rightarrow> exn + int \<times> int" where
  "count_item depth budget = (if fst budget + 1 > REBUILD_ITEM_MAX \<or> depth > AUTHORITY_MAX_DEPTH
     then Inl REBUILD_INPUT_LIMIT else Inr (fst budget + 1, snd budget))"

definition count_text :: "string \<Rightarrow> int \<times> int \<Rightarrow> exn + int \<times> int" where
  "count_text s budget = (if int (length s) > REBUILD_BYTE_MAX then Inl REBUILD_INPUT_LIMIT
     else if snd budget + utf8_len s > REBUILD_BYTE_MAX then Inl REBUILD_INPUT_LIMIT
     else Inr (fst budget, snd budget + utf8_len s))"

definition within_items :: "'a list \<Rightarrow> 'b \<Rightarrow> exn + 'b" where
  "within_items xs b = (if int (length xs) > REBUILD_ITEM_MAX then Inl REBUILD_INPUT_LIMIT else Inr b)"

definition refuse_when :: "bool \<Rightarrow> 'b \<Rightarrow> exn + 'b" where
  "refuse_when bad b = (if bad then Inl REBUILD_INPUT_LIMIT else Inr b)"

fun visit_value :: "stm_value \<Rightarrow> int \<Rightarrow> int \<times> int \<Rightarrow> exn + int \<times> int"
  and visit_list :: "stm_value list \<Rightarrow> int \<Rightarrow> int \<times> int \<Rightarrow> exn + int \<times> int"
  and visit_items :: "(string \<times> stm_value) list \<Rightarrow> int \<Rightarrow> int \<times> int \<Rightarrow> exn + int \<times> int" where
  "visit_value v depth budget = res_bind (count_item depth budget) (\<lambda>b. case v of
       SNone \<Rightarrow> Inr b
     | SBool _ \<Rightarrow> Inr b
     | SStr s \<Rightarrow> count_text s b
     | SInt i \<Rightarrow> refuse_when (\<bar>i\<bar> \<ge> 2 ^ 64) b
     | SFloat t \<Rightarrow> refuse_when (nonfinite t) b
     | SDict kvs \<Rightarrow> res_bind (within_items kvs b) (visit_items kvs (depth + 1))
     | SList vs \<Rightarrow> res_bind (within_items vs b) (visit_list vs (depth + 1))
     | SOther \<Rightarrow> refuse_when True b)"
| "visit_list [] depth budget = Inr budget"
| "visit_list (v # vs) depth budget = res_bind (visit_value v depth budget) (visit_list vs depth)"
| "visit_items [] depth budget = Inr budget"
| "visit_items ((k, v) # kvs) depth budget = res_bind (count_item depth budget) (\<lambda>b.
     res_bind (count_text k b) (\<lambda>b. res_bind (visit_value v depth b) (visit_items kvs depth)))"

definition validate_observation :: "stm_value \<Rightarrow> exn + unit" where
  "validate_observation v = (case v of
     SDict _ \<Rightarrow> res_bind (visit_value v 0 (0, 0)) (\<lambda>_. Inr ())
   | _ \<Rightarrow> Inl REBUILD_INPUT_LIMIT)"

section \<open>What the shape check accepts\<close>

text \<open>The items, the bytes of text and the nesting of a value, and its admissible leaves.\<close>

fun value_items :: "stm_value \<Rightarrow> int" where
  "value_items (SList vs) = 1 + sum_list (map value_items vs)"
| "value_items (SDict kvs) = 1 + (\<Sum>kv\<leftarrow>kvs. 1 + value_items (snd kv))"
| "value_items _ = 1"

fun value_text :: "stm_value \<Rightarrow> int" where
  "value_text (SStr s) = utf8_len s"
| "value_text (SList vs) = sum_list (map value_text vs)"
| "value_text (SDict kvs) = (\<Sum>kv\<leftarrow>kvs. utf8_len (fst kv) + value_text (snd kv))"
| "value_text _ = 0"

fun nested_within :: "int \<Rightarrow> stm_value \<Rightarrow> bool" where
  "nested_within d (SList vs) \<longleftrightarrow> 0 \<le> d \<and> list_all (nested_within (d - 1)) vs"
| "nested_within d (SDict kvs) \<longleftrightarrow> 0 \<le> d \<and> list_all (\<lambda>kv. nested_within (d - 1) (snd kv)) kvs"
| "nested_within d _ \<longleftrightarrow> 0 \<le> d"

fun plain_leaves :: "stm_value \<Rightarrow> bool" where
  "plain_leaves (SInt i) \<longleftrightarrow> \<bar>i\<bar> < 2 ^ 64"
| "plain_leaves (SFloat t) \<longleftrightarrow> \<not> nonfinite t"
| "plain_leaves (SList vs) \<longleftrightarrow> list_all plain_leaves vs"
| "plain_leaves (SDict kvs) \<longleftrightarrow> list_all (\<lambda>kv. plain_leaves (snd kv)) kvs"
| "plain_leaves SOther \<longleftrightarrow> False"
| "plain_leaves _ \<longleftrightarrow> True"

lemma utf8_len_ge_length: "int (length s) \<le> utf8_len s"
  by (induction s) (auto simp: utf8_len_def)

lemma utf8_len_nonneg [simp]: "0 \<le> utf8_len s"
  using utf8_len_ge_length[of s] by linarith

lemma value_items_pos: "1 \<le> value_items v"
proof (induction v)
  case (SList vs)
  then have "0 \<le> sum_list (map value_items vs)" by (intro sum_list_nonneg) force
  then show ?case by simp
next
  case (SDict kvs)
  then have "0 \<le> (\<Sum>kv\<leftarrow>kvs. 1 + value_items (snd kv))" by (intro sum_list_nonneg) force
  then show ?case by simp
qed simp_all

lemma value_text_nonneg: "0 \<le> value_text v"
proof (induction v)
  case (SList vs)
  then show ?case by (auto intro!: sum_list_nonneg)
next
  case (SDict kvs)
  then show ?case by (force intro!: sum_list_nonneg add_nonneg_nonneg)
qed simp_all

lemma items_of_list: "int (length vs) \<le> sum_list (map value_items vs)"
proof (induction vs)
  case (Cons v vs)
  then show ?case using value_items_pos[of v] by simp
qed simp

lemma items_of_dict: "int (length kvs) \<le> (\<Sum>kv\<leftarrow>kvs. 1 + value_items (snd kv))"
proof (induction kvs)
  case (Cons kv kvs)
  then show ?case using value_items_pos[of "snd kv"] by simp
qed simp

lemma text_of_list: "0 \<le> sum_list (map value_text vs)"
  by (auto intro!: sum_list_nonneg simp: value_text_nonneg)

lemma text_of_dict: "0 \<le> (\<Sum>kv\<leftarrow>kvs. utf8_len (fst kv) + value_text (snd kv))"
  by (auto intro!: sum_list_nonneg add_nonneg_nonneg simp: value_text_nonneg)

text \<open>The budget after a visit, or the refusal.\<close>

definition spend :: "bool \<Rightarrow> int \<Rightarrow> int \<Rightarrow> int \<times> int \<Rightarrow> exn + int \<times> int" where
  "spend ok items bytes b = (if ok \<and> fst b + items \<le> REBUILD_ITEM_MAX \<and> snd b + bytes \<le> REBUILD_BYTE_MAX
     then Inr (fst b + items, snd b + bytes) else Inl REBUILD_INPUT_LIMIT)"

lemma spend_bind:
  assumes "0 \<le> i" "0 \<le> t" "0 \<le> j" "0 \<le> u"
  shows "res_bind (spend ok i t b) (spend ok' j u) = spend (ok \<and> ok') (i + j) (t + u) b"
  using assms by (auto simp: spend_def)

definition in_budget :: "int \<times> int \<Rightarrow> bool" where
  "in_budget b \<longleftrightarrow> 0 \<le> fst b \<and> fst b \<le> REBUILD_ITEM_MAX \<and> 0 \<le> snd b \<and> snd b \<le> REBUILD_BYTE_MAX"

lemma spend_in_budget: "spend ok i t b = Inr b' \<Longrightarrow> in_budget b \<Longrightarrow> 0 \<le> i \<Longrightarrow> 0 \<le> t \<Longrightarrow> ok \<and> in_budget b'"
  by (auto simp: spend_def in_budget_def split: if_splits)

lemma spend_bind_budget:
  assumes "in_budget b" "m = spend ok i t b" "0 \<le> i" "0 \<le> t" "0 \<le> j" "0 \<le> u"
    and f: "\<And>b'. m = Inr b' \<Longrightarrow> ok \<Longrightarrow> in_budget b' \<Longrightarrow> f b' = spend ok' j u b'"
  shows "res_bind m f = spend (ok \<and> ok') (i + j) (t + u) b"
proof -
  have "f b' = spend ok' j u b'" if "m = Inr b'" for b'
    using f[OF that] spend_in_budget[of ok i t b b'] assms(1-4) that by simp
  then have "res_bind m f = res_bind m (spend ok' j u)"
    by (cases m) simp_all
  then show ?thesis using spend_bind[OF assms(3-6), of ok b ok'] assms(2) by simp
qed

lemma within_items_absorbed:
  assumes "in_budget b" "int (length xs) \<le> i" "f b = spend ok i t b"
  shows "res_bind (within_items xs b) f = spend ok i t b"
  using assms by (cases "int (length xs) > REBUILD_ITEM_MAX") (auto simp: within_items_def spend_def in_budget_def simp del: res_bind_Inl_iff)

lemma count_item_spend: "in_budget b \<Longrightarrow> count_item d b = spend (d \<le> AUTHORITY_MAX_DEPTH) 1 0 b"
  by (auto simp: count_item_def spend_def in_budget_def)

lemma count_text_spend: "in_budget b \<Longrightarrow> count_text s b = spend True 0 (utf8_len s) b"
  using utf8_len_ge_length[of s] by (auto simp: count_text_def spend_def in_budget_def)

lemma nested_within_nonneg: "nested_within d v \<Longrightarrow> 0 \<le> d"
  by (cases v) auto

text \<open>The visits spend exactly the items and bytes of what they visit.\<close>

lemma visits_spend:
  "in_budget b \<Longrightarrow> visit_value v d b =
     spend (plain_leaves v \<and> nested_within (AUTHORITY_MAX_DEPTH - d) v) (value_items v) (value_text v) b"
  "in_budget b \<Longrightarrow> visit_list vs d b =
     spend (list_all plain_leaves vs \<and> list_all (nested_within (AUTHORITY_MAX_DEPTH - d)) vs)
       (sum_list (map value_items vs)) (sum_list (map value_text vs)) b"
  "in_budget b \<Longrightarrow> visit_items kvs d b =
     spend (list_all (\<lambda>kv. plain_leaves (snd kv)) kvs \<and> list_all (\<lambda>kv. nested_within (AUTHORITY_MAX_DEPTH - d) (snd kv)) kvs)
       (\<Sum>kv\<leftarrow>kvs. 1 + value_items (snd kv)) (\<Sum>kv\<leftarrow>kvs. utf8_len (fst kv) + value_text (snd kv)) b"
proof (induction v d b and vs d b and kvs d b rule: visit_value_visit_list_visit_items.induct)
  case (1 v d b)
  let ?more = "\<lambda>b. case v of SNone \<Rightarrow> Inr b | SBool _ \<Rightarrow> Inr b | SStr s \<Rightarrow> count_text s b
     | SInt i \<Rightarrow> refuse_when (\<bar>i\<bar> \<ge> 2 ^ 64) b | SFloat t \<Rightarrow> refuse_when (nonfinite t) b
     | SDict kvs \<Rightarrow> res_bind (within_items kvs b) (visit_items kvs (d + 1))
     | SList vs \<Rightarrow> res_bind (within_items vs b) (visit_list vs (d + 1)) | SOther \<Rightarrow> refuse_when True b"
  have deeper: "AUTHORITY_MAX_DEPTH - (d + 1) = AUTHORITY_MAX_DEPTH - d - 1" by simp
  have more: "?more b' = spend (plain_leaves v \<and> nested_within (AUTHORITY_MAX_DEPTH - d) v)
      (value_items v - 1) (value_text v) b'"
    if b': "in_budget b'" "count_item d b = Inr b'" "d \<le> AUTHORITY_MAX_DEPTH" for b'
  proof (cases v)
    case (SDict kvs)
    have "visit_items kvs (d + 1) b' = spend (list_all (\<lambda>kv. plain_leaves (snd kv)) kvs \<and>
        list_all (\<lambda>kv. nested_within (AUTHORITY_MAX_DEPTH - d - 1) (snd kv)) kvs)
       (\<Sum>kv\<leftarrow>kvs. 1 + value_items (snd kv)) (\<Sum>kv\<leftarrow>kvs. utf8_len (fst kv) + value_text (snd kv)) b'"
      using 1(2)[OF SDict b'(1)] unfolding deeper .
    from within_items_absorbed[of b' kvs _ "visit_items kvs (d + 1)", OF b'(1) items_of_dict this] show ?thesis using SDict b'(3) by simp
  next
    case (SList vs)
    have "visit_list vs (d + 1) b' = spend (list_all plain_leaves vs \<and>
        list_all (nested_within (AUTHORITY_MAX_DEPTH - d - 1)) vs)
       (sum_list (map value_items vs)) (sum_list (map value_text vs)) b'"
      using 1(1)[OF SList b'(1)] unfolding deeper .
    from within_items_absorbed[of b' vs _ "visit_list vs (d + 1)", OF b'(1) items_of_list this] show ?thesis using SList b'(3) by simp
  qed (use b' in \<open>simp_all add: count_text_spend refuse_when_def spend_def in_budget_def\<close>)
  have "visit_value v d b = res_bind (count_item d b) ?more" by simp
  also have "\<dots> = spend (d \<le> AUTHORITY_MAX_DEPTH \<and> plain_leaves v \<and> nested_within (AUTHORITY_MAX_DEPTH - d) v)
      (1 + (value_items v - 1)) (0 + value_text v) b"
    using 1(3) value_items_pos[of v] value_text_nonneg[of v]
    by (intro spend_bind_budget[OF _ count_item_spend] more) auto
  finally show ?case using nested_within_nonneg[of "AUTHORITY_MAX_DEPTH - d" v] by (auto simp: spend_def)
next
  case (3 v vs d b)
  have "res_bind (visit_value v d b) (visit_list vs d) = spend ((plain_leaves v \<and> nested_within (AUTHORITY_MAX_DEPTH - d) v) \<and>
      (list_all plain_leaves vs \<and> list_all (nested_within (AUTHORITY_MAX_DEPTH - d)) vs))
      (value_items v + sum_list (map value_items vs)) (value_text v + sum_list (map value_text vs)) b"
    using 3 value_items_pos[of v] value_text_nonneg[of v] items_of_list[of vs] text_of_list[of vs]
    by (intro spend_bind_budget) auto
  then show ?case by (simp add: spend_def)
next
  case (5 k v kvs d b)
  let ?kvs = "\<lambda>f. list_all (\<lambda>kv. f (snd kv)) kvs" and ?sum = "\<lambda>f. sum_list (map f kvs)"
  let ?deep = "nested_within (AUTHORITY_MAX_DEPTH - d)"
  note pos = value_items_pos[of v] value_text_nonneg[of v] items_of_dict[of kvs] text_of_dict[of kvs]
  have rest: "res_bind (visit_value v d b') (visit_items kvs d) = spend ((plain_leaves v \<and> ?deep v) \<and> (?kvs plain_leaves \<and> ?kvs ?deep))
      (value_items v + ?sum (\<lambda>kv. 1 + value_items (snd kv))) (value_text v + ?sum (\<lambda>kv. utf8_len (fst kv) + value_text (snd kv))) b'"
    if "in_budget b'" for b'
    using 5 that pos by (intro spend_bind_budget) auto
  have key: "res_bind (count_text k b') (\<lambda>b. res_bind (visit_value v d b) (visit_items kvs d)) = spend (True \<and> ((plain_leaves v \<and> ?deep v) \<and> (?kvs plain_leaves \<and> ?kvs ?deep)))
      (0 + (value_items v + ?sum (\<lambda>kv. 1 + value_items (snd kv))))
      (utf8_len k + (value_text v + ?sum (\<lambda>kv. utf8_len (fst kv) + value_text (snd kv)))) b'"
    if "in_budget b'" for b'
    using that pos by (intro spend_bind_budget[OF _ count_text_spend] rest) auto
  have "visit_items ((k, v) # kvs) d b = spend (d \<le> AUTHORITY_MAX_DEPTH \<and> (True \<and> ((plain_leaves v \<and> ?deep v) \<and> (?kvs plain_leaves \<and> ?kvs ?deep))))
      (1 + (0 + (value_items v + ?sum (\<lambda>kv. 1 + value_items (snd kv)))))
      (0 + (utf8_len k + (value_text v + ?sum (\<lambda>kv. utf8_len (fst kv) + value_text (snd kv))))) b"
    unfolding visit_items.simps using 5 pos by (intro spend_bind_budget[OF _ count_item_spend] key) auto
  then show ?case using nested_within_nonneg[of "AUTHORITY_MAX_DEPTH - d" v] by (auto simp: spend_def add_ac)
qed (auto simp: spend_def in_budget_def)

lemma validate_observation_spend:
  "validate_observation v = (if (\<exists>kvs. v = SDict kvs) \<and> plain_leaves v \<and> nested_within AUTHORITY_MAX_DEPTH v
     \<and> value_items v \<le> REBUILD_ITEM_MAX \<and> value_text v \<le> REBUILD_BYTE_MAX then Inr () else Inl REBUILD_INPUT_LIMIT)"
proof -
  have "in_budget (0, 0)" by (simp add: in_budget_def REBUILD_ITEM_MAX_def REBUILD_BYTE_MAX_def)
  from visits_spend(1)[OF this, of v 0] show ?thesis
    by (cases v) (simp_all add: validate_observation_def spend_def
      del: visit_value.simps plain_leaves.simps nested_within.simps value_items.simps value_text.simps)
qed

text \<open>
  C35: The shape check accepts exactly the dictionaries of at most 4096 items, 8 MiB of text and
  nesting 12 whose leaves are plain: the budget the recursive visit threads through, with its
  early exits, decides the same as the totals. Every refusal is the error
  \<^verbatim>\<open>STM_REBUILD_INPUT_LIMIT\<close>.
\<close>

theorem observation_check_exact:
  "validate_observation v = (if (\<exists>kvs. v = SDict kvs) \<and> plain_leaves v \<and> nested_within 12 v
     \<and> value_items v \<le> 4096 \<and> value_text v \<le> 8388608 then Inr () else Inl (StmErr ''STM_REBUILD_INPUT_LIMIT''))"
  unfolding validate_observation_spend
  by (simp add: AUTHORITY_MAX_DEPTH_def REBUILD_ITEM_MAX_def REBUILD_BYTE_MAX_def REBUILD_INPUT_LIMIT_def)

section \<open>The owned copy of a value\<close>

lemma insort_key_map_values:
  "insort_key fst (fst x, g (snd x)) (map (\<lambda>kv. (fst kv, g (snd kv))) xs) = map (\<lambda>kv. (fst kv, g (snd kv))) (insort_key fst x xs)"
  by (induction xs) auto

lemma sort_key_map_values:
  "sort_key fst (map (\<lambda>kv. (fst kv, g (snd kv))) xs) = map (\<lambda>kv. (fst kv, g (snd kv))) (sort_key fst xs)"
  by (induction xs) (simp_all add: insort_key_map_values)

lemma sort_key_idem: "sort_key f (sort_key f xs) = sort_key f xs"
  by (rule sort_key_id_if_sorted) simp

lemma stm_json_reloaded [simp]: "stm_json (reloaded v) = stm_json v"
proof (induction v)
  case (SList vs)
  then show ?case by (simp cong: map_cong)
next
  case (SDict kvs)
  have eq: "map (\<lambda>kv. (fst kv, stm_json (reloaded (snd kv)))) kvs = map (\<lambda>kv. (fst kv, stm_json (snd kv))) kvs"
    using SDict by (force intro: map_cong)
  have "stm_json (reloaded (SDict kvs)) = json_object (sort_key fst (map (\<lambda>kv. (fst kv, stm_json (reloaded (snd kv)))) kvs))"
    by (simp add: sort_key_map_values[of "\<lambda>x. x"] sort_key_map_values[of reloaded]
      sort_key_map_values[of "\<lambda>v. stm_json (reloaded v)"] sort_key_idem comp_def)
  then show ?case by (simp only: eq stm_json.simps)
qed simp_all

lemma dumps_ok_reloaded [simp]: "dumps_ok (reloaded v) = dumps_ok v"
proof (induction v)
  case (SList vs)
  then show ?case by (auto simp: list_all_iff)
next
  case (SDict kvs)
  then show ?case by (force simp: list_all_iff)
qed simp_all

lemma decimal_length: "n < 10 ^ k \<Longrightarrow> 0 < k \<Longrightarrow> length (decimal n) \<le> k"
proof (induction k arbitrary: n)
  case (Suc k)
  show ?case
  proof (cases "n < 10")
    case False
    then have "n div 10 < 10 ^ k" "0 < k" using Suc.prems by (auto intro: gr0I)
    then show ?thesis using Suc.IH[of "n div 10"] False by (subst decimal.simps) simp
  qed (subst decimal.simps, simp)
qed simp

lemma plain_leaves_dumps: "plain_leaves v \<Longrightarrow> dumps_ok v"
proof (induction v)
  case (SInt i)
  have "nat \<bar>i\<bar> < 2 ^ 64" using SInt by simp
  then have "nat \<bar>i\<bar> < 10 ^ 20" by simp
  from decimal_length[OF this] show ?case by (simp add: MAX_STR_DIGITS_def)
next
  case (SList vs)
  then show ?case by (auto simp: list_all_iff)
next
  case (SDict kvs)
  then show ?case by (force simp: list_all_iff)
qed simp_all

end
