(* ===== verification/Hook_Stm.thy ===== *)
theory Hook_Stm
  imports Stm_Values Action_Monad Complex_Main "HOL-Library.Product_Lexorder"
begin

text \<open>
  The bounded short-term memory of hook projections, \<^verbatim>\<open>src/src/a_conductor/hook_stm.py\<close>: partition
  identities with byte caps, admission with deterministic eviction, update, rebuild, reconcile
  and read. Seconds are reals, and the readings of the injected clock are arguments of the calls.
\<close>

section \<open>Identities\<close>

record StmPartition =
  sp_project_ref :: string
  sp_device_id :: string
  sp_task_id :: "string option"
  sp_work_order :: "string option"
  sp_lane_id :: "string option"

definition task_ref :: "StmPartition \<Rightarrow> string" where
  "task_ref p = (case sp_task_id p of Some t \<Rightarrow> t | None \<Rightarrow>
     (case sp_work_order p of Some w \<Rightarrow> w | None \<Rightarrow> ''UNBOUND_TASK''))"

definition lane_ref :: "StmPartition \<Rightarrow> string" where
  "lane_ref p = (case sp_lane_id p of Some l \<Rightarrow> l | None \<Rightarrow> ''UNBOUND_LANE'')"

type_synonym PartitionKey = "string \<times> string \<times> string \<times> string"

definition KEY_SEPARATOR :: string where "KEY_SEPARATOR = [CHR 0x1F]"

definition key_bytes :: "PartitionKey \<Rightarrow> int" where
  "key_bytes k = (case k of (project, task, device, lane) \<Rightarrow> utf8_len (py_join KEY_SEPARATOR [project, task, device, lane]))"

definition ID_OVERSIZED :: exn where "ID_OVERSIZED = StmErr ''STM_PARTITION_ID_OVERSIZED''"

definition partition_key :: "StmPartition \<Rightarrow> exn + PartitionKey" where
  "partition_key p = (let k = (sp_project_ref p, task_ref p, sp_device_id p, lane_ref p) in
     if utf8_len (sp_project_ref p) > 256 then Inl ID_OVERSIZED
     else if utf8_len (task_ref p) > 256 then Inl ID_OVERSIZED
     else if utf8_len (sp_device_id p) > 128 then Inl ID_OVERSIZED
     else if utf8_len (lane_ref p) > 256 then Inl ID_OVERSIZED
     else if key_bytes k > 1024 then Inl ID_OVERSIZED
     else Inr k)"

section \<open>State\<close>

type_synonym projection = "(string \<times> stm_value) list \<times> int"

record PartitionState =
  ps_refreshed_at :: real
  ps_records :: "projection list"
  ps_authority_refs :: "string list"
  ps_rebuild_required :: bool
  ps_accounted_bytes :: int
  ps_derived_degraded :: bool
  ps_reconciliation_ref :: "string option"

definition unit_count :: "PartitionState \<Rightarrow> int" where
  "unit_count st = int (length (ps_records st)) + int (length (ps_authority_refs st))
     + (if ps_reconciliation_ref st \<noteq> None then 1 else 0)"

record HookStm =
  hs_ttl_seconds :: real
  hs_rebuild_item_limit :: int
  hs_rebuild_byte_limit :: int
  hs_max_partitions :: int
  hs_records_per_partition :: int
  hs_records_total :: int
  hs_bytes_per_partition :: int
  hs_bytes_total :: int
  hs_partitions :: "(PartitionKey \<times> PartitionState) list"

definition clamp :: "'a::linorder \<Rightarrow> 'a \<Rightarrow> 'a \<Rightarrow> 'a" where
  "clamp lo hi x = max lo (min hi x)"

definition new_hook_stm :: "real \<Rightarrow> int \<Rightarrow> int \<Rightarrow> int \<Rightarrow> int \<Rightarrow> int \<Rightarrow> int \<Rightarrow> int \<Rightarrow> HookStm" where
  "new_hook_stm ttl items bytes partitions per_partition record_total partition_bytes byte_total = \<lparr>
     hs_ttl_seconds = clamp 300 86400 ttl,
     hs_rebuild_item_limit = clamp 0 REBUILD_ITEM_MAX items,
     hs_rebuild_byte_limit = clamp 0 REBUILD_BYTE_MAX bytes,
     hs_max_partitions = clamp 0 256 partitions,
     hs_records_per_partition = clamp 0 256 per_partition,
     hs_records_total = clamp 0 4096 record_total,
     hs_bytes_per_partition = clamp 0 (1024 * 1024) partition_bytes,
     hs_bytes_total = clamp 0 (8 * 1024 * 1024) byte_total,
     hs_partitions = []\<rparr>"

definition partition_count :: "HookStm \<Rightarrow> int" where
  "partition_count s = int (length (hs_partitions s))"

definition record_count :: "HookStm \<Rightarrow> int" where
  "record_count s = (\<Sum>kst\<leftarrow>hs_partitions s. unit_count (snd kst))"

definition accounted_bytes :: "HookStm \<Rightarrow> int" where
  "accounted_bytes s = (\<Sum>kst\<leftarrow>hs_partitions s. ps_accounted_bytes (snd kst))"

section \<open>Admission\<close>

definition mark_stale :: "PartitionKey \<Rightarrow> HookStm \<Rightarrow> HookStm" where
  "mark_stale key s = (case map_of (hs_partitions s) key of
     None \<Rightarrow> s
   | Some st \<Rightarrow> s\<lparr>hs_partitions := AList.update key (st\<lparr>ps_rebuild_required := True\<rparr>) (hs_partitions s)\<rparr>)"

definition capacity_failure :: "PartitionKey \<Rightarrow> (HookStm, 'a) action" where
  "capacity_failure key s = (Inl CAPACITY_EXCEEDED, mark_stale key s)"

definition check_candidate :: "PartitionKey \<Rightarrow> int \<Rightarrow> int \<Rightarrow> (HookStm, unit) action" where
  "check_candidate key count sz s =
    (if count > hs_records_per_partition s \<or> count > hs_records_total s
        \<or> sz > hs_bytes_per_partition s \<or> sz > hs_bytes_total s
     then capacity_failure key s else (Inr (), s))"

definition fits :: "HookStm \<Rightarrow> int \<Rightarrow> int \<Rightarrow> int \<Rightarrow> bool" where
  "fits s partitions count sz \<longleftrightarrow>
     partitions \<le> hs_max_partitions s \<and> count \<le> hs_records_total s \<and> sz \<le> hs_bytes_total s"

definition eviction_order :: "HookStm \<Rightarrow> real \<Rightarrow> (PartitionKey \<times> PartitionState) list" where
  "eviction_order s now = sort_key (\<lambda>(identity, st).
     (\<not> (ps_rebuild_required st \<or> now - ps_refreshed_at st \<ge> hs_ttl_seconds s), ps_refreshed_at st, identity))
     (hs_partitions s)"

text \<open>The victims, and whether the candidate fits once they are gone.\<close>

fun pick_victims ::
  "HookStm \<Rightarrow> (PartitionKey \<times> PartitionState) list \<Rightarrow> int \<Rightarrow> int \<Rightarrow> int \<Rightarrow> PartitionKey list \<times> bool" where
  "pick_victims s [] partitions count sz = ([], fits s partitions count sz)"
| "pick_victims s ((identity, victim) # ordered) partitions count sz =
    (let partitions = partitions - 1; count = count - unit_count victim; sz = sz - ps_accounted_bytes victim in
     if fits s partitions count sz then ([identity], True)
     else let rest = pick_victims s ordered partitions count sz in (identity # fst rest, snd rest))"

definition admit_new :: "PartitionKey \<Rightarrow> PartitionState \<Rightarrow> (HookStm, unit) action" where
  "admit_new key candidate s =
    (let plan = pick_victims s (eviction_order s (ps_refreshed_at candidate)) (partition_count s + 1)
           (record_count s + unit_count candidate) (accounted_bytes s + ps_accounted_bytes candidate) in
     if \<not> snd plan then capacity_failure key s
     else (Inr (), s\<lparr>hs_partitions := AList.update key candidate (fold AList.delete (fst plan) (hs_partitions s))\<rparr>))"

definition admit :: "PartitionKey \<Rightarrow> PartitionState \<Rightarrow> (HookStm, unit) action" where
  "admit key candidate = andthen (check_candidate key (unit_count candidate) (ps_accounted_bytes candidate)) (\<lambda>_ s.
     let count = record_count s + unit_count candidate;
         sz = accounted_bytes s + ps_accounted_bytes candidate;
         swapped = (Inr (), s\<lparr>hs_partitions := AList.update key candidate (hs_partitions s)\<rparr>)
     in case map_of (hs_partitions s) key of
          Some prior \<Rightarrow> if fits s (partition_count s) (count - unit_count prior) (sz - ps_accounted_bytes prior)
            then swapped else capacity_failure key s
        | None \<Rightarrow> if fits s (partition_count s + 1) count sz then swapped else admit_new key candidate s)"

section \<open>Update\<close>

text \<open>The retained pair of a serialized list of two.\<close>

definition pair_of :: "stm_value \<Rightarrow> projection" where
  "pair_of v = (case v of SList [SDict d, SInt w] \<Rightarrow> (d, w) | _ \<Rightarrow> ([], 0))"

definition prior_of :: "PartitionKey \<Rightarrow> (HookStm, PartitionState option) action" where
  "prior_of key s = (Inr (map_of (hs_partitions s) key), s)"

definition update_candidate :: "real \<Rightarrow> PartitionState option \<Rightarrow> projection \<Rightarrow> int \<Rightarrow> PartitionState" where
  "update_candidate now prior pair sz = \<lparr>
     ps_refreshed_at = now,
     ps_records = (case prior of Some st \<Rightarrow> ps_records st | None \<Rightarrow> []) @ [pair],
     ps_authority_refs = (case prior of Some st \<Rightarrow> ps_authority_refs st | None \<Rightarrow> []),
     ps_rebuild_required = (case prior of Some st \<Rightarrow> ps_rebuild_required st | None \<Rightarrow> False),
     ps_accounted_bytes = sz,
     ps_derived_degraded = (case prior of Some st \<Rightarrow> ps_derived_degraded st | None \<Rightarrow> False),
     ps_reconciliation_ref = (case prior of Some st \<Rightarrow> ps_reconciliation_ref st | None \<Rightarrow> None)\<rparr>"

definition wire_length :: "stm_value \<Rightarrow> int option" where
  "wire_length w = (case w of SInt n \<Rightarrow> if n < 0 then None else Some n | _ \<Rightarrow> None)"

definition update_partition ::
  "real \<Rightarrow> PartitionKey \<Rightarrow> PartitionState option \<Rightarrow> (string \<times> stm_value) list \<Rightarrow> stm_value \<Rightarrow> (HookStm, unit) action" where
  "update_partition now key prior projection wire_bytes =
    (let count = (case prior of Some st \<Rightarrow> unit_count st | None \<Rightarrow> 0) + 1;
         sz = (case prior of Some st \<Rightarrow> ps_accounted_bytes st | None \<Rightarrow> key_bytes key) in
     andthen (check_candidate key count sz) (\<lambda>_.
     case wire_length wire_bytes of
       None \<Rightarrow> capacity_failure key
     | Some n \<Rightarrow> (case owned_unit (SList [SDict projection, SInt n]) of
         Inl _ \<Rightarrow> capacity_failure key
       | Inr (pair, unit_bytes) \<Rightarrow> andthen (check_candidate key count (sz + unit_bytes)) (\<lambda>_.
           admit key (update_candidate now prior (pair_of pair) (sz + unit_bytes))))))"

definition stm_update :: "real \<Rightarrow> StmPartition \<Rightarrow> (string \<times> stm_value) list \<Rightarrow> stm_value \<Rightarrow> (HookStm, unit) action" where
  "stm_update now p projection wire_bytes = andthen (lift_res (partition_key p)) (\<lambda>key.
     andthen (prior_of key) (\<lambda>prior. update_partition now key prior projection wire_bytes))"

section \<open>Rebuild\<close>

datatype FreshState = FRESH | STALE | READ_UNKNOWN

record StmReadResult =
  rr_state :: FreshState
  rr_rebuild_required :: bool
  rr_records :: "projection list"
  rr_derived_degraded :: bool
  rr_authority_ref :: "string option"

fun wire_input :: "int \<Rightarrow> ((string \<times> stm_value) list \<times> stm_value) list \<Rightarrow> int \<Rightarrow> int option" where
  "wire_input limit [] input_bytes = Some input_bytes"
| "wire_input limit ((_, wire_bytes) # hooks) input_bytes = (case wire_length wire_bytes of
     None \<Rightarrow> None
   | Some n \<Rightarrow> if input_bytes + n > limit then None else wire_input limit hooks (input_bytes + n))"

fun reference_input :: "int \<Rightarrow> string list \<Rightarrow> int \<Rightarrow> int option" where
  "reference_input limit [] input_bytes = Some input_bytes"
| "reference_input limit (reference # refs) input_bytes =
    (if utf8_len reference > 1024 \<or> input_bytes + utf8_len reference > limit then None
     else reference_input limit refs (input_bytes + utf8_len reference))"

definition input_limited :: "HookStm \<Rightarrow> ((string \<times> stm_value) list \<times> stm_value) list \<Rightarrow> string list \<Rightarrow> bool" where
  "input_limited s hooks refs \<longleftrightarrow>
     int (length hooks) + int (length refs) > hs_rebuild_item_limit s
     \<or> (case wire_input (hs_rebuild_byte_limit s) hooks 0 of
          None \<Rightarrow> True
        | Some n \<Rightarrow> reference_input (hs_rebuild_byte_limit s) refs n = None)"

definition input_failure :: "PartitionKey \<Rightarrow> (HookStm, 'a) action" where
  "input_failure key s = (Inl REBUILD_INPUT_LIMIT, mark_stale key s)"

definition check_input :: "PartitionKey \<Rightarrow> ((string \<times> stm_value) list \<times> stm_value) list \<Rightarrow> string list \<Rightarrow> (HookStm, unit) action" where
  "check_input key hooks refs s = (if input_limited s hooks refs then input_failure key s else (Inr (), s))"

text \<open>One unit: its owned copy, counted and checked against the capacity.\<close>

definition own_unit :: "PartitionKey \<Rightarrow> int \<Rightarrow> stm_value \<Rightarrow> int \<Rightarrow> (HookStm, stm_value \<times> int) action" where
  "own_unit key count v sz = andthen (lift_res (owned_unit v)) (\<lambda>(owned, unit_bytes).
     andthen (check_candidate key count (sz + unit_bytes)) (\<lambda>_. ret (owned, sz + unit_bytes)))"

fun own_records ::
  "PartitionKey \<Rightarrow> int \<Rightarrow> ((string \<times> stm_value) list \<times> stm_value) list \<Rightarrow> int \<Rightarrow> (HookStm, projection list \<times> int) action" where
  "own_records key count [] sz = ret ([], sz)"
| "own_records key count ((projection, wire_bytes) # hooks) sz =
     andthen (own_unit key count (SList [SDict projection, wire_bytes]) sz) (\<lambda>(pair, sz).
     andthen (own_records key count hooks sz) (\<lambda>(pairs, sz). ret (pair_of pair # pairs, sz)))"

fun own_references :: "PartitionKey \<Rightarrow> int \<Rightarrow> string list \<Rightarrow> int \<Rightarrow> (HookStm, int) action" where
  "own_references key count [] sz = ret sz"
| "own_references key count (reference # refs) sz =
     andthen (own_unit key count (SStr reference) sz) (\<lambda>(_, sz). own_references key count refs sz)"

text \<open>\<^verbatim>\<open>except StmError: self._capacity_failure(key)\<close>.\<close>

definition or_capacity_failure :: "PartitionKey \<Rightarrow> (HookStm, 'a) action \<Rightarrow> (HookStm, 'a) action" where
  "or_capacity_failure key m = catch m (\<lambda>e. case e of StmErr _ \<Rightarrow> capacity_failure key | _ \<Rightarrow> throw e)"

definition own_rebuild ::
  "PartitionKey \<Rightarrow> ((string \<times> stm_value) list \<times> stm_value) list \<Rightarrow> string list \<Rightarrow> (HookStm, projection list \<times> int) action" where
  "own_rebuild key hooks refs = (let count = int (length hooks) + int (length refs) in
     andthen (check_candidate key count (key_bytes key)) (\<lambda>_. or_capacity_failure key (
     andthen (own_records key count hooks (key_bytes key)) (\<lambda>(pairs, sz).
     andthen (own_references key count refs sz) (\<lambda>sz. ret (pairs, sz))))))"

definition stm_rebuild ::
  "real \<Rightarrow> StmPartition \<Rightarrow> ((string \<times> stm_value) list \<times> stm_value) list \<Rightarrow> string list \<Rightarrow> (HookStm, StmReadResult) action" where
  "stm_rebuild now p hooks refs = andthen (lift_res (partition_key p)) (\<lambda>key.
     andthen (check_input key hooks refs) (\<lambda>_.
     andthen (own_rebuild key hooks refs) (\<lambda>(pairs, sz).
     andthen (admit key \<lparr>ps_refreshed_at = now, ps_records = pairs, ps_authority_refs = refs,
       ps_rebuild_required = False, ps_accounted_bytes = sz, ps_derived_degraded = False,
       ps_reconciliation_ref = None\<rparr>) (\<lambda>_.
     ret \<lparr>rr_state = FRESH, rr_rebuild_required = False, rr_records = pairs,
       rr_derived_degraded = False, rr_authority_ref = None\<rparr>))))"

section \<open>Read and reconcile\<close>

definition absent_result :: StmReadResult where
  "absent_result = \<lparr>rr_state = READ_UNKNOWN, rr_rebuild_required = True, rr_records = [],
     rr_derived_degraded = False, rr_authority_ref = None\<rparr>"

definition expired :: "HookStm \<Rightarrow> real \<Rightarrow> PartitionState \<Rightarrow> bool" where
  "expired s now st \<longleftrightarrow> now - ps_refreshed_at st \<ge> hs_ttl_seconds s"

definition read_state :: "HookStm \<Rightarrow> real \<Rightarrow> PartitionState \<Rightarrow> StmReadResult" where
  "read_state s now st = (let stale = ps_rebuild_required st \<or> expired s now st in
     \<lparr>rr_state = (if stale then STALE else FRESH), rr_rebuild_required = stale, rr_records = ps_records st,
      rr_derived_degraded = ps_derived_degraded st, rr_authority_ref = ps_reconciliation_ref st\<rparr>)"

definition stm_read :: "real \<Rightarrow> StmPartition \<Rightarrow> (HookStm, StmReadResult) action" where
  "stm_read now p = andthen (lift_res (partition_key p)) (\<lambda>key.
     andthen (prior_of key) (\<lambda>prior s. (Inr (case prior of
       None \<Rightarrow> absent_result | Some st \<Rightarrow> read_state s now st), s)))"

text \<open>The observed values supersede the fields a projection already has.\<close>

fun correct :: "(string \<times> stm_value) list \<Rightarrow> (string \<times> stm_value) list \<Rightarrow> bool \<Rightarrow> exn + (string \<times> stm_value) list \<times> bool" where
  "correct [] corrected degraded = Inr (corrected, degraded)"
| "correct ((name, observed) # authority) corrected degraded = (case map_of corrected name of
     None \<Rightarrow> correct authority corrected degraded
   | Some current \<Rightarrow> res_bind (canonical_json current) (\<lambda>a. res_bind (canonical_json observed) (\<lambda>b.
       if a \<noteq> b then correct authority (AList.update name observed corrected) True
       else correct authority corrected degraded)))"

fun own_corrected ::
  "PartitionKey \<Rightarrow> int \<Rightarrow> (string \<times> stm_value) list \<Rightarrow> projection list \<Rightarrow> int \<Rightarrow> bool
    \<Rightarrow> (HookStm, projection list \<times> int \<times> bool) action" where
  "own_corrected key count authority [] sz degraded = ret ([], sz, degraded)"
| "own_corrected key count authority ((projection, wire_bytes) # pairs) sz degraded =
     andthen (lift_res (correct authority projection degraded)) (\<lambda>(corrected, degraded).
     andthen (own_unit key count (SList [SDict corrected, SInt wire_bytes]) sz) (\<lambda>(pair, sz).
     andthen (own_corrected key count authority pairs sz degraded) (\<lambda>(pairs, sz, degraded).
       ret (pair_of pair # pairs, sz, degraded))))"

definition observation_ok :: "stm_value \<Rightarrow> stm_value \<Rightarrow> bool" where
  "observation_ok authority_state authority_ref \<longleftrightarrow>
     (case authority_ref of SStr r \<Rightarrow> r \<noteq> [] \<and> utf8_len r \<le> 1024 | _ \<Rightarrow> False)
     \<and> validate_observation authority_state = Inr ()"

definition dict_items :: "stm_value \<Rightarrow> (string \<times> stm_value) list" where
  "dict_items v = (case v of SDict kvs \<Rightarrow> kvs | _ \<Rightarrow> [])"

definition text_of :: "stm_value \<Rightarrow> string" where
  "text_of v = (case v of SStr s \<Rightarrow> s | _ \<Rightarrow> [])"

definition own_reconcile ::
  "PartitionKey \<Rightarrow> PartitionState \<Rightarrow> (string \<times> stm_value) list \<Rightarrow> string \<Rightarrow> (HookStm, projection list \<times> int \<times> bool) action" where
  "own_reconcile key prior authority authority_ref =
    (let count = unit_count prior + (if ps_reconciliation_ref prior = None then 1 else 0) in
     andthen (check_candidate key count (key_bytes key)) (\<lambda>_. or_capacity_failure key (
     andthen (own_corrected key count authority (ps_records prior) (key_bytes key) (ps_derived_degraded prior)) (\<lambda>(pairs, sz, degraded).
     andthen (own_references key count (ps_authority_refs prior @ [authority_ref]) sz) (\<lambda>sz. ret (pairs, sz, degraded))))))"

definition reconcile_candidate ::
  "HookStm \<Rightarrow> real \<Rightarrow> PartitionState \<Rightarrow> string \<Rightarrow> projection list \<times> int \<times> bool \<Rightarrow> PartitionState" where
  "reconcile_candidate s now prior authority_ref owned = (case owned of (pairs, sz, degraded) \<Rightarrow> \<lparr>
     ps_refreshed_at = now, ps_records = pairs, ps_authority_refs = ps_authority_refs prior,
     ps_rebuild_required = (ps_rebuild_required prior \<or> expired s now prior),
     ps_accounted_bytes = sz, ps_derived_degraded = degraded, ps_reconciliation_ref = Some authority_ref\<rparr>)"

definition stm_reconcile :: "real \<Rightarrow> real \<Rightarrow> StmPartition \<Rightarrow> stm_value \<Rightarrow> stm_value \<Rightarrow> (HookStm, StmReadResult) action" where
  "stm_reconcile now later p authority_state authority_ref = andthen (lift_res (partition_key p)) (\<lambda>key.
     andthen (prior_of key) (\<lambda>prior.
     if \<not> observation_ok authority_state authority_ref then input_failure key
     else case prior of
       None \<Rightarrow> ret absent_result
     | Some st \<Rightarrow> andthen (own_reconcile key st (dict_items authority_state) (text_of authority_ref)) (\<lambda>owned.
         andthen (\<lambda>s. admit key (reconcile_candidate s now st (text_of authority_ref) owned) s) (\<lambda>_.
           stm_read later p))))"

end
