(* ===== verification/Stm_Properties.thy ===== *)
theory Stm_Properties
  imports Hook_Stm "HOL-Library.Multiset"
begin

text \<open>
  What the short-term memory keeps: its counts never pass the limits, its accounting is exact,
  a rejected call changes nothing but the staleness of its own partition, and an admitted new
  partition evicts the shortest prefix of the eviction order that makes room.
\<close>

section \<open>Calls that leave the state alone\<close>

text \<open>On success nothing changed; on failure at most the partition of the call became stale
  (\<open>quiet\<close>), or it did become stale (\<open>marking\<close>). Only \<^verbatim>\<open>StmError\<close> is raised.\<close>

definition quiet :: "PartitionKey \<Rightarrow> (HookStm, 'a) action \<Rightarrow> ('a \<Rightarrow> bool) \<Rightarrow> bool" where
  "quiet key m Q \<longleftrightarrow> (\<forall>s r s'. m s = (r, s') \<longrightarrow> (case r of
     Inl e \<Rightarrow> (\<exists>c. e = StmErr c) \<and> (s' = s \<or> s' = mark_stale key s) | Inr x \<Rightarrow> s' = s \<and> Q x))"

definition marking :: "PartitionKey \<Rightarrow> (HookStm, 'a) action \<Rightarrow> ('a \<Rightarrow> bool) \<Rightarrow> bool" where
  "marking key m Q \<longleftrightarrow> (\<forall>s r s'. m s = (r, s') \<longrightarrow> (case r of
     Inl e \<Rightarrow> (\<exists>c. e = StmErr c) \<and> s' = mark_stale key s | Inr x \<Rightarrow> s' = s \<and> Q x))"

named_theorems quiet_rules "rules for the calls that leave the state alone"

lemma mark_stale_idem [simp]: "mark_stale key (mark_stale key s) = mark_stale key s"
  by (cases "map_of (hs_partitions s) key") (auto simp: mark_stale_def)

lemma andthen_elim:
  assumes "andthen m k s = (r, s')"
  obtains e where "m s = (Inl e, s')" "r = Inl e" | x s1 where "m s = (Inr x, s1)" "k x s1 = (r, s')"
  using andthen_cases[OF assms] by blast

lemma marking_quiet: "marking key m Q \<Longrightarrow> quiet key m Q"
  unfolding marking_def quiet_def by (force split: sum.splits)

lemma quiet_ret [quiet_rules]: "Q x \<Longrightarrow> quiet key (ret x) Q"
  by (simp add: quiet_def ret_def)

lemma quiet_andthen:
  assumes "quiet key m Q" and "\<And>x. Q x \<Longrightarrow> quiet key (k x) R"
  shows "quiet key (andthen m k) R"
  unfolding quiet_def
proof (intro allI impI)
  fix s r s'
  assume "andthen m k s = (r, s')"
  then show "case r of Inl e \<Rightarrow> (\<exists>c. e = StmErr c) \<and> (s' = s \<or> s' = mark_stale key s) | Inr x \<Rightarrow> s' = s \<and> R x"
    using assms unfolding quiet_def by (elim andthen_elim) (fastforce split: sum.splits)+
qed

lemma marking_andthen:
  assumes "marking key m Q" and "\<And>x. Q x \<Longrightarrow> marking key (k x) R"
  shows "marking key (andthen m k) R"
  unfolding marking_def
proof (intro allI impI)
  fix s r s'
  assume "andthen m k s = (r, s')"
  then show "case r of Inl e \<Rightarrow> (\<exists>c. e = StmErr c) \<and> s' = mark_stale key s | Inr x \<Rightarrow> s' = s \<and> R x"
    using assms unfolding marking_def by (elim andthen_elim) (fastforce split: sum.splits)+
qed

lemma marking_conseq: "marking key m Q \<Longrightarrow> (\<And>x. Q x \<Longrightarrow> R x) \<Longrightarrow> marking key m R"
  unfolding marking_def by (force split: sum.splits)

lemma marking_check_candidate: "marking key (check_candidate key n z) (\<lambda>_. True)"
  by (auto simp: marking_def check_candidate_def capacity_failure_def CAPACITY_EXCEEDED_def split: if_splits)

lemma marking_check_input: "marking key (check_input key hooks refs) (\<lambda>_. list_all (\<lambda>h. \<exists>n. wire_length (snd h) = Some n) hooks)"
proof -
  have "wire_input l hooks b \<noteq> None \<Longrightarrow> list_all (\<lambda>h. \<exists>n. wire_length (snd h) = Some n) hooks" for l b
    by (induction l hooks b rule: wire_input.induct) (auto split: option.splits if_splits)
  then show ?thesis
    by (auto simp: marking_def check_input_def input_limited_def input_failure_def REBUILD_INPUT_LIMIT_def
      split: if_splits option.splits)
qed

lemma marking_capacity_failure: "marking key (capacity_failure key) Q"
  by (simp add: marking_def capacity_failure_def CAPACITY_EXCEEDED_def)

lemma marking_input_failure: "marking key (input_failure key) Q"
  by (simp add: marking_def input_failure_def REBUILD_INPUT_LIMIT_def)

lemma marking_or_capacity_failure: "quiet key m Q \<Longrightarrow> marking key (or_capacity_failure key m) Q"
  unfolding marking_def
proof (intro allI impI)
  fix s r s'
  assume q: "quiet key m Q" and r: "or_capacity_failure key m s = (r, s')"
  obtain a s1 where m: "m s = (a, s1)" by fastforce
  from q m have "case a of Inl e \<Rightarrow> (\<exists>c. e = StmErr c) \<and> (s1 = s \<or> s1 = mark_stale key s) | Inr x \<Rightarrow> s1 = s \<and> Q x"
    unfolding quiet_def by blast
  with r m show "case r of Inl e \<Rightarrow> (\<exists>c. e = StmErr c) \<and> s' = mark_stale key s | Inr x \<Rightarrow> s' = s \<and> Q x"
    by (cases a) (auto simp: or_capacity_failure_def catch_def capacity_failure_def CAPACITY_EXCEEDED_def)
qed

section \<open>Exact accounting\<close>

definition unit_size :: "stm_value \<Rightarrow> int" where
  "unit_size v = utf8_len (stm_json v) + UNIT_ALLOWANCE_BYTES"

definition pair_value :: "projection \<Rightarrow> stm_value" where
  "pair_value pair = SList [SDict (fst pair), SInt (snd pair)]"

definition state_bytes :: "PartitionKey \<Rightarrow> PartitionState \<Rightarrow> int" where
  "state_bytes key st = key_bytes key + (\<Sum>pair\<leftarrow>ps_records st. unit_size (pair_value pair))
     + (\<Sum>r\<leftarrow>ps_authority_refs st. unit_size (SStr r))
     + (case ps_reconciliation_ref st of None \<Rightarrow> 0 | Some r \<Rightarrow> unit_size (SStr r))"

definition exact_state :: "PartitionKey \<Rightarrow> PartitionState \<Rightarrow> bool" where
  "exact_state key st \<longleftrightarrow> ps_accounted_bytes st = state_bytes key st
     \<and> list_all (\<lambda>pair. dumps_ok (pair_value pair)) (ps_records st)"

lemma owned_unit_Inr: "owned_unit v = Inr (w, b) \<longleftrightarrow> dumps_ok v \<and> w = reloaded v \<and> b = unit_size v"
  by (auto simp: owned_unit_def canonical_json_def unit_size_def split: sum.splits if_splits)

lemma pair_value_reloaded [simp]: "pair_value (pair_of (reloaded (SList [SDict d, SInt n]))) = reloaded (SList [SDict d, SInt n])"
  by (simp add: pair_of_def pair_value_def)

lemma reloaded_size [simp]: "unit_size (reloaded v) = unit_size v"
  by (simp add: unit_size_def)

lemma quiet_own_unit:
  "quiet key (own_unit key n v z) (\<lambda>(owned, z'). owned = reloaded v \<and> z' = z + unit_size v \<and> dumps_ok v)"
proof -
  have "quiet key (lift_res (owned_unit v)) (\<lambda>(owned, b). dumps_ok v \<and> owned = reloaded v \<and> b = unit_size v)"
    by (auto simp: quiet_def lift_res_def owned_unit_def canonical_json_def unit_size_def CAPACITY_EXCEEDED_def split: sum.splits if_splits)
  then show ?thesis unfolding own_unit_def
    by (rule quiet_andthen)
      (auto intro!: quiet_andthen[OF marking_quiet[OF marking_check_candidate]] quiet_ret)
qed

definition owned_pairs :: "projection list \<Rightarrow> int \<Rightarrow> int \<Rightarrow> bool" where
  "owned_pairs pairs z z' \<longleftrightarrow> z' = z + (\<Sum>pair\<leftarrow>pairs. unit_size (pair_value pair)) \<and> list_all (\<lambda>pair. dumps_ok (pair_value pair)) pairs"

definition retained :: "(string \<times> stm_value) list \<times> stm_value \<Rightarrow> projection" where
  "retained h = pair_of (reloaded (SList [SDict (fst h), snd h]))"

lemma wire_length_Some: "wire_length w = Some n \<Longrightarrow> w = SInt n"
  by (auto simp: wire_length_def split: stm_value.splits if_splits)

lemma quiet_own_records:
  "list_all (\<lambda>h. \<exists>n. wire_length (snd h) = Some n) hooks \<Longrightarrow>
   quiet key (own_records key n hooks z) (\<lambda>(pairs, z'). owned_pairs pairs z z' \<and> pairs = map retained hooks)"
proof (induction hooks arbitrary: z)
  case Nil
  then show ?case by (auto intro!: quiet_ret simp: owned_pairs_def)
next
  case (Cons h hooks)
  obtain d w k where h: "h = (d, w)" "w = SInt k"
    using Cons.prems by (cases h) (auto dest: wire_length_Some)
  let ?v = "SList [SDict d, SInt k]"
  have "quiet key (andthen (own_records key n hooks (z + unit_size ?v)) (\<lambda>(pairs, z'). ret (pair_of (reloaded ?v) # pairs, z')))
      (\<lambda>(pairs, z'). owned_pairs pairs z z' \<and> pairs = map retained (h # hooks))" if "dumps_ok ?v"
    using Cons that unfolding h
    by (intro quiet_andthen[OF Cons.IH]) (auto intro!: quiet_ret simp: owned_pairs_def retained_def
      simp del: reloaded.simps stm_json.simps dumps_ok.simps)
  then show ?case unfolding h own_records.simps
    by (auto intro!: quiet_andthen[OF quiet_own_unit])
qed

lemma quiet_own_references:
  "quiet key (own_references key n refs z) (\<lambda>z'. z' = z + (\<Sum>r\<leftarrow>refs. unit_size (SStr r)))"
proof (induction refs arbitrary: z)
  case Nil
  then show ?case by (auto intro!: quiet_ret)
next
  case (Cons r refs)
  have "quiet key (own_references key n refs (z + unit_size (SStr r))) (\<lambda>z'. z' = z + (\<Sum>r\<leftarrow>r # refs. unit_size (SStr r)))"
    using Cons[of "z + unit_size (SStr r)"] by (simp add: add.assoc)
  then show ?case unfolding own_references.simps
    by (auto intro!: quiet_andthen[OF quiet_own_unit])
qed

lemma set_update_subset: "set (AList.update k v d) \<subseteq> insert (k, v) (set d)"
  by (induction d) auto

abbreviation dumps_values :: "(string \<times> stm_value) list \<Rightarrow> bool" where
  "dumps_values kvs \<equiv> list_all (\<lambda>kv. dumps_ok (snd kv)) kvs"

lemma correct_dumps:
  "dumps_values authority \<Longrightarrow> dumps_values d \<Longrightarrow> \<exists>c g. correct authority d degraded = Inr (c, g) \<and> dumps_values c"
proof (induction authority d degraded rule: correct.induct)
  case (2 name observed authority d degraded)
  show ?case
  proof (cases "map_of d name")
    case (Some current)
    have current: "dumps_ok current" using 2 map_of_SomeD[OF Some] by (auto simp: list_all_iff)
    have observed: "dumps_ok observed" and auth: "dumps_values authority" using 2 by auto
    have upd: "dumps_values (AList.update name observed d)"
      using 2(5) observed set_update_subset[of name observed d] by (auto simp: list_all_iff)
    show ?thesis
    proof (cases "stm_json current = stm_json observed")
      case True
      then have "\<exists>c g. correct authority d degraded = Inr (c, g) \<and> dumps_values c"
        using 2(3)[OF Some _ auth 2(5), of "stm_json current" "stm_json observed"] by simp
      with True show ?thesis using Some current observed by (simp add: canonical_json_def)
    next
      case False
      then have "\<exists>c g. correct authority (AList.update name observed d) True = Inr (c, g) \<and> dumps_values c"
        using 2(2)[OF Some _ auth upd, of "stm_json current" "stm_json observed"] by simp
      with False show ?thesis using Some current observed by (simp add: canonical_json_def)
    qed
  qed (use 2 in simp)
qed simp

lemma quiet_own_corrected:
  "dumps_values authority \<Longrightarrow> list_all (\<lambda>pair. dumps_ok (pair_value pair)) prior \<Longrightarrow>
   quiet key (own_corrected key n authority prior z degraded)
     (\<lambda>(pairs, z', _). owned_pairs pairs z z' \<and> length pairs = length prior)"
proof (induction prior arbitrary: z degraded)
  case Nil
  then show ?case by (auto intro!: quiet_ret simp: owned_pairs_def)
next
  case (Cons pair prior)
  obtain d w where pair: "pair = (d, w)" by fastforce
  have "dumps_values d" using Cons.prems(2) by (simp add: pair pair_value_def)
  then obtain c g where c: "correct authority d degraded = Inr (c, g)" using correct_dumps Cons.prems(1) by blast
  let ?v = "SList [SDict c, SInt w]"
  have "quiet key (andthen (own_corrected key n authority prior (z + unit_size ?v) g) (\<lambda>(pairs, z', g). ret (pair_of (reloaded ?v) # pairs, z', g)))
      (\<lambda>(pairs, z', _). owned_pairs pairs z z' \<and> length pairs = length (pair # prior))" if "dumps_ok ?v"
    using Cons that
    by (intro quiet_andthen[OF Cons.IH]) (auto intro!: quiet_ret simp: owned_pairs_def
      simp del: reloaded.simps stm_json.simps dumps_ok.simps)
  then have rest: "quiet key (andthen (own_unit key n ?v z) (\<lambda>(p, z). andthen (own_corrected key n authority prior z g)
      (\<lambda>(pairs, z', g). ret (pair_of p # pairs, z', g)))) (\<lambda>(pairs, z', _). owned_pairs pairs z z' \<and> length pairs = length (pair # prior))"
    by (auto intro!: quiet_andthen[OF quiet_own_unit])
  have "quiet key (lift_res (correct authority d degraded)) (\<lambda>x. x = (c, g))"
    by (simp add: c quiet_def lift_res_def)
  then show ?case unfolding pair own_corrected.simps by (rule quiet_andthen) (use rest in \<open>simp add: pair\<close>)
qed

lemma marking_own_rebuild:
  assumes "list_all (\<lambda>h. \<exists>n. wire_length (snd h) = Some n) hooks"
  shows "marking key (own_rebuild key hooks refs) (\<lambda>(pairs, z).
    owned_pairs pairs (key_bytes key) (z - (\<Sum>r\<leftarrow>refs. unit_size (SStr r))) \<and> pairs = map retained hooks)"
  unfolding own_rebuild_def Let_def
  by (rule marking_andthen[OF marking_check_candidate], rule marking_or_capacity_failure,
      rule quiet_andthen[OF quiet_own_records[OF assms]])
    (auto intro!: quiet_andthen[OF quiet_own_references] quiet_ret)

lemma marking_own_reconcile:
  assumes "dumps_values authority" and "list_all (\<lambda>pair. dumps_ok (pair_value pair)) (ps_records prior)"
  shows "marking key (own_reconcile key prior authority aref) (\<lambda>(pairs, z, _).
    owned_pairs pairs (key_bytes key) (z - (\<Sum>r\<leftarrow>ps_authority_refs prior @ [aref]. unit_size (SStr r)))
    \<and> length pairs = length (ps_records prior))"
  unfolding own_reconcile_def Let_def
  by (rule marking_andthen[OF marking_check_candidate], rule marking_or_capacity_failure,
      rule quiet_andthen[OF quiet_own_corrected[OF assms]])
    (auto intro!: quiet_andthen[OF quiet_own_references] quiet_ret)

section \<open>Admission\<close>

text \<open>The candidate fits the limits of one partition.\<close>

definition within_partition :: "HookStm \<Rightarrow> PartitionState \<Rightarrow> bool" where
  "within_partition s st \<longleftrightarrow> unit_count st \<le> hs_records_per_partition s \<and> ps_accounted_bytes st \<le> hs_bytes_per_partition s"

definition room_without :: "HookStm \<Rightarrow> PartitionState \<Rightarrow> (PartitionKey \<times> PartitionState) list \<Rightarrow> bool" where
  "room_without s candidate victims = fits s (partition_count s + 1 - int (length victims))
     (record_count s + unit_count candidate - (\<Sum>v\<leftarrow>victims. unit_count (snd v)))
     (accounted_bytes s + ps_accounted_bytes candidate - (\<Sum>v\<leftarrow>victims. ps_accounted_bytes (snd v)))"

lemma pick_victims_prefix:
  assumes "pick_victims s ordered p c z = (vs, True)"
  shows "\<exists>victims rest. ordered = victims @ rest \<and> vs = map fst victims
    \<and> fits s (p - int (length victims)) (c - (\<Sum>v\<leftarrow>victims. unit_count (snd v))) (z - (\<Sum>v\<leftarrow>victims. ps_accounted_bytes (snd v)))
    \<and> (\<forall>n. 0 < n \<and> n < length victims \<longrightarrow> \<not> fits s (p - int n) (c - (\<Sum>v\<leftarrow>take n victims. unit_count (snd v)))
         (z - (\<Sum>v\<leftarrow>take n victims. ps_accounted_bytes (snd v))))"
  using assms
proof (induction s ordered p c z arbitrary: vs rule: pick_victims.induct)
  case (1 s p c z)
  then show ?case by simp
next
  case (2 s k st ordered p c z)
  show ?case
  proof (cases "fits s (p - 1) (c - unit_count st) (z - ps_accounted_bytes st)")
    case True
    then show ?thesis using 2(2)
      by (intro exI[where x = "[(k, st)]"] exI[where x = ordered]) (auto simp: Let_def)
  next
    case False
    then obtain ws where ws: "vs = k # ws" "pick_victims s ordered (p - 1) (c - unit_count st) (z - ps_accounted_bytes st) = (ws, True)"
      using 2(2) by (cases "pick_victims s ordered (p - 1) (c - unit_count st) (z - ps_accounted_bytes st)") (auto simp: Let_def)
    from 2(1)[OF refl refl refl False ws(2)] obtain victims rest where v: "ordered = victims @ rest" "ws = map fst victims"
      "fits s (p - 1 - int (length victims)) (c - unit_count st - (\<Sum>v\<leftarrow>victims. unit_count (snd v)))
         (z - ps_accounted_bytes st - (\<Sum>v\<leftarrow>victims. ps_accounted_bytes (snd v)))"
      "\<And>n. 0 < n \<Longrightarrow> n < length victims \<Longrightarrow> \<not> fits s (p - 1 - int n) (c - unit_count st - (\<Sum>v\<leftarrow>take n victims. unit_count (snd v)))
         (z - ps_accounted_bytes st - (\<Sum>v\<leftarrow>take n victims. ps_accounted_bytes (snd v)))" by blast
    have "\<not> fits s (p - int n) (c - (\<Sum>v\<leftarrow>take n ((k, st) # victims). unit_count (snd v)))
         (z - (\<Sum>v\<leftarrow>take n ((k, st) # victims). ps_accounted_bytes (snd v)))"
      if "0 < n" "n < length ((k, st) # victims)" for n
    proof (cases n)
      case (Suc m)
      then show ?thesis using v(4)[of m] that False by (cases "m = 0") (simp_all add: algebra_simps)
    qed (use that in simp)
    moreover have "fits s (p - int (length ((k, st) # victims))) (c - (\<Sum>v\<leftarrow>(k, st) # victims. unit_count (snd v)))
         (z - (\<Sum>v\<leftarrow>(k, st) # victims. ps_accounted_bytes (snd v)))"
      using v(3) by (simp add: algebra_simps)
    ultimately show ?thesis using v(1,2) ws(1) by (intro exI[of _ "(k, st) # victims"] exI[of _ rest]) auto
  qed
qed

lemma fold_delete: "fold AList.delete ks d = filter (\<lambda>kv. fst kv \<notin> set ks) d"
proof (induction ks arbitrary: d)
  case (Cons k ks)
  have "filter (\<lambda>kv. fst kv \<notin> set ks) (AList.delete k d) = filter (\<lambda>kv. fst kv \<notin> set (k # ks)) d"
    by (induction d) auto
  with Cons show ?case by simp
qed simp

text \<open>What an admission did: the candidate replaced its partition, or joined those that were
  not evicted.\<close>

definition admitted :: "PartitionKey \<Rightarrow> PartitionState \<Rightarrow> HookStm \<Rightarrow> HookStm \<Rightarrow> bool" where
  "admitted key candidate s s' \<longleftrightarrow> (case map_of (hs_partitions s) key of
     Some prior \<Rightarrow> fits s (partition_count s) (record_count s + unit_count candidate - unit_count prior)
         (accounted_bytes s + ps_accounted_bytes candidate - ps_accounted_bytes prior)
       \<and> s' = s\<lparr>hs_partitions := AList.update key candidate (hs_partitions s)\<rparr>
   | None \<Rightarrow> \<exists>victims rest. eviction_order s (ps_refreshed_at candidate) = victims @ rest
       \<and> room_without s candidate victims
       \<and> (\<forall>n < length victims. \<not> room_without s candidate (take n victims))
       \<and> s' = s\<lparr>hs_partitions := filter (\<lambda>kv. fst kv \<notin> fst ` set victims) (hs_partitions s) @ [(key, candidate)]\<rparr>)"

lemma admit_new_cases:
  assumes none: "map_of (hs_partitions s) key = None" and full: "\<not> room_without s candidate []"
    and r: "admit_new key candidate s = (r, s')"
  shows "r = Inl CAPACITY_EXCEEDED \<and> s' = mark_stale key s \<or> r = Inr () \<and> admitted key candidate s s'"
proof -
  let ?order = "eviction_order s (ps_refreshed_at candidate)"
  obtain vs ok where plan: "pick_victims s ?order (partition_count s + 1) (record_count s + unit_count candidate)
      (accounted_bytes s + ps_accounted_bytes candidate) = (vs, ok)" by fastforce
  show ?thesis
  proof (cases ok)
    case False
    then show ?thesis using r plan by (auto simp: admit_new_def capacity_failure_def)
  next
    case True
    from pick_victims_prefix[OF plan[unfolded eqTrueI[OF True]]] obtain victims rest where v: "?order = victims @ rest" "vs = map fst victims" "room_without s candidate victims"
      "\<And>n. 0 < n \<Longrightarrow> n < length victims \<Longrightarrow> \<not> room_without s candidate (take n victims)"
      by (auto simp: room_without_def min_def)
    have least: "\<not> room_without s candidate (take n victims)" if "n < length victims" for n
      using v(4)[of n] full that by (cases "n = 0") auto
    let ?kept = "filter (\<lambda>kv. fst kv \<notin> fst ` set victims) (hs_partitions s)"
    have "key \<notin> fst ` set ?kept" using none by (auto simp: map_of_eq_None_iff)
    then have "s' = s\<lparr>hs_partitions := ?kept @ [(key, candidate)]\<rparr>" "r = Inr ()"
      using r plan True v(2) by (auto simp: admit_new_def fold_delete update_new)
    then show ?thesis using none v(1,3) least by (auto simp: admitted_def)
  qed
qed

lemma admit_cases:
  assumes "admit key candidate s = (r, s')"
  shows "r = Inl CAPACITY_EXCEEDED \<and> s' = mark_stale key s \<or> r = Inr () \<and> within_partition s candidate \<and> admitted key candidate s s'"
proof (cases "check_candidate key (unit_count candidate) (ps_accounted_bytes candidate) s = (Inr (), s)")
  case False
  then show ?thesis using assms
    by (auto simp: admit_def andthen_def check_candidate_def capacity_failure_def split: if_splits)
next
  case True
  then have within: "within_partition s candidate"
    by (auto simp: check_candidate_def within_partition_def capacity_failure_def split: if_splits)
  show ?thesis
  proof (cases "map_of (hs_partitions s) key")
    case (Some prior)
    then show ?thesis using assms True within
      by (auto simp: admit_def andthen_def Let_def admitted_def capacity_failure_def algebra_simps split: if_splits)
  next
    case None
    have room: "room_without s candidate [] \<longleftrightarrow> fits s (partition_count s + 1) (record_count s + unit_count candidate)
        (accounted_bytes s + ps_accounted_bytes candidate)" by (simp add: room_without_def)
    show ?thesis
    proof (cases "room_without s candidate []")
      case True': True
      then have "admitted key candidate s (s\<lparr>hs_partitions := AList.update key candidate (hs_partitions s)\<rparr>)"
        using None update_new[of key "hs_partitions s" candidate]
        by (simp add: admitted_def map_of_eq_None_iff[symmetric]) (rule exI[of _ "[]"], simp)
      then show ?thesis using assms True True' None within room by (auto simp: admit_def andthen_def Let_def)
    next
      case False
      then have "admit_new key candidate s = (r, s')"
        using assms True None room by (auto simp: admit_def andthen_def Let_def)
      from admit_new_cases[OF None False this] show ?thesis using within by blast
    qed
  qed
qed

section \<open>The invariant\<close>

definition hard_limits :: "HookStm \<Rightarrow> bool" where
  "hard_limits s \<longleftrightarrow> 300 \<le> hs_ttl_seconds s \<and> hs_ttl_seconds s \<le> 86400 \<and> hs_max_partitions s \<le> 256
     \<and> hs_records_per_partition s \<le> 256 \<and> hs_records_total s \<le> 4096
     \<and> hs_bytes_per_partition s \<le> 1024 * 1024 \<and> hs_bytes_total s \<le> 8 * 1024 * 1024"

definition stm_ok :: "HookStm \<Rightarrow> bool" where
  "stm_ok s \<longleftrightarrow> hard_limits s \<and> distinct (map fst (hs_partitions s))
     \<and> fits s (partition_count s) (record_count s) (accounted_bytes s)
     \<and> (\<forall>kst \<in> set (hs_partitions s). exact_state (fst kst) (snd kst) \<and> within_partition s (snd kst) \<and> key_bytes (fst kst) \<le> 1024)"

lemma sum_list_update:
  fixes f :: "'b \<Rightarrow> int"
  assumes "map_of d k = Some v"
  shows "(\<Sum>kv\<leftarrow>AList.update k w d. f (snd kv)) = (\<Sum>kv\<leftarrow>d. f (snd kv)) - f v + f w"
  using assms by (induction d) (auto split: if_splits)

lemma length_update: "map_of d k = Some v \<Longrightarrow> length (AList.update k w d) = length d"
  by (induction d) (auto split: if_splits)

lemma keys_update: "map_of d k = Some v \<Longrightarrow> map fst (AList.update k w d) = map fst d"
  by (induction d) (auto split: if_splits)

lemma fits_limits [simp]: "fits (s\<lparr>hs_partitions := ps\<rparr>) = fits s"
  by (simp add: fits_def fun_eq_iff)

lemma within_partition_limits [simp]: "within_partition (s\<lparr>hs_partitions := ps\<rparr>) = within_partition s"
  by (simp add: within_partition_def fun_eq_iff)

lemma hard_limits_limits [simp]: "hard_limits (s\<lparr>hs_partitions := ps\<rparr>) = hard_limits s"
  by (simp add: hard_limits_def)

lemmas stm_totals = partition_count_def record_count_def accounted_bytes_def

lemma stm_ok_update:
  assumes ok: "stm_ok s" and prior: "map_of (hs_partitions s) key = Some prior"
    and fit: "fits s (partition_count s) (record_count s + unit_count st - unit_count prior) (accounted_bytes s + ps_accounted_bytes st - ps_accounted_bytes prior)"
    and st: "exact_state key st" "within_partition s st"
  shows "stm_ok (s\<lparr>hs_partitions := AList.update key st (hs_partitions s)\<rparr>)"
proof -
  have "key_bytes key \<le> 1024" using ok map_of_SomeD[OF prior] by (force simp: stm_ok_def)
  then show ?thesis
    using ok fit st set_update_subset[of key st "hs_partitions s"]
    by (auto simp: stm_ok_def stm_totals length_update[OF prior] keys_update[OF prior] sum_list_update[OF prior] algebra_simps)
qed

lemma mark_stale_ok:
  assumes "stm_ok s"
  shows "stm_ok (mark_stale key s)"
proof (cases "map_of (hs_partitions s) key")
  case (Some st)
  let ?st = "st\<lparr>ps_rebuild_required := True\<rparr>"
  have "exact_state key st" "within_partition s st"
    using assms map_of_SomeD[OF Some] by (force simp: stm_ok_def)+
  then have "exact_state key ?st" "within_partition s ?st"
    by (simp_all add: exact_state_def state_bytes_def within_partition_def unit_count_def)
  moreover have "unit_count ?st = unit_count st" by (simp add: unit_count_def)
  ultimately show ?thesis
    using stm_ok_update[OF assms Some, of ?st] assms Some by (simp add: mark_stale_def stm_ok_def)
qed (use assms in \<open>simp add: mark_stale_def\<close>)

text \<open>Evicting a prefix of the eviction order leaves the rest of it.\<close>

lemma evicted_rest:
  assumes "distinct (map fst d)" and "mset d = mset (victims @ rest)"
  shows "mset (filter (\<lambda>kv. fst kv \<notin> fst ` set victims) d) = mset rest"
proof -
  have dist: "distinct (map fst (victims @ rest))"
    using assms by (metis mset_eq_imp_distinct_iff mset_map)
  have "filter (\<lambda>kv. fst kv \<notin> fst ` set victims) victims = []" by (auto simp: filter_empty_conv)
  moreover have "filter (\<lambda>kv. fst kv \<notin> fst ` set victims) rest = rest"
    using dist by (intro filter_True) (auto simp: disjoint_iff image_iff)
  ultimately have kept: "filter (\<lambda>kv. fst kv \<notin> fst ` set victims) (victims @ rest) = rest" by simp
  have "mset (filter P d) = mset (filter P (victims @ rest))" for P
    using assms(2) by (simp only: mset_filter)
  from this[of "\<lambda>kv. fst kv \<notin> fst ` set victims"] show ?thesis unfolding kept .
qed

lemma sum_of_mset:
  fixes f :: "'a \<Rightarrow> int"
  shows "mset xs = mset ys \<Longrightarrow> (\<Sum>x\<leftarrow>xs. f x) = (\<Sum>x\<leftarrow>ys. f x)"
  by (metis mset_map sum_mset_sum_list)

lemma stm_ok_join:
  assumes ok: "stm_ok s" and none: "map_of (hs_partitions s) key = None"
    and order: "eviction_order s now = victims @ rest" and room: "room_without s st victims"
    and st: "exact_state key st" "within_partition s st" "key_bytes key \<le> 1024"
  shows "stm_ok (s\<lparr>hs_partitions := filter (\<lambda>kv. fst kv \<notin> fst ` set victims) (hs_partitions s) @ [(key, st)]\<rparr>)"
proof -
  let ?kept = "filter (\<lambda>kv. fst kv \<notin> fst ` set victims) (hs_partitions s)"
  have dist: "distinct (map fst (hs_partitions s))" using ok by (simp add: stm_ok_def)
  have all: "mset (hs_partitions s) = mset (victims @ rest)"
    unfolding order[symmetric] by (simp add: eviction_order_def)
  note rest = evicted_rest[OF dist all]
  have sums: "(\<Sum>x\<leftarrow>?kept. f x) = (\<Sum>x\<leftarrow>hs_partitions s. f x) - (\<Sum>x\<leftarrow>victims. f x)" for f :: "_ \<Rightarrow> int"
    using sum_of_mset[OF rest, of f] sum_of_mset[OF all, of f] by simp
  have len: "int (length ?kept) = int (length (hs_partitions s)) - int (length victims)"
    using mset_eq_length[OF rest] mset_eq_length[OF all] by simp
  have "fits s (int (length (?kept @ [(key, st)]))) (\<Sum>x\<leftarrow>?kept @ [(key, st)]. unit_count (snd x)) (\<Sum>x\<leftarrow>?kept @ [(key, st)]. ps_accounted_bytes (snd x))"
    using room len by (simp add: room_without_def sums stm_totals fits_def)
  moreover have "distinct (map fst (?kept @ [(key, st)]))"
    using dist none by (auto simp: distinct_map_filter map_of_eq_None_iff)
  ultimately show ?thesis using ok st by (auto simp: stm_ok_def stm_totals)
qed

lemma admitted_ok:
  assumes ok: "stm_ok s" and adm: "admitted key st s s'"
    and st: "exact_state key st" "within_partition s st" "key_bytes key \<le> 1024"
  shows "stm_ok s'"
proof (cases "map_of (hs_partitions s) key")
  case (Some prior)
  then show ?thesis using adm stm_ok_update[OF ok Some _ st(1,2)] by (auto simp: admitted_def)
next
  case None
  then show ?thesis using adm stm_ok_join[OF ok None _ _ st] by (auto simp: admitted_def)
qed

lemma new_hook_stm_ok: "stm_ok (new_hook_stm ttl items bytes partitions per_partition record_total partition_bytes byte_total)"
  by (simp add: stm_ok_def hard_limits_def new_hook_stm_def fits_def stm_totals clamp_def)

section \<open>Every call\<close>

text \<open>A call that may admit: it raises and marks its partition stale, or admits a candidate
  refreshed at the time of the call.\<close>

definition admits :: "PartitionKey \<Rightarrow> real \<Rightarrow> HookStm \<Rightarrow> exn + 'a \<Rightarrow> HookStm \<Rightarrow> bool" where
  "admits key now s r s' \<longleftrightarrow> (case r of
     Inl e \<Rightarrow> (\<exists>c. e = StmErr c) \<and> s' = mark_stale key s
   | Inr _ \<Rightarrow> \<exists>st. ps_refreshed_at st = now \<and> exact_state key st \<and> within_partition s st \<and> admitted key st s s')"

lemma marking_then_admits:
  assumes "marking key m Q" and "andthen m k s = (r, s')"
    and "\<And>x. m s = (Inr x, s) \<Longrightarrow> Q x \<Longrightarrow> k x s = (r, s') \<Longrightarrow> admits key now s r s'"
  shows "admits key now s r s'"
  using assms(2)
proof (elim andthen_elim)
  fix e assume "m s = (Inl e, s')" "r = Inl e"
  then show ?thesis using assms(1) by (fastforce simp: marking_def admits_def)
next
  fix x s1 assume m: "m s = (Inr x, s1)" "k x s1 = (r, s')"
  then have "s1 = s" "Q x" using assms(1) unfolding marking_def by fastforce+
  then show ?thesis using m assms(3) by blast
qed

lemma admit_admits:
  assumes "andthen (admit key st) k s = (r, s')" and "\<And>s. \<exists>x. k () s = (Inr x, s)"
    and "ps_refreshed_at st = now" "exact_state key st"
  shows "admits key now s r s'"
  using assms(1)
proof (elim andthen_elim)
  fix e assume "admit key st s = (Inl e, s')" "r = Inl e"
  then show ?thesis using admit_cases[of key st s] by (force simp: admits_def CAPACITY_EXCEEDED_def)
next
  fix x s1 assume a: "admit key st s = (Inr x, s1)" "k x s1 = (r, s')"
  then have "s' = s1" "\<exists>y. r = Inr y" using assms(2)[of s1] by auto
  then show ?thesis using a admit_cases[of key st s] assms(3,4) by (fastforce simp: admits_def)
qed

lemma update_admits:
  assumes "stm_ok s" and r: "update_partition now key (map_of (hs_partitions s) key) d w s = (r, s')"
  shows "admits key now s r s'"
  using r unfolding update_partition_def Let_def
proof (rule marking_then_admits[OF marking_check_candidate])
  let ?prior = "map_of (hs_partitions s) key"
  let ?z = "case ?prior of Some st \<Rightarrow> ps_accounted_bytes st | None \<Rightarrow> key_bytes key"
  assume k: "(case wire_length w of None \<Rightarrow> capacity_failure key
     | Some n \<Rightarrow> (case owned_unit (SList [SDict d, SInt n]) of Inl _ \<Rightarrow> capacity_failure key
       | Inr (pair, unit_bytes) \<Rightarrow> andthen (check_candidate key ((case ?prior of Some st \<Rightarrow> unit_count st | None \<Rightarrow> 0) + 1) (?z + unit_bytes)) (\<lambda>_.
           admit key (update_candidate now ?prior (pair_of pair) (?z + unit_bytes))))) s = (r, s')"
  have failed: "capacity_failure key s = (r, s') \<Longrightarrow> ?thesis"
    by (auto simp: capacity_failure_def admits_def CAPACITY_EXCEEDED_def)
  show ?thesis
  proof (cases "\<exists>n pair b. wire_length w = Some n \<and> owned_unit (SList [SDict d, SInt n]) = Inr (pair, b)")
    case False
    then show ?thesis using k failed by (auto split: option.splits sum.splits prod.splits)
  next
    case True
    then obtain n pair b where n: "wire_length w = Some n" and u: "owned_unit (SList [SDict d, SInt n]) = Inr (pair, b)" by blast
    let ?st = "update_candidate now ?prior (pair_of pair) (?z + b)"
    from u have pair: "pair = reloaded (SList [SDict d, SInt n])" "b = unit_size (SList [SDict d, SInt n])" "dumps_ok (SList [SDict d, SInt n])"
      by (simp_all only: owned_unit_Inr)
    have new: "unit_size (pair_value (pair_of pair)) = b" "dumps_ok (pair_value (pair_of pair))"
      unfolding pair pair_value_reloaded using pair(3) by (simp_all only: reloaded_size dumps_ok_reloaded)
    have "exact_state key st" if "?prior = Some st" for st
      using assms(1) map_of_SomeD[OF that] by (force simp: stm_ok_def)
    then have "exact_state key ?st"
      using new by (cases ?prior) (auto simp: exact_state_def state_bytes_def update_candidate_def)
    moreover have "ps_refreshed_at ?st = now" by (simp add: update_candidate_def)
    ultimately have adm: "admit key ?st s = (r, s') \<Longrightarrow> ?thesis"
      using admit_admits[of key ?st ret s r s' now] by (simp add: andthen_def ret_def split: prod.splits sum.splits)
    have "andthen (check_candidate key ((case ?prior of Some st \<Rightarrow> unit_count st | None \<Rightarrow> 0) + 1) (?z + b)) (\<lambda>_. admit key ?st) s = (r, s')"
      using k n u by (simp only: option.case sum.case prod.case)
    from marking_then_admits[OF marking_check_candidate this adm] show ?thesis .
  qed
qed

lemma rebuild_candidate_exact:
  assumes "owned_pairs pairs (key_bytes key) (z - (\<Sum>r\<leftarrow>refs. unit_size (SStr r)))"
  shows "exact_state key \<lparr>ps_refreshed_at = now, ps_records = pairs, ps_authority_refs = refs, ps_rebuild_required = False,
    ps_accounted_bytes = z, ps_derived_degraded = False, ps_reconciliation_ref = None\<rparr>"
  using assms by (simp add: exact_state_def state_bytes_def owned_pairs_def)

lemma rebuild_admits:
  assumes "partition_key p = Inr key" and "stm_rebuild now p hooks refs s = (r, s')"
  shows "admits key now s r s'"
proof -
  from assms have "andthen (check_input key hooks refs) (\<lambda>_. andthen (own_rebuild key hooks refs) (\<lambda>(pairs, z).
     andthen (admit key \<lparr>ps_refreshed_at = now, ps_records = pairs, ps_authority_refs = refs,
       ps_rebuild_required = False, ps_accounted_bytes = z, ps_derived_degraded = False, ps_reconciliation_ref = None\<rparr>) (\<lambda>_.
     ret \<lparr>rr_state = FRESH, rr_rebuild_required = False, rr_records = pairs,
       rr_derived_degraded = False, rr_authority_ref = None\<rparr>))) s = (r, s')"
    unfolding stm_rebuild_def andthen_def[of "lift_res _"] by (simp add: lift_res_def)
  then show ?thesis
  proof (rule marking_then_admits[OF marking_check_input])
    fix u assume wires: "list_all (\<lambda>h. \<exists>n. wire_length (snd h) = Some n) hooks"
    assume "andthen (own_rebuild key hooks refs) (\<lambda>(pairs, z).
     andthen (admit key \<lparr>ps_refreshed_at = now, ps_records = pairs, ps_authority_refs = refs,
       ps_rebuild_required = False, ps_accounted_bytes = z, ps_derived_degraded = False, ps_reconciliation_ref = None\<rparr>) (\<lambda>_.
     ret \<lparr>rr_state = FRESH, rr_rebuild_required = False, rr_records = pairs,
       rr_derived_degraded = False, rr_authority_ref = None\<rparr>)) s = (r, s')"
    then show ?thesis
      by (rule marking_then_admits[OF marking_own_rebuild[OF wires]])
        (auto elim!: admit_admits simp: ret_def rebuild_candidate_exact)
  qed
qed

lemma stm_read_Inr: "partition_key p = Inr key \<Longrightarrow>
  stm_read now p s = (Inr (case map_of (hs_partitions s) key of None \<Rightarrow> absent_result | Some st \<Rightarrow> read_state s now st), s)"
  by (simp add: stm_read_def andthen_def lift_res_def prior_of_def)

lemma observation_dumps: "observation_ok v aref \<Longrightarrow> dumps_values (dict_items v)"
  using plain_leaves_dumps[of v]
  by (auto simp: observation_ok_def validate_observation_spend dict_items_def split: if_splits)

lemma reconcile_admits:
  assumes key: "partition_key p = Inr key" and ok: "stm_ok s" and some: "map_of (hs_partitions s) key = Some prior"
    and obs: "observation_ok v aref" and r: "stm_reconcile now later p v aref s = (r, s')"
  shows "admits key now s r s'"
proof -
  have "exact_state key prior" using ok map_of_SomeD[OF some] by (force simp: stm_ok_def)
  then have retained_dump: "list_all (\<lambda>pair. dumps_ok (pair_value pair)) (ps_records prior)" by (simp add: exact_state_def)
  from r have "andthen (own_reconcile key prior (dict_items v) (text_of aref)) (\<lambda>owned.
      andthen (\<lambda>s. admit key (reconcile_candidate s now prior (text_of aref) owned) s) (\<lambda>_. stm_read later p)) s = (r, s')"
    using key some obs unfolding stm_reconcile_def andthen_def[of "lift_res _"] andthen_def[of "prior_of _"]
    by (simp add: lift_res_def prior_of_def)
  then show ?thesis
  proof (rule marking_then_admits[OF marking_own_reconcile[OF observation_dumps[OF obs] retained_dump]])
    fix owned
    let ?st = "reconcile_candidate s now prior (text_of aref) owned"
    assume "case owned of (pairs, z, _) \<Rightarrow> owned_pairs pairs (key_bytes key) (z - (\<Sum>r\<leftarrow>ps_authority_refs prior @ [text_of aref]. unit_size (SStr r)))
        \<and> length pairs = length (ps_records prior)"
    then have "exact_state key ?st"
      by (cases owned) (auto simp: exact_state_def state_bytes_def owned_pairs_def reconcile_candidate_def)
    moreover assume "andthen (\<lambda>s. admit key (reconcile_candidate s now prior (text_of aref) owned) s) (\<lambda>_. stm_read later p) s = (r, s')"
    then have "andthen (admit key ?st) (\<lambda>_. stm_read later p) s = (r, s')" by (simp add: andthen_def)
    ultimately show ?thesis
      by (elim admit_admits) (simp_all add: stm_read_Inr[OF key] reconcile_candidate_def split: prod.splits)
  qed
qed

text \<open>The calls of a client.\<close>

datatype stm_call =
    CallUpdate real StmPartition "(string \<times> stm_value) list" stm_value
  | CallRebuild real StmPartition "((string \<times> stm_value) list \<times> stm_value) list" "string list"
  | CallReconcile real real StmPartition stm_value stm_value
  | CallRead real StmPartition

fun call_partition :: "stm_call \<Rightarrow> StmPartition" where
  "call_partition (CallUpdate _ p _ _) = p"
| "call_partition (CallRebuild _ p _ _) = p"
| "call_partition (CallReconcile _ _ p _ _) = p"
| "call_partition (CallRead _ p) = p"

fun call_time :: "stm_call \<Rightarrow> real" where
  "call_time (CallUpdate t _ _ _) = t"
| "call_time (CallRebuild t _ _ _) = t"
| "call_time (CallReconcile t _ _ _ _) = t"
| "call_time (CallRead t _) = t"

fun run_call :: "stm_call \<Rightarrow> (HookStm, StmReadResult option) action" where
  "run_call (CallUpdate t p d w) = andthen (stm_update t p d w) (\<lambda>_. ret None)"
| "run_call (CallRebuild t p hooks refs) = andthen (stm_rebuild t p hooks refs) (\<lambda>r. ret (Some r))"
| "run_call (CallReconcile t u p v aref) = andthen (stm_reconcile t u p v aref) (\<lambda>r. ret (Some r))"
| "run_call (CallRead t p) = andthen (stm_read t p) (\<lambda>r. ret (Some r))"

inductive stm_reachable :: "HookStm \<Rightarrow> bool" where
  reach_new: "stm_reachable (new_hook_stm ttl items bytes partitions per_partition record_total partition_bytes byte_total)"
| reach_call: "stm_reachable s \<Longrightarrow> run_call c s = (r, s') \<Longrightarrow> stm_reachable s'"

section \<open>What every call does\<close>

lemma admits_ret: "andthen m (\<lambda>x. ret (f x)) s = (r, s') \<Longrightarrow> (\<And>r. m s = (r, s') \<Longrightarrow> admits key now s r s') \<Longrightarrow> admits key now s r s'"
  by (elim andthen_elim) (fastforce simp: admits_def ret_def)+

lemma oversized_call: "partition_key (call_partition c) = Inl e \<Longrightarrow> run_call c s = (Inl e, s)"
  by (cases c) (simp_all add: stm_update_def stm_rebuild_def stm_reconcile_def stm_read_def andthen_def lift_res_def)

lemma stm_reconcile_input:
  "partition_key p = Inr key \<Longrightarrow> \<not> observation_ok v aref \<Longrightarrow> stm_reconcile t u p v aref s = (Inl REBUILD_INPUT_LIMIT, mark_stale key s)"
  "partition_key p = Inr key \<Longrightarrow> observation_ok v aref \<Longrightarrow> map_of (hs_partitions s) key = None \<Longrightarrow>
     stm_reconcile t u p v aref s = (Inr absent_result, s)"
  by (simp_all add: stm_reconcile_def andthen_def lift_res_def prior_of_def input_failure_def ret_def)

lemma call_effect:
  assumes ok: "stm_ok s" and key: "partition_key (call_partition c) = Inr key" and r: "run_call c s = (r, s')"
  shows "(\<exists>x. r = Inr x \<and> s' = s) \<or> admits key (call_time c) s r s'"
proof (cases c)
  case (CallUpdate t p d w)
  have p: "partition_key p = Inr key" using key CallUpdate by simp
  have "admits key t s a s'" if "stm_update t p d w s = (a, s')" for a
    using that update_admits[OF ok, of t key d w a s'] p
    by (simp add: stm_update_def andthen_def lift_res_def prior_of_def)
  then show ?thesis using r CallUpdate admits_ret[of "stm_update t p d w" "\<lambda>_. None" s r s' key t] by simp
next
  case (CallRebuild t p hooks refs)
  then show ?thesis using r key rebuild_admits[of p key t hooks refs s _ s']
      admits_ret[of "stm_rebuild t p hooks refs" Some s r s' key t] by simp
next
  case (CallReconcile t u p v aref)
  have p: "partition_key p = Inr key" using key CallReconcile by simp
  show ?thesis
  proof (cases "observation_ok v aref \<and> map_of (hs_partitions s) key \<noteq> None")
    case True
    then show ?thesis using r CallReconcile reconcile_admits[OF p ok, of _ v aref t u]
        admits_ret[of "stm_reconcile t u p v aref" Some s r s' key t] by auto
  next
    case False
    then show ?thesis using r CallReconcile stm_reconcile_input[OF p, of v aref]
      by (cases "observation_ok v aref") (auto simp: andthen_def ret_def admits_def REBUILD_INPUT_LIMIT_def)
  qed
next
  case (CallRead t p)
  then show ?thesis using r key by (auto simp: stm_read_Inr andthen_def ret_def)
qed

lemma partition_key_bytes: "partition_key p = Inr key \<Longrightarrow> key_bytes key \<le> 1024"
  by (auto simp: partition_key_def Let_def split: if_splits)

lemma call_ok:
  assumes ok: "stm_ok s" and r: "run_call c s = (r, s')"
  shows "stm_ok s'"
proof (cases "partition_key (call_partition c)")
  case (Inl e)
  then show ?thesis using oversized_call[OF Inl, of s] r ok by simp
next
  case (Inr key)
  from call_effect[OF ok Inr r] show ?thesis
    using ok mark_stale_ok[OF ok] admitted_ok[OF ok _ _ _ partition_key_bytes[OF Inr]]
    by (auto simp: admits_def split: sum.splits)
qed

lemma reachable_ok: "stm_reachable s \<Longrightarrow> stm_ok s"
  by (induction rule: stm_reachable.induct) (auto intro: new_hook_stm_ok call_ok)

end
