(* ===== verification/Stm_Guarantees.thy ===== *)
theory Stm_Guarantees
  imports Stm_Properties
begin

text \<open>
  The guarantees of the short-term memory over every history of calls: bounds with exact
  accounting, atomic rejection, least eviction, and what a rebuild gives back.
\<close>

text \<open>Concrete identities for the witnesses.\<close>

abbreviation demo_partition :: "string \<Rightarrow> StmPartition" where
  "demo_partition project \<equiv> \<lparr>sp_project_ref = project, sp_device_id = ''d'', sp_task_id = None, sp_work_order = Some ''w'', sp_lane_id = None\<rparr>"

abbreviation demo_stm :: HookStm where
  "demo_stm \<equiv> new_hook_stm 1800 10 1000 1 2 10 4000 8000"

abbreviation demo_after :: "string \<Rightarrow> real \<Rightarrow> HookStm" where
  "demo_after project t \<equiv> \<lparr>hs_ttl_seconds = 1800, hs_rebuild_item_limit = 10, hs_rebuild_byte_limit = 1000,
     hs_max_partitions = 1, hs_records_per_partition = 2, hs_records_total = 10, hs_bytes_per_partition = 4000,
     hs_bytes_total = 8000, hs_partitions = [((project, ''w'', ''d'', ''UNBOUND_LANE''),
       \<lparr>ps_refreshed_at = t, ps_records = [([(''a'', SInt 1)], 7)], ps_authority_refs = [''r''], ps_rebuild_required = False,
        ps_accounted_bytes = 288, ps_derived_degraded = False, ps_reconciliation_ref = None\<rparr>)]\<rparr>"

abbreviation demo_call :: "string \<Rightarrow> real \<Rightarrow> stm_call" where
  "demo_call project t \<equiv> CallRebuild t (demo_partition project) [([(''a'', SInt 1)], SInt 7)] [''r'']"

lemma demo_first: "run_call (demo_call ''p'' 0) demo_stm =
    (Inr (Some \<lparr>rr_state = FRESH, rr_rebuild_required = False, rr_records = [([(''a'', SInt 1)], 7)],
      rr_derived_degraded = False, rr_authority_ref = None\<rparr>), demo_after ''p'' 0)"
  by code_simp

lemma demo_second: "run_call (demo_call ''q'' 5) (demo_after ''p'' 0) =
    (Inr (Some \<lparr>rr_state = FRESH, rr_rebuild_required = False, rr_records = [([(''a'', SInt 1)], 7)],
      rr_derived_degraded = False, rr_authority_ref = None\<rparr>), demo_after ''q'' 5)"
  by code_simp

lemma demo_rejected: "fst (run_call (CallUpdate 9 (demo_partition ''p'') [] (SInt 1)) (demo_after ''p'' 0)) = Inl CAPACITY_EXCEEDED"
  by code_simp

lemma demo_stm_reachable: "stm_reachable (demo_after ''p'' 0)"
  using reach_call[OF reach_new demo_first] .

text \<open>
  C18: In every reachable memory the partitions, the retained units and the accounted bytes stay
  within the configured limits, which never pass 256, 4096 and 8 MiB; every partition stays
  within its own limits; identities are distinct and short; and the accounted bytes of a
  partition are exactly those of its identity and of the canonical texts it retains.
\<close>

theorem stm_bounded:
  assumes "stm_reachable s"
  shows "partition_count s \<le> hs_max_partitions s \<and> hs_max_partitions s \<le> 256
    \<and> record_count s \<le> hs_records_total s \<and> hs_records_total s \<le> 4096
    \<and> accounted_bytes s \<le> hs_bytes_total s \<and> hs_bytes_total s \<le> 8388608
    \<and> distinct (map fst (hs_partitions s))
    \<and> (\<forall>(key, st) \<in> set (hs_partitions s). key_bytes key \<le> 1024 \<and> ps_accounted_bytes st = state_bytes key st
        \<and> unit_count st \<le> hs_records_per_partition s \<and> ps_accounted_bytes st \<le> hs_bytes_per_partition s)"
proof -
  note ok = reachable_ok[OF assms, unfolded stm_ok_def]
  have "\<forall>(key, st) \<in> set (hs_partitions s). key_bytes key \<le> 1024 \<and> ps_accounted_bytes st = state_bytes key st
        \<and> unit_count st \<le> hs_records_per_partition s \<and> ps_accounted_bytes st \<le> hs_bytes_per_partition s"
    using ok by (fastforce simp: exact_state_def within_partition_def)
  then show ?thesis using ok by (simp add: hard_limits_def fits_def)
qed

theorem stm_bounded_witness: "accounted_bytes (demo_after ''p'' 0) = 288 \<and> accounted_bytes (demo_after ''p'' 0) \<le> 8000
    \<and> state_bytes (''p'', ''w'', ''d'', ''UNBOUND_LANE'') (snd (hd (hs_partitions (demo_after ''p'' 0)))) = 288"
  using stm_bounded[OF demo_stm_reachable] by (simp add: accounted_bytes_def)



text \<open>
  C19: A call that changes the memory replaces one partition, refreshed at its time. The
  replacement of a retained partition evicts nothing. A new partition evicts the shortest prefix
  of the eviction order (stale and expired ones first, then by refresh time and identity) that
  makes room for it, and keeps all others as they were.
\<close>

theorem stm_eviction_least:
  assumes "stm_reachable s" and "run_call c s = (Inr x, s')" and "partition_key (call_partition c) = Inr key" and "s' \<noteq> s"
  shows "\<exists>st. ps_refreshed_at st = call_time c \<and> (
    if key \<in> fst ` set (hs_partitions s) then s' = s\<lparr>hs_partitions := AList.update key st (hs_partitions s)\<rparr>
    else \<exists>victims rest. eviction_order s (call_time c) = victims @ rest
      \<and> s' = s\<lparr>hs_partitions := filter (\<lambda>kv. fst kv \<notin> fst ` set victims) (hs_partitions s) @ [(key, st)]\<rparr>
      \<and> room_without s st victims \<and> (\<forall>n < length victims. \<not> room_without s st (take n victims)))"
proof -
  from call_effect[OF reachable_ok[OF assms(1)] assms(3,2)] assms(4)
  obtain st where st: "ps_refreshed_at st = call_time c" and adm: "admitted key st s s'" by (auto simp: admits_def)
  have "(case map_of (hs_partitions s) key of None \<Rightarrow> key \<notin> fst ` set (hs_partitions s) | Some _ \<Rightarrow> key \<in> fst ` set (hs_partitions s))"
    using map_of_mem_iff[of "hs_partitions s" key] by (auto split: option.splits)
  then show ?thesis using st adm by (intro exI[of _ st]) (auto simp: admitted_def split: option.splits)
qed

theorem stm_eviction_least_witness:
  "\<exists>victims st. eviction_order (demo_after ''p'' 0) 5 = victims @ drop (length victims) (hs_partitions (demo_after ''p'' 0))
    \<and> length victims = 1 \<and> \<not> room_without (demo_after ''p'' 0) st []"
proof -
  let ?p = "demo_after ''p'' 0"
  have key: "partition_key (call_partition (demo_call ''q'' 5)) = Inr (''q'', ''w'', ''d'', ''UNBOUND_LANE'')" by code_simp
  from stm_eviction_least[OF demo_stm_reachable demo_second key] obtain st victims rest where
    v: "eviction_order ?p 5 = victims @ rest" "room_without ?p st victims"
      "\<And>n. n < length victims \<Longrightarrow> \<not> room_without ?p st (take n victims)" by auto
  have order: "eviction_order ?p 5 = hs_partitions ?p" by (simp add: eviction_order_def)
  have "\<not> room_without ?p st []" by (simp add: room_without_def fits_def partition_count_def)
  then have "victims \<noteq> []" using v(2) by auto
  then have "length victims = 1" using arg_cong[OF v(1), of length] order by (cases victims) auto
  then show ?thesis using v(1,3) order by (intro exI[of _ victims] exI[of _ st]) (auto simp: append_eq_conv_conj)
qed

lemma admitted_lookup:
  assumes "admitted key st s s'"
  shows "map_of (hs_partitions s') key = Some st \<and> hs_ttl_seconds s' = hs_ttl_seconds s"
proof (cases "map_of (hs_partitions s) key")
  case None
  from assms[unfolded admitted_def None option.case] obtain victims :: "(PartitionKey \<times> PartitionState) list" where s': "s' = s\<lparr>hs_partitions := filter (\<lambda>kv. fst kv \<notin> fst ` set victims) (hs_partitions s) @ [(key, st)]\<rparr>"
    by blast
  have "map_of (filter (\<lambda>kv. fst kv \<notin> fst ` set victims) (hs_partitions s)) key = None"
    using None by (auto simp: map_of_eq_None_iff)
  then show ?thesis by (simp add: s' map_add_def)
qed (use assms in \<open>auto simp: admitted_def\<close>)

lemma marking_then:
  assumes "marking key m Q" and "andthen m k s = (Inr y, s')"
  obtains x where "Q x" "k x s = (Inr y, s')"
  using assms(2)
proof (elim andthen_elim)
  fix x s1 assume m: "m s = (Inr x, s1)" "k x s1 = (Inr y, s')"
  then have "s1 = s" "Q x" using assms(1) unfolding marking_def by fastforce+
  then show thesis using that m by blast
qed simp

lemma rebuild_result:
  assumes key: "partition_key p = Inr key" and r: "stm_rebuild now p hooks refs s = (Inr res, s')"
  shows "\<exists>z. admitted key \<lparr>ps_refreshed_at = now, ps_records = map retained hooks, ps_authority_refs = refs,
      ps_rebuild_required = False, ps_accounted_bytes = z, ps_derived_degraded = False, ps_reconciliation_ref = None\<rparr> s s'
    \<and> rr_records res = map retained hooks \<and> list_all (\<lambda>h. \<exists>n. wire_length (snd h) = Some n) hooks"
proof -
  let ?st = "\<lambda>pairs z. \<lparr>ps_refreshed_at = now, ps_records = pairs, ps_authority_refs = refs,
      ps_rebuild_required = False, ps_accounted_bytes = z, ps_derived_degraded = False, ps_reconciliation_ref = None\<rparr>"
  let ?admit = "\<lambda>pairs z. andthen (admit key (?st pairs z)) (\<lambda>_. ret \<lparr>rr_state = FRESH, rr_rebuild_required = False,
      rr_records = pairs, rr_derived_degraded = False, rr_authority_ref = None\<rparr>)"
  from r key have "andthen (check_input key hooks refs) (\<lambda>_. andthen (own_rebuild key hooks refs) (\<lambda>(pairs, z). ?admit pairs z)) s = (Inr res, s')"
    unfolding stm_rebuild_def andthen_def[of "lift_res _"] by (simp add: lift_res_def)
  then obtain wires: "list_all (\<lambda>h. \<exists>n. wire_length (snd h) = Some n) hooks"
    and "andthen (own_rebuild key hooks refs) (\<lambda>(pairs, z). ?admit pairs z) s = (Inr res, s')"
    by (rule marking_then[OF marking_check_input])
  from this(2) obtain pairs z where pairs: "pairs = map retained hooks" and "?admit pairs z s = (Inr res, s')"
    by (rule marking_then[OF marking_own_rebuild[OF wires]]) (auto split: prod.splits)
  from this(2) have "admitted key (?st pairs z) s s'" "rr_records res = pairs"
    using admit_cases[of key "?st pairs z" s] by (auto elim!: andthen_elim simp: ret_def)
  then show ?thesis using wires unfolding pairs by blast
qed

text \<open>
  C34: What a rebuild was given is what it returns and what a later read returns, each record with
  the same canonical text: fresh until the time to live (between 300 and 86400 seconds) has
  passed since the rebuild, stale from then on. Reading changes nothing.
\<close>

theorem stm_rebuild_read:
  assumes "stm_reachable s" and "stm_rebuild now p hooks refs s = (Inr res, s')"
  shows "stm_read later p s' = (Inr \<lparr>rr_state = (if later - now < hs_ttl_seconds s then FRESH else STALE),
      rr_rebuild_required = (\<not> later - now < hs_ttl_seconds s), rr_records = rr_records res,
      rr_derived_degraded = False, rr_authority_ref = None\<rparr>, s')
    \<and> map (\<lambda>pair. stm_json (pair_value pair)) (rr_records res) = map (\<lambda>h. stm_json (SList [SDict (fst h), snd h])) hooks
    \<and> 300 \<le> hs_ttl_seconds s \<and> hs_ttl_seconds s \<le> 86400"
proof -
  obtain key where key: "partition_key p = Inr key"
    using assms(2) by (cases "partition_key p") (auto simp: stm_rebuild_def andthen_def lift_res_def)
  from rebuild_result[OF key assms(2)] obtain z where
    adm: "admitted key \<lparr>ps_refreshed_at = now, ps_records = map retained hooks, ps_authority_refs = refs,
      ps_rebuild_required = False, ps_accounted_bytes = z, ps_derived_degraded = False, ps_reconciliation_ref = None\<rparr> s s'"
    and res: "rr_records res = map retained hooks" and wires: "list_all (\<lambda>h. \<exists>n. wire_length (snd h) = Some n) hooks" by blast
  have "stm_json (pair_value (retained h)) = stm_json (SList [SDict (fst h), snd h])" if h: "h \<in> set hooks" for h
  proof -
    obtain n where n: "snd h = SInt n" using wires h by (auto simp: list_all_iff dest!: bspec wire_length_Some)
    show ?thesis unfolding retained_def n pair_value_reloaded stm_json_reloaded ..
  qed
  then have texts: "map (\<lambda>pair. stm_json (pair_value pair)) (map retained hooks) = map (\<lambda>h. stm_json (SList [SDict (fst h), snd h])) hooks"
    by (simp del: stm_json.simps)
  have "hard_limits s" using reachable_ok[OF assms(1)] by (simp add: stm_ok_def)
  then show ?thesis using texts admitted_lookup[OF adm]
    by (simp add: stm_read_Inr[OF key] read_state_def expired_def res hard_limits_def not_less del: stm_json.simps)
qed

theorem stm_rebuild_read_witness:
  "stm_read 1799 (demo_partition ''p'') (demo_after ''p'' 0) = (Inr \<lparr>rr_state = FRESH, rr_rebuild_required = False,
      rr_records = [([(''a'', SInt 1)], 7)], rr_derived_degraded = False, rr_authority_ref = None\<rparr>, demo_after ''p'' 0)
   \<and> fst (stm_read 1800 (demo_partition ''p'') (demo_after ''p'' 0)) = Inr \<lparr>rr_state = STALE, rr_rebuild_required = True,
      rr_records = [([(''a'', SInt 1)], 7)], rr_derived_degraded = False, rr_authority_ref = None\<rparr>"
proof -
  have "stm_rebuild 0 (demo_partition ''p'') [([(''a'', SInt 1)], SInt 7)] [''r''] demo_stm =
    (Inr \<lparr>rr_state = FRESH, rr_rebuild_required = False, rr_records = [([(''a'', SInt 1)], 7)],
      rr_derived_degraded = False, rr_authority_ref = None\<rparr>, demo_after ''p'' 0)"
    by code_simp
  moreover have "hs_ttl_seconds demo_stm = 1800" by (simp add: new_hook_stm_def clamp_def)
  ultimately show ?thesis
    using stm_rebuild_read[OF reach_new, of 0 "demo_partition ''p''" "[([(''a'', SInt 1)], SInt 7)]" "[''r'']"] by simp
qed

text \<open>
  An update alone makes a partition readable as fresh: in an empty memory, and over records whose
  time to live has passed, although no rebuild took place.
\<close>

lemma update_reads_fresh:
  "map_option rr_state (case fst (stm_read 0 (demo_partition ''p'') (snd (stm_update 0 (demo_partition ''p'') [] (SInt 1) demo_stm))) of
     Inl _ \<Rightarrow> None | Inr res \<Rightarrow> Some res) = Some FRESH"
  by code_simp

lemma update_revives_expired:
  "(let before = demo_after ''p'' 0\<lparr>hs_records_per_partition := 5\<rparr>;
        state_at = (\<lambda>s. case fst (stm_read 5000 (demo_partition ''p'') s) of Inl _ \<Rightarrow> None | Inr res \<Rightarrow> Some (rr_state res))
    in (state_at before, state_at (snd (stm_update 5000 (demo_partition ''p'') [] (SInt 1) before)))) = (Some STALE, Some FRESH)"
  by code_simp

end
