(* ===== verification/Spec2Isabelle.thy ===== *)
theory Spec2Isabelle
  imports Graph_Builder Barriers Dispatch_Identity Lifecycle_Bridge Lifecycle_Coordinator Lease_Broker
    Dex_Guarantees Execution_Dedup Transport_Recovery Elastic_Wip Stm_Guarantees
begin

text \<open>
  \<^bold>\<open>The A-Sunday Conductor control plane, verified.\<close>

  The conductor runs tasks of a dependency graph on a pool of worker instances. This
  development models the part of \<^verbatim>\<open>src/src/a_conductor\<close> that decides: what may run, on which
  worker, who owns which job, worker and worktree, and what is durably true after a crash.
  Every definition is a translation of the Python named in the text block of its theory; a
  method that changes state returns its result or exception together with the state it leaves.

  \<^bold>\<open>The parts and how they interact.\<close>
  A graph is assembled and checked for cycles (\<^verbatim>\<open>graph/domain.py\<close>, \<^verbatim>\<open>graph/graph.py\<close>,
  \<^verbatim>\<open>graph/dag.py\<close>). The ready set (\<^verbatim>\<open>graph/ready.py\<close>) lists the nodes whose predecessors ended
  and whose write sets (\<^verbatim>\<open>graph/analyze.py\<close>) meet no running one; the scheduler
  (\<^verbatim>\<open>graph/scheduler.py\<close>) binds ready nodes to workers; the dispatcher (\<^verbatim>\<open>graph/dispatch.py\<close>)
  turns a selected node into a durable job through the facade \<^verbatim>\<open>job_control.py\<close>, which drives
  the store \<^verbatim>\<open>job_store.py\<close> and the coordinator \<^verbatim>\<open>job_execution.py\<close> over the state policy
  \<^verbatim>\<open>job_state.py\<close>. The bridge \<^verbatim>\<open>graph/lifecycle_bridge.py\<close> projects the durable jobs back onto
  the graph, which closes the loop (the theorem of this file). Beside the loop, worker
  instances are started and stopped by checkpointed transactions (\<^verbatim>\<open>lifecycle*.py\<close>,
  \<^verbatim>\<open>runtime_safety.py\<close>), their assignment to projects is kept by \<^verbatim>\<open>registry.py\<close>, and their
  exclusive use by \<^verbatim>\<open>worker_lease.py\<close>. Each launch leaves an execution record
  (\<^verbatim>\<open>execution_store.py\<close>), which the duplicate guard (\<^verbatim>\<open>execution_deduplication.py\<close>), the transport
  service (\<^verbatim>\<open>transport_recovery.py\<close>) and the dispatch wire of the semantic executor
  (\<^verbatim>\<open>dex_wire.py\<close>, over \<^verbatim>\<open>dex_identity.py\<close>, \<^verbatim>\<open>dex_admission.py\<close> and \<^verbatim>\<open>dex_evidence.py\<close>)
  consult before anything is started twice. \<^verbatim>\<open>elastic_wip_policy.py\<close> bounds the work in progress,
  and \<^verbatim>\<open>hook_stm.py\<close> caches derived observations, which never decide.

  \<^bold>\<open>Theories.\<close>

  \<^item> \<open>Conductor_Prelude\<close>: results of fallible calls, \<^verbatim>\<open>str.strip\<close>, insertion-ordered dictionaries
    and the generic lemmas; \<open>Core_Domain\<close>: the exceptions and value objects of \<^verbatim>\<open>domain.py\<close>;
    \<open>Action_Monad\<close>: stateful calls that may raise, with their triples.
  \<^item> \<open>Task_Graph\<close>, \<open>Kahn_Loop\<close>, \<open>Graph_Builder\<close>, \<open>Dag_Engine\<close>: graphs, Kahn's algorithm in its two
    forms, the cycle report. Shown: \<^verbatim>\<open>build_graph\<close> accepts exactly the acyclic graphs, a
    refused edge changes nothing, the order and the levels are correct.
  \<^item> \<open>Glob_Overlap\<close>, \<open>Ready_Set\<close>, \<open>Barriers\<close>, \<open>Scheduler\<close>: write-set conflicts are decided exactly
    (brackets apart), the ready set is exact and never empty on an idle unfinished graph, a
    schedule is sound, conflict-free, within capacity and independent of enumeration order.
    Interface: locale \<open>overlap_seam\<close>.
  \<^item> \<open>Job_State\<close>, \<open>Job_Store\<close>, \<open>Job_Execution\<close>, \<open>Job_Control\<close>: the job state machine as a step
    relation, the SQLite store as rows with rollback, the coordinator over the locale
    \<open>durable_job_store\<close> (interpreted on the SQLite store). Shown: a gap-free event log, the
    compare-and-swap on versions, at most one backend call per attempt within the budget, no
    outcome lost.
  \<^item> \<open>Graph_Dispatch\<close>, \<open>Dispatch_Identity\<close>, \<open>Lifecycle_Bridge\<close>: dispatch runs an operation at most
    once and is idempotent, over the locale \<open>graph_dispatch_port\<close> (interpreted on the facade);
    a job id determines its key unless SHA-256 collides.
  \<^item> \<open>Runtime_Safety\<close>, \<open>Lifecycle_Policy\<close>, \<open>Lifecycle_Executor\<close>, \<open>Lifecycle_Journal\<close>,
    \<open>Lifecycle_Recovery\<close>, \<open>Lifecycle_Coordinator\<close>: from observed facts to a plan, its checkpointed
    execution over the locale \<open>checkpoint_journal\<close> (interpreted on the SQLite journal), and what
    a crash leaves: the resume plan is exactly the rest of the approved plan.
  \<^item> \<open>Windows_Path\<close>, \<open>Registry\<close>: worktree keys by \<^verbatim>\<open>ntpath\<close> normalisation, and the registry in
    which no two mutating assignments share a worktree.
  \<^item> \<open>Worker_Lease\<close>, \<open>Lease_Store\<close>, \<open>Lease_Provisioning\<close>, \<open>Lease_Invariant\<close>, \<open>Lease_Broker\<close>: the lease
    values, the two SQLite tables with every operation, the invariant all of them keep (one
    active lease per worker and owner, disjoint write scopes at a hotspot, the handoff fence,
    the capacity of extra workers), and the broker's ordered search over the locale
    \<open>lease_provider\<close>, interpreted on the SQLite store.
  \<^item> \<open>Json_Text\<close>: the text \<^verbatim>\<open>json.dumps\<close> writes, with and without ASCII escapes, and that it
    determines the value (locales \<open>json_escaping\<close> and \<open>json_printer\<close>, interpreted on both forms).
  \<^item> \<open>Execution_Record\<close>, \<open>Execution_Store\<close>, \<open>Execution_Ledger\<close>, \<open>Execution_Invariant\<close>,
    \<open>Execution_Properties\<close>: execution records with their constructor checks, the SQLite tables of
    records, events, receipts, admission decisions and dispatch fences with every operation, and
    what every operation keeps: the event log is the gap-free history of its record, decisions
    and receipts are append-only, a fence is never removed.
  \<^item> \<open>Dex_Identity\<close>, \<open>Dex_Admission\<close>, \<open>Dex_Evidence\<close>, \<open>Dex_Wire\<close>, \<open>Dex_Properties\<close>,
    \<open>Dex_Guarantees\<close>: one attempt from the admission decision to the receipt, as actions over the
    execution store, the process memory and the list of dispatched identities. Failing store
    calls and the death of the process are part of the state, so that a history is any sequence
    of runs, deaths, restarts and operations of other processes. Shown: at most one dispatch per
    identity, frozen decisions, a receipt behind every completed attempt.
  \<^item> \<open>Execution_Dedup\<close>, \<open>Transport_Recovery\<close>: the clients of the execution store: the guard
    against a second launch of the same work, and the transport state, which only the owner of
    the job may change.
  \<^item> \<open>Elastic_Wip\<close>: the pure policy that keeps active and claimed work within its limits.
  \<^item> \<open>Stm_Values\<close>, \<open>Hook_Stm\<close>, \<open>Stm_Properties\<close>, \<open>Stm_Guarantees\<close>: the bounded cache of hook
    projections (\<^verbatim>\<open>hook_stm.py\<close>). Shown over every history of calls: counts and bytes within
    the limits with exact accounting, atomic rejection, least eviction, and that a rebuild reads
    back until its time to live has passed; the budgeted shape check of an observation is exact.
  \<^item> This file: the closed loop from the durable store to the schedule.

  \<^bold>\<open>State.\<close> A dictionary is an association list in insertion order, a SQLite table a list of
  rows after \<^verbatim>\<open>initialize\<close>; a failing transaction leaves the database it started from. What
  lies outside (the execution backend, lifecycle backends, id factories, clocks, SHA-256,
  rendering and parsing of times, the reading of JSON, the transport of the dispatch wire,
  failing SQL statements) is a parameter of the definitions that use it.

  \<^bold>\<open>Bounds.\<close> There is no fuel: every loop is structural recursion or a function with a
  termination proof (the Kahn loops by the indegree they consume, the glob search by the two
  positions, the cycle walks by the unvisited nodes). Integers are the unbounded ones of Python,
  the seconds of the cache are reals. Characters are the code points below 256.

  \<^bold>\<open>Not modelled.\<close> User interfaces and HTTP services, process and network adapters, files of
  instances and display projections consist of I/O. The orchestration, relay and provider
  modules wire the modelled parts to external programs and model services. Schema creation and
  migration, connection handling, and the resolution of a path by the operating system (git
  worktrees, physical roots) are parameters or left out.
\<close>

section \<open>From the durable store to the schedule\<close>

text \<open>
  C2: the control loop only starts what is due. Project the durable jobs of a graph run
  onto the graph, compute the ready set from the projection and schedule it: every
  selected node has a job that is absent or not yet claimed, every predecessor's
  job is durably complete or cancelled, and no node whose job is in flight has an
  overlapping write set. Reading the store changes no job.
\<close>

theorem scheduled_node_is_due:
  assumes "wf_graph g" and "store_reachable db"
    and "project_graph_node_states sha get_job g gid rid db = (Inr d, db')"
    and "schedule_once g (compute_ready_set g (map_of d)) ws pol running elig = Inr plan"
    and "a \<in> set (pl_selected plan)"
  shows "db_job db' = db_job db \<and> (\<exists>n. node g (sa_node_id a) = Some n
    \<and> (\<forall>j. run_job sha db gid rid (sa_node_id a) = Some j \<longrightarrow> js_state j \<in> {NEW, PLANNING, READY})
    \<and> (\<forall>u. (u, sa_node_id a) \<in> edge_rel g \<longrightarrow>
         (\<exists>j. run_job sha db gid rid u = Some j \<and> js_state j \<in> {COMPLETE, CANCELLED}))
    \<and> (\<forall>m j. m \<in> set (nodes g) \<and> run_job sha db gid rid (tn_id m) = Some j
         \<and> js_state j \<in> {CLAIMED, GATING, EXECUTING, VERIFYING, REVIEW_PENDING, CHANGES_REQUIRED, REPAIRING}
         \<longrightarrow> \<not> write_sets_overlap (tn_write_set n) (tn_write_set m)))"
proof -
  have inv: "db_inv db" by (rule store_reachable_inv[OF assms(2)])
  note same = projection_exact(1)[OF inv assms(1,3)] and st = projection_exact(2)[OF inv assms(1,3)]
  from schedule_selected[OF assms(1,4,5)] obtain n where
    ready: "sa_node_id a \<in> set (rs_ready_ids (compute_ready_set g (map_of d)))"
    and n: "node g (sa_node_id a) = Some n" and id: "tn_id n = sa_node_id a" by metis
  from ready n have nr: "node_ready g (map_of d) n" unfolding ready_ids_iff[OF assms(1)] by simp
  have mem: "sa_node_id a \<in> tn_id ` set (nodes g)" using n id wf_node_Some_iff[OF assms(1)] by force
  have pred: "u \<in> tn_id ` set (nodes g)" if "(u, sa_node_id a) \<in> edge_rel g" for u
    using that assms(1) wf_nodes_id[OF assms(1)] unfolding edge_rel_iff wf_graph_def
    by (metis (no_types, lifting) image_set)
  show ?thesis
  proof (intro conjI exI[of _ n] allI impI; (elim conjE)?)
    show "db_job db' = db_job db" by (rule same)
    show "node g (sa_node_id a) = Some n" by (rule n)
  next
    fix j
    assume "run_job sha db gid rid (sa_node_id a) = Some j"
    then show "js_state j \<in> {NEW, PLANNING, READY}"
      using nr st[OF mem] run_status_cases(2) unfolding node_ready_def id by metis
  next
    fix u
    assume u: "(u, sa_node_id a) \<in> edge_rel g"
    then show "\<exists>j. run_job sha db gid rid u = Some j \<and> js_state j \<in> {COMPLETE, CANCELLED}"
      using nr st[OF pred[OF u]] run_status_cases(1) unfolding node_ready_def id by metis
  next
    fix m j
    assume m: "m \<in> set (nodes g)" and j: "run_job sha db gid rid (tn_id m) = Some j"
      "js_state j \<in> {CLAIMED, GATING, EXECUTING, VERIFYING, REVIEW_PENDING, CHANGES_REQUIRED, REPAIRING}"
    then have "state_of (map_of d) (tn_id m) = DOING"
      using st[of "tn_id m"] run_status_cases(3)[of sha db gid rid "tn_id m"] by auto
    then show "\<not> write_sets_overlap (tn_write_set n) (tn_write_set m)"
      using nr m unfolding node_ready_def by blast
  qed
qed

text \<open>A run of a two-node graph whose first node was cancelled: the second one is scheduled.\<close>

definition run_job_id :: "string \<Rightarrow> string" where
  "run_job_id i = key_job_id id \<lparr>gk_graph_id = ''g'', gk_graph_run_id = ''r'', gk_node_id = i\<rparr>"

definition run_db :: JobDb where
  "run_db = snd (transition sample_ids (run_job_id ''a'') CANCELLED 1 None None None
     (snd (create_job sample_ids (run_job_id ''a'') ''wo'' ''p'' 1 empty_db)))"

definition run_states :: "TaskNodeStatus dict" where
  "run_states = [(''a'', SKIPPED), (''b'', TODO)]"

definition run_plan :: SchedulePlan where
  "run_plan = \<lparr>pl_selected = [\<lparr>sa_node_id = ''b'', sa_worker_id = ''w1'', sa_priority = 0\<rparr>], pl_blocked = [],
     pl_capacity_evidence = ''capacity=1/1 workers_ready=3/3 selected=1 blocked=0''\<rparr>"

theorem scheduled_node_is_due_witness:
  "\<exists>j. run_job id run_db ''g'' ''r'' ''a'' = Some j \<and> js_state j \<in> {COMPLETE, CANCELLED}"
proof -
  have reach: "store_reachable run_db"
    unfolding run_db_def by (intro store_reachable_ops empty_db_reachable)
  have "fst (project_graph_node_states id get_job pair_graph ''g'' ''r'' run_db) = Inr run_states" by code_simp
  then have proj: "project_graph_node_states id get_job pair_graph ''g'' ''r'' run_db
     = (Inr run_states, snd (project_graph_node_states id get_job pair_graph ''g'' ''r'' run_db))"
    by (simp add: prod_eq_iff)
  have sched: "schedule_once pair_graph (compute_ready_set pair_graph (map_of run_states)) sched_workers
     \<lparr>sp_max_parallel = 1\<rparr> [] Map.empty = Inr run_plan" by code_simp
  have sel: "\<lparr>sa_node_id = ''b'', sa_worker_id = ''w1'', sa_priority = 0\<rparr> \<in> set (pl_selected run_plan)"
    by (simp add: run_plan_def)
  have "(''a'', ''b'') \<in> edge_rel pair_graph" by (simp add: edge_rel_iff pair_graph_def)
  then show ?thesis using scheduled_node_is_due[OF pair_graph_wf reach proj sched sel] by auto
qed

end
